(* ===== verification/GoBase.thy ===== *)
theory GoBase
  imports Main "HOL-Library.Word"
begin

text \<open>
  The prelude of the development: what the Go language and its standard library
  give every component.

  \<^item> Errors. A Go \<^verbatim>\<open>error\<close> is a tree: a leaf is a package-level sentinel, an error made
    at the place where it is returned, or a value of some named type; an inner node
    wraps one error (\<^verbatim>\<open>Unwrap() error\<close>, e.g. \<^verbatim>\<open>fmt.Errorf\<close> with one \<^verbatim>\<open>%w\<close>) or
    several (\<^verbatim>\<open>Unwrap() []error\<close>, e.g. \<^verbatim>\<open>errors.Join\<close> or \<^verbatim>\<open>fmt.Errorf\<close> with several
    \<^verbatim>\<open>%w\<close>). A nil error is \<open>None\<close>. \<open>errors_is\<close>, \<open>errors_as\<close> and \<open>errors_unwrap\<close>
    are the functions of package \<^verbatim>\<open>errors\<close>.
  \<^item> Time. An instant is the number of nanoseconds since the Unix epoch and a
    duration a number of nanoseconds, both as \<open>int\<close>; \<open>wrap64\<close> writes out the
    wrap-around of \<^verbatim>\<open>int64\<close> arithmetic where it can matter.
  \<^item> Transition systems: the invariant rule for reachable states, stated once as a
    locale and interpreted by each component with a step relation.
  \<^item> Registries: a table by key that refuses a second entry, again as a locale.
\<close>

named_theorems err_simps \<open>rewriting errors.Is and errors.As over wrapped errors\<close>
named_theorems dur_simps \<open>the duration constants of package time\<close>

section \<open>Errors\<close>

datatype go_error =
    Sentinel string
  | Fresh string
  | Typed string string
  | WrapFmt string go_error
  | WrapTyped string string go_error
  | WrapMulti string string "go_error list"

text \<open>
  \<open>Sentinel n\<close> is the package-level variable \<open>n\<close> holding the result of
  \<^verbatim>\<open>errors.New\<close>; \<open>Fresh m\<close> is \<^verbatim>\<open>errors.New(m)\<close> evaluated at the return statement;
  \<open>Typed t i\<close> is the value \<open>i\<close> of the Go type \<open>t\<close>; \<open>WrapFmt m e\<close> is
  \<^verbatim>\<open>fmt.Errorf\<close> with one \<^verbatim>\<open>%w\<close> and the other text \<open>m\<close>; \<open>WrapTyped t i e\<close> is a value of
  type \<open>t\<close> whose \<^verbatim>\<open>Unwrap\<close> returns \<open>e\<close>; \<open>WrapMulti t m es\<close> is a value of type \<open>t\<close>
  whose \<^verbatim>\<open>Unwrap\<close> returns the list \<open>es\<close>.
\<close>

abbreviation errorf2 :: "string \<Rightarrow> go_error \<Rightarrow> go_error \<Rightarrow> go_error" where
  "errorf2 m e e' \<equiv> WrapMulti ''*fmt.wrapErrors'' m [e, e']"

abbreviation errors_join :: "go_error list \<Rightarrow> go_error" where
  "errors_join es \<equiv> WrapMulti ''*errors.joinError'' '''' es"

abbreviation Canceled :: go_error where
  "Canceled \<equiv> Sentinel ''context.Canceled''"

abbreviation DeadlineExceeded :: go_error where
  "DeadlineExceeded \<equiv> Typed ''context.deadlineExceededError'' ''context.DeadlineExceeded''"

fun is_leaf :: "go_error \<Rightarrow> bool" where
  "is_leaf (Sentinel n) = True"
| "is_leaf (Fresh m) = True"
| "is_leaf (Typed t i) = True"
| "is_leaf (WrapFmt m e) = False"
| "is_leaf (WrapTyped t i e) = False"
| "is_leaf (WrapMulti t m es) = False"

text \<open>\<^verbatim>\<open>errors.Is\<close>: the error or one of the errors it wraps is the target.\<close>

fun errors_is :: "go_error \<Rightarrow> go_error \<Rightarrow> bool" where
  "errors_is (Sentinel n) t = (Sentinel n = t)"
| "errors_is (Fresh m) t = (Fresh m = t)"
| "errors_is (Typed ty i) t = (Typed ty i = t)"
| "errors_is (WrapFmt m e) t = (WrapFmt m e = t \<or> errors_is e t)"
| "errors_is (WrapTyped ty i e) t = (WrapTyped ty i e = t \<or> errors_is e t)"
| "errors_is (WrapMulti ty m es) t = (WrapMulti ty m es = t \<or> list_ex (\<lambda>e. errors_is e t) es)"

text \<open>\<^verbatim>\<open>errors.As\<close>: the first error, outermost first and branches left to right, that
  the type test \<open>p\<close> accepts.\<close>

fun errors_as :: "(go_error \<Rightarrow> 'a option) \<Rightarrow> go_error \<Rightarrow> 'a option" where
  "errors_as p (Sentinel n) = p (Sentinel n)"
| "errors_as p (Fresh m) = p (Fresh m)"
| "errors_as p (Typed ty i) = p (Typed ty i)"
| "errors_as p (WrapFmt m e) =
     (case p (WrapFmt m e) of Some x \<Rightarrow> Some x | None \<Rightarrow> errors_as p e)"
| "errors_as p (WrapTyped ty i e) =
     (case p (WrapTyped ty i e) of Some x \<Rightarrow> Some x | None \<Rightarrow> errors_as p e)"
| "errors_as p (WrapMulti ty m es) =
     (case p (WrapMulti ty m es) of Some x \<Rightarrow> Some x
      | None \<Rightarrow> (case filter (\<lambda>r. r \<noteq> None) (map (errors_as p) es) of [] \<Rightarrow> None | r # _ \<Rightarrow> r))"

text \<open>\<^verbatim>\<open>errors.Unwrap\<close> sees only \<^verbatim>\<open>Unwrap() error\<close>, never a multi-error's branches.\<close>

fun errors_unwrap :: "go_error \<Rightarrow> go_error option" where
  "errors_unwrap (WrapFmt m e) = Some e"
| "errors_unwrap (WrapTyped t i e) = Some e"
| "errors_unwrap _ = None"

definition has_type :: "string \<Rightarrow> go_error \<Rightarrow> bool" where
  "has_type ty e =
     (errors_as (\<lambda>x. case x of Typed t i \<Rightarrow> if t = ty then Some () else None
                    | WrapTyped t i e' \<Rightarrow> if t = ty then Some () else None
                    | WrapMulti t m es \<Rightarrow> if t = ty then Some () else None
                    | _ \<Rightarrow> None) e \<noteq> None)"

text \<open>\<^verbatim>\<open>errors.Is(err, target)\<close> with a possibly nil \<^verbatim>\<open>err\<close>.\<close>

definition errors_is_opt :: "go_error option \<Rightarrow> go_error \<Rightarrow> bool" where
  "errors_is_opt oe t = (case oe of None \<Rightarrow> False | Some e \<Rightarrow> errors_is e t)"

section \<open>Time\<close>

type_synonym duration = int
type_synonym instant = int

definition nanosecond :: duration where [dur_simps]: "nanosecond = 1"
definition microsecond :: duration where [dur_simps]: "microsecond = 1000"
definition millisecond :: duration where [dur_simps]: "millisecond = 1000000"
definition second :: duration where [dur_simps]: "second = 1000000000"
definition minute :: duration where [dur_simps]: "minute = 60000000000"
definition hour :: duration where [dur_simps]: "hour = 3600000000000"

text \<open>The zero \<^verbatim>\<open>time.Time\<close>: 1 January of year 1, in nanoseconds before the Unix epoch.\<close>

definition zero_time :: instant where
  "zero_time = - 62135596800 * 1000000000"

text \<open>\<^verbatim>\<open>int64\<close> arithmetic: the two's complement value of a sum, difference or product.\<close>

definition wrap64 :: "int \<Rightarrow> int" where
  "wrap64 x = (x + 2 ^ 63) mod 2 ^ 64 - 2 ^ 63"

definition sat64 :: "int \<Rightarrow> int" where
  "sat64 x = max (- (2 ^ 63)) (min (2 ^ 63 - 1) x)"

text \<open>Go's \<^verbatim>\<open>/\<close> and \<^verbatim>\<open>%\<close> truncate towards zero.\<close>

definition quot :: "int \<Rightarrow> int \<Rightarrow> int" where
  "quot a b = sgn a * sgn b * (\<bar>a\<bar> div \<bar>b\<bar>)"

definition rem :: "int \<Rightarrow> int \<Rightarrow> int" where
  "rem a b = a - b * quot a b"

section \<open>Lemmas\<close>

lemma errors_is_leaf [simp]: "is_leaf e \<Longrightarrow> errors_is e t = (e = t)"
  by (cases e) auto

lemma errors_is_refl [simp]: "errors_is e e"
  by (cases e) auto

lemma wrap64_id: "- (2 ^ 63) \<le> x \<Longrightarrow> x < 2 ^ 63 \<Longrightarrow> wrap64 x = x"
  by (simp add: wrap64_def)

lemma wrap64_small: "\<bar>x\<bar> \<le> 9223372036854775807 \<Longrightarrow> wrap64 x = x"
  by (rule wrap64_id) (simp_all add: abs_le_iff)

lemma wrap64_range: "- (2 ^ 63) \<le> wrap64 x \<and> wrap64 x < 2 ^ 63"
proof -
  have "(x + 2 ^ 63) mod 2 ^ 64 < 2 ^ 64" and "0 \<le> (x + 2 ^ 63) mod (2 ^ 64 :: int)"
    by simp_all
  then show ?thesis by (simp add: wrap64_def)
qed

lemma quot_nonneg: "0 \<le> a \<Longrightarrow> 0 < b \<Longrightarrow> quot a b = a div b"
  by (cases "a = 0") (auto simp: quot_def)

lemma quot_abs_le:
  assumes "0 < b"
  shows "b * \<bar>quot a b\<bar> \<le> \<bar>a\<bar>"
proof -
  have "b * (\<bar>a\<bar> div b) \<le> \<bar>a\<bar>"
    using assms pos_mod_sign [of b "\<bar>a\<bar>"] by (simp add: minus_mod_eq_mult_div [symmetric])
  moreover have "\<bar>quot a b\<bar> \<le> \<bar>a\<bar> div b"
    using assms by (auto simp: quot_def abs_mult pos_imp_zdiv_nonneg_iff sgn_if)
  ultimately show ?thesis
    using assms by (meson mult_left_mono order_less_imp_le order_trans)
qed

section \<open>Early returns\<close>

text \<open>\<open>and_then\<close> goes on unless there was an error; \<open>first_error\<close> is a sequence of checks.\<close>

definition and_then :: "go_error + 'a \<Rightarrow> ('a \<Rightarrow> go_error + 'c) \<Rightarrow> go_error + 'c" where
  "and_then r f = (case r of Inl err \<Rightarrow> Inl err | Inr x \<Rightarrow> f x)"

fun first_error :: "go_error option list \<Rightarrow> go_error option" where
  "first_error [] = None"
| "first_error (Some err # rest) = Some err"
| "first_error (None # rest) = first_error rest"

lemma and_then_Inr [simp]: "and_then r f = Inr y \<longleftrightarrow> (\<exists>x. r = Inr x \<and> f x = Inr y)"
  by (cases r) (auto simp: and_then_def)

lemma and_then_Inl: "and_then r f = Inl e \<longleftrightarrow> r = Inl e \<or> (\<exists>x. r = Inr x \<and> f x = Inl e)"
  by (cases r) (auto simp: and_then_def)

lemma and_then_simps [simp]: "and_then (Inl err) f = Inl err" "and_then (Inr x) f = f x"
  by (auto simp: and_then_def)

lemma first_error_None: "first_error es = None \<longleftrightarrow> (\<forall>e \<in> set es. e = None)"
  by (induction es rule: first_error.induct) auto

lemma first_error_Some: "first_error es = Some e \<Longrightarrow> Some e \<in> set es"
  by (induction es rule: first_error.induct) auto

section \<open>Transition systems\<close>

text \<open>
  The contract between a component's step relation and the invariants proved of it:
  the invariant holds at the start and every step keeps it. Then it holds in every
  state a run reaches.
\<close>

locale transition_system =
  fixes start :: "'s \<Rightarrow> bool"
    and step :: "'s \<Rightarrow> 's \<Rightarrow> bool"
    and invariant :: "'s \<Rightarrow> bool"
  assumes start_inv: "start s \<Longrightarrow> invariant s"
    and step_inv: "invariant s \<Longrightarrow> step s t \<Longrightarrow> invariant t"
begin

lemma steps_inv: "step\<^sup>*\<^sup>* s t \<Longrightarrow> invariant s \<Longrightarrow> invariant t"
  by (induction rule: rtranclp_induct) (auto intro: step_inv)

lemma run_inv: "start s \<Longrightarrow> step\<^sup>*\<^sup>* s t \<Longrightarrow> invariant t"
  by (blast intro: steps_inv start_inv)

end

section \<open>Registries\<close>

text \<open>The contract of a table that refuses a second entry for a key and never changes the first.\<close>

locale keyed_registry =
  fixes look :: "'t \<Rightarrow> 'k \<Rightarrow> 'v option"
    and add :: "'k \<Rightarrow> 'v \<Rightarrow> 't \<Rightarrow> go_error + 't"
  assumes add_taken: "look t k = Some v \<Longrightarrow> \<exists>err. add k w t = Inl err"
    and add_look: "add k v t = Inr t' \<Longrightarrow> look t' = (look t)(k \<mapsto> v)"
begin

lemma add_keeps: "add k v t = Inr t' \<Longrightarrow> look t k' = Some w \<Longrightarrow> look t' k' = Some w"
  using add_taken [of t k' w v] add_look [of k v t t'] by (cases "k = k'") auto

lemma add_fresh: "add k v t = Inr t' \<Longrightarrow> look t k = None"
  using add_taken [of t k _ v] by (cases "look t k") auto

lemma adds_keep:
  "fold (\<lambda>(k, v) r. case r of Inl e \<Rightarrow> Inl e | Inr t \<Rightarrow> add k v t) es (Inr t) = Inr t' \<Longrightarrow>
   look t k = Some w \<Longrightarrow> look t' k = Some w"
proof (induction es arbitrary: t)
  case (Cons e es)
  obtain k' v where e: "e = (k', v)" by (cases e)
  have stuck: "fold (\<lambda>(k, v) r. case r of Inl e \<Rightarrow> Inl e | Inr t \<Rightarrow> add k v t) es (Inl x) = Inl x" for x es
    by (induction es) auto
  show ?case
  proof (cases "add k' v t")
    case (Inl x)
    then show ?thesis using Cons.prems e stuck by simp
  next
    case (Inr u)
    then show ?thesis using Cons.prems e Cons.IH [of u] add_keeps by simp
  qed
qed simp

end

lemma first_some: "(case filter (\<lambda>r. r \<noteq> None) rs of [] \<Rightarrow> None | r # _ \<Rightarrow> r) \<noteq> None \<longleftrightarrow> list_ex (\<lambda>r. r \<noteq> None) rs"
  by (induction rs) auto

lemma errors_as_multi:
  "errors_as p (WrapMulti t m es) \<noteq> None \<longleftrightarrow>
     p (WrapMulti t m es) \<noteq> None \<or> list_ex (\<lambda>e. errors_as p e \<noteq> None) es"
  using first_some [of "map (errors_as p) es"]
  by (cases "p (WrapMulti t m es)") (simp_all add: list_ex_iff del: not_None_eq)

lemma has_type_simps:
  "\<not> has_type ty (Sentinel n)" "\<not> has_type ty (Fresh m)" "has_type ty (Typed t i) = (t = ty)"
  "has_type ty (WrapFmt m e) = has_type ty e" "has_type ty (WrapTyped t i e) = (t = ty \<or> has_type ty e)"
  "has_type ty (WrapMulti t m es) = (t = ty \<or> list_ex (has_type ty) es)"
  unfolding has_type_def errors_as_multi by simp_all

end
