(* ===== verification/GoText.thy ===== *)
theory GoText
  imports GoBase
begin

text \<open>
  Go strings and byte slices. Both are lists of bytes, the type \<open>string\<close> of HOL; a
  rune is a \<open>nat\<close>. The theory has the parts of \<^verbatim>\<open>unicode/utf8\<close>, \<^verbatim>\<open>unicode\<close>,
  \<^verbatim>\<open>strings\<close>, \<^verbatim>\<open>strconv\<close>, \<^verbatim>\<open>encoding/hex\<close> and \<^verbatim>\<open>encoding/binary\<close> that the components
  call, with the laws they rely on: decoding loses no byte, re-encoding valid text is
  the identity, decimal numerals parse back, splitting and joining are inverse.
\<close>

section \<open>UTF-8\<close>

definition between :: "nat \<Rightarrow> nat \<Rightarrow> nat \<Rightarrow> bool" where
  "between lo hi b = (lo \<le> b \<and> b \<le> hi)"

text \<open>The range of the second byte depends on the first, so that overlong forms,
  surrogates and values past U+10FFFF are invalid.\<close>

definition second_lo :: "nat \<Rightarrow> nat" where
  "second_lo b0 = (if b0 = 0xE0 then 0xA0 else if b0 = 0xF0 then 0x90 else 0x80)"

definition second_hi :: "nat \<Rightarrow> nat" where
  "second_hi b0 = (if b0 = 0xED then 0x9F else if b0 = 0xF4 then 0x8F else 0xBF)"

text \<open>\<^verbatim>\<open>utf8.DecodeRune\<close>: the rune at the front and its width, \<open>None\<close> where Go reports
  \<^verbatim>\<open>RuneError\<close> with width 1.\<close>

fun decode_rune :: "nat list \<Rightarrow> (nat \<times> nat) option" where
  "decode_rune [] = None"
| "decode_rune [b0] = (if b0 < 0x80 then Some (b0, 1) else None)"
| "decode_rune [b0, b1] =
     (if b0 < 0x80 then Some (b0, 1)
      else if between 0xC2 0xDF b0 \<and> between 0x80 0xBF b1
        then Some ((b0 - 0xC0) * 64 + (b1 - 0x80), 2)
      else None)"
| "decode_rune [b0, b1, b2] =
     (if b0 < 0x80 then Some (b0, 1)
      else if between 0xC2 0xDF b0 \<and> between 0x80 0xBF b1
        then Some ((b0 - 0xC0) * 64 + (b1 - 0x80), 2)
      else if between 0xE0 0xEF b0 \<and>
              between (second_lo b0) (second_hi b0) b1 \<and>
              between 0x80 0xBF b2
        then Some ((b0 - 0xE0) * 4096 + (b1 - 0x80) * 64 + (b2 - 0x80), 3)
      else None)"
| "decode_rune (b0 # b1 # b2 # b3 # bs) =
     (if b0 < 0x80 then Some (b0, 1)
      else if between 0xC2 0xDF b0 \<and> between 0x80 0xBF b1
        then Some ((b0 - 0xC0) * 64 + (b1 - 0x80), 2)
      else if between 0xE0 0xEF b0 \<and>
              between (second_lo b0) (second_hi b0) b1 \<and>
              between 0x80 0xBF b2
        then Some ((b0 - 0xE0) * 4096 + (b1 - 0x80) * 64 + (b2 - 0x80), 3)
      else if between 0xF0 0xF4 b0 \<and>
              between (second_lo b0) (second_hi b0) b1 \<and>
              between 0x80 0xBF b2 \<and> between 0x80 0xBF b3
        then Some ((b0 - 0xF0) * 262144 + (b1 - 0x80) * 4096 + (b2 - 0x80) * 64 + (b3 - 0x80), 4)
      else None)"

abbreviation rune_error :: nat where "rune_error \<equiv> 0xFFFD"

text \<open>Ranging over a string: each rune with the bytes it was read from. An invalid
  byte is \<open>rune_error\<close> read from that one byte.\<close>

fun rune_chunks :: "string \<Rightarrow> (nat \<times> string) list" where
  "rune_chunks [] = []"
| "rune_chunks (c # cs) =
     (case decode_rune (map of_char (take 4 (c # cs))) of
        None \<Rightarrow> (rune_error, [c]) # rune_chunks cs
      | Some (r, w) \<Rightarrow> (r, c # take (w - 1) cs) # rune_chunks (drop (w - 1) cs))"

definition runes :: "string \<Rightarrow> nat list" where
  "runes s = map fst (rune_chunks s)"

text \<open>\<^verbatim>\<open>utf8.ValidString\<close>.\<close>

definition valid_utf8 :: "string \<Rightarrow> bool" where
  "valid_utf8 s = list_all (\<lambda>(r, bs). \<not> (r = rune_error \<and> length bs = 1)) (rune_chunks s)"

text \<open>\<^verbatim>\<open>utf8.AppendRune\<close>, which writes \<open>rune_error\<close> for a value that is no rune.\<close>

fun encode_rune :: "nat \<Rightarrow> string" where
  "encode_rune r =
     (if r < 0x80 then [char_of r]
      else if r < 0x800 then [char_of (0xC0 + r div 64), char_of (0x80 + r mod 64)]
      else if between 0xD800 0xDFFF r \<or> 0x10FFFF < r
        then [char_of (0xEF::nat), char_of (0xBF::nat), char_of (0xBD::nat)]
      else if r < 0x10000
        then [char_of (0xE0 + r div 4096), char_of (0x80 + r div 64 mod 64), char_of (0x80 + r mod 64)]
      else [char_of (0xF0 + r div 262144), char_of (0x80 + r div 4096 mod 64),
            char_of (0x80 + r div 64 mod 64), char_of (0x80 + r mod 64)])"

text \<open>The conversion \<^verbatim>\<open>string(runes)\<close>.\<close>

definition string_of_runes :: "nat list \<Rightarrow> string" where
  "string_of_runes rs = concat (map encode_rune rs)"

text \<open>The character U+2026, which the code appends to text it cut.\<close>

definition ellipsis :: string where
  "ellipsis = encode_rune 0x2026"

definition valid_rune :: "nat \<Rightarrow> bool" where
  "valid_rune r = (r \<le> 0x10FFFF \<and> \<not> between 0xD800 0xDFFF r)"

section \<open>Character classes and trimming\<close>

text \<open>\<^verbatim>\<open>unicode.IsControl\<close> (category Cc) and \<^verbatim>\<open>unicode.IsSpace\<close> (White\_Space).\<close>

definition is_control :: "nat \<Rightarrow> bool" where
  "is_control r = (r < 0x20 \<or> between 0x7F 0x9F r)"

definition is_space :: "nat \<Rightarrow> bool" where
  "is_space r = (between 0x09 0x0D r \<or> r = 0x20 \<or> r = 0x85 \<or> r = 0xA0 \<or> r = 0x1680 \<or>
     between 0x2000 0x200A r \<or> r = 0x2028 \<or> r = 0x2029 \<or> r = 0x202F \<or> r = 0x205F \<or> r = 0x3000)"

definition contains_rune :: "(nat \<Rightarrow> bool) \<Rightarrow> string \<Rightarrow> bool" where
  "contains_rune p s = list_ex p (runes s)"

text \<open>\<^verbatim>\<open>strings.TrimSpace\<close>.\<close>

definition trim_space :: "string \<Rightarrow> string" where
  "trim_space s =
     (let front = dropWhile (\<lambda>(r, bs). is_space r) (rune_chunks s)
      in concat (map snd (rev (dropWhile (\<lambda>(r, bs). is_space r) (rev front)))))"

section \<open>Numerals\<close>

definition digit_char :: "nat \<Rightarrow> char" where
  "digit_char d = char_of (48 + d)"

definition is_digit :: "char \<Rightarrow> bool" where
  "is_digit c = between 48 57 (of_char c)"

text \<open>\<^verbatim>\<open>strconv.FormatUint(n, 10)\<close> and \<^verbatim>\<open>strconv.FormatInt(n, 10)\<close>.\<close>

fun decimal :: "nat \<Rightarrow> string" where
  "decimal n = (if n < 10 then [digit_char n] else decimal (n div 10) @ [digit_char (n mod 10)])"

declare decimal.simps [simp del]

definition decimal_int :: "int \<Rightarrow> string" where
  "decimal_int i = (if i < 0 then CHR ''-'' # decimal (nat (- i)) else decimal (nat i))"

definition digits_value :: "string \<Rightarrow> nat" where
  "digits_value s = foldl (\<lambda>acc c. acc * 10 + (of_char c - 48)) 0 s"

text \<open>\<^verbatim>\<open>strconv.ParseUint(s, 10, bits)\<close> and \<^verbatim>\<open>strconv.ParseInt(s, 10, bits)\<close>; \<open>None\<close> is an
  error, of syntax or of range.\<close>

definition parse_uint :: "nat \<Rightarrow> string \<Rightarrow> nat option" where
  "parse_uint bits s =
     (if s = [] \<or> \<not> list_all is_digit s then None
      else if digits_value s < 2 ^ bits then Some (digits_value s) else None)"

definition parse_int :: "nat \<Rightarrow> string \<Rightarrow> int option" where
  "parse_int bits s =
     (let neg = (s \<noteq> [] \<and> hd s = CHR ''-'');
          signed = (s \<noteq> [] \<and> (hd s = CHR ''-'' \<or> hd s = CHR ''+''));
          body = (if signed then tl s else s)
      in if body = [] \<or> \<not> list_all is_digit body then None
         else let v = int (digits_value body); i = (if neg then - v else v)
              in if - (2 ^ (bits - 1)) \<le> i \<and> i < 2 ^ (bits - 1) then Some i else None)"

section \<open>Splitting, joining, hexadecimal, big-endian\<close>

fun split_on :: "char \<Rightarrow> string \<Rightarrow> string list" where
  "split_on c [] = [[]]"
| "split_on c (x # xs) =
     (if x = c then [] # split_on c xs
      else (case split_on c xs of [] \<Rightarrow> [[x]] | y # ys \<Rightarrow> (x # y) # ys))"

fun str_join :: "string \<Rightarrow> string list \<Rightarrow> string" where
  "str_join sep [] = []"
| "str_join sep [x] = x"
| "str_join sep (x # y # ys) = x @ sep @ str_join sep (y # ys)"

definition hex_digit :: "nat \<Rightarrow> char" where
  "hex_digit d = (if d < 10 then char_of (48 + d) else char_of (87 + d))"

definition hex_encode :: "string \<Rightarrow> string" where
  "hex_encode s = concat (map (\<lambda>c. [hex_digit (of_char c div 16), hex_digit (of_char c mod 16)]) s)"

text \<open>\<^verbatim>\<open>binary.BigEndian.PutUint64\<close> and \<^verbatim>\<open>binary.BigEndian.Uint64\<close>.\<close>

fun be_bytes :: "nat \<Rightarrow> nat \<Rightarrow> string" where
  "be_bytes 0 n = []"
| "be_bytes (Suc k) n = be_bytes k (n div 256) @ [char_of (n mod 256)]"

definition be_value :: "string \<Rightarrow> nat" where
  "be_value s = foldl (\<lambda>acc c. acc * 256 + of_char c) 0 s"

definition put_uint64 :: "nat \<Rightarrow> string" where
  "put_uint64 n = be_bytes 8 n"

definition get_uint64 :: "string \<Rightarrow> nat" where
  "get_uint64 s = be_value (take 8 s)"

section \<open>Laws\<close>

subsection \<open>UTF-8\<close>

lemma rune_chunks_concat [simp]: "concat (map snd (rune_chunks s)) = s"
proof (induction s rule: rune_chunks.induct)
  case 1
  then show ?case by simp
next
  case (2 c cs)
  then show ?case
    by (cases "decode_rune (map of_char (take 4 (c # cs)))") auto
qed

lemma rune_chunks_nonempty: "(r, bs) \<in> set (rune_chunks s) \<Longrightarrow> bs \<noteq> []"
proof (induction s rule: rune_chunks.induct)
  case 1
  then show ?case by simp
next
  case (2 c cs)
  then show ?case
    by (cases "decode_rune (map of_char (take 4 (c # cs)))") auto
qed

lemma length_concat_ge: "\<forall>b \<in> set bs. b \<noteq> [] \<Longrightarrow> length bs \<le> length (concat bs)"
  by (induction bs) (auto simp: Suc_le_eq neq_Nil_conv)

lemma length_runes_le: "length (runes s) \<le> length s"
proof -
  have "length (map snd (rune_chunks s)) \<le> length (concat (map snd (rune_chunks s)))"
    by (rule length_concat_ge) (auto dest: rune_chunks_nonempty)
  then show ?thesis by (simp add: runes_def)
qed

lemma rune_chunks_eq_Nil [simp]: "rune_chunks s = [] \<longleftrightarrow> s = []"
  by (cases s) (auto split: option.splits)

lemma decode_rune_width:
  "decode_rune bs = Some (r, w) \<Longrightarrow> w \<noteq> 0 \<and> w \<le> 4 \<and> w \<le> length bs"
  by (cases bs rule: decode_rune.cases) (auto split: if_splits)

text \<open>ASCII text is its own rune sequence.\<close>

lemma decode_rune_ascii: "b0 < 0x80 \<Longrightarrow> decode_rune (b0 # bs) = Some (b0, 1)"
  by (cases "b0 # bs" rule: decode_rune.cases) auto

lemma second_lo_ge: "0x80 \<le> second_lo b"
  by (simp add: second_lo_def)

lemma decode_rune_bytes:
  assumes "decode_rune bs = Some (r, w)"
  shows "w = 1 \<and> r = hd bs \<or> list_all (\<lambda>b. 0x80 \<le> b) (take w bs)"
proof -
  have mid: "0x80 \<le> b" if "between (second_lo b0) h b" for b0 h b
    using that second_lo_ge [of b0] by (simp add: between_def)
  have rest: "0x80 \<le> b" if "between 0x80 h b" for h b
    using that by (simp add: between_def)
  have lead: "0x80 \<le> b" if "between 0xC2 h b \<or> between 0xE0 h b \<or> between 0xF0 h b" for h b
    using that by (auto simp: between_def)
  show ?thesis
    using assms by (cases bs rule: decode_rune.cases) (auto dest: mid rest lead split: if_splits)
qed

text \<open>An ASCII byte is never part of a longer encoding: it is read as a rune of its own.\<close>

lemma ascii_byte_is_rune:
  "c \<in> set s \<Longrightarrow> of_char c < (0x80::nat) \<Longrightarrow> of_char c \<in> set (runes s)"
proof (induction s rule: rune_chunks.induct)
  case (2 d cs)
  let ?bs = "map of_char (take 4 (d # cs)) :: nat list"
  show ?case
  proof (cases "decode_rune ?bs")
    case None
    then have "c \<noteq> d" using 2(4) decode_rune_ascii [of "of_char d" "map of_char (take 3 cs)"] by auto
    then show ?thesis using None 2 by (auto simp: runes_def)
  next
    case (Some rw)
    obtain r w where rw: "rw = (r, w)" by (cases rw)
    have c: "c \<in> set (d # take (w - 1) cs) \<or> c \<in> set (drop (w - 1) cs)"
      using 2(3) set_append [of "take (w - 1) cs" "drop (w - 1) cs"] by auto
    have w: "w \<noteq> 0" "w \<le> 4" using decode_rune_width Some rw by blast+
    have take_w: "take w ?bs = map of_char (d # take (w - 1) cs)"
      using w by (cases w) (simp_all add: take_map min_def)
    show ?thesis
    proof (cases "c \<in> set (drop (w - 1) cs)")
      case True
      then show ?thesis using Some rw 2(2) [OF Some rw [symmetric]] 2(4) by (auto simp: runes_def)
    next
      case False
      then have "of_char c \<in> set (take w ?bs)" using c unfolding take_w by auto
      then have "w = 1" "r = of_char d"
        using decode_rune_bytes [of ?bs r w] Some rw 2(4) by (auto simp: list_all_iff)
      then show ?thesis using Some rw c False by (auto simp: runes_def)
    qed
  qed
qed simp

lemma rune_chunks_ascii:
  "list_all (\<lambda>c. of_char c < (0x80::nat)) s \<Longrightarrow> rune_chunks s = map (\<lambda>c. (of_char c, [c])) s"
  by (induction s) (auto simp: decode_rune_ascii)

lemma runes_ascii: "list_all (\<lambda>c. of_char c < (0x80::nat)) s \<Longrightarrow> runes s = map of_char s"
  by (simp add: runes_def rune_chunks_ascii comp_def)

lemma valid_utf8_ascii: "list_all (\<lambda>c. of_char c < (0x80::nat)) s \<Longrightarrow> valid_utf8 s"
  by (auto simp: valid_utf8_def rune_chunks_ascii list_all_iff)

text \<open>Re-encoding what was decoded gives the bytes back.\<close>


lemma encode_decode2:
  assumes "between 0xC2 0xDF b0" "between 0x80 0xBF b1"
  shows "encode_rune ((b0 - 0xC0) * 64 + (b1 - 0x80)) = [char_of b0, char_of b1]"
proof -
  define x y where "x = b0 - 0xC0" and "y = b1 - 0x80"
  have b: "b0 = 0xC0 + x" "b1 = 0x80 + y" and "2 \<le> x" "x < 32" "y < 64"
    using assms by (auto simp: between_def x_def y_def)
  then have "0x80 \<le> x * 64 + y" "x * 64 + y < 0x800" "(x * 64 + y) div 64 = x" "(x * 64 + y) mod 64 = y"
    by auto
  then show ?thesis
    unfolding x_def [symmetric] y_def [symmetric] by (simp add: b)
qed

lemma divmod64: "(z::nat) < 64 \<Longrightarrow> (a * 64 + z) div 64 = a" "(z::nat) < 64 \<Longrightarrow> (a * 64 + z) mod 64 = z"
  by simp (simp only: mod_mult_self3 mod_less)

lemma div4096: "(r::nat) div 4096 = r div 64 div 64" "(r::nat) div 262144 = r div 64 div 64 div 64"
  by (simp_all only: div_mult2_eq [symmetric]) simp_all

lemma encode_decode3:
  assumes "between 0xE0 0xEF b0" "between (second_lo b0) (second_hi b0) b1" "between 0x80 0xBF b2"
  shows "encode_rune ((b0 - 0xE0) * 4096 + (b1 - 0x80) * 64 + (b2 - 0x80)) =
    [char_of b0, char_of b1, char_of b2]"
proof -
  define x y z where "x = b0 - 0xE0" and "y = b1 - 0x80" and "z = b2 - 0x80"
  have b: "b0 = 0xE0 + x" "b1 = 0x80 + y" "b2 = 0x80 + z"
    and xyz: "x < 16" "y < 64" "z < 64" "x = 0 \<longrightarrow> 32 \<le> y" "x = 13 \<longrightarrow> y < 32"
    using assms by (auto simp: between_def second_lo_def second_hi_def x_def y_def z_def split: if_splits)
  define r where "r = x * 4096 + y * 64 + z"
  have "x \<le> 12 \<or> x = 13 \<or> 14 \<le> x" by arith
  with xyz have "0x800 \<le> r" "r < 0x10000" "\<not> between 0xD800 0xDFFF r"
    unfolding between_def by (auto simp: r_def)
  moreover have r: "r = (x * 64 + y) * 64 + z" by (simp add: r_def)
  have "r div 64 mod 64 = y" "r mod 64 = z" "r div 4096 = x"
    unfolding r div4096 using xyz by (simp_all only: divmod64)
  ultimately show ?thesis
    unfolding x_def [symmetric] y_def [symmetric] z_def [symmetric] r_def [symmetric] by (simp add: b)
qed

lemma encode_decode4:
  assumes "between 0xF0 0xF4 b0" "between (second_lo b0) (second_hi b0) b1"
    and "between 0x80 0xBF b2" "between 0x80 0xBF b3"
  shows "encode_rune ((b0 - 0xF0) * 262144 + (b1 - 0x80) * 4096 + (b2 - 0x80) * 64 + (b3 - 0x80)) =
    [char_of b0, char_of b1, char_of b2, char_of b3]"
proof -
  define x y z u where "x = b0 - 0xF0" and "y = b1 - 0x80" and "z = b2 - 0x80" and "u = b3 - 0x80"
  have b: "b0 = 0xF0 + x" "b1 = 0x80 + y" "b2 = 0x80 + z" "b3 = 0x80 + u"
    and xyz: "x < 5" "y < 64" "z < 64" "u < 64" "x = 0 \<longrightarrow> 16 \<le> y" "x = 4 \<longrightarrow> y < 16"
    using assms
    by (auto simp: between_def second_lo_def second_hi_def x_def y_def z_def u_def split: if_splits)
  define r where "r = x * 262144 + y * 4096 + z * 64 + u"
  have "0x10000 \<le> r" "r \<le> 0x10FFFF"
    using xyz by (auto simp: r_def)
  moreover have r: "r = ((x * 64 + y) * 64 + z) * 64 + u" by (simp add: r_def)
  have "r div 64 mod 64 = z" "r mod 64 = u" "r div 4096 mod 64 = y" "r div 262144 = x"
    unfolding r div4096 using xyz by (simp_all only: divmod64)
  ultimately show ?thesis
    unfolding x_def [symmetric] y_def [symmetric] z_def [symmetric] u_def [symmetric] r_def [symmetric]
    by (simp add: b between_def)
qed

lemma encode_rune_ascii: "r < 0x80 \<Longrightarrow> encode_rune r = [char_of r]"
  by simp

lemma decode_rune_encode:
  assumes "decode_rune bs = Some (r, w)"
  shows "encode_rune r = map char_of (take w bs)"
  using assms
  by (cases bs rule: decode_rune.cases)
    (auto simp: encode_rune_ascii encode_decode2 encode_decode3 encode_decode4 simp del: encode_rune.simps split: if_splits)

lemma rune_chunks_encode:
  assumes "valid_utf8 s" and "(r, bs) \<in> set (rune_chunks s)"
  shows "encode_rune r = bs"
  using assms
proof (induction s rule: rune_chunks.induct)
  case 1
  then show ?case by simp
next
  case (2 c cs)
  let ?d = "decode_rune (map of_char (take 4 (c # cs)))"
  from "2.prems" obtain r' w where d: "?d = Some (r', w)"
    by (cases ?d) (auto simp: valid_utf8_def)
  from decode_rune_width [OF d] obtain v where w: "w = Suc v" "w \<le> 4" "v \<le> length cs"
    by (cases w) auto
  from decode_rune_encode [OF d] have "encode_rune r' = take w (c # cs)"
    by (simp only: take_map take_take map_map) (simp add: comp_def min_absorb1 \<open>w \<le> 4\<close> del: take_Suc_Cons)
  with 2 d w show ?case
    by (auto simp: valid_utf8_def simp del: encode_rune.simps)
qed

lemma string_of_runes_runes: "valid_utf8 s \<Longrightarrow> string_of_runes (runes s) = s"
proof -
  assume "valid_utf8 s"
  then have "map encode_rune (runes s) = map snd (rune_chunks s)"
    by (auto simp: runes_def rune_chunks_encode simp del: encode_rune.simps)
  then show ?thesis by (simp add: string_of_runes_def)
qed

lemma decode_rune2:
  "between 0xC2 0xDF b0 \<Longrightarrow> between 0x80 0xBF b1 \<Longrightarrow>
   decode_rune (b0 # b1 # bs) = Some ((b0 - 0xC0) * 64 + (b1 - 0x80), 2)"
  by (cases "b0 # b1 # bs" rule: decode_rune.cases) (auto simp: between_def)

lemma decode_rune3:
  "between 0xE0 0xEF b0 \<Longrightarrow> between (second_lo b0) (second_hi b0) b1 \<Longrightarrow> between 0x80 0xBF b2 \<Longrightarrow>
   decode_rune (b0 # b1 # b2 # bs) = Some ((b0 - 0xE0) * 4096 + (b1 - 0x80) * 64 + (b2 - 0x80), 3)"
  by (cases "b0 # b1 # b2 # bs" rule: decode_rune.cases) (auto simp: between_def)

lemma decode_rune4:
  "between 0xF0 0xF4 b0 \<Longrightarrow> between (second_lo b0) (second_hi b0) b1 \<Longrightarrow>
   between 0x80 0xBF b2 \<Longrightarrow> between 0x80 0xBF b3 \<Longrightarrow>
   decode_rune (b0 # b1 # b2 # b3 # bs) =
     Some ((b0 - 0xF0) * 262144 + (b1 - 0x80) * 4096 + (b2 - 0x80) * 64 + (b3 - 0x80), 4)"
  by (cases "b0 # b1 # b2 # b3 # bs" rule: decode_rune.cases) (auto simp: between_def)

lemma divmod64_eq: "(r::nat) = r div 64 * 64 + r mod 64"
  by simp

lemma rune_chunks_step:
  "decode_rune (map of_char (take 4 (c # cs))) = Some (r, w) \<Longrightarrow>
   rune_chunks (c # cs) = (r, c # take (w - 1) cs) # rune_chunks (drop (w - 1) cs)"
  by simp

lemma between_cont: "between 0x80 0xBF (0x80 + r mod 64)"
proof -
  have "r mod 64 < 64" by simp
  then show ?thesis by (simp add: between_def)
qed

lemma rune_chunks_encode2:
  assumes "0x80 \<le> r" "r < 0x800"
  shows "rune_chunks (encode_rune r @ s) = (r, encode_rune r) # rune_chunks s"
proof -
  define x y where "x = r div 64" and "y = r mod 64"
  have "between 0xC2 0xDF (0xC0 + x)" "x < 32" using assms by (auto simp: between_def x_def)
  moreover have "between 0x80 0xBF (0x80 + y)" "y < 64" by (simp_all add: y_def between_cont)
  moreover have r: "r = x * 64 + y" by (simp add: x_def y_def)
  ultimately have d: "decode_rune ((0xC0 + x) # (0x80 + y) # bs) = Some (r, 2)" for bs
    by (simp add: decode_rune2)
  have e: "encode_rune r = [char_of (0xC0 + x), char_of (0x80 + y)]"
    using assms by (simp add: x_def y_def)
  show ?thesis
    unfolding e append_Cons append_Nil
    by (subst rune_chunks_step [of _ _ r 2]) (use d \<open>x < 32\<close> \<open>y < 64\<close> in simp_all)
qed

lemma rune_chunks_encode3:
  assumes "0x800 \<le> r" "r < 0x10000" "\<not> between 0xD800 0xDFFF r"
  shows "rune_chunks (encode_rune r @ s) = (r, encode_rune r) # rune_chunks s"
proof -
  define x y z where "x = r div 4096" and "y = r div 64 mod 64" and "z = r mod 64"
  have e: "encode_rune r = [char_of (0xE0 + x), char_of (0x80 + y), char_of (0x80 + z)]"
    using assms by (simp add: x_def y_def z_def)
  have r: "r = x * 4096 + y * 64 + z" 
    unfolding x_def y_def z_def div4096 using divmod64_eq [of r] divmod64_eq [of "r div 64"] by linarith
  have yz: "y < 64" "z < 64" by (simp_all add: y_def z_def)
  then have x: "x < 16" "x = 0 \<longrightarrow> 32 \<le> y" "x = 13 \<longrightarrow> y < 32"
    using assms r by (auto simp: between_def)
  then have "between 0xE0 0xEF (0xE0 + x)" "between (second_lo (0xE0 + x)) (second_hi (0xE0 + x)) (0x80 + y)"
    "between 0x80 0xBF (0x80 + z)"
    using yz by (auto simp: between_def second_lo_def second_hi_def)
  with r have d: "decode_rune ((0xE0 + x) # (0x80 + y) # (0x80 + z) # bs) = Some (r, 3)" for bs
    by (simp add: decode_rune3)
  show ?thesis
    unfolding e append_Cons append_Nil
    by (subst rune_chunks_step [of _ _ r 3]) (use d x yz in simp_all)
qed

lemma rune_chunks_encode4:
  assumes "0x10000 \<le> r" "r \<le> 0x10FFFF"
  shows "rune_chunks (encode_rune r @ s) = (r, encode_rune r) # rune_chunks s"
proof -
  define x y z u where "x = r div 262144" and "y = r div 4096 mod 64" and "z = r div 64 mod 64"
    and "u = r mod 64"
  have e: "encode_rune r = [char_of (0xF0 + x), char_of (0x80 + y), char_of (0x80 + z), char_of (0x80 + u)]"
    using assms by (simp add: x_def y_def z_def u_def between_def)
  have r: "r = x * 262144 + y * 4096 + z * 64 + u" 
    unfolding x_def y_def z_def u_def div4096
    using divmod64_eq [of r] divmod64_eq [of "r div 64"] divmod64_eq [of "r div 64 div 64"] by linarith
  have yz: "y < 64" "z < 64" "u < 64" by (simp_all add: y_def z_def u_def)
  then have x: "x < 5" "x = 0 \<longrightarrow> 16 \<le> y" "x = 4 \<longrightarrow> y < 16"
    using assms r by auto
  then have "between 0xF0 0xF4 (0xF0 + x)" "between (second_lo (0xF0 + x)) (second_hi (0xF0 + x)) (0x80 + y)"
    "between 0x80 0xBF (0x80 + z)" "between 0x80 0xBF (0x80 + u)"
    using yz by (auto simp: between_def second_lo_def second_hi_def)
  with r have d: "decode_rune ((0xF0 + x) # (0x80 + y) # (0x80 + z) # (0x80 + u) # bs) = Some (r, 4)" for bs
    by (simp add: decode_rune4 del: decode_rune.simps)
  show ?thesis
    unfolding e append_Cons append_Nil
    by (subst rune_chunks_step [of _ _ r 4]) (use d x yz in simp_all)
qed

lemma rune_chunks_encode_rune:
  assumes "valid_rune r"
  shows "rune_chunks (encode_rune r @ s) = (r, encode_rune r) # rune_chunks s"
proof -
  consider "r < 0x80" | "0x80 \<le> r" "r < 0x800" | "0x800 \<le> r" "r < 0x10000" | "0x10000 \<le> r"
    by linarith
  then show ?thesis
  proof cases
    case 1
    then show ?thesis by (simp add: decode_rune_ascii)
  qed (use assms in \<open>auto simp: valid_rune_def rune_chunks_encode2 rune_chunks_encode3
        rune_chunks_encode4 simp del: encode_rune.simps\<close>)
qed

lemma runes_string_of_runes: "list_all valid_rune rs \<Longrightarrow> runes (string_of_runes rs) = rs"
  by (induction rs) (auto simp: runes_def string_of_runes_def rune_chunks_encode_rune
      simp del: encode_rune.simps)

lemma valid_rune3:
  assumes "between 0xE0 0xEF b0" "between (second_lo b0) (second_hi b0) b1" "between 0x80 0xBF b2"
  shows "valid_rune ((b0 - 0xE0) * 4096 + (b1 - 0x80) * 64 + (b2 - 0x80))"
proof -
  define x y z where "x = b0 - 0xE0" and "y = b1 - 0x80" and "z = b2 - 0x80"
  have xyz: "x < 16" "y < 64" "z < 64" "x = 13 \<longrightarrow> y < 32"
    using assms by (auto simp: between_def second_lo_def second_hi_def x_def y_def z_def split: if_splits)
  have "x \<le> 12 \<or> x = 13 \<or> 14 \<le> x" by arith
  with xyz show ?thesis
    unfolding x_def [symmetric] y_def [symmetric] z_def [symmetric] by (auto simp: valid_rune_def between_def)
qed

lemma valid_rune4:
  assumes "between 0xF0 0xF4 b0" "between (second_lo b0) (second_hi b0) b1"
    and "between 0x80 0xBF b2" "between 0x80 0xBF b3"
  shows "valid_rune ((b0 - 0xF0) * 262144 + (b1 - 0x80) * 4096 + (b2 - 0x80) * 64 + (b3 - 0x80))"
proof -
  define x y z u where "x = b0 - 0xF0" and "y = b1 - 0x80" and "z = b2 - 0x80" and "u = b3 - 0x80"
  have "x < 5" "y < 64" "z < 64" "u < 64" "x = 0 \<longrightarrow> 16 \<le> y" "x = 4 \<longrightarrow> y < 16"
    using assms
    by (auto simp: between_def second_lo_def second_hi_def x_def y_def z_def u_def split: if_splits)
  then show ?thesis
    unfolding x_def [symmetric] y_def [symmetric] z_def [symmetric] u_def [symmetric]
    by (auto simp: valid_rune_def between_def)
qed

lemma valid_rune_small: "r < 0x800 \<Longrightarrow> valid_rune r"
  by (simp add: valid_rune_def between_def)

lemma valid_rune2:
  "between 0xC2 0xDF b0 \<Longrightarrow> between 0x80 0xBF b1 \<Longrightarrow> valid_rune ((b0 - 0xC0) * 64 + (b1 - 0x80))"
  by (rule valid_rune_small) (auto simp: between_def)

lemma decode_rune_valid: "decode_rune bs = Some (r, w) \<Longrightarrow> valid_rune r"
  by (cases bs rule: decode_rune.cases)
    (auto simp: valid_rune_small valid_rune2 valid_rune3 valid_rune4 split: if_splits)

lemma runes_valid: "list_all valid_rune (runes s)"
proof -
  have "list_all valid_rune (map fst (rune_chunks s))"
  proof (induction s rule: rune_chunks.induct)
    case 1
    then show ?case by simp
  next
    case (2 c cs)
    have "valid_rune rune_error" by (simp add: valid_rune_def between_def)
    with 2 show ?case
      by (cases "decode_rune (map of_char (take 4 (c # cs)))") (auto dest: decode_rune_valid)
  qed
  then show ?thesis by (simp add: runes_def)
qed

lemma valid_utf8_string_of_runes: "list_all valid_rune rs \<Longrightarrow> valid_utf8 (string_of_runes rs)"
proof (induction rs)
  case Nil
  then show ?case by (simp add: valid_utf8_def string_of_runes_def)
next
  case (Cons r rs)
  have "r = rune_error \<Longrightarrow> length (encode_rune r) \<noteq> 1" by (simp add: between_def)
  with Cons show ?case
    by (auto simp: valid_utf8_def string_of_runes_def rune_chunks_encode_rune simp del: encode_rune.simps)
qed

text \<open>Cutting text to its first \<open>n\<close> runes.\<close>

lemma runes_take: "runes (string_of_runes (take n (runes s))) = take n (runes s)"
  by (rule runes_string_of_runes) (metis runes_valid list_all_append append_take_drop_id)

subsection \<open>Numerals\<close>

lemma of_char_digit [simp]: "d < 10 \<Longrightarrow> of_char (digit_char d) = 48 + d"
  by (simp add: digit_char_def)

lemma is_digit_digit_char [simp]: "d < 10 \<Longrightarrow> is_digit (digit_char d)"
  by (simp add: is_digit_def between_def)

lemma decimal_digits: "list_all is_digit (decimal n)"
proof (induction n rule: decimal.induct)
  case (1 n)
  then show ?case by (subst decimal.simps) simp
qed

lemma decimal_nonempty [simp]: "decimal n \<noteq> []"
  by (subst decimal.simps) simp

lemma digits_value_snoc: "digits_value (s @ [c]) = digits_value s * 10 + (of_char c - 48)"
  by (simp add: digits_value_def)

lemma digits_value_bound: "list_all is_digit s \<Longrightarrow> digits_value s < 10 ^ length s"
proof (induction s rule: rev_induct)
  case (snoc c s)
  have "of_char c \<le> (57 :: nat)" using snoc.prems by (simp add: is_digit_def between_def)
  with snoc show ?case by (simp add: digits_value_snoc)
qed (simp add: digits_value_def)

lemma digits_value_decimal [simp]: "digits_value (decimal n) = n"
proof (induction n rule: decimal.induct)
  case (1 n)
  show ?case
  proof (cases "n < 10")
    case True
    then show ?thesis by (subst decimal.simps) (simp add: digits_value_def)
  next
    case False
    with 1 have "digits_value (decimal (n div 10)) = n div 10" by simp
    with False show ?thesis by (subst decimal.simps) (simp add: digits_value_snoc)
  qed
qed

lemma parse_uint_decimal: "parse_uint bits (decimal n) = (if n < 2 ^ bits then Some n else None)"
  by (simp add: parse_uint_def decimal_digits)

lemma decimal_inject: "decimal m = decimal n \<longleftrightarrow> m = n"
  by (metis digits_value_decimal)

lemma parse_uint_bound: "parse_uint bits s = Some v \<Longrightarrow> v < 2 ^ bits"
  by (auto simp: parse_uint_def split: if_splits)

lemma is_digit_ascii: "is_digit c \<Longrightarrow> of_char c < (0x80::nat)"
  by (simp add: is_digit_def between_def)

subsection \<open>Splitting and joining\<close>

lemma split_on_nonempty [simp]: "split_on c s \<noteq> []"
  by (induction s) (auto split: list.splits)

lemma str_join_Cons: "ys \<noteq> [] \<Longrightarrow> str_join sep (x # ys) = x @ sep @ str_join sep ys"
  by (cases ys) auto

lemma join_split: "str_join [c] (split_on c s) = s"
proof (induction s)
  case Nil
  then show ?case by simp
next
  case (Cons x xs)
  obtain y ys where y: "split_on c xs = y # ys" by (cases "split_on c xs") auto
  with Cons show ?case by (cases ys) (auto simp: str_join_Cons)
qed

lemma split_on_no_sep: "p \<in> set (split_on c s) \<Longrightarrow> c \<notin> set p"
  by (induction s arbitrary: p) (fastforce split: list.splits if_splits)+

lemma split_on_append: "c \<notin> set x \<Longrightarrow> split_on c (x @ c # s) = x # split_on c s"
  by (induction x) auto

lemma split_on_plain: "c \<notin> set x \<Longrightarrow> split_on c x = [x]"
  by (induction x) auto

lemma split_join:
  "xs \<noteq> [] \<Longrightarrow> \<forall>x \<in> set xs. c \<notin> set x \<Longrightarrow> split_on c (str_join [c] xs) = xs"
proof (induction xs rule: induct_list012)
  case (3 x y ys)
  then show ?case by (simp add: split_on_append)
qed (auto simp: split_on_plain)

subsection \<open>Hexadecimal and big-endian\<close>

lemma of_char_hex_digit: "a < 16 \<Longrightarrow> of_char (hex_digit a) = (if a < 10 then 48 + a else 87 + a)"
  by (simp add: hex_digit_def)

lemma hex_digit_inject:
  assumes "a < 16" "b < 16" "hex_digit a = hex_digit b"
  shows "a = b"
proof -
  from assms(3) have "of_char (hex_digit a) = (of_char (hex_digit b) :: nat)" by simp
  then show ?thesis using assms(1,2) by (simp add: of_char_hex_digit split: if_splits)
qed

lemma hex_encode_Cons:
  "hex_encode (c # s) = hex_digit (of_char c div 16) # hex_digit (of_char c mod 16) # hex_encode s"
  by (simp add: hex_encode_def)

lemma hex_encode_inject: "hex_encode s = hex_encode t \<longleftrightarrow> s = t"
proof
  show "hex_encode s = hex_encode t \<Longrightarrow> s = t"
  proof (induction s arbitrary: t)
    case Nil
    then show ?case by (cases t) (auto simp: hex_encode_def)
  next
    case (Cons c s)
    then obtain d t' where t: "t = d # t'"
      by (cases t) (auto simp: hex_encode_def)
    let ?c = "of_char c :: nat" and ?d = "of_char d :: nat"
    have "?c div 16 < 16" "?d div 16 < 16"
      using nat_of_char_less_256 [of c] nat_of_char_less_256 [of d] by linarith+
    then have "?c div 16 = ?d div 16" "?c mod 16 = ?d mod 16" "hex_encode s = hex_encode t'"
      using Cons.prems by (auto simp: t hex_encode_Cons intro: hex_digit_inject)
    then have "?c = ?d" by (metis div_mult_mod_eq)
    then show ?case using Cons.IH [OF \<open>hex_encode s = hex_encode t'\<close>] by (simp add: t)
  qed
qed simp

lemma length_hex_encode [simp]: "length (hex_encode s) = 2 * length s"
  by (induction s) (auto simp: hex_encode_def)

lemma hex_digit_token: "a < 16 \<Longrightarrow> between 0x30 0x66 (of_char (hex_digit a))"
  by (simp add: of_char_hex_digit between_def)

lemma hex_chars: "list_all (\<lambda>c. between 0x30 0x66 (of_char c)) (hex_encode s)"
proof (induction s)
  case (Cons c s)
  have "of_char c div 16 < (16 :: nat)" using nat_of_char_less_256 [of c] by linarith
  then have "between 0x30 0x66 (of_char (hex_digit (of_char c div 16)))" by (rule hex_digit_token)
  moreover have "between 0x30 0x66 (of_char (hex_digit (of_char c mod 16)))" by (rule hex_digit_token) simp
  ultimately show ?case using Cons by (simp add: hex_encode_def)
qed (simp add: hex_encode_def)

lemma hex_token: "list_all (\<lambda>c. between 0x21 0x7E (of_char c)) (hex_encode s)"
  using hex_chars [of s] by (rule list.pred_mono_strong) (simp add: between_def)

lemma length_be_bytes [simp]: "length (be_bytes k n) = k"
  by (induction k arbitrary: n) auto

lemma be_value_snoc: "be_value (s @ [c]) = be_value s * 256 + of_char c"
  by (simp add: be_value_def)

lemma be_value_be_bytes: "be_value (be_bytes k n) = n mod 256 ^ k"
proof (induction k arbitrary: n)
  case 0
  then show ?case by (simp add: be_value_def)
next
  case (Suc k)
  have "n mod (256 * 256 ^ k) = 256 * (n div 256 mod 256 ^ k) + n mod 256"
    by (rule mod_mult2_eq)
  with Suc show ?case by (simp add: be_value_snoc)
qed

lemma length_put_uint64 [simp]: "length (put_uint64 n) = 8"
  by (simp add: put_uint64_def)

lemma get_put_uint64: "n < 2 ^ 64 \<Longrightarrow> get_uint64 (put_uint64 n @ s) = n"
  by (simp add: get_uint64_def put_uint64_def be_value_be_bytes)

lemma be_value_bound: "be_value s < 256 ^ length s"
proof (induction s rule: rev_induct)
  case Nil
  then show ?case by (simp add: be_value_def)
next
  case (snoc c s)
  have "be_value s * 256 + of_char c < 256 * 256 ^ length s"
    using snoc nat_of_char_less_256 [of c] by linarith
  then show ?case by (simp add: be_value_snoc)
qed

text \<open>Printable ASCII text that neither starts nor ends with a space is its own trimmed form.\<close>

lemma trim_space_ascii:
  assumes "list_all (\<lambda>c. of_char c < (0x80::nat)) s" "s \<noteq> [] \<longrightarrow> \<not> is_space (of_char (hd s)) \<and> \<not> is_space (of_char (last s))"
  shows "trim_space s = s"
proof (cases "s = []")
  case False
  let ?ch = "\<lambda>c. (of_char c :: nat, [c])" and ?sp = "\<lambda>(r, bs). is_space r"
  have front: "dropWhile ?sp (map ?ch s) = map ?ch s" using False assms(2) by (cases s) auto
  have rear: "dropWhile ?sp (rev (map ?ch s)) = rev (map ?ch s)" using False assms(2) by (cases s rule: rev_cases) auto
  show ?thesis unfolding trim_space_def Let_def rune_chunks_ascii [OF assms(1)] front rear by (simp add: comp_def)
qed (simp add: trim_space_def)

lemmas trim_ascii = trim_space_ascii is_space_def between_def

lemma decode_rune_take:
  "decode_rune bs = Some (r, w) \<Longrightarrow> w \<le> n \<Longrightarrow> decode_rune (take n bs) = Some (r, w)"
  "decode_rune bs = None \<Longrightarrow> decode_rune (take n bs) = None"
proof -
  consider "n = 0" | "n = 1" | "n = 2" | "n = 3" | m where "n = Suc (Suc (Suc (Suc m)))"
    by (metis One_nat_def Suc_1 numeral_3_eq_3 not0_implies_Suc)
  then show "decode_rune bs = Some (r, w) \<Longrightarrow> w \<le> n \<Longrightarrow> decode_rune (take n bs) = Some (r, w)"
    "decode_rune bs = None \<Longrightarrow> decode_rune (take n bs) = None"
    by (cases; cases bs rule: decode_rune.cases; auto simp: numeral_2_eq_2 numeral_3_eq_3 split: if_splits)+
qed

lemma chunks_prefix: "rune_chunks s = xs @ ys \<Longrightarrow> rune_chunks (concat (map snd xs)) = xs"
proof (induction s arbitrary: xs rule: rune_chunks.induct)
  case (2 c cs)
  let ?d = "decode_rune (map of_char (take 4 (c # cs)))"
  show ?case
  proof (cases xs)
    case (Cons x xs')
    show ?thesis
    proof (cases ?d)
      case None
      then have x: "x = (rune_error, [c])" and rest: "rune_chunks cs = xs' @ ys" using 2(3) Cons by auto
      let ?t = "concat (map snd xs')"
      have "cs = ?t @ concat (map snd ys)" using rune_chunks_concat [of cs, unfolded rest] by simp
      then have "map of_char (take 4 (c # ?t)) = take (length (c # ?t)) (map of_char (take 4 (c # cs)))"
        by (simp add: take_map min_def)
      then have "decode_rune (map of_char (take 4 (c # ?t))) = None" using None decode_rune_take(2) by metis
      then show ?thesis using 2(1) [OF None rest] Cons x by simp
    next
      case (Some p)
      obtain r w where p: "p = (r, w)" by fastforce
      have w: "w \<noteq> 0" "w \<le> length (c # cs)" using decode_rune_width Some p by fastforce+
      have x: "x = (r, c # take (w - 1) cs)" and rest: "rune_chunks (drop (w - 1) cs) = xs' @ ys" using 2(3) Cons Some p by auto
      let ?t = "take (w - 1) cs @ concat (map snd xs')"
      have "drop (w - 1) cs = concat (map snd xs') @ concat (map snd ys)" using rune_chunks_concat [of "drop (w - 1) cs", unfolded rest] by simp
      then have "cs = ?t @ concat (map snd ys)" by (metis append.assoc append_take_drop_id)
      then have "map of_char (take 4 (c # ?t)) = take (length (c # ?t)) (map of_char (take 4 (c # cs)))"
        by (metis (no_types, lifting) append_Cons append_eq_conv_conj take_map take_take min.commute)
      moreover have "w \<le> length (c # ?t)" using w by simp
      ultimately have "decode_rune (map of_char (take 4 (c # ?t))) = Some (r, w)" using Some p decode_rune_take(1) by metis
      moreover have "take (w - 1) ?t = take (w - 1) cs" "drop (w - 1) ?t = concat (map snd xs')" using w by auto
      ultimately show ?thesis using 2(2) [OF Some [unfolded p] refl rest] Cons x by simp
    qed
  qed simp
qed simp

lemma chunks_suffix: "rune_chunks s = xs @ ys \<Longrightarrow> rune_chunks (concat (map snd ys)) = ys"
proof (induction s arbitrary: xs rule: rune_chunks.induct)
  case (2 c cs)
  show ?case
  proof (cases xs)
    case Nil
    then show ?thesis using rune_chunks_concat [of "c # cs"] 2(3) by simp
  next
    case (Cons x xs')
    then show ?thesis using 2 by (auto split: option.splits)
  qed
qed simp
text \<open>Trimming again changes nothing: the runes that are left are read in the same way without the ones cut off.\<close>

lemma trim_space_idem [simp]: "trim_space (trim_space s) = trim_space s"
proof -
  let ?sp = "\<lambda>(r, bs). is_space r"
  define front where "front = dropWhile ?sp (rune_chunks s)"
  define mid where "mid = rev (dropWhile ?sp (rev front))"
  have t: "trim_space s = concat (map snd mid)" by (simp add: trim_space_def front_def mid_def Let_def)
  have "rune_chunks s = takeWhile ?sp (rune_chunks s) @ front" by (simp add: front_def)
  then have f: "rune_chunks (concat (map snd front)) = front" by (rule chunks_suffix)
  have split: "front = mid @ rev (takeWhile ?sp (rev front))"
    unfolding mid_def by (metis rev_append rev_rev_ident takeWhile_dropWhile_id)
  then have m: "rune_chunks (concat (map snd mid)) = mid" using chunks_prefix f by metis
  have "dropWhile ?sp mid = mid"
  proof (cases mid)
    case (Cons x xs)
    then have "front = x # xs @ rev (takeWhile ?sp (rev front))" using split by simp
    moreover have "front = [] \<or> \<not> ?sp (hd front)" unfolding front_def using hd_dropWhile [of ?sp "rune_chunks s"] by argo
    ultimately have "\<not> ?sp x" by (metis list.sel(1) list.distinct(1))
    then show ?thesis using Cons by simp
  qed simp
  moreover have "dropWhile ?sp (rev mid) = rev mid"
  proof -
    have "rev mid = [] \<or> \<not> ?sp (hd (rev mid))" unfolding mid_def rev_rev_ident using hd_dropWhile [of ?sp "rev front"] by argo
    then show ?thesis by (cases "rev mid") auto
  qed
  ultimately show ?thesis unfolding t by (simp add: trim_space_def m Let_def)
qed

lemma chunks_append_ascii:
  assumes "of_char c < (0x80::nat)"
  shows "rune_chunks (p @ c # q) = rune_chunks p @ rune_chunks (c # q)"
proof (induction p rule: rune_chunks.induct)
  case (2 d ds)
  let ?long = "map of_char (take 4 (d # ds @ c # q)) :: nat list" and ?short = "map of_char (take 4 (d # ds)) :: nat list"
  have short: "?short = take (length (d # ds)) ?long"
    by (metis (no_types, lifting) append_Cons append_eq_conv_conj take_map take_take min.commute)
  show ?case
  proof (cases "decode_rune ?long")
    case None
    then have "decode_rune ?short = None" using short decode_rune_take(2) by metis
    then show ?thesis using 2(1) None by simp
  next
    case (Some x)
    obtain r w where x: "x = (r, w)" by fastforce
    have w: "w \<noteq> 0" "w \<le> 4" using decode_rune_width Some x by auto
    have fits: "w \<le> length (d # ds)"
    proof (rule ccontr)
      assume "\<not> ?thesis"
      then have len: "length (d # ds) < w" by simp
      then have "list_all (\<lambda>b. 0x80 \<le> b) (take w ?long)" using decode_rune_bytes [OF Some [unfolded x]] by (auto simp: neq_Nil_conv)
      moreover have "take w ?long ! length (d # ds) = of_char c" using len w by (auto simp: nth_append)
      moreover have "length (d # ds) < length (take w ?long)" using len w by auto
      ultimately show False using assms by (auto simp: list_all_length)
    qed
    have "decode_rune ?short = Some (r, w)" unfolding short by (rule decode_rune_take(1) [OF Some [unfolded x] fits])
    then show ?thesis using 2(2) [OF _ refl, of r w] Some x fits w by simp
  qed
qed simp

text \<open>Text is trimmed when its first and its last rune are no space; trimmed texts joined with commas stay trimmed.\<close>

definition edge_ok :: "string \<Rightarrow> bool" where
  "edge_ok s = (rune_chunks s = [] \<or> \<not> is_space (fst (hd (rune_chunks s))) \<and> \<not> is_space (fst (last (rune_chunks s))))"

lemma trim_fixed: "trim_space s = s \<longleftrightarrow> edge_ok s"
proof -
  let ?sp = "\<lambda>(r, bs :: string). is_space r" and ?c = "rune_chunks s"
  have nonempty: "x \<in> set ?c \<Longrightarrow> snd x \<noteq> []" for x using rune_chunks_nonempty [of "fst x" "snd x"] by simp
  show ?thesis
  proof
    assume "edge_ok s"
    then have e: "?c = [] \<or> \<not> is_space (fst (hd ?c)) \<and> \<not> is_space (fst (last ?c))" by (simp add: edge_ok_def)
    have "dropWhile ?sp ?c = ?c" using e by (cases ?c) auto
    moreover have "dropWhile ?sp (rev ?c) = rev ?c" using e by (cases ?c rule: rev_cases) auto
    ultimately show "trim_space s = s" by (simp add: trim_space_def Let_def)
  next
    assume t: "trim_space s = s"
    show "edge_ok s"
    proof (rule ccontr)
      assume bad: "\<not> edge_ok s"
      let ?f = "dropWhile ?sp ?c"
      let ?m = "rev (dropWhile ?sp (rev ?f))"
      have "length ?m < length ?c"
      proof (cases "is_space (fst (hd ?c))")
        case True
        then have "length ?f < length ?c" using bad by (cases ?c) (auto simp: edge_ok_def length_dropWhile_le less_Suc_eq_le)
        then show ?thesis using length_dropWhile_le [of ?sp "rev ?f"] by simp
      next
        case False
        then have f: "?f = ?c" by (cases ?c) auto
        have "is_space (fst (last ?c))" "?c \<noteq> []" using bad False by (auto simp: edge_ok_def)
        then have "length (dropWhile ?sp (rev ?c)) < length ?c"
          by (cases ?c rule: rev_cases) (auto simp: length_dropWhile_le less_Suc_eq_le intro: le_trans [OF length_dropWhile_le])
        then show ?thesis unfolding f by simp
      qed
      moreover have "rune_chunks (concat (map snd ?m)) = ?c" using t by (simp add: trim_space_def Let_def)
      moreover have "rune_chunks (concat (map snd ?m)) = ?m"
      proof -
        have "?c = takeWhile ?sp ?c @ ?f" by simp
        then have "rune_chunks (concat (map snd ?f)) = ?f" by (rule chunks_suffix)
        moreover have "?f = ?m @ rev (takeWhile ?sp (rev ?f))" by (metis rev_append rev_rev_ident takeWhile_dropWhile_id)
        ultimately show ?thesis using chunks_prefix by metis
      qed
      ultimately show False by (metis length_rev less_irrefl)
    qed
  qed
qed

lemma edge_ok_join:
  assumes "edge_ok p" "edge_ok q"
  shows "edge_ok (p @ CHR '','' # q)"
proof -
  have comma: "rune_chunks (CHR '','' # q) = (44, '','') # rune_chunks q"
    by (simp add: decode_rune_ascii)
  have "rune_chunks (p @ CHR '','' # q) = rune_chunks p @ (44, '','') # rune_chunks q"
    using chunks_append_ascii [of "CHR '',''" p q] comma by simp
  moreover have "\<not> is_space 44" by (simp add: is_space_def between_def)
  ultimately show ?thesis using assms by (auto simp: edge_ok_def hd_append)
qed

lemma trim_space_join:
  "list_all (\<lambda>p. trim_space p = p) ps \<Longrightarrow> trim_space (str_join '','' ps) = str_join '','' ps"
  unfolding trim_fixed
proof (induction ps rule: induct_list012)
  case (3 x y ys)
  then show ?case using edge_ok_join by simp
qed (auto simp: edge_ok_def)

lemma trim_space_Nil [simp]: "trim_space [] = []"
  by (simp add: trim_space_def)

lemma trim_space_subset: "set (trim_space s) \<subseteq> set s"
proof -
  have "set (map snd (rev (dropWhile p (rev (dropWhile p (rune_chunks s)))))) \<subseteq> set (map snd (rune_chunks s))" for p
    by (auto dest!: set_dropWhileD)
  then have "set (trim_space s) \<subseteq> set (concat (map snd (rune_chunks s)))"
    unfolding trim_space_def Let_def set_concat by blast
  then show ?thesis by simp
qed

end
