(* ===== verification/Sha256.thy ===== *)
theory Sha256
  imports GoText
begin

unbundle bit_operations_syntax

text \<open>
  \<^verbatim>\<open>crypto/sha256\<close>, which the program uses for request identities, fingerprints,
  message and delivery identifiers and the deterministic jitter of retries: the
  compression function over 32-bit words as FIPS 180-4 states it, the padding, and
  \<open>sha256\<close> from bytes to a 32-byte digest.

  The locale \<open>framing\<close> is the contract of every place that hashes several fields at
  once: the bytes handed to the hash must determine the fields. Each component
  interprets it on its own encoding of the fields; the lemma it gets back says that
  two equal digests come from equal fields or exhibit a collision of SHA-256.
\<close>

section \<open>The hash function\<close>

type_synonym w32 = "32 word"

text \<open>The first 32 bits of the fractional parts of the cube roots of the first 64 primes.\<close>

definition round_constants :: "w32 list" where
  "round_constants =
    [1116352408, 1899447441, 3049323471, 3921009573, 961987163, 1508970993, 2453635748, 2870763221,
     3624381080, 310598401, 607225278, 1426881987, 1925078388, 2162078206, 2614888103, 3248222580,
     3835390401, 4022224774, 264347078, 604807628, 770255983, 1249150122, 1555081692, 1996064986,
     2554220882, 2821834349, 2952996808, 3210313671, 3336571891, 3584528711, 113926993, 338241895,
     666307205, 773529912, 1294757372, 1396182291, 1695183700, 1986661051, 2177026350, 2456956037,
     2730485921, 2820302411, 3259730800, 3345764771, 3516065817, 3600352804, 4094571909, 275423344,
     430227734, 506948616, 659060556, 883997877, 958139571, 1322822218, 1537002063, 1747873779,
     1955562222, 2024104815, 2227730452, 2361852424, 2428436474, 2756734187, 3204031479, 3329325298]"

record hash_state =
  ha :: w32
  hb :: w32
  hc :: w32
  hd' :: w32
  he :: w32
  hf :: w32
  hg :: w32
  hh :: w32

definition initial_hash :: hash_state where
  "initial_hash = \<lparr>ha = 0x6a09e667, hb = 0xbb67ae85, hc = 0x3c6ef372, hd' = 0xa54ff53a,
     he = 0x510e527f, hf = 0x9b05688c, hg = 0x1f83d9ab, hh = 0x5be0cd19\<rparr>"

definition rotr :: "nat \<Rightarrow> w32 \<Rightarrow> w32" where
  "rotr n x = drop_bit n x OR push_bit (32 - n) x"

definition small_sigma0 :: "w32 \<Rightarrow> w32" where
  "small_sigma0 x = (rotr 7 x XOR rotr 18 x) XOR drop_bit 3 x"

definition small_sigma1 :: "w32 \<Rightarrow> w32" where
  "small_sigma1 x = (rotr 17 x XOR rotr 19 x) XOR drop_bit 10 x"

definition big_sigma0 :: "w32 \<Rightarrow> w32" where
  "big_sigma0 x = (rotr 2 x XOR rotr 13 x) XOR rotr 22 x"

definition big_sigma1 :: "w32 \<Rightarrow> w32" where
  "big_sigma1 x = (rotr 6 x XOR rotr 11 x) XOR rotr 25 x"

definition ch :: "w32 \<Rightarrow> w32 \<Rightarrow> w32 \<Rightarrow> w32" where
  "ch x y z = (x AND y) XOR (NOT x AND z)"

definition maj :: "w32 \<Rightarrow> w32 \<Rightarrow> w32 \<Rightarrow> w32" where
  "maj x y z = ((x AND y) XOR (x AND z)) XOR (y AND z)"

text \<open>The message schedule, held with the newest word first: word \<open>t\<close> comes from the
  words \<open>t - 2\<close>, \<open>t - 7\<close>, \<open>t - 15\<close> and \<open>t - 16\<close>.\<close>

fun extend_schedule :: "nat \<Rightarrow> w32 list \<Rightarrow> w32 list" where
  "extend_schedule 0 ws = ws"
| "extend_schedule (Suc n) ws =
     extend_schedule n
       ((small_sigma1 (ws ! 1) + ws ! 6 + small_sigma0 (ws ! 14) + ws ! 15) # ws)"

definition schedule :: "w32 list \<Rightarrow> w32 list" where
  "schedule block = rev (extend_schedule 48 (rev block))"

definition round_step :: "hash_state \<Rightarrow> w32 \<times> w32 \<Rightarrow> hash_state" where
  "round_step s kw =
     (let t1 = hh s + big_sigma1 (he s) + ch (he s) (hf s) (hg s) + fst kw + snd kw;
          t2 = big_sigma0 (ha s) + maj (ha s) (hb s) (hc s)
      in \<lparr>ha = t1 + t2, hb = ha s, hc = hb s, hd' = hc s,
          he = hd' s + t1, hf = he s, hg = hf s, hh = hg s\<rparr>)"

definition compress :: "hash_state \<Rightarrow> w32 list \<Rightarrow> hash_state" where
  "compress s block =
     (let r = foldl round_step s (zip round_constants (schedule block))
      in \<lparr>ha = ha s + ha r, hb = hb s + hb r, hc = hc s + hc r, hd' = hd' s + hd' r,
          he = he s + he r, hf = hf s + hf r, hg = hg s + hg r, hh = hh s + hh r\<rparr>)"

text \<open>Padding: one bit, zeros up to a multiple of 64 bytes, the bit length in 8 bytes.\<close>

definition pad_message :: "string \<Rightarrow> string" where
  "pad_message s = s @ [char_of (0x80::nat)] @
     replicate ((119 - length s mod 64) mod 64) (char_of (0::nat)) @
     be_bytes 8 (8 * length s)"

fun words_of :: "string \<Rightarrow> w32 list" where
  "words_of (a # b # c # d # s) = of_nat (be_value [a, b, c, d]) # words_of s"
| "words_of _ = []"

fun compress_all :: "nat \<Rightarrow> hash_state \<Rightarrow> w32 list \<Rightarrow> hash_state" where
  "compress_all 0 s ws = s"
| "compress_all (Suc n) s ws = compress_all n (compress s (take 16 ws)) (drop 16 ws)"

definition digest_bytes :: "hash_state \<Rightarrow> string" where
  "digest_bytes s = concat (map (\<lambda>w. be_bytes 4 (unat w))
     [ha s, hb s, hc s, hd' s, he s, hf s, hg s, hh s])"

definition sha256 :: "string \<Rightarrow> string" where
  "sha256 s =
     (let ws = words_of (pad_message s)
      in digest_bytes (compress_all (length ws div 16) initial_hash ws))"

lemma length_sha256 [simp]: "length (sha256 s) = 32"
  by (simp add: sha256_def digest_bytes_def Let_def)

lemma length_pad_message: "length (pad_message s) mod 64 = 0"
proof -
  define q m where "q = length s div 64" and "m = length s mod 64"
  have n: "length s = 64 * q + m" and m: "m < 64"
    by (simp_all add: q_def m_def)
  have "length (pad_message s) = 64 * q + m + 1 + (119 - m) mod 64 + 8"
    using m by (simp add: pad_message_def n)
  moreover have "m + 1 + (119 - m) mod 64 + 8 = (if m \<le> 55 then 64 else 128)"
  proof (cases "m \<le> 55")
    case True
    then have "119 - m = 64 + (55 - m)" by simp
    then have "(119 - m) mod 64 = 55 - m" using True by (simp only: mod_add_self1 mod_less)
    with True show ?thesis by simp
  next
    case False
    with m show ?thesis by simp
  qed
  ultimately have "length (pad_message s) = 64 * (q + (if m \<le> 55 then 1 else 2))" by simp
  then show ?thesis by simp
qed

lemma length_words_of: "length (words_of s) = length s div 4"
  by (induction s rule: words_of.induct) auto

text \<open>So every padded byte is hashed: the blocks of 16 words cover the message.\<close>

lemma words_of_blocks: "16 * (length (words_of (pad_message s)) div 16) = length (words_of (pad_message s))"
proof -
  obtain k where "length (pad_message s) = 64 * k"
    using length_pad_message [of s] by (metis mod_0_imp_dvd dvdE)
  then show ?thesis by (simp add: length_words_of)
qed

section \<open>Hashing several fields\<close>

text \<open>Two different byte streams with the same hash.\<close>

definition sha256_collision :: "string \<Rightarrow> string \<Rightarrow> bool" where
  "sha256_collision a b = (a \<noteq> b \<and> sha256 a = sha256 b)"

locale framing =
  fixes frame :: "'f list \<Rightarrow> string"
    and admissible :: "'f list \<Rightarrow> bool"
  assumes frame_inject: "admissible xs \<Longrightarrow> admissible ys \<Longrightarrow> frame xs = frame ys \<Longrightarrow> xs = ys"
begin

lemma digest_determines:
  assumes "admissible xs" "admissible ys" "sha256 (frame xs) = sha256 (frame ys)"
  shows "xs = ys \<or> sha256_collision (frame xs) (frame ys)"
  using assms frame_inject by (auto simp: sha256_collision_def)

end

end
