(* ===== verification/Failure.thy ===== *)
theory Failure
  imports GoText
begin

text \<open>
  Package \<^verbatim>\<open>internal/failure\<close>: the published failure codes, the first-match
  classification of a service error (\<open>Classify\<close>), the step names put on errors
  (\<open>Op\<close>) and the rendering of an error chain for a log record (\<open>ClassChain\<close>).

  The lemmas show that \<open>Classify\<close> answers with the first mapper that claims the error
  and never with an unpublished code, that \<open>Op\<close> hides nothing from \<^verbatim>\<open>errors.Is\<close>, and
  that a rendered chain has a bounded number of links and carries no message text: two
  errors that differ only in their texts render alike.
\<close>

section \<open>failure.go\<close>

type_synonym code = string

definition CodeBadRequest :: code where [simp]: "CodeBadRequest = ''bad_request''"
definition CodeUnauthorized :: code where [simp]: "CodeUnauthorized = ''unauthorized''"
definition CodeForbidden :: code where [simp]: "CodeForbidden = ''forbidden''"
definition CodeNotFound :: code where [simp]: "CodeNotFound = ''not_found''"
definition CodeMethodNotAllowed :: code where [simp]: "CodeMethodNotAllowed = ''method_not_allowed''"
definition CodeAlreadyExists :: code where [simp]: "CodeAlreadyExists = ''already_exists''"
definition CodeRequestEntityTooLarge :: code where
  [simp]: "CodeRequestEntityTooLarge = ''request_entity_too_large''"
definition CodeRequestHeaderFieldsTooLarge :: code where
  [simp]: "CodeRequestHeaderFieldsTooLarge = ''request_header_fields_too_large''"
definition CodeUnprocessableContent :: code where
  [simp]: "CodeUnprocessableContent = ''unprocessable_content''"
definition CodeTooManyRequests :: code where [simp]: "CodeTooManyRequests = ''too_many_requests''"
definition CodeIdempotencyKeyMismatch :: code where
  [simp]: "CodeIdempotencyKeyMismatch = ''idempotency_key_mismatch''"
definition CodeIdempotencyUnavailable :: code where
  [simp]: "CodeIdempotencyUnavailable = ''idempotency_unavailable''"
definition CodeIdempotencyOutcomeUnknown :: code where
  [simp]: "CodeIdempotencyOutcomeUnknown = ''idempotency_outcome_unknown''"
definition CodeInternalError :: code where [simp]: "CodeInternalError = ''internal_error''"
definition CodeServiceUnavailable :: code where [simp]: "CodeServiceUnavailable = ''service_unavailable''"
definition CodeGatewayTimeout :: code where [simp]: "CodeGatewayTimeout = ''gateway_timeout''"

definition AllCodes :: "code list" where
  "AllCodes =
    [CodeBadRequest, CodeUnauthorized, CodeForbidden, CodeNotFound, CodeMethodNotAllowed,
     CodeAlreadyExists, CodeRequestEntityTooLarge, CodeRequestHeaderFieldsTooLarge,
     CodeUnprocessableContent, CodeTooManyRequests, CodeIdempotencyKeyMismatch,
     CodeIdempotencyUnavailable, CodeIdempotencyOutcomeUnknown, CodeInternalError,
     CodeServiceUnavailable, CodeGatewayTimeout]"

definition SanitizedDetail :: string where "SanitizedDetail = ''request failed''"
definition AtCapacityDetail :: string where "AtCapacityDetail = ''server is at capacity''"

record classification =
  class_Code :: code
  class_Detail :: string
  class_RetryAfter :: duration

definition zero_classification :: classification where
  "zero_classification = \<lparr>class_Code = '''', class_Detail = '''', class_RetryAfter = 0\<rparr>"

text \<open>A mapper returns a classification and whether it claims the error; a nil entry of
  the mapper slice is \<open>None\<close>.\<close>

type_synonym mapper = "go_error option \<Rightarrow> classification \<times> bool"

fun Classify :: "go_error option \<Rightarrow> mapper option list \<Rightarrow> classification \<times> bool" where
  "Classify err [] = (zero_classification, False)"
| "Classify err (None # mappers) = Classify err mappers"
| "Classify err (Some classify # mappers) =
     (case classify err of
        (classified, ok) \<Rightarrow>
          if ok then
            (if \<not> List.member AllCodes (class_Code classified) then (zero_classification, False)
             else (classified, True))
          else Classify err mappers)"

section \<open>error\_chain.go\<close>

definition classChainDepth :: nat where "classChainDepth = 8"
definition maxOpNameRunes :: nat where "maxOpNameRunes = 64"

abbreviation op_error_type :: string where "op_error_type \<equiv> ''*failure.opError''"

abbreviation opError :: "string \<Rightarrow> go_error \<Rightarrow> go_error" where
  "opError op err \<equiv> WrapTyped op_error_type op err"

definition Op :: "string \<Rightarrow> go_error option \<Rightarrow> go_error option" where
  "Op name err =
     (case err of None \<Rightarrow> None
      | Some e \<Rightarrow> let name = trim_space name in if name = '''' then Some e else Some (opError name e))"

text \<open>\<^verbatim>\<open>fmt.Sprintf("%T", err)\<close>.\<close>

fun go_type :: "go_error \<Rightarrow> string" where
  "go_type (Sentinel n) = ''*errors.errorString''"
| "go_type (Fresh m) = ''*errors.errorString''"
| "go_type (Typed t i) = t"
| "go_type (WrapFmt m e) = ''*fmt.wrapError''"
| "go_type (WrapTyped t i e) = t"
| "go_type (WrapMulti t m es) = t"

definition cut_op_name :: "string \<Rightarrow> string" where
  "cut_op_name op =
     (if length op \<le> maxOpNameRunes then op
      else let rs = runes op
           in if length rs \<le> maxOpNameRunes then op
              else string_of_runes (take maxOpNameRunes rs) @ ellipsis)"

fun chainLink :: "go_error \<Rightarrow> string" where
  "chainLink (WrapTyped t op e) = (if t = op_error_type then cut_op_name op else t)"
| "chainLink e = go_type e"

text \<open>The loop of \<^verbatim>\<open>ClassChain\<close>: the links rendered so far and the error that is left
  when the depth is used up.\<close>

fun class_loop :: "nat \<Rightarrow> go_error option \<Rightarrow> string list \<times> go_error option" where
  "class_loop depth None = ([], None)"
| "class_loop 0 (Some err) = ([], Some err)"
| "class_loop (Suc depth) (Some err) =
     (case class_loop depth (errors_unwrap err) of (classes, rest) \<Rightarrow> (chainLink err # classes, rest))"

definition class_links :: "go_error \<Rightarrow> string list" where
  "class_links err =
     (case class_loop classChainDepth (Some err) of
        (classes, rest) \<Rightarrow> classes @ (if rest \<noteq> None then [''...''] else []))"

definition ClassChain :: "go_error option \<Rightarrow> string" where
  "ClassChain err =
     (case err of None \<Rightarrow> ''nil'' | Some e \<Rightarrow> str_join '' -> '' (class_links e))"

section \<open>Classification\<close>

text \<open>The reference: collect what every non-nil mapper answers, keep the claims, take the
  first one and refuse it when its code is not published.\<close>

definition claims :: "go_error option \<Rightarrow> mapper option list \<Rightarrow> classification list" where
  "claims err mappers =
     map fst (filter snd (map (\<lambda>f. f err) (List.map_filter (\<lambda>m. m) mappers)))"

lemma claims_simps [simp]:
  "claims err [] = []"
  "claims err (None # ms) = claims err ms"
  "claims err (Some f # ms) = (if snd (f err) then [fst (f err)] else []) @ claims err ms"
  by (simp_all add: claims_def map_filter_simps)

lemma Classify_eq_claims:
  "Classify err mappers =
     (case claims err mappers of [] \<Rightarrow> (zero_classification, False)
      | c # _ \<Rightarrow> if class_Code c \<in> set AllCodes then (c, True) else (zero_classification, False))"
  by (induction err mappers rule: Classify.induct) (auto split: prod.splits)

lemma AllCodes_distinct: "distinct AllCodes"
  by (simp add: AllCodes_def)

section \<open>Error chains\<close>

lemma errors_is_Op: "is_leaf t \<Longrightarrow> errors_is_opt (Op name err) t = errors_is_opt err t"
  by (cases err) (auto simp: Op_def errors_is_opt_def Let_def)

lemma length_class_loop: "length (fst (class_loop depth err)) \<le> depth"
  by (induction depth err rule: class_loop.induct) (auto split: prod.splits)

lemma length_class_links: "length (class_links err) \<le> classChainDepth + 1"
  using length_class_loop [of classChainDepth "Some err"]
  by (auto simp: class_links_def split: prod.splits)

lemma runes_append_string: "list_all valid_rune rs \<Longrightarrow> runes (string_of_runes rs @ s) = rs @ runes s"
  by (induction rs) (auto simp: runes_def string_of_runes_def rune_chunks_encode_rune
      simp del: encode_rune.simps)

lemma runes_ellipsis: "runes ellipsis = [0x2026]"
  using runes_string_of_runes [of "[0x2026]"]
  by (simp add: string_of_runes_def ellipsis_def valid_rune_def between_def)

lemma list_all_take: "list_all P xs \<Longrightarrow> list_all P (take n xs)"
  by (metis append_take_drop_id list_all_append)

lemma length_cut_op_name: "length (runes (cut_op_name op)) \<le> maxOpNameRunes + 1"
proof (cases "length op \<le> maxOpNameRunes \<or> length (runes op) \<le> maxOpNameRunes")
  case True
  then show ?thesis
    using length_runes_le [of op] by (auto simp: cut_op_name_def Let_def)
next
  case False
  then have "runes (cut_op_name op) = take maxOpNameRunes (runes op) @ [0x2026]"
    by (simp add: cut_op_name_def Let_def runes_append_string list_all_take runes_valid runes_ellipsis)
  then show ?thesis by simp
qed

text \<open>What a record may depend on: the types of the layers and the literal names given
  to \<open>Op\<close>. Message texts, sentinel identities, field values and the branches of a
  joined error are erased.\<close>

fun erase_text :: "go_error \<Rightarrow> go_error" where
  "erase_text (Sentinel n) = Fresh ''''"
| "erase_text (Fresh m) = Fresh ''''"
| "erase_text (Typed t i) = Typed t ''''"
| "erase_text (WrapFmt m e) = WrapFmt '''' (erase_text e)"
| "erase_text (WrapTyped t i e) =
     WrapTyped t (if t = op_error_type then i else '''') (erase_text e)"
| "erase_text (WrapMulti t m es) = WrapMulti t '''' []"

lemma chainLink_erase: "chainLink (erase_text e) = chainLink e"
  by (cases e) auto

lemma errors_unwrap_erase: "errors_unwrap (erase_text e) = map_option erase_text (errors_unwrap e)"
  by (cases e) auto

lemma class_loop_erase:
  "class_loop depth (map_option erase_text err) =
     (case class_loop depth err of (classes, rest) \<Rightarrow> (classes, map_option erase_text rest))"
  by (induction depth err rule: class_loop.induct)
    (auto simp: chainLink_erase errors_unwrap_erase split: prod.splits)

lemma class_links_erase: "class_links (erase_text e) = class_links e"
  using class_loop_erase [of classChainDepth "Some e"]
  by (auto simp: class_links_def split: prod.splits)

lemma ClassChain_erase: "ClassChain (map_option erase_text err) = ClassChain err"
  by (cases err) (simp_all add: ClassChain_def class_links_erase)

section \<open>Properties\<close>

text \<open>\<open>Classify\<close> returns a classification exactly when the first non-nil mapper that
  claims the error claims it with a published code, and it is that mapper's
  classification; in every other case (no claim, or a first claim with an unpublished
  code, whatever later mappers would say) it returns the zero classification and false.\<close>

theorem classify_first_claim:
  "(Classify err mappers = (c, True) \<longleftrightarrow>
     class_Code c \<in> set AllCodes \<and> (\<exists>later. claims err mappers = c # later)) \<and>
   (snd (Classify err mappers) = False \<longleftrightarrow> Classify err mappers = (zero_classification, False))"
  by (auto simp: Classify_eq_claims split: list.splits if_splits)

text \<open>C18: What \<open>ClassChain\<close> renders depends only on the types of the layers and on the
  names given to \<open>Op\<close>: two errors that differ in message text, in the values they carry
  or in the branches of a joined error give the same log text.\<close>

theorem class_chain_carries_no_text:
  "map_option erase_text err = map_option erase_text err' \<Longrightarrow> ClassChain err = ClassChain err'"
  by (metis ClassChain_erase)

lemma class_chain_carries_no_text_witness:
  "ClassChain (Some (WrapFmt ''dial postgres://u:hunter2@db'' (Typed ''*pgconn.PgError'' ''28P01''))) =
   ClassChain (Some (WrapFmt ''ping'' (Typed ''*pgconn.PgError'' ''57P03'')))"
  by (rule class_chain_carries_no_text) simp

text \<open>A rendered chain is a non-empty list of at most nine links joined by arrows, and
  the link of a layer named by \<open>Op\<close> has at most 65 runes however long the name is, so
  the record has a bounded size for any error chain.\<close>

theorem class_chain_bounded:
  "ClassChain (Some err) = str_join '' -> '' (class_links err) \<and>
   class_links err \<noteq> [] \<and> length (class_links err) \<le> 9 \<and>
   length (runes (chainLink (opError name err))) \<le> 65"
proof -
  have "class_links err \<noteq> []"
    by (auto simp: class_links_def classChainDepth_def numeral_eq_Suc split: prod.splits)
  moreover have "length (class_links err) \<le> 9"
    using length_class_links [of err] by (simp add: classChainDepth_def)
  moreover have "length (runes (chainLink (opError name err))) \<le> 65"
    using length_cut_op_name [of name] by (simp add: maxOpNameRunes_def)
  ultimately show ?thesis by (simp add: ClassChain_def)
qed

end
