(* ===== verification/Problem.thy ===== *)
theory Problem
  imports Failure
begin

text \<open>
  Package \<^verbatim>\<open>internal/problem\<close>: the catalog of published HTTP problems and its lookups.
  The lemmas show that the catalog has one entry per code, covers every code of
  \<^verbatim>\<open>internal/failure\<close>, uses only error statuses, and that the fallback lookup is total.
\<close>

definition conflictTitle :: string where "conflictTitle = ''conflict''"
definition conflictTypeURI :: string where
  "conflictTypeURI = ''https://www.rfc-editor.org/rfc/rfc9110#section-15.5.10''"
definition unprocessableContentTitle :: string where
  "unprocessableContentTitle = ''unprocessable content''"
definition unprocessableContentTypeURI :: string where
  "unprocessableContentTypeURI = ''https://www.rfc-editor.org/rfc/rfc9110#section-15.5.21''"
definition serviceUnavailableTitle :: string where
  "serviceUnavailableTitle = ''service unavailable''"
definition serviceUnavailableTypeURI :: string where
  "serviceUnavailableTypeURI = ''https://www.rfc-editor.org/rfc/rfc9110#section-15.6.4''"

text \<open>The problem codes are the failure codes and the one HTTP-only code.\<close>

definition CodeConflict :: code where [simp]: "CodeConflict = ''conflict''"

record definition_entry =
  def_Code :: code
  def_Title :: string
  def_TypeURI :: string
  def_Status :: nat

definition entry :: "code \<Rightarrow> nat \<Rightarrow> string \<Rightarrow> string \<Rightarrow> definition_entry" where
  "entry code status title uri =
     \<lparr>def_Code = code, def_Title = title, def_TypeURI = uri, def_Status = status\<rparr>"

definition catalog :: "definition_entry list" where
  "catalog =
    [entry CodeBadRequest 400 ''bad request''
       ''https://www.rfc-editor.org/rfc/rfc9110#section-15.5.1'',
     entry CodeUnauthorized 401 ''unauthorized''
       ''https://www.rfc-editor.org/rfc/rfc9110#section-15.5.2'',
     entry CodeForbidden 403 ''forbidden''
       ''https://www.rfc-editor.org/rfc/rfc9110#section-15.5.4'',
     entry CodeNotFound 404 ''not found''
       ''https://www.rfc-editor.org/rfc/rfc9110#section-15.5.5'',
     entry CodeMethodNotAllowed 405 ''method not allowed''
       ''https://www.rfc-editor.org/rfc/rfc9110#section-15.5.6'',
     entry CodeConflict 409 conflictTitle conflictTypeURI,
     entry CodeAlreadyExists 409 conflictTitle conflictTypeURI,
     entry CodeRequestEntityTooLarge 413 ''request entity too large''
       ''https://www.rfc-editor.org/rfc/rfc9110#section-15.5.14'',
     entry CodeRequestHeaderFieldsTooLarge 431 ''request header fields too large''
       ''https://www.rfc-editor.org/rfc/rfc6585#section-5'',
     entry CodeUnprocessableContent 422 unprocessableContentTitle unprocessableContentTypeURI,
     entry CodeTooManyRequests 429 ''too many requests''
       ''https://www.rfc-editor.org/rfc/rfc6585#section-4'',
     entry CodeIdempotencyKeyMismatch 422 unprocessableContentTitle unprocessableContentTypeURI,
     entry CodeIdempotencyUnavailable 503 serviceUnavailableTitle serviceUnavailableTypeURI,
     entry CodeIdempotencyOutcomeUnknown 503 serviceUnavailableTitle serviceUnavailableTypeURI,
     entry CodeInternalError 500 ''internal server error''
       ''https://www.rfc-editor.org/rfc/rfc9110#section-15.6.1'',
     entry CodeServiceUnavailable 503 serviceUnavailableTitle serviceUnavailableTypeURI,
     entry CodeGatewayTimeout 504 ''gateway timeout''
       ''https://www.rfc-editor.org/rfc/rfc9110#section-15.6.5'']"

definition ForCode :: "code \<Rightarrow> definition_entry option" where
  "ForCode code = find (\<lambda>d. def_Code d = code) catalog"

text \<open>\<^verbatim>\<open>internalError, _ := ForCode(CodeInternalError)\<close> discards the flag; the zero
  \<^verbatim>\<open>Definition\<close> would be the value of a missing entry.\<close>

definition zero_entry :: definition_entry where
  "zero_entry = entry '''' 0 '''' ''''"

definition ForCodeOrInternal :: "code \<Rightarrow> definition_entry" where
  "ForCodeOrInternal code =
     (case ForCode code of Some d \<Rightarrow> d
      | None \<Rightarrow> (case ForCode CodeInternalError of Some d \<Rightarrow> d | None \<Rightarrow> zero_entry))"

definition All :: "definition_entry list" where
  "All = catalog"

lemma catalog_codes:
  "map def_Code catalog =
    [CodeBadRequest, CodeUnauthorized, CodeForbidden, CodeNotFound, CodeMethodNotAllowed,
     CodeConflict, CodeAlreadyExists, CodeRequestEntityTooLarge, CodeRequestHeaderFieldsTooLarge,
     CodeUnprocessableContent, CodeTooManyRequests, CodeIdempotencyKeyMismatch,
     CodeIdempotencyUnavailable, CodeIdempotencyOutcomeUnknown, CodeInternalError,
     CodeServiceUnavailable, CodeGatewayTimeout]"
  by (simp add: catalog_def entry_def)

lemma catalog_distinct: "distinct (map def_Code catalog)"
  by (simp add: catalog_codes)

lemma catalog_statuses: "list_all (\<lambda>d. 400 \<le> def_Status d \<and> def_Status d \<le> 504) catalog"
  by (simp add: catalog_def entry_def)

lemma ForCode_None: "ForCode code = None \<longleftrightarrow> code \<notin> set (map def_Code catalog)"
  by (auto simp: ForCode_def find_None_iff)

lemma ForCode_published: "(\<exists>d. ForCode code = Some d) \<longleftrightarrow> code \<in> set (map def_Code catalog)"
  using ForCode_None [of code] by (metis not_None_eq)

lemma ForCode_entry: "ForCode code = Some d \<Longrightarrow> d \<in> set catalog \<and> def_Code d = code"
  by (auto simp: ForCode_def find_Some_iff)

lemma ForCode_internal: "\<exists>d. ForCode CodeInternalError = Some d"
  by (simp add: ForCode_published catalog_codes)

lemma ForCodeOrInternal_in_catalog: "ForCodeOrInternal code \<in> set catalog"
  using ForCode_internal ForCode_entry
  by (fastforce simp: ForCodeOrInternal_def split: option.splits)

lemma ForCodeOrInternal_code:
  "def_Code (ForCodeOrInternal code) = (if code \<in> set (map def_Code catalog) then code else CodeInternalError)"
  using ForCode_internal ForCode_published [of code] ForCode_entry
  by (fastforce simp: ForCodeOrInternal_def split: option.splits)

lemma ForCodeOrInternal_status: "400 \<le> def_Status (ForCodeOrInternal code) \<and> def_Status (ForCodeOrInternal code) \<le> 504"
  using ForCodeOrInternal_in_catalog [of code] catalog_statuses by (auto simp: list_all_iff)

section \<open>Properties\<close>

text \<open>C19: The catalog has exactly one entry for every published failure code (and for the
  HTTP-only conflict code), so a classified failure is never rendered as a server fault
  by the fallback: the fallback lookup returns the entry of the code itself.\<close>

theorem every_failure_code_has_a_problem:
  "set (map def_Code All) = set AllCodes \<union> {CodeConflict} \<and> distinct (map def_Code All) \<and>
   list_all (\<lambda>code. ForCode code = Some (ForCodeOrInternal code) \<and>
      def_Code (ForCodeOrInternal code) = code) AllCodes"
proof -
  have codes: "set (map def_Code catalog) = set AllCodes \<union> {CodeConflict}"
    by (simp add: catalog_codes AllCodes_def insert_commute)
  moreover have "list_all (\<lambda>code. ForCode code = Some (ForCodeOrInternal code) \<and>
      def_Code (ForCodeOrInternal code) = code) AllCodes"
    unfolding list_all_iff
  proof
    fix code assume "code \<in> set AllCodes"
    with codes have "code \<in> set (map def_Code catalog)" by simp
    then show "ForCode code = Some (ForCodeOrInternal code) \<and> def_Code (ForCodeOrInternal code) = code"
      using ForCode_published [of code] ForCodeOrInternal_code [of code]
      by (auto simp: ForCodeOrInternal_def split: option.splits)
  qed
  ultimately show ?thesis by (simp add: All_def catalog_distinct)
qed

text \<open>the fallback lookup is total: for any code, published or not, it returns an
  entry of the catalog with an error status; an unpublished code gets the internal-error
  entry and never a code nothing describes.\<close>

theorem for_code_or_internal_total:
  "ForCodeOrInternal code \<in> set catalog \<and>
   400 \<le> def_Status (ForCodeOrInternal code) \<and> def_Status (ForCodeOrInternal code) \<le> 504 \<and>
   def_Code (ForCodeOrInternal code) =
     (if ForCode code = None then CodeInternalError else code)"
  using ForCodeOrInternal_in_catalog [of code] ForCodeOrInternal_status [of code]
    ForCodeOrInternal_code [of code] ForCode_published [of code]
  by auto

end
