(* ===== verification/Background.thy ===== *)
theory Background
  imports GoBase
begin

text \<open>
  Package \<^verbatim>\<open>internal/background\<close>: the supervisor of long-lived tasks. Its state is a
  record, every method is a definition on it, and \<open>sup_step\<close> interleaves them the way
  the goroutines of the process can: the caller that starts tasks, each task's own
  goroutine (which returns from \<^verbatim>\<open>Run\<close>, then records its stop, then leaves the group),
  the readers of \<^verbatim>\<open>FirstFailure\<close> and the one effective \<^verbatim>\<open>Shutdown\<close>.

  \<^verbatim>\<open>errgroup.Group\<close> is a third-party type. It is the argument \<open>eg\<close> of the definitions, and
  \<open>errgroup_laws\<close> states what its documentation promises.

  The lemmas show that exactly the first failure is recorded and delivered, that nothing
  is recorded once the drain has begun, that a failing task cancels no sibling, that a
  task ending while the process serves fails readiness, and that a join reports every
  accepted task.
\<close>

section \<open>State\<close>

definition ErrPanic :: go_error where "ErrPanic = Sentinel ''background.ErrPanic''"
definition ErrTaskFailed :: go_error where "ErrTaskFailed = Sentinel ''background.ErrTaskFailed''"
definition ErrTaskStopped :: go_error where "ErrTaskStopped = Sentinel ''background.ErrTaskStopped''"

text \<open>What one call of a task's \<^verbatim>\<open>Run\<close> does in the end.\<close>

datatype run_outcome = Returned "go_error option" | Panicked

text \<open>A task as \<open>Go\<close> sees it: its name and whether \<^verbatim>\<open>Run\<close> is set.\<close>

record task =
  task_Name :: string
  task_has_Run :: bool

record 'g errgroup =
  eg_new :: 'g
  eg_go :: "'g \<Rightarrow> 'g"
  eg_return :: "go_error option \<Rightarrow> 'g \<Rightarrow> 'g"
  eg_wait :: "'g \<Rightarrow> go_error option option"

text \<open>
  Where a goroutine that can fail is: started by the group, inside \<^verbatim>\<open>Run\<close>, back from
  \<^verbatim>\<open>runTask\<close> with an error, past the guard of \<^verbatim>\<open>recordStop\<close>, past its compare-and-swap
  with the send still to do, or past \<^verbatim>\<open>recordStop\<close> altogether.
\<close>

datatype stage =
    Spawned string
  | Running string
  | Ended string "go_error option"
  | Passed string go_error
  | Winner string go_error
  | Recorded "go_error option"

text \<open>A goroutine is either one the group runs or a caller of \<^verbatim>\<open>Go\<close> that reports a task
  without \<^verbatim>\<open>Run\<close>.\<close>

record thread =
  th_grouped :: bool
  th_stage :: stage

text \<open>Where the body of \<^verbatim>\<open>stopOnce\<close> is: not entered, drain marked, tasks cancelled, done.\<close>

datatype shutdown_phase = NotStopped | Marked | Cancelling | Stopped

record taskFailure =
  tf_task :: string
  tf_err :: go_error

record 'g supervisor =
  s_group :: 'g
  s_tasks :: "thread list"
  s_ctxErr :: "go_error option"
  s_stopping :: bool
  s_startOnce :: bool
  s_recordedFailure :: "taskFailure option"
  s_firstFailure :: "go_error list"
  s_received :: "go_error list"
  s_phase :: shutdown_phase
  s_stopErr :: "go_error option"
  s_log :: "(string \<times> string) list"

definition log_event :: "string \<Rightarrow> string \<Rightarrow> 'g supervisor \<Rightarrow> 'g supervisor" where
  "log_event msg name s = s\<lparr>s_log := s_log s @ [(msg, name)]\<rparr>"

section \<open>Operations\<close>

text \<open>\<^verbatim>\<open>New\<close>: the task context starts with the error its parent context already has.\<close>

definition New :: "'g errgroup \<Rightarrow> go_error option \<Rightarrow> 'g supervisor" where
  "New eg parentErr =
     \<lparr>s_group = eg_new eg, s_tasks = [], s_ctxErr = parentErr, s_stopping = False, s_startOnce = False,
      s_recordedFailure = None, s_firstFailure = [], s_received = [], s_phase = NotStopped,
      s_stopErr = None, s_log = []\<rparr>"

definition taskFailureError :: "taskFailure \<Rightarrow> go_error" where
  "taskFailureError f = errorf2 (tf_task f) ErrTaskFailed (tf_err f)"

text \<open>The causes of the first error in the chain that has several
  (\<^verbatim>\<open>errors.AsType[multiCauseError]\<close>).\<close>

definition multi_causes :: "go_error \<Rightarrow> go_error list option" where
  "multi_causes err = errors_as (\<lambda>e. case e of WrapMulti t m es \<Rightarrow> Some es | _ \<Rightarrow> None) err"

lemma multi_causes_simps [simp]:
  "multi_causes (Sentinel n) = None"
  "multi_causes (Fresh m) = None"
  "multi_causes (Typed t i) = None"
  "multi_causes (WrapFmt m e) = multi_causes e"
  "multi_causes (WrapTyped t i e) = multi_causes e"
  "multi_causes (WrapMulti t m es) = Some es"
  by (simp_all add: multi_causes_def)

lemma multi_causes_size: "multi_causes err = Some es \<Longrightarrow> e \<in> set es \<Longrightarrow> size e < size err"
proof (induction err)
  case (WrapMulti t m es')
  then show ?case by (auto dest: size_list_estimation' [where f = size, OF _ order_refl])
qed auto

lemma errors_unwrap_size: "errors_unwrap err = Some e \<Longrightarrow> size e < size err"
  by (cases err) auto

function matchesOnly :: "go_error \<Rightarrow> go_error \<Rightarrow> bool" where
  "matchesOnly err target =
     (if \<not> errors_is err target then False
      else case multi_causes err of
             Some causes \<Rightarrow> list_all (\<lambda>cause. matchesOnly cause target) causes
           | None \<Rightarrow> (case errors_unwrap err of Some cause \<Rightarrow> matchesOnly cause target | None \<Rightarrow> True))"
  by pat_completeness auto
termination
  by (relation "measure (\<lambda>(err, target). size err)") (auto dest: multi_causes_size errors_unwrap_size)

declare matchesOnly.simps [simp del]

text \<open>\<^verbatim>\<open>runTask\<close> after \<^verbatim>\<open>run\<close> came back: the error the task's goroutine goes on with, and
  the record it writes.\<close>

definition runTask :: "go_error option \<Rightarrow> string \<Rightarrow> run_outcome \<Rightarrow> go_error option \<times> string" where
  "runTask ctxErr name outcome =
     (case outcome of
        Panicked \<Rightarrow> (Some (WrapFmt name ErrPanic), ''background_task_panic'')
      | Returned (Some err) \<Rightarrow>
          (case ctxErr of
             Some taskErr \<Rightarrow>
               if matchesOnly err taskErr then (None, ''background_task_canceled'')
               else (Some (WrapFmt name err), ''background_task_failed'')
           | None \<Rightarrow> (Some (WrapFmt name err), ''background_task_failed''))
      | Returned None \<Rightarrow>
          if ctxErr \<noteq> None then (None, ''background_task_stopped'')
          else (Some (WrapFmt name ErrTaskStopped), ''background_task_failed''))"

text \<open>
  \<^verbatim>\<open>recordStop\<close>, one definition per access to shared state: the guard, the
  compare-and-swap that only an empty slot lets win, and the winner's send on the
  channel of capacity one. The send is \<open>None\<close> where it would block.
\<close>

definition recordStop_guard :: "string \<Rightarrow> go_error option \<Rightarrow> 'g supervisor \<Rightarrow> stage" where
  "recordStop_guard name err s =
     (case err of
        None \<Rightarrow> Recorded None
      | Some e \<Rightarrow> if s_stopping s \<or> s_ctxErr s \<noteq> None then Recorded (Some e) else Passed name e)"

definition recordStop_swap :: "string \<Rightarrow> go_error \<Rightarrow> 'g supervisor \<Rightarrow> stage \<times> 'g supervisor" where
  "recordStop_swap name err s =
     (if s_recordedFailure s = None
      then (Winner name err, s\<lparr>s_recordedFailure := Some \<lparr>tf_task = name, tf_err = err\<rparr>\<rparr>)
      else (Recorded (Some err), s))"

definition recordStop_send :: "string \<Rightarrow> go_error \<Rightarrow> 'g supervisor \<Rightarrow> 'g supervisor option" where
  "recordStop_send name err s =
     (if length (s_firstFailure s) < 1
      then Some (s\<lparr>s_firstFailure := s_firstFailure s @ [taskFailureError \<lparr>tf_task = name, tf_err = err\<rparr>]\<rparr>)
      else None)"

definition Go :: "'g errgroup \<Rightarrow> task \<Rightarrow> 'g supervisor \<Rightarrow> 'g supervisor" where
  "Go eg task s =
     (let name = (if task_Name task = '''' then ''unnamed'' else task_Name task)
      in if \<not> task_has_Run task
         then (log_event ''background_task_invalid'' name s)
                \<lparr>s_tasks := s_tasks s @ [\<lparr>th_grouped = False, th_stage = Ended name (Some (Fresh ''run is nil''))\<rparr>]\<rparr>
         else if s_stopping s
         then log_event ''background_task_invalid'' name s
         else s\<lparr>s_group := eg_go eg (s_group s),
                s_tasks := s_tasks s @ [\<lparr>th_grouped = True, th_stage = Spawned name\<rparr>]\<rparr>)"

text \<open>The body of the goroutine \<^verbatim>\<open>Go\<close> starts: \<open>task_starts\<close> writes the two start records,
  \<open>run_ends\<close> is \<^verbatim>\<open>runTask\<close> returning, then come the three parts of \<^verbatim>\<open>recordStop\<close>, and
  \<open>task_leaves\<close> returns the error into the group.\<close>

definition set_stage :: "nat \<Rightarrow> stage \<Rightarrow> 'g supervisor \<Rightarrow> 'g supervisor" where
  "set_stage i st s = s\<lparr>s_tasks := (s_tasks s)[i := (s_tasks s ! i)\<lparr>th_stage := st\<rparr>]\<rparr>"

definition task_starts :: "nat \<Rightarrow> string \<Rightarrow> 'g supervisor \<Rightarrow> 'g supervisor" where
  "task_starts i name s =
     (let s1 = (if s_startOnce s then s
                else (log_event ''background_supervisor_started'' '''' s)\<lparr>s_startOnce := True\<rparr>)
      in set_stage i (Running name) (log_event ''background_task_started'' name s1))"

definition run_ends :: "nat \<Rightarrow> string \<Rightarrow> run_outcome \<Rightarrow> 'g supervisor \<Rightarrow> 'g supervisor" where
  "run_ends i name outcome s =
     (case runTask (s_ctxErr s) name outcome of
        (err, msg) \<Rightarrow> set_stage i (Ended name err) (log_event msg name s))"

definition task_guard :: "nat \<Rightarrow> string \<Rightarrow> go_error option \<Rightarrow> 'g supervisor \<Rightarrow> 'g supervisor" where
  "task_guard i name err s = set_stage i (recordStop_guard name err s) s"

definition task_swap :: "nat \<Rightarrow> string \<Rightarrow> go_error \<Rightarrow> 'g supervisor \<Rightarrow> 'g supervisor" where
  "task_swap i name err s = (case recordStop_swap name err s of (st, s1) \<Rightarrow> set_stage i st s1)"

definition task_send :: "nat \<Rightarrow> string \<Rightarrow> go_error \<Rightarrow> 'g supervisor \<Rightarrow> 'g supervisor option" where
  "task_send i name err s = map_option (set_stage i (Recorded (Some err))) (recordStop_send name err s)"

definition remove_nth :: "nat \<Rightarrow> 'a list \<Rightarrow> 'a list" where
  "remove_nth i xs = take i xs @ drop (Suc i) xs"

definition task_leaves :: "'g errgroup \<Rightarrow> nat \<Rightarrow> go_error option \<Rightarrow> 'g supervisor \<Rightarrow> 'g supervisor" where
  "task_leaves eg i err s =
     s\<lparr>s_group := (if th_grouped (s_tasks s ! i) then eg_return eg err (s_group s) else s_group s),
       s_tasks := remove_nth i (s_tasks s)\<rparr>"

text \<open>\<^verbatim>\<open>FirstFailure\<close> hands out the channel: a receive takes the buffered value.\<close>

definition receive_failure :: "'g supervisor \<Rightarrow> 'g supervisor" where
  "receive_failure s =
     (case s_firstFailure s of [] \<Rightarrow> s
      | e # es \<Rightarrow> s\<lparr>s_firstFailure := es, s_received := s_received s @ [e]\<rparr>)"

definition Check :: "'g supervisor \<Rightarrow> go_error option" where
  "Check s = map_option taskFailureError (s_recordedFailure s)"

text \<open>\<^verbatim>\<open>Shutdown\<close>: the body of \<^verbatim>\<open>stopOnce\<close> in its three parts. The store of \<^verbatim>\<open>stopping\<close> is
  under the mutex \<^verbatim>\<open>Go\<close> holds, so the two never overlap.\<close>

definition shutdown_mark :: "'g supervisor \<Rightarrow> 'g supervisor" where
  "shutdown_mark s = s\<lparr>s_stopping := True, s_phase := Marked\<rparr>"

definition shutdown_cancel :: "'g supervisor \<Rightarrow> 'g supervisor" where
  "shutdown_cancel s =
     s\<lparr>s_ctxErr := (case s_ctxErr s of None \<Rightarrow> Some Canceled | Some e \<Rightarrow> Some e), s_phase := Cancelling\<rparr>"

definition finish_stop :: "go_error option \<Rightarrow> 'g supervisor \<Rightarrow> 'g supervisor" where
  "finish_stop err s =
     log_event (if err \<noteq> None then ''background_shutdown_failed'' else ''background_shutdown_completed'') ''''
       (s\<lparr>s_stopErr := err, s_phase := Stopped\<rparr>)"

definition shutdown_join :: "'g errgroup \<Rightarrow> 'g supervisor \<Rightarrow> 'g supervisor option" where
  "shutdown_join eg s = map_option (\<lambda>err. finish_stop err s) (eg_wait eg (s_group s))"

definition shutdown_timeout :: "go_error \<Rightarrow> 'g supervisor \<Rightarrow> 'g supervisor" where
  "shutdown_timeout ctxErr s =
     finish_stop (Some (WrapFmt ''background tasks did not stop within the shutdown budget'' ctxErr)) s"

section \<open>Interleaving\<close>

definition at_stage :: "nat \<Rightarrow> stage \<Rightarrow> 'g supervisor \<Rightarrow> bool" where
  "at_stage i st s = (i < length (s_tasks s) \<and> th_stage (s_tasks s ! i) = st)"

inductive sup_step :: "'g errgroup \<Rightarrow> 'g supervisor \<Rightarrow> 'g supervisor \<Rightarrow> bool" for eg where
  call_Go: "sup_step eg s (Go eg task s)"
| begin_task: "at_stage i (Spawned name) s \<Longrightarrow> sup_step eg s (task_starts i name s)"
| end_run: "at_stage i (Running name) s \<Longrightarrow> sup_step eg s (run_ends i name outcome s)"
| guard: "at_stage i (Ended name err) s \<Longrightarrow> sup_step eg s (task_guard i name err s)"
| swap: "at_stage i (Passed name e) s \<Longrightarrow> sup_step eg s (task_swap i name e s)"
| send: "at_stage i (Winner name e) s \<Longrightarrow> task_send i name e s = Some t \<Longrightarrow> sup_step eg s t"
| leave: "at_stage i (Recorded err) s \<Longrightarrow> sup_step eg s (task_leaves eg i err s)"
| receive: "sup_step eg s (receive_failure s)"
| parent_done: "s_ctxErr s = None \<Longrightarrow> e \<in> {Canceled, DeadlineExceeded} \<Longrightarrow>
    sup_step eg s (s\<lparr>s_ctxErr := Some e\<rparr>)"
| stop_mark: "s_phase s = NotStopped \<Longrightarrow> sup_step eg s (shutdown_mark s)"
| stop_cancel: "s_phase s = Marked \<Longrightarrow> sup_step eg s (shutdown_cancel s)"
| stop_join: "s_phase s = Cancelling \<Longrightarrow> shutdown_join eg s = Some t \<Longrightarrow> sup_step eg s t"
| stop_timeout: "s_phase s = Cancelling \<Longrightarrow> sup_step eg s (shutdown_timeout e s)"


inductive_simps sup_step_iff: "sup_step eg s t"

lemmas task_step_defs =
  log_event_def set_stage_def task_starts_def run_ends_def task_guard_def task_swap_def task_send_def
  task_leaves_def receive_failure_def recordStop_guard_def recordStop_swap_def recordStop_send_def Let_def

lemmas shutdown_step_defs =
  shutdown_mark_def shutdown_cancel_def shutdown_join_def shutdown_timeout_def finish_stop_def log_event_def

section \<open>Which causes a cancelled task may return\<close>

text \<open>The causes an error tree ends in; an error that wraps nothing is its own cause.\<close>

fun terminal_causes :: "go_error \<Rightarrow> go_error list" where
  "terminal_causes (WrapFmt m e) = terminal_causes e"
| "terminal_causes (WrapTyped t i e) = terminal_causes e"
| "terminal_causes (WrapMulti t m es) =
     (if es = [] then [WrapMulti t m es] else concat (map terminal_causes es))"
| "terminal_causes e = [e]"

lemma terminal_causes_nonempty [simp]: "terminal_causes e \<noteq> []"
proof (induction e)
  case (WrapMulti t m es)
  then show ?case by (cases es) auto
qed auto

lemma errors_is_terminal:
  "is_leaf target \<Longrightarrow> errors_is err target = (target \<in> set (terminal_causes err))"
proof (induction err)
  case (WrapMulti t m es)
  then show ?case by (auto simp: list_ex_iff)
qed auto

lemma terminal_causes_multi:
  "multi_causes err = Some es \<Longrightarrow> es \<noteq> [] \<Longrightarrow> terminal_causes err = concat (map terminal_causes es)"
  by (induction err) auto

lemma terminal_causes_multi_empty:
  "multi_causes err = Some [] \<Longrightarrow> is_leaf target \<Longrightarrow> \<not> errors_is err target"
  by (induction err) auto

lemma terminal_causes_unwrap: "errors_unwrap err = Some e \<Longrightarrow> terminal_causes err = terminal_causes e"
  by (cases err) auto

lemma terminal_causes_end:
  "multi_causes err = None \<Longrightarrow> errors_unwrap err = None \<Longrightarrow> terminal_causes err = [err]"
  by (cases err) auto

text \<open>C11: \<^verbatim>\<open>matchesOnly\<close> accepts an error for a context's terminal error exactly when every
  cause the error ends in is that terminal error, so a cleanup failure joined to the
  cancellation is never hidden, however deep it is wrapped.\<close>

theorem matches_only_iff_all_causes:
  "is_leaf target \<Longrightarrow> matchesOnly err target = (\<forall>c \<in> set (terminal_causes err). c = target)"
proof (induction err target rule: matchesOnly.induct)
  case (1 err target)
  have found: "errors_is err target = (target \<in> set (terminal_causes err))"
    using 1(3) by (rule errors_is_terminal)
  have some: "\<exists>c. c \<in> set (terminal_causes err)"
    using terminal_causes_nonempty [of err] by (meson ex_in_conv set_empty)
  show ?case
  proof (cases "errors_is err target")
    case False
    then show ?thesis using found some by (auto simp: matchesOnly.simps)
  next
    case True
    show ?thesis
    proof (cases "multi_causes err")
      case (Some es)
      then have "es \<noteq> []" using terminal_causes_multi_empty True 1 by auto
      then show ?thesis
        using 1 Some True terminal_causes_multi [OF Some]
        by (simp add: matchesOnly.simps [of err] list_all_iff)
    next
      case None
      then show ?thesis
        using 1 True found by (cases "errors_unwrap err")
          (auto simp: matchesOnly.simps [of err] terminal_causes_end terminal_causes_unwrap)
    qed
  qed
qed

lemma matches_only_iff_all_causes_witness:
  "\<not> matchesOnly (WrapFmt ''stop'' (errors_join [Canceled, Fresh ''close failed''])) Canceled
   \<and> matchesOnly (WrapFmt ''stop'' (errors_join [Canceled, WrapFmt ''read'' Canceled])) Canceled"
  by (simp add: matches_only_iff_all_causes)

section \<open>The first failure\<close>

fun send_due :: "stage \<Rightarrow> go_error list" where
  "send_due (Winner name e) = [taskFailureError \<lparr>tf_task = name, tf_err = e\<rparr>]"
| "send_due _ = []"

definition sends_due :: "'g supervisor \<Rightarrow> go_error list" where
  "sends_due s = concat (map (\<lambda>th. send_due (th_stage th)) (s_tasks s))"

definition failure_inv :: "'g supervisor \<Rightarrow> bool" where
  "failure_inv s =
     (s_received s @ s_firstFailure s @ sends_due s =
      (case s_recordedFailure s of None \<Rightarrow> [] | Some f \<Rightarrow> [taskFailureError f]))"

lemma concat_map_at:
  assumes "i < length xs"
  obtains A B where "concat (map f xs) = A @ f (xs ! i) @ B"
    and "\<And>y. concat (map f (xs[i := y])) = A @ f y @ B"
    and "concat (map f (remove_nth i xs)) = A @ B"
proof
  show "concat (map f xs) = concat (map f (take i xs)) @ f (xs ! i) @ concat (map f (drop (Suc i) xs))"
    using id_take_nth_drop [OF assms] by (metis concat.simps(2) concat_append list.simps(9) map_append)
qed (simp_all add: upd_conv_take_nth_drop assms remove_nth_def)

lemma sends_due_set_stage:
  assumes "at_stage i st s"
  obtains A B where "sends_due s = A @ send_due st @ B"
    and "\<And>st'. sends_due (set_stage i st' s) = A @ send_due st' @ B"
    and "\<And>eg err. sends_due (task_leaves eg i err s) = A @ B"
proof -
  from assms have i: "i < length (s_tasks s)" and st: "th_stage (s_tasks s ! i) = st"
    by (auto simp: at_stage_def)
  show ?thesis
    by (rule concat_map_at [OF i, of "\<lambda>th. send_due (th_stage th)"], rule that)
      (simp_all add: st sends_due_def set_stage_def task_leaves_def)
qed

lemma sends_due_cong [simp]:
  "sends_due (s_group_update f s) = sends_due s"
  "sends_due (s_ctxErr_update f1 s) = sends_due s"
  "sends_due (s_stopping_update f2 s) = sends_due s"
  "sends_due (s_startOnce_update f2 s) = sends_due s"
  "sends_due (s_recordedFailure_update f3 s) = sends_due s"
  "sends_due (s_firstFailure_update f4 s) = sends_due s"
  "sends_due (s_received_update f4 s) = sends_due s"
  "sends_due (s_phase_update f5 s) = sends_due s"
  "sends_due (s_stopErr_update f6 s) = sends_due s"
  "sends_due (s_log_update f7 s) = sends_due s"
  by (simp_all add: sends_due_def)

lemma set_stage_commute [simp]:
  "set_stage i st (s_startOnce_update f2 s) = s_startOnce_update f2 (set_stage i st s)"
  "set_stage i st (s_recordedFailure_update f3 s) = s_recordedFailure_update f3 (set_stage i st s)"
  "set_stage i st (s_firstFailure_update f4 s) = s_firstFailure_update f4 (set_stage i st s)"
  "set_stage i st (s_log_update f7 s) = s_log_update f7 (set_stage i st s)"
  by (simp_all add: set_stage_def)

lemma set_stage_select [simp]:
  "s_group (set_stage i st s) = s_group s"
  "s_ctxErr (set_stage i st s) = s_ctxErr s"
  "s_stopping (set_stage i st s) = s_stopping s"
  "s_startOnce (set_stage i st s) = s_startOnce s"
  "s_recordedFailure (set_stage i st s) = s_recordedFailure s"
  "s_firstFailure (set_stage i st s) = s_firstFailure s"
  "s_received (set_stage i st s) = s_received s"
  "s_phase (set_stage i st s) = s_phase s"
  "s_log (set_stage i st s) = s_log s"
  "length (s_tasks (set_stage i st s)) = length (s_tasks s)"
  by (simp_all add: set_stage_def)

lemma failure_inv_New: "failure_inv (New eg e)"
  by (simp add: failure_inv_def New_def sends_due_def)

lemma failure_inv_Go: "failure_inv s \<Longrightarrow> failure_inv (Go eg task s)"
  by (simp add: failure_inv_def Go_def Let_def log_event_def sends_due_def)

text \<open>A step that only moves one goroutine between stages with nothing to send.\<close>

lemma failure_inv_move:
  "failure_inv s \<Longrightarrow> at_stage i st s \<Longrightarrow> send_due st = [] \<Longrightarrow> send_due st' = [] \<Longrightarrow>
   failure_inv (set_stage i st' s)"
  by (erule sends_due_set_stage) (simp add: failure_inv_def)

lemma failure_inv_log [simp]:
  "failure_inv (s_log_update f s) = failure_inv s"
  "failure_inv (s_startOnce_update g s) = failure_inv s"
  "failure_inv (s_phase_update h s) = failure_inv s"
  "failure_inv (s_stopErr_update k s) = failure_inv s"
  "failure_inv (s_stopping_update g s) = failure_inv s"
  "failure_inv (s_ctxErr_update k s) = failure_inv s"
  by (simp_all add: failure_inv_def)

lemma send_due_guard [simp]: "send_due (recordStop_guard name err s) = []"
  by (simp add: recordStop_guard_def split: option.split)

lemma failure_inv_swap:
  "failure_inv s \<Longrightarrow> at_stage i (Passed name e) s \<Longrightarrow> failure_inv (task_swap i name e s)"
  by (erule sends_due_set_stage)
    (simp add: failure_inv_def task_swap_def recordStop_swap_def split: option.splits)

lemma failure_inv_send:
  "failure_inv s \<Longrightarrow> at_stage i (Winner name e) s \<Longrightarrow> task_send i name e s = Some t \<Longrightarrow> failure_inv t"
  by (erule sends_due_set_stage)
    (auto simp: failure_inv_def task_send_def recordStop_send_def append_eq_Cons_conv Cons_eq_append_conv
      split: option.splits if_splits)

lemma failure_inv_leave:
  "failure_inv s \<Longrightarrow> at_stage i (Recorded err) s \<Longrightarrow> failure_inv (task_leaves eg i err s)"
  by (erule sends_due_set_stage [where i = i]) (simp add: failure_inv_def, simp add: task_leaves_def)

lemma failure_inv_receive: "failure_inv s \<Longrightarrow> failure_inv (receive_failure s)"
  by (cases "s_firstFailure s") (simp_all add: failure_inv_def receive_failure_def)

lemma failure_inv_step: "failure_inv s \<Longrightarrow> sup_step eg s t \<Longrightarrow> failure_inv t"
  by (erule sup_step.cases)
    (auto simp: failure_inv_Go failure_inv_swap failure_inv_leave failure_inv_receive task_starts_def run_ends_def task_guard_def
      log_event_def Let_def shutdown_step_defs
      intro: failure_inv_move failure_inv_send split: prod.split)

interpretation failure_ts: transition_system "\<lambda>s. \<exists>e. s = New eg e" "sup_step eg" failure_inv for eg
  by unfold_locales (auto intro: failure_inv_New failure_inv_step)

lemma failure_inv_winner_sends:
  assumes "failure_inv s" "at_stage i (Winner name e) s"
  shows "s_firstFailure s = [] \<and> s_received s = []
         \<and> s_recordedFailure s \<noteq> None \<and> task_send i name e s \<noteq> None"
  using assms(2)
  by (rule sends_due_set_stage)
    (use assms(1) in \<open>auto simp: failure_inv_def task_send_def recordStop_send_def
      append_eq_Cons_conv Cons_eq_append_conv split: option.splits\<close>)

text \<open>C8: in every state the supervisor reaches, either no failure is recorded and none was
  delivered, or exactly one is recorded: readiness reports it, and the values received
  from \<^verbatim>\<open>FirstFailure\<close>, buffered in it and about to be sent to it are that one failure, once.
  The goroutine that sends it never waits: its buffer is empty.\<close>

theorem first_failure_delivered_once:
  assumes "(sup_step eg)\<^sup>*\<^sup>* (New eg parentErr) s"
  shows "s_received s @ s_firstFailure s @ sends_due s = (case Check s of None \<Rightarrow> [] | Some e \<Rightarrow> [e])
         \<and> (\<forall>i name e. at_stage i (Winner name e) s \<longrightarrow> task_send i name e s \<noteq> None)"
proof -
  have inv: "failure_inv s" using failure_ts.run_inv [OF _ assms] by blast
  then have "s_received s @ s_firstFailure s @ sends_due s = (case Check s of None \<Rightarrow> [] | Some e \<Rightarrow> [e])"
    by (simp add: failure_inv_def Check_def split: option.splits)
  then show ?thesis using failure_inv_winner_sends [OF inv] by blast
qed

text \<open>A group that counts its goroutines and keeps the first error, for the examples.\<close>

definition counting_group :: "(nat \<times> go_error option) errgroup" where
  "counting_group =
     \<lparr>eg_new = (0, None), eg_go = (\<lambda>(n, e). (Suc n, e)),
      eg_return = (\<lambda>err (n, e). (n - 1, case e of None \<Rightarrow> err | Some e' \<Rightarrow> Some e')),
      eg_wait = (\<lambda>(n, e). if n = 0 then Some e else None)\<rparr>"

definition example_running :: "(nat \<times> go_error option) supervisor" where
  "example_running =
     task_starts 0 ''relay'' (Go counting_group \<lparr>task_Name = ''relay'', task_has_Run = True\<rparr> (New counting_group None))"

definition example_won :: "(nat \<times> go_error option) supervisor" where
  "example_won =
     (let e = WrapFmt ''relay'' ErrPanic
      in task_swap 0 ''relay'' e (task_guard 0 ''relay'' (Some e) (run_ends 0 ''relay'' Panicked example_running)))"

lemmas example_defs =
  example_running_def example_won_def counting_group_def New_def Go_def task_step_defs runTask_def

lemma example_running_reached: "(sup_step counting_group)\<^sup>*\<^sup>* (New counting_group None) example_running"
  unfolding example_running_def
  by (rule rtranclp.rtrancl_into_rtrancl [OF rtranclp.rtrancl_into_rtrancl [OF rtranclp.rtrancl_refl]],
      rule sup_step.call_Go, rule sup_step.begin_task)
    (simp add: at_stage_def example_defs)

lemma example_won_reached: "(sup_step counting_group)\<^sup>*\<^sup>* (New counting_group None) example_won"
proof -
  let ?e = "WrapFmt ''relay'' ErrPanic"
  let ?ended = "run_ends 0 ''relay'' Panicked example_running"
  let ?passed = "task_guard 0 ''relay'' (Some ?e) ?ended"
  have "sup_step counting_group example_running ?ended"
    by (rule sup_step.end_run) (simp add: at_stage_def example_defs)
  moreover have "sup_step counting_group ?ended ?passed"
    by (rule sup_step.guard) (simp add: at_stage_def example_defs)
  moreover have "sup_step counting_group ?passed example_won"
    unfolding example_won_def Let_def by (rule sup_step.swap) (simp add: at_stage_def example_defs)
  ultimately show ?thesis
    using example_running_reached by (meson rtranclp.rtrancl_into_rtrancl)
qed

lemma first_failure_delivered_once_witness:
  "sends_due example_won = [errorf2 ''relay'' ErrTaskFailed (WrapFmt ''relay'' ErrPanic)]
   \<and> task_send 0 ''relay'' (WrapFmt ''relay'' ErrPanic) example_won \<noteq> None"
  using first_failure_delivered_once [OF example_won_reached]
  by (simp add: example_defs Check_def at_stage_def taskFailureError_def)

section \<open>Readiness while serving\<close>

lemma runTask_serving:
  "\<exists>e msg. runTask None name outcome = (Some e, msg)"
  by (cases outcome) (auto simp: runTask_def split: option.split)

lemma at_stage_set_stage [simp]: "i < length (s_tasks s) \<Longrightarrow> at_stage i st (set_stage i st' s) = (st' = st)"
  by (auto simp: at_stage_def set_stage_def)

lemma at_stage_log [simp]: "at_stage i st (s_log_update f s) = at_stage i st s"
  by (simp add: at_stage_def)

lemma Check_swap: "\<exists>e'. Check (task_swap i name e s) = Some e' \<and> errors_is e' ErrTaskFailed"
  by (auto simp: Check_def task_swap_def recordStop_swap_def taskFailureError_def split: option.split)

lemma Check_step: "sup_step eg s t \<Longrightarrow> Check s = Some e \<Longrightarrow> Check t = Some e"
  by (erule sup_step.cases)
    (auto simp: Check_def task_step_defs shutdown_step_defs Go_def split: option.splits list.splits if_splits prod.splits)

lemma Check_swap_stays:
  "\<exists>e'. Check (task_swap i name e u) = Some e' \<and> errors_is e' ErrTaskFailed
       \<and> (\<forall>t. (sup_step eg)\<^sup>*\<^sup>* (task_swap i name e u) t \<longrightarrow> Check t = Some e')"
proof -
  obtain e' where e': "Check (task_swap i name e u) = Some e'" "errors_is e' ErrTaskFailed"
    using Check_swap by blast
  have "(sup_step eg)\<^sup>*\<^sup>* (task_swap i name e u) t \<Longrightarrow> Check t = Some e'" for t
    by (induction rule: rtranclp_induct) (auto simp: e' intro: Check_step)
  then show ?thesis using e' by blast
qed

text \<open>C9: however \<^verbatim>\<open>Run\<close> ends while the process serves (an error, a nil error, a panic), the
  goroutine holds an error, passes the guard of \<^verbatim>\<open>recordStop\<close>, and once it is past the
  compare-and-swap readiness fails with \<^verbatim>\<open>ErrTaskFailed\<close> and keeps failing with the same
  error in every later state.\<close>

theorem task_end_while_serving_fails_readiness:
  assumes "at_stage i (Running name) s" and "s_ctxErr s = None" and "\<not> s_stopping s"
  shows "\<exists>e. at_stage i (Ended name (Some e)) (run_ends i name outcome s)
           \<and> at_stage i (Passed name e) (task_guard i name (Some e) (run_ends i name outcome s))
           \<and> (\<forall>u. \<exists>e'. Check (task_swap i name e u) = Some e' \<and> errors_is e' ErrTaskFailed
                \<and> (\<forall>t. (sup_step eg)\<^sup>*\<^sup>* (task_swap i name e u) t \<longrightarrow> Check t = Some e'))"
proof -
  obtain e msg where "runTask None name outcome = (Some e, msg)" using runTask_serving by blast
  then have "at_stage i (Ended name (Some e)) (run_ends i name outcome s)
           \<and> at_stage i (Passed name e) (task_guard i name (Some e) (run_ends i name outcome s))"
    using assms by (auto simp: run_ends_def task_guard_def recordStop_guard_def log_event_def at_stage_def set_stage_def)
  then show ?thesis using Check_swap_stays by blast
qed

lemma task_end_while_serving_fails_readiness_witness:
  "\<exists>e. at_stage 0 (Ended ''relay'' (Some e)) (run_ends 0 ''relay'' (Returned None) example_running)
     \<and> (\<exists>e'. Check (task_swap 0 ''relay'' e example_running) = Some e' \<and> errors_is e' ErrTaskFailed)"
proof -
  have "at_stage 0 (Running ''relay'') example_running" "s_ctxErr example_running = None"
    "\<not> s_stopping example_running"
    by (simp_all add: at_stage_def example_defs)
  from task_end_while_serving_fails_readiness [OF this, of "Returned None" counting_group]
  show ?thesis by blast
qed

section \<open>Isolation and the join\<close>

text \<open>What the documentation of \<^verbatim>\<open>errgroup.Group\<close> promises, over the number of functions
  still running and the first error returned: \<^verbatim>\<open>Wait\<close> returns once none runs, with the
  first non-nil error.\<close>

definition errgroup_laws :: "'g errgroup \<Rightarrow> ('g \<Rightarrow> nat) \<Rightarrow> ('g \<Rightarrow> go_error option) \<Rightarrow> bool" where
  "errgroup_laws eg active first =
     (active (eg_new eg) = 0 \<and> first (eg_new eg) = None
      \<and> (\<forall>g. active (eg_go eg g) = Suc (active g) \<and> first (eg_go eg g) = first g)
      \<and> (\<forall>g err. active (eg_return eg err g) = active g - 1
           \<and> first (eg_return eg err g) = (case first g of None \<Rightarrow> err | Some e \<Rightarrow> Some e))
      \<and> (\<forall>g. eg_wait eg g = (if active g = 0 then Some (first g) else None)))"

definition unit_grouped :: "thread \<Rightarrow> unit list" where
  "unit_grouped th = (if th_grouped th then [()] else [])"

definition grouped :: "'g supervisor \<Rightarrow> nat" where
  "grouped s = length (concat (map unit_grouped (s_tasks s)))"

definition group_inv :: "('g \<Rightarrow> nat) \<Rightarrow> 'g supervisor \<Rightarrow> bool" where
  "group_inv active s =
     (active (s_group s) = grouped s \<and> (s_phase s = NotStopped \<longleftrightarrow> \<not> s_stopping s))"

lemma grouped_cong [simp]:
  "grouped (s_ctxErr_update f1 s) = grouped s"
  "grouped (s_stopping_update f2 s) = grouped s"
  "grouped (s_startOnce_update f2 s) = grouped s"
  "grouped (s_recordedFailure_update f3 s) = grouped s"
  "grouped (s_firstFailure_update f4 s) = grouped s"
  "grouped (s_received_update f4 s) = grouped s"
  "grouped (s_phase_update f5 s) = grouped s"
  "grouped (s_stopErr_update f6 s) = grouped s"
  "grouped (s_log_update f7 s) = grouped s"
  by (simp_all add: grouped_def)

lemma grouped_set_stage [simp]: "grouped (set_stage i st s) = grouped s"
proof (cases "i < length (s_tasks s)")
  case True
  then show ?thesis
    by (rule concat_map_at [of i "s_tasks s" unit_grouped])
      (simp add: grouped_def set_stage_def unit_grouped_def)
qed (simp add: grouped_def set_stage_def not_less list_update_beyond)

lemma grouped_leaves:
  assumes "i < length (s_tasks s)"
  shows "grouped s = grouped (task_leaves eg i err s) + length (unit_grouped (s_tasks s ! i))"
  using assms
  by (rule concat_map_at [of i "s_tasks s" unit_grouped]) (simp add: grouped_def task_leaves_def)

lemma group_inv_step:
  assumes laws: "errgroup_laws eg active first" and inv: "group_inv active s" and step: "sup_step eg s t"
  shows "group_inv active t"
  using step
proof cases
  case (call_Go task)
  then show ?thesis using laws inv
    by (auto simp: group_inv_def errgroup_laws_def grouped_def Go_def Let_def log_event_def unit_grouped_def)
next
  case (leave i err)
  then show ?thesis using laws inv grouped_leaves [of i s eg err]
    by (auto simp: group_inv_def errgroup_laws_def at_stage_def task_leaves_def unit_grouped_def)
next
  case (send i name e)
  then show ?thesis using inv
    by (auto simp: task_send_def recordStop_send_def group_inv_def split: if_splits)
next
  case receive
  then show ?thesis using inv by (simp add: receive_failure_def group_inv_def split: list.split)
qed (use inv in \<open>auto simp: group_inv_def task_starts_def run_ends_def task_guard_def task_swap_def
  recordStop_swap_def shutdown_step_defs Let_def split: prod.split\<close>)

lemma grouped_zero: "grouped s = 0 \<longleftrightarrow> (\<forall>th \<in> set (s_tasks s). \<not> th_grouped th)"
  by (auto simp: grouped_def unit_grouped_def)

lemma group_inv_reachable:
  assumes "errgroup_laws eg active first" and "(sup_step eg)\<^sup>*\<^sup>* (New eg parentErr) s"
  shows "group_inv active s"
  using assms(2)
proof (induction rule: rtranclp_induct)
  case base
  then show ?case using assms(1) by (simp add: group_inv_def New_def errgroup_laws_def grouped_def)
next
  case (step u t)
  then show ?case using group_inv_step assms(1) by blast
qed

text \<open>C10: when \<^verbatim>\<open>Shutdown\<close> finishes with no error, no goroutine the group runs is left in any
  stage and the group saw no error; until the drain is marked no step cancels the tasks'
  context but the parent's own end, and a step that moves a task's goroutine never cancels
  it, so a failing task leaves its siblings running.\<close>

theorem join_and_isolation:
  assumes "errgroup_laws eg active first" and "(sup_step eg)\<^sup>*\<^sup>* (New eg parentErr) s" and "sup_step eg s t"
  shows "(s_phase s \<noteq> Stopped \<and> s_phase t = Stopped \<and> s_stopErr t = None \<longrightarrow>
            (\<forall>th \<in> set (s_tasks t). \<not> th_grouped th) \<and> first (s_group t) = None)
         \<and> (s_tasks t \<noteq> s_tasks s \<longrightarrow> s_ctxErr t = s_ctxErr s \<and> s_stopping t = s_stopping s)"
proof
  have inv: "group_inv active s" using group_inv_reachable assms by blast
  show "s_phase s \<noteq> Stopped \<and> s_phase t = Stopped \<and> s_stopErr t = None \<longrightarrow>
            (\<forall>th \<in> set (s_tasks t). \<not> th_grouped th) \<and> first (s_group t) = None"
    using assms(3)
    by cases (use inv assms(1) in \<open>auto simp: shutdown_step_defs group_inv_def errgroup_laws_def
        task_step_defs Go_def grouped_zero split: if_splits option.splits list.splits prod.splits\<close>)
  show "s_tasks t \<noteq> s_tasks s \<longrightarrow> s_ctxErr t = s_ctxErr s \<and> s_stopping t = s_stopping s"
    using assms(3)
    by cases (auto simp: shutdown_step_defs task_step_defs Go_def split: if_splits option.splits list.splits prod.splits)
qed

lemma join_and_isolation_witness:
  "\<exists>s t. sup_step counting_group s t \<and> s_phase t = Stopped \<and> s_stopErr t = None
         \<and> (\<forall>th \<in> set (s_tasks t). \<not> th_grouped th) \<and> snd (s_group t) = None"
proof -
  let ?e = "sup_step counting_group"
  let ?n = "New counting_group None"
  let ?s = "shutdown_cancel (shutdown_mark ?n)"
  have laws: "errgroup_laws counting_group fst snd"
    by (auto simp: errgroup_laws_def counting_group_def)
  have "?e ?n (shutdown_mark ?n)" by (rule sup_step.stop_mark) (simp add: New_def)
  moreover have "?e (shutdown_mark ?n) ?s" by (rule sup_step.stop_cancel) (simp add: shutdown_mark_def)
  ultimately have run: "?e\<^sup>*\<^sup>* ?n ?s" by (meson rtranclp.rtrancl_into_rtrancl rtranclp.rtrancl_refl)
  have join: "?e ?s (finish_stop None ?s)"
    by (rule sup_step.stop_join) (simp_all add: shutdown_step_defs New_def counting_group_def)
  have stopped: "s_phase ?s \<noteq> Stopped \<and> s_phase (finish_stop None ?s) = Stopped
        \<and> s_stopErr (finish_stop None ?s) = None"
    by (simp add: shutdown_step_defs)
  have "(\<forall>th \<in> set (s_tasks (finish_stop None ?s)). \<not> th_grouped th)
        \<and> snd (s_group (finish_stop None ?s)) = None"
    using join_and_isolation [OF laws run join] stopped by blast
  then show ?thesis using join stopped by blast
qed

end
