(* ===== verification/Health.thy ===== *)
theory Health
  imports GoBase
begin

text \<open>
  Package \<^verbatim>\<open>internal/health\<close>: readiness served from a cache that a refresher keeps, the drain
  flag, and the callback that reports transitions. A state pointer is a pair of an
  allocation number and the immutable value, because \<^verbatim>\<open>publishStale\<close> compares pointers.
  Probe results and the clock are arguments: one evaluation gets the list of what each
  probe's \<^verbatim>\<open>Check\<close> answered.

  \<open>watch_step\<close> interleaves the loop of \<^verbatim>\<open>Watch\<close> with the clock, the drain and the timers of
  \<^verbatim>\<open>time.AfterFunc\<close>, whose functions run on goroutines of their own and may run late.

  The lemmas give the exact verdict for every history of evaluations, that the transitions reported
  alternate, and which staleness reports a drain suppresses.
\<close>

section \<open>State\<close>

definition ErrDraining :: go_error where "ErrDraining = Sentinel ''health.ErrDraining''"
definition ErrNotEvaluated :: go_error where "ErrNotEvaluated = Sentinel ''health.ErrNotEvaluated''"
definition ErrStale :: go_error where "ErrStale = Sentinel ''health.ErrStale''"

definition staleRefreshMultiplier :: int where "staleRefreshMultiplier = 3"

record Policy =
  ProbeBudget :: duration
  FailureThreshold :: int

record readinessState =
  verdictErr :: "go_error option"
  consecutiveFailures :: int
  evaluatedAt :: instant

record Service =
  policy :: Policy
  draining :: bool
  state :: "(nat \<times> readinessState) option"
  staleAfter :: int
  allocations :: nat

text \<open>\<^verbatim>\<open>readinessTransitions\<close>, with the callback's calls in order.\<close>

record readinessTransitions =
  previousErr :: "go_error option"
  has_notify :: bool
  notified :: "go_error option list"

section \<open>Operations\<close>

definition staleBudget :: "duration \<Rightarrow> duration \<Rightarrow> duration" where
  "staleBudget interval probeBudget =
     wrap64 (probeBudget + wrap64 (staleRefreshMultiplier * max interval probeBudget))"

definition New :: "Policy \<Rightarrow> go_error + Service" where
  "New p =
     (if ProbeBudget p \<le> 0 then Inl (Fresh ''health: probe budget must be > 0'')
      else if FailureThreshold p < 1 then Inl (Fresh ''health: failure threshold must be >= 1'')
      else Inr \<lparr>policy = p, draining = False, state = None, staleAfter = 0, allocations = 0\<rparr>)"

text \<open>\<^verbatim>\<open>evaluate\<close>: the probes in order, up to the first that fails.\<close>

fun evaluate :: "(string \<times> go_error option) list \<Rightarrow> go_error option" where
  "evaluate [] = None"
| "evaluate ((name, result) # probes) =
     (case result of Some err \<Rightarrow> Some (WrapFmt (name @ '' probe failed'') err) | None \<Rightarrow> evaluate probes)"

definition nextReadiness ::
  "readinessState option \<Rightarrow> go_error option \<Rightarrow> int \<Rightarrow> instant \<Rightarrow> readinessState" where
  "nextReadiness previous err failureThreshold at =
     (case err of
        None \<Rightarrow> \<lparr>verdictErr = None, consecutiveFailures = 0, evaluatedAt = at\<rparr>
      | Some e \<Rightarrow>
          (case previous of
             None \<Rightarrow> \<lparr>verdictErr = Some e, consecutiveFailures = 1, evaluatedAt = at\<rparr>
           | Some p \<Rightarrow>
               let failures = consecutiveFailures p + 1
               in \<lparr>verdictErr = (if verdictErr p = None \<and> failures < failureThreshold
                                 then verdictErr p else Some e),
                   consecutiveFailures = failures, evaluatedAt = at\<rparr>))"

definition Refresh ::
  "(string \<times> go_error option) list \<Rightarrow> instant \<Rightarrow> Service \<Rightarrow> go_error option \<times> Service" where
  "Refresh results now s =
     (let err = evaluate results
      in (err, s\<lparr>state := Some (allocations s,
                               nextReadiness (map_option snd (state s)) err (FailureThreshold (policy s)) now),
                 allocations := Suc (allocations s)\<rparr>))"

text \<open>\<^verbatim>\<open>time.Since\<close> and \<^verbatim>\<open>time.Until\<close> saturate at the range of a duration.\<close>

definition staleness :: "instant \<Rightarrow> Service \<Rightarrow> readinessState \<Rightarrow> go_error option" where
  "staleness now s st =
     (if staleAfter s \<le> 0 \<or> evaluatedAt st = zero_time then None
      else if sat64 (now - evaluatedAt st) \<le> staleAfter s then None
      else Some (WrapFmt ''last evaluated ago, budget'' ErrStale))"

definition Cached :: "instant \<Rightarrow> Service \<Rightarrow> go_error option" where
  "Cached now s =
     (if draining s then Some ErrDraining
      else case state s of
             None \<Rightarrow> Some ErrNotEvaluated
           | Some (_, st) \<Rightarrow> (case staleness now s st of Some err \<Rightarrow> Some err | None \<Rightarrow> verdictErr st))"

definition StartDrain :: "Service \<Rightarrow> Service" where
  "StartDrain s = s\<lparr>draining := True\<rparr>"

definition publish :: "go_error option \<Rightarrow> readinessTransitions \<Rightarrow> readinessTransitions" where
  "publish currentErr t =
     (let t1 = (if has_notify t \<and> (previousErr t = None) \<noteq> (currentErr = None)
                then t\<lparr>notified := notified t @ [currentErr]\<rparr> else t)
      in t1\<lparr>previousErr := currentErr\<rparr>)"

text \<open>\<^verbatim>\<open>publishStale\<close>, one load at a time. The mutex it holds guards \<^verbatim>\<open>previousErr\<close> and the callback
  only: the drain flag and the state pointer are atomics that other goroutines store to
  between any two of its loads. A \<open>stale_point\<close> is how far a run has come; the result is the
  point after one more step, \<open>None\<close> when it returns and unlocks.\<close>

datatype stale_point =
    Entered "nat \<times> readinessState"
  | SawServing "nat \<times> readinessState"
  | SawCurrent "nat \<times> readinessState"
  | SawStale go_error

fun publishStale ::
  "instant \<Rightarrow> Service \<Rightarrow> stale_point \<Rightarrow> readinessTransitions \<Rightarrow> stale_point option \<times> readinessTransitions" where
  "publishStale now s (Entered st) t = (if draining s then None else Some (SawServing st), t)"
| "publishStale now s (SawServing st) t =
     (if state s \<noteq> Some st \<or> previousErr t \<noteq> None then None else Some (SawCurrent st), t)"
| "publishStale now s (SawCurrent st) t =
     (case staleness now s (snd st) of
        None \<Rightarrow> None
      | Some err \<Rightarrow> if \<not> errors_is err ErrStale then None else Some (SawStale err), t)"
| "publishStale now s (SawStale err) t =
     (None, t\<lparr>previousErr := Some err, notified := notified t @ [Some err]\<rparr>)"

text \<open>\<^verbatim>\<open>armStaleness\<close>: the delay of the timer it starts, or none.\<close>

definition armStaleness :: "instant \<Rightarrow> Service \<Rightarrow> readinessState \<Rightarrow> readinessTransitions \<Rightarrow> duration option" where
  "armStaleness now s st t =
     (if \<not> has_notify t \<or> verdictErr st \<noteq> None \<or> draining s then None
      else Some (max (wrap64 (sat64 (evaluatedAt st + staleAfter s - now) + nanosecond)) nanosecond))"

section \<open>The refresher\<close>

text \<open>
  The state of one \<^verbatim>\<open>Watch\<close> call past its guards. An armed timer holds the instant it fires
  and the state it checks; \<open>w_firing\<close> are the functions of fired timers that have not yet
  taken the mutex, which \<^verbatim>\<open>Stop\<close> no longer reaches; \<open>w_mutex\<close> is the run of \<^verbatim>\<open>publishStale\<close> that
  holds it. \<open>w_loop\<close> is where the loop is, with the values it has loaded so far.
\<close>

datatype loop_point =
    Waiting
  | Refreshed
  | Publishing "go_error option" "nat \<times> readinessState"
  | Arming "nat \<times> readinessState"
  | Returned_nil

record watch =
  w_service :: Service
  w_transitions :: readinessTransitions
  w_timer :: "(instant \<times> (nat \<times> readinessState)) option"
  w_firing :: "(nat \<times> readinessState) list"
  w_mutex :: "stale_point option"
  w_now :: instant
  w_loop :: loop_point

definition arm :: "nat \<times> readinessState \<Rightarrow> watch \<Rightarrow> watch" where
  "arm st w =
     w\<lparr>w_timer := map_option (\<lambda>delay. (w_now w + delay, st))
         (armStaleness (w_now w) (w_service w) (snd st) (w_transitions w)),
       w_loop := Waiting\<rparr>"

text \<open>\<^verbatim>\<open>Watch\<close> up to its loop. \<open>results\<close> are the probe answers of the first evaluation, used
  only when startup admission seeded no state. \<open>Inl\<close> is a return before the loop.\<close>

definition Watch ::
  "go_error option \<Rightarrow> duration \<Rightarrow> bool \<Rightarrow> (string \<times> go_error option) list \<Rightarrow> instant \<Rightarrow> Service
   \<Rightarrow> go_error option + watch" where
  "Watch ctxErr interval onTransition results now s =
     (if interval \<le> 0 then Inl (Some (Fresh ''health watch: interval must be > 0''))
      else if ctxErr \<noteq> None then Inl None
      else let s1 = s\<lparr>staleAfter := staleBudget interval (ProbeBudget (policy s))\<rparr>;
               s2 = (if state s1 = None then snd (Refresh results now s1) else s1);
               st = the (state s2)
           in Inr (arm st \<lparr>w_service = s2,
                        w_transitions = \<lparr>previousErr = verdictErr (snd st), has_notify = onTransition, notified = []\<rparr>,
                        w_timer = None, w_firing = [], w_mutex = None, w_now = now, w_loop = Waiting\<rparr>))"

definition tick_refresh :: "(string \<times> go_error option) list \<Rightarrow> watch \<Rightarrow> watch" where
  "tick_refresh results w =
     w\<lparr>w_service := snd (Refresh results (w_now w) (w_service w)), w_loop := Refreshed\<rparr>"

text \<open>The rest of a tick: stop the timer and load the state and the drain flag, publish under the
  mutex, arm the next timer.\<close>

definition tick_load :: "watch \<Rightarrow> watch" where
  "tick_load w =
     (case state (w_service w) of
        None \<Rightarrow> w
      | Some st \<Rightarrow>
          w\<lparr>w_timer := None,
            w_loop := Publishing (if draining (w_service w) then Some ErrDraining else verdictErr (snd st)) st\<rparr>)"

definition tick_publish :: "go_error option \<Rightarrow> nat \<times> readinessState \<Rightarrow> watch \<Rightarrow> watch" where
  "tick_publish currentErr st w = w\<lparr>w_transitions := publish currentErr (w_transitions w), w_loop := Arming st\<rparr>"

definition ctx_done :: "watch \<Rightarrow> watch" where
  "ctx_done w =
     w\<lparr>w_timer := (if draining (w_service w) then None else w_timer w), w_loop := Returned_nil\<rparr>"

definition enter_fired :: "nat \<times> readinessState \<Rightarrow> watch \<Rightarrow> watch" where
  "enter_fired st w = w\<lparr>w_firing := remove1 st (w_firing w), w_mutex := Some (Entered st)\<rparr>"

definition run_fired :: "stale_point \<Rightarrow> watch \<Rightarrow> watch" where
  "run_fired p w =
     (case publishStale (w_now w) (w_service w) p (w_transitions w) of
        (p', t) \<Rightarrow> w\<lparr>w_mutex := p', w_transitions := t\<rparr>)"

inductive watch_step :: "watch \<Rightarrow> watch \<Rightarrow> bool" where
  tick: "w_loop w = Waiting \<Longrightarrow> watch_step w (tick_refresh results w)"
| tick_loads: "w_loop w = Refreshed \<Longrightarrow> watch_step w (tick_load w)"
| tick_publishes: "w_loop w = Publishing currentErr st \<Longrightarrow> w_mutex w = None \<Longrightarrow> watch_step w (tick_publish currentErr st w)"
| tick_arms: "w_loop w = Arming st \<Longrightarrow> watch_step w (arm st w)"
| stopped: "w_loop w = Waiting \<Longrightarrow> watch_step w (ctx_done w)"
| elapse: "0 \<le> d \<Longrightarrow> watch_step w (w\<lparr>w_now := w_now w + d\<rparr>)"
| timer_fires: "w_timer w = Some (deadline, st) \<Longrightarrow> deadline \<le> w_now w \<Longrightarrow>
    watch_step w (w\<lparr>w_timer := None, w_firing := w_firing w @ [st]\<rparr>)"
| fired_enters: "st \<in> set (w_firing w) \<Longrightarrow> w_mutex w = None \<Longrightarrow> watch_step w (enter_fired st w)"
| fired_runs: "w_mutex w = Some p \<Longrightarrow> watch_step w (run_fired p w)"
| drain: "watch_step w (w\<lparr>w_service := StartDrain (w_service w)\<rparr>)"

lemmas watch_ops = tick_refresh_def tick_load_def tick_publish_def ctx_done_def arm_def enter_fired_def run_fired_def StartDrain_def

section \<open>The verdict for a history of evaluations\<close>

text \<open>The cached state after a sequence of evaluations, each with its result and instant.\<close>

definition readiness_after :: "int \<Rightarrow> (go_error option \<times> instant) list \<Rightarrow> readinessState option" where
  "readiness_after threshold history =
     foldl (\<lambda>st (err, at). Some (nextReadiness st err threshold at)) None history"

definition trailing_failures :: "(go_error option \<times> instant) list \<Rightarrow> nat" where
  "trailing_failures history = length (takeWhile (\<lambda>(err, at). err \<noteq> None) (rev history))"

lemma trailing_failures_snoc [simp]:
  "trailing_failures (history @ [(err, at)]) = (if err = None then 0 else Suc (trailing_failures history))"
  by (simp add: trailing_failures_def)

lemma trailing_failures_Nil [simp]: "trailing_failures [] = 0"
  by (simp add: trailing_failures_def)

lemma trailing_failures_le: "trailing_failures history \<le> length history"
  using length_takeWhile_le [of _ "rev history"] by (simp add: trailing_failures_def)

lemma readiness_after_snoc [simp]:
  "readiness_after threshold (history @ [(err, at)]) =
     Some (nextReadiness (readiness_after threshold history) err threshold at)"
  by (simp add: readiness_after_def)

lemma readiness_after_Nil [simp]: "readiness_after threshold [] = None"
  by (simp add: readiness_after_def)

text \<open>C12: After any history of evaluations the cached verdict is healthy exactly when the last
  evaluation passed, or when an earlier one passed and fewer than the threshold failed
  since; otherwise it is the newest failure. A service that was never healthy reports its
  first failure at once, and the streak counter is the number of failures since the last pass.\<close>

theorem verdict_of_history:
  "1 \<le> threshold \<Longrightarrow>
   readiness_after threshold (history @ [(err, at)]) =
     Some \<lparr>verdictErr = (if err \<noteq> None \<and> trailing_failures history < length history
                         \<and> int (trailing_failures history) + 1 < threshold then None else err),
           consecutiveFailures = int (trailing_failures (history @ [(err, at)])),
           evaluatedAt = at\<rparr>"
proof (induction history arbitrary: err at rule: rev_induct)
  case Nil
  show ?case
    unfolding readiness_after_snoc trailing_failures_snoc
    by (cases err) (simp_all add: nextReadiness_def)
next
  case (snoc x history)
  obtain err' at' where x: "x = (err', at')" by (cases x)
  show ?case
    unfolding x readiness_after_snoc [of threshold "history @ [(err', at')]"] snoc.IH [OF snoc.prems]
      trailing_failures_snoc
    by (cases err; cases err') (auto simp: nextReadiness_def Let_def)
qed

lemma verdict_of_history_witness:
  "map_option verdictErr (readiness_after 3 ([(None, 0), (Some (Fresh ''a''), 1)] @ [(Some (Fresh ''b''), 2)]))
     = Some None
   \<and> map_option verdictErr (readiness_after 3 ([(None, 0), (Some (Fresh ''a''), 1), (Some (Fresh ''b''), 2)]
        @ [(Some (Fresh ''c''), 3)])) = Some (Some (Fresh ''c''))"
  using verdict_of_history [of 3 "[(None, 0), (Some (Fresh ''a''), 1)]" "Some (Fresh ''b'')" 2]
    verdict_of_history [of 3 "[(None, 0), (Some (Fresh ''a''), 1), (Some (Fresh ''b''), 2)]" "Some (Fresh ''c'')" 3]
  by (simp add: trailing_failures_def)

section \<open>Transitions\<close>

fun alternates :: "bool \<Rightarrow> go_error option list \<Rightarrow> bool" where
  "alternates healthy [] = True"
| "alternates healthy (e # es) = ((e = None) \<noteq> healthy \<and> alternates (e = None) es)"

fun last_health :: "bool \<Rightarrow> go_error option list \<Rightarrow> bool" where
  "last_health healthy [] = healthy"
| "last_health healthy (e # es) = last_health (e = None) es"

lemma last_health_snoc [simp]: "last_health h (es @ [e]) = (e = None)"
  by (induction es arbitrary: h) auto

lemma alternates_snoc [simp]: "alternates h (es @ [e]) = (alternates h es \<and> (e = None) \<noteq> last_health h es)"
  by (induction es arbitrary: h) auto

definition transitions_inv :: "bool \<Rightarrow> readinessTransitions \<Rightarrow> bool" where
  "transitions_inv h t =
     (alternates h (notified t) \<and> has_notify t \<and> last_health h (notified t) = (previousErr t = None))"

lemma transitions_inv_publish: "transitions_inv h t \<Longrightarrow> transitions_inv h (publish e t)"
  by (auto simp: transitions_inv_def publish_def Let_def)

text \<open>What a run of \<^verbatim>\<open>publishStale\<close> that holds the mutex has established: \<^verbatim>\<open>previousErr\<close> is still the
  healthy one it saw.\<close>

definition run_inv :: "stale_point option \<Rightarrow> readinessTransitions \<Rightarrow> bool" where
  "run_inv p t = (case p of Some (SawCurrent st) \<Rightarrow> previousErr t = None | Some (SawStale err) \<Rightarrow> previousErr t = None | _ \<Rightarrow> True)"

lemma run_inv_simps [simp]:
  "run_inv None t" "run_inv (Some (Entered st)) t" "run_inv (Some (SawServing st)) t"
  "run_inv (Some (SawCurrent st)) t = (previousErr t = None)" "run_inv (Some (SawStale err)) t = (previousErr t = None)"
  by (simp_all add: run_inv_def)

definition watch_inv :: "bool \<Rightarrow> watch \<Rightarrow> bool" where
  "watch_inv h w = (transitions_inv h (w_transitions w) \<and> run_inv (w_mutex w) (w_transitions w))"

lemma watch_inv_run_fired:
  "watch_inv h w \<Longrightarrow> w_mutex w = Some p \<Longrightarrow> watch_inv h (run_fired p w)"
  by (cases p) (auto simp: watch_inv_def transitions_inv_def run_fired_def split: option.split)

lemma watch_inv_step: "watch_inv h w \<Longrightarrow> watch_step w w' \<Longrightarrow> watch_inv h w'"
proof (erule watch_step.cases)
  fix currentErr st v
  assume "watch_inv h w" "w = v" "w' = tick_publish currentErr st v" "w_mutex v = None"
  then show "watch_inv h w'"
    using transitions_inv_publish by (simp add: watch_inv_def tick_publish_def)
next
  fix p v
  assume "watch_inv h w" "w = v" "w' = run_fired p v" "w_mutex v = Some p"
  then show "watch_inv h w'" using watch_inv_run_fired by simp
qed (auto simp: watch_inv_def tick_refresh_def tick_load_def ctx_done_def arm_def
    enter_fired_def split: option.split)

interpretation watch_ts: transition_system "watch_inv h" watch_step "watch_inv h" for h
  by unfold_locales (auto intro: watch_inv_step)

lemma Watch_starts:
  "Watch ctxErr interval True results now s = Inr w \<Longrightarrow> watch_inv (previousErr (w_transitions w) = None) w"
  by (auto simp: Watch_def Let_def watch_inv_def transitions_inv_def arm_def split: if_splits)

text \<open>C13: the calls of \<^verbatim>\<open>onTransition\<close> alternate. Starting from the verdict the refresher found,
  every reported failure follows a healthy report and every recovery a failure, in every
  interleaving of ticks, late staleness timers and the drain.\<close>

theorem transitions_alternate:
  assumes "Watch ctxErr interval True results now s = Inr w" and "watch_step\<^sup>*\<^sup>* w w'"
  shows "alternates (previousErr (w_transitions w) = None) (notified (w_transitions w'))"
  using watch_ts.run_inv [OF Watch_starts [OF assms(1)] assms(2)] by (simp add: watch_inv_def transitions_inv_def)

definition example_service :: Service where
  "example_service =
     \<lparr>policy = \<lparr>ProbeBudget = 2, FailureThreshold = 1\<rparr>, draining = False,
      state = Some (0, \<lparr>verdictErr = None, consecutiveFailures = 0, evaluatedAt = 100\<rparr>),
      staleAfter = 0, allocations = 1\<rparr>"

definition example_watch :: watch where
  "example_watch =
     \<lparr>w_service = example_service\<lparr>staleAfter := 17\<rparr>,
      w_transitions = \<lparr>previousErr = None, has_notify = True, notified = []\<rparr>,
      w_timer = Some (118, (0, \<lparr>verdictErr = None, consecutiveFailures = 0, evaluatedAt = 100\<rparr>)),
      w_firing = [], w_mutex = None, w_now = 100, w_loop = Waiting\<rparr>"

lemmas example_watch_defs = example_service_def example_watch_def

lemma example_Watch: "Watch None 5 True [] 100 example_service = Inr example_watch"
  by (simp add: Watch_def Let_def example_watch_defs arm_def armStaleness_def staleBudget_def wrap64_def sat64_def
      staleRefreshMultiplier_def dur_simps)

text \<open>A run in which the timer fires, its function sees a serving process, the drain starts, and the
  function goes on to report the stale verdict.\<close>

definition example_stale :: go_error where
  "example_stale = WrapFmt ''last evaluated ago, budget'' ErrStale"

definition example_reported :: watch where
  "example_reported =
     example_watch\<lparr>w_service := StartDrain (w_service example_watch), w_now := 118, w_timer := None,
       w_transitions := \<lparr>previousErr = Some example_stale, has_notify = True, notified = [Some example_stale]\<rparr>\<rparr>"

lemma stale_report_after_drain: "watch_step\<^sup>*\<^sup>* example_watch example_reported"
proof -
  let ?st = "(0, \<lparr>verdictErr = None, consecutiveFailures = 0, evaluatedAt = 100\<rparr>)"
  define a where "a = example_watch\<lparr>w_now := 118\<rparr>"
  define b where "b = a\<lparr>w_timer := None, w_firing := [?st]\<rparr>"
  define c where "c = enter_fired ?st b"
  define d where "d = run_fired (Entered ?st) c"
  define e where "e = d\<lparr>w_service := StartDrain (w_service d)\<rparr>"
  define f where "f = run_fired (SawServing ?st) e"
  define g where "g = run_fired (SawCurrent ?st) f"
  note defs = a_def b_def c_def d_def e_def f_def g_def
  note eval = defs watch_ops example_watch_defs staleness_def sat64_def zero_time_def example_stale_def
  have s1: "watch_step example_watch a"
    using watch_step.elapse [of 18 example_watch] by (simp add: defs example_watch_defs)
  have s2: "watch_step a b" using watch_step.timer_fires [of a] by (simp add: defs example_watch_defs)
  have s3: "watch_step b c" unfolding c_def by (rule watch_step.fired_enters) (simp_all add: defs example_watch_defs)
  have s4: "watch_step c d" unfolding d_def by (rule watch_step.fired_runs) (simp add: eval)
  have s5: "watch_step d e" unfolding e_def by (rule watch_step.drain)
  have s6: "watch_step e f" unfolding f_def by (rule watch_step.fired_runs) (simp add: eval)
  have s7: "watch_step f g" unfolding g_def by (rule watch_step.fired_runs) (simp add: eval)
  have "watch_step g (run_fired (SawStale example_stale) g)" by (rule watch_step.fired_runs) (simp add: eval)
  moreover have "run_fired (SawStale example_stale) g = example_reported" by (simp add: eval example_reported_def)
  ultimately have s8: "watch_step g example_reported" by simp
  note one = converse_rtranclp_into_rtranclp [where r = watch_step]
  show ?thesis
    by (rule one [OF s1], rule one [OF s2], rule one [OF s3], rule one [OF s4], rule one [OF s5], rule one [OF s6],
        rule one [OF s7], rule one [OF s8], rule rtranclp.rtrancl_refl)
qed

lemma transitions_alternate_witness:
  "alternates True (notified (w_transitions example_reported))
   \<and> notified (w_transitions example_reported) = [Some example_stale]"
  using transitions_alternate [OF example_Watch stale_report_after_drain] by (simp add: example_watch_defs example_reported_def)

section \<open>Staleness and the drain\<close>

text \<open>A drain suppresses the deferred staleness report of every run that has not yet loaded the drain
  flag: from such a state on, whatever happens, no run reaches the point where it reports. A run that
  loaded the flag before the drain still reports, as \<open>stale_report_after_drain\<close> shows.\<close>

definition drained :: "watch \<Rightarrow> bool" where
  "drained w = (draining (w_service w) \<and> (case w_mutex w of None \<Rightarrow> True | Some (Entered st) \<Rightarrow> True | _ \<Rightarrow> False))"

lemma drained_step: "drained w \<Longrightarrow> watch_step w w' \<Longrightarrow> drained w'"
  by (erule watch_step.cases)
    (auto simp: drained_def watch_ops Refresh_def Let_def split: option.splits stale_point.splits)

interpretation drained_ts: transition_system drained watch_step drained
  by unfold_locales (auto intro: drained_step)

lemma drain_suppresses_stale_reports:
  assumes "drained w" and "watch_step\<^sup>*\<^sup>* w w'"
  shows "w_mutex w' \<noteq> Some (SawStale err)"
  using drained_ts.run_inv [OF assms] by (auto simp: drained_def)

end
