(* ===== verification/HttpProblem.thy ===== *)
theory HttpProblem
  imports Failure Problem GoText
begin

text \<open>
  Package \<^verbatim>\<open>internal/infra/http\<close>: the one writer of problem responses
  (\<^verbatim>\<open>problem.go\<close>), the mapper of rejected requests (\<^verbatim>\<open>request_errors.go\<close>,
  \<^verbatim>\<open>problem_violations.go\<close>), the mapper of failed responses (\<^verbatim>\<open>domain_errors.go\<close>), and the
  failure taxonomy of \<^verbatim>\<open>internal/infra/bearerauthn/errors.go\<close>.

  A response writer is a record of headers, committed status and body; a request is what
  these functions read and write of it. The JSON encoder is the argument \<open>encode\<close>. The error
  types of the OpenAPI validator are third-party: \<open>validator\<close> has one function per
  \<^verbatim>\<open>errors.AsType\<close> test the code makes of them. Because such an error's depth is not known,
  \<open>appendViolations\<close> has fuel, and \<open>appendViolations_total\<close> says how much is enough.
\<close>

section \<open>bearerauthn/errors.go\<close>

type_synonym kind = nat

definition KindMissing :: kind where "KindMissing = 1"
definition KindMalformed :: kind where "KindMalformed = 2"
definition KindOversize :: kind where "KindOversize = 3"
definition KindInvalid :: kind where "KindInvalid = 4"
definition KindUnavailable :: kind where "KindUnavailable = 5"

lemmas kind_defs = KindMissing_def KindMalformed_def KindOversize_def KindInvalid_def KindUnavailable_def

record kindDetail =
  kd_message :: string
  kd_reason :: string

definition kindDetails :: "kindDetail list" where
  "kindDetails =
     [\<lparr>kd_message = '''', kd_reason = ''''\<rparr>,
      \<lparr>kd_message = ''authentication credential is missing'', kd_reason = ''missing''\<rparr>,
      \<lparr>kd_message = ''authentication credential is malformed'', kd_reason = ''malformed''\<rparr>,
      \<lparr>kd_message = ''authentication credential is too large'', kd_reason = ''oversize''\<rparr>,
      \<lparr>kd_message = ''authentication credential is invalid'', kd_reason = ''invalid''\<rparr>,
      \<lparr>kd_message = ''authentication trust is unavailable'', kd_reason = ''unavailable''\<rparr>]"

definition detailFor :: "kind \<Rightarrow> kindDetail \<times> bool" where
  "detailFor k =
     (if k = 0 \<or> length kindDetails \<le> k then (\<lparr>kd_message = '''', kd_reason = ''''\<rparr>, False)
      else let detail = kindDetails ! k in (detail, kd_message detail \<noteq> '''' \<and> kd_reason detail \<noteq> ''''))"

definition bearer_Error :: "kind \<Rightarrow> string" where
  "bearer_Error k = (case detailFor k of (detail, ok) \<Rightarrow> if ok then kd_message detail else ''authentication failed'')"

definition bearer_failure :: "kind \<Rightarrow> go_error" where
  "bearer_failure k = Typed ''*bearerauthn.Error'' (decimal k)"

definition VerificationFailure :: "kind \<Rightarrow> go_error" where
  "VerificationFailure k = WrapFmt ''verify access token'' (bearer_failure k)"

definition KindOf :: "go_error \<Rightarrow> kind option" where
  "KindOf err =
     errors_as (\<lambda>e. case e of Typed t i \<Rightarrow> if t = ''*bearerauthn.Error'' then Some (digits_value i) else None
                    | _ \<Rightarrow> None) err"

section \<open>problem.go\<close>

definition problemJSONContentType :: string where
  "problemJSONContentType = ''application/problem+json; charset=utf-8''"
definition malformedRequestProblemDetail :: string where
  "malformedRequestProblemDetail = ''request is malformed or invalid''"

record fieldViolation =
  fv_Field :: string
  fv_Reason :: string

record problemResponse =
  pr_code :: code
  pr_detail :: string
  pr_invalidParams :: "fieldViolation list"
  pr_retryAfter :: duration

definition problem_response :: "code \<Rightarrow> string \<Rightarrow> problemResponse" where
  "problem_response c d = \<lparr>pr_code = c, pr_detail = d, pr_invalidParams = [], pr_retryAfter = 0\<rparr>"

definition notFoundProblem :: problemResponse where
  "notFoundProblem = problem_response CodeNotFound ''resource not found''"

definition requestEntityTooLargeProblem :: problemResponse where
  "requestEntityTooLargeProblem = problem_response CodeRequestEntityTooLarge ''request body exceeds limit''"

definition timeBudgetExceededProblem :: problemResponse where
  "timeBudgetExceededProblem = problem_response CodeGatewayTimeout ''request exceeded its time budget''"

definition contextFailureProblem :: "go_error option \<Rightarrow> problemResponse option" where
  "contextFailureProblem err =
     (if errors_is_opt err DeadlineExceeded then Some timeBudgetExceededProblem
      else if errors_is_opt err Canceled
      then Some (problem_response CodeGatewayTimeout ''request was canceled by the caller'')
      else None)"

text \<open>The request: its id, the problem record installed in its context (none, or the code
  recorded so far, empty at first), and its route for log records.\<close>

record request =
  rq_id :: string
  rq_record :: "code option"
  rq_method :: string
  rq_template :: string

record responseWriter =
  rw_header :: "string \<Rightarrow> string option"
  rw_status :: "nat option"
  rw_body :: string

definition empty_writer :: responseWriter where
  "empty_writer = \<lparr>rw_header = (\<lambda>_. None), rw_status = None, rw_body = ''''\<rparr>"

definition set_header :: "string \<Rightarrow> string \<Rightarrow> responseWriter \<Rightarrow> responseWriter" where
  "set_header k v w = w\<lparr>rw_header := (rw_header w)(k \<mapsto> v)\<rparr>"

text \<open>\<^verbatim>\<open>WriteHeader\<close>: the first status wins.\<close>

definition WriteHeader :: "nat \<Rightarrow> responseWriter \<Rightarrow> responseWriter" where
  "WriteHeader status w = (if rw_status w = None then w\<lparr>rw_status := Some status\<rparr> else w)"

definition contextWithProblemRecord :: "request \<Rightarrow> request" where
  "contextWithProblemRecord r = r\<lparr>rq_record := Some ''''\<rparr>"

definition recordProblemCode :: "code \<Rightarrow> request \<Rightarrow> request" where
  "recordProblemCode c r =
     (case rq_record r of
        None \<Rightarrow> r
      | Some recorded \<Rightarrow> if recorded \<noteq> '''' then r else r\<lparr>rq_record := Some c\<rparr>)"

definition problemCodeForRequest :: "request option \<Rightarrow> string" where
  "problemCodeForRequest r =
     (case r of None \<Rightarrow> '''' | Some rq \<Rightarrow> (case rq_record rq of None \<Rightarrow> '''' | Some c \<Rightarrow> c))"

text \<open>\<^verbatim>\<open>retryAfterSeconds\<close>. \<^verbatim>\<open>delay.Seconds()\<close> is a float64: the whole seconds plus the nanoseconds divided by \<open>10 ^ 9\<close>, where
  the quotient and the sum are rounded to the nearest number of 53 significant bits, ties to even. The quotient is
  \<open>x / 2 ^ p\<close> and the sum \<open>y / 2 ^ q\<close>.\<close>

function bit_length :: "int \<Rightarrow> nat" where
  "bit_length n = (if n \<le> 0 then 0 else Suc (bit_length (n div 2)))"
  by auto
termination by (relation "measure nat") auto

declare bit_length.simps [simp del]

definition half_even :: "int \<Rightarrow> int \<Rightarrow> int" where
  "half_even a b =
     (let k = a div b; r = a mod b in if 2 * r < b then k else if b < 2 * r then k + 1 else if even k then k else k + 1)"

definition ceil_seconds :: "duration \<Rightarrow> int" where
  "ceil_seconds delay =
     (let sec = delay div second; nsec = delay mod second;
          p = 52 + bit_length ((second - 1) div nsec);
          x = (if nsec = 0 then 0 else half_even (nsec * 2 ^ p) second);
          q = 53 - bit_length sec;
          y = half_even ((sec * 2 ^ p + x) * 2 ^ q) (2 ^ p)
      in if sec = 0 then - ((- x) div 2 ^ p) else - ((- y) div 2 ^ q))"

definition retryAfterSeconds :: "duration \<Rightarrow> int" where
  "retryAfterSeconds delay = (if delay \<le> 0 then 1 else max (ceil_seconds delay) 1)"

record openapi_Problem =
  p_Code :: string
  p_Detail :: "string option"
  p_InvalidParams :: "(string \<times> string) list option"
  p_RequestId :: "string option"
  p_Status :: nat
  p_Title :: string
  p_Type :: string

definition EmptyableToPtr :: "string \<Rightarrow> string option" where
  "EmptyableToPtr s = (if s = '''' then None else Some s)"

definition optionalInvalidParams :: "fieldViolation list \<Rightarrow> (string \<times> string) list option" where
  "optionalInvalidParams violations =
     (if violations = [] then None else Some (map (\<lambda>v. (fv_Field v, fv_Reason v)) violations))"

definition writeProblem ::
  "(openapi_Problem \<Rightarrow> string option) \<Rightarrow> problemResponse \<Rightarrow> responseWriter \<times> request option
   \<Rightarrow> responseWriter \<times> request option" where
  "writeProblem encode response wr =
     (case wr of (w, r) \<Rightarrow>
        let def = ForCodeOrInternal (pr_code response);
            p = \<lparr>p_Code = def_Code def, p_Detail = EmptyableToPtr (pr_detail response),
                 p_InvalidParams = optionalInvalidParams (pr_invalidParams response),
                 p_RequestId = (case r of None \<Rightarrow> None | Some rq \<Rightarrow> EmptyableToPtr (rq_id rq)),
                 p_Status = def_Status def, p_Title = def_Title def, p_Type = def_TypeURI def\<rparr>;
            r1 = map_option (recordProblemCode (def_Code def)) r;
            w1 = (if 0 < pr_retryAfter response
                  then set_header ''Retry-After'' (decimal_int (retryAfterSeconds (pr_retryAfter response))) w
                  else w)
        in case encode p of
             None \<Rightarrow> (WriteHeader (def_Status def) w1, r1)
           | Some body \<Rightarrow>
               let w2 = WriteHeader (def_Status def) (set_header ''Content-Type'' problemJSONContentType w1)
               in (w2\<lparr>rw_body := rw_body w2 @ body\<rparr>, r1))"

definition writeMalformedRequestProblem ::
  "(openapi_Problem \<Rightarrow> string option) \<Rightarrow> fieldViolation list \<Rightarrow> responseWriter \<times> request option
   \<Rightarrow> responseWriter \<times> request option" where
  "writeMalformedRequestProblem encode violations =
     writeProblem encode \<lparr>pr_code = CodeBadRequest, pr_detail = malformedRequestProblemDetail,
                          pr_invalidParams = violations, pr_retryAfter = 0\<rparr>"

section \<open>problem\_violations.go\<close>

definition maxViolations :: nat where "maxViolations = 10"
definition maxViolationReason :: nat where "maxViolationReason = 200"

record parameter =
  par_Name :: string
  par_In :: string

record requestError =
  re_Parameter :: "parameter option"
  re_Reason :: string
  re_Err :: "go_error option"

record schemaError =
  se_JSONPointer :: "string list"
  se_Reason :: string
  se_SchemaField :: string

record validator =
  as_security :: "go_error \<Rightarrow> bool"
  as_request :: "go_error \<Rightarrow> requestError option"
  as_multi :: "go_error \<Rightarrow> go_error list option"
  as_schema :: "go_error \<Rightarrow> schemaError option"

text \<open>\<^verbatim>\<open>cmp.Or\<close> on strings.\<close>

fun cmp_Or :: "string list \<Rightarrow> string" where
  "cmp_Or [] = ''''"
| "cmp_Or (s # ss) = (if s \<noteq> '''' then s else cmp_Or ss)"

definition boundedReason :: "string \<Rightarrow> string" where
  "boundedReason reason =
     (if length reason \<le> maxViolationReason then reason
      else let rs = runes reason
           in if length rs \<le> maxViolationReason then reason
              else string_of_runes (take (maxViolationReason - 1) rs) @ ellipsis)"

text \<open>The two \<^verbatim>\<open>strings.ReplaceAll\<close> of one character.\<close>

definition replace_char :: "char \<Rightarrow> string \<Rightarrow> string \<Rightarrow> string" where
  "replace_char c new s = concat (map (\<lambda>x. if x = c then new else [x]) s)"

definition escape_segment :: "string \<Rightarrow> string" where
  "escape_segment s = replace_char (CHR ''/'') ''~1'' (replace_char (CHR ''~'') ''~0'' s)"

definition pointer_field :: "string list \<Rightarrow> string" where
  "pointer_field pointer = ''/'' @ str_join ''/'' (map escape_segment pointer)"

definition schemaViolation :: "schemaError \<Rightarrow> string \<Rightarrow> fieldViolation" where
  "schemaViolation schemaErr fallbackField =
     (let field = (if se_JSONPointer schemaErr \<noteq> [] then pointer_field (se_JSONPointer schemaErr)
                   else fallbackField);
          reason = cmp_Or [trim_space (se_Reason schemaErr), trim_space (se_SchemaField schemaErr),
                           ''does not match the contract'']
      in \<lparr>fv_Field = field, fv_Reason = boundedReason reason\<rparr>)"

definition parameterField :: "requestError \<Rightarrow> string" where
  "parameterField e =
     (case re_Parameter e of
        None \<Rightarrow> ''''
      | Some p \<Rightarrow> if par_In p = '''' then par_Name p else par_In p @ ''.'' @ par_Name p)"

definition requestErrorReason :: "requestError \<Rightarrow> string" where
  "requestErrorReason e =
     (let reason = trim_space (re_Reason e) in if reason \<noteq> '''' then reason else ''does not match the contract'')"

text \<open>\<^verbatim>\<open>appendViolations\<close>; \<open>None\<close> is fuel that ran out.\<close>

function (sequential) appendViolations ::
    "nat \<Rightarrow> validator \<Rightarrow> fieldViolation list \<Rightarrow> go_error option \<Rightarrow> string \<Rightarrow> fieldViolation list option"
  and appendBranches ::
    "nat \<Rightarrow> validator \<Rightarrow> fieldViolation list \<Rightarrow> go_error list \<Rightarrow> string \<Rightarrow> fieldViolation list option"
where
  "appendViolations fuel v violations None field = Some violations"
| "appendViolations fuel v violations (Some err) field =
     (if maxViolations \<le> length violations then Some violations
      else if as_security v err then Some violations
      else case as_request v err of
        Some requestErr \<Rightarrow>
          (case fuel of
             0 \<Rightarrow> None
           | Suc fuel' \<Rightarrow>
               let field' = parameterField requestErr
               in case appendViolations fuel' v violations (re_Err requestErr) field' of
                    None \<Rightarrow> None
                  | Some nested \<Rightarrow>
                      if length violations < length nested \<or> field' = '''' then Some nested
                      else Some (nested @ [\<lparr>fv_Field = field',
                                            fv_Reason = boundedReason (requestErrorReason requestErr)\<rparr>]))
      | None \<Rightarrow>
          (case as_multi v err of
             Some multi \<Rightarrow>
               (case fuel of 0 \<Rightarrow> None | Suc fuel' \<Rightarrow> appendBranches fuel' v violations multi field)
           | None \<Rightarrow>
               (case as_schema v err of
                  Some schemaErr \<Rightarrow> Some (violations @ [schemaViolation schemaErr field])
                | None \<Rightarrow> Some violations)))"
| "appendBranches fuel v violations [] field = Some violations"
| "appendBranches fuel v violations (branch # multi) field =
     (case appendViolations fuel v violations (Some branch) field of
        None \<Rightarrow> None
      | Some violations' \<Rightarrow>
          if maxViolations \<le> length violations' then Some violations'
          else appendBranches fuel v violations' multi field)"
  by pat_completeness auto
termination
  by (relation "measures [\<lambda>x. case x of Inl (fuel, _) \<Rightarrow> fuel | Inr (fuel, _) \<Rightarrow> fuel,
        \<lambda>x. case x of Inl _ \<Rightarrow> 0 | Inr (_, _, _, multi, _) \<Rightarrow> Suc (length multi)]") auto

definition requestViolations :: "nat \<Rightarrow> validator \<Rightarrow> go_error option \<Rightarrow> fieldViolation list option" where
  "requestViolations fuel v err = appendViolations fuel v [] err ''''"

definition violationFields :: "fieldViolation list \<Rightarrow> string list" where
  "violationFields violations = filter (\<lambda>f. f \<noteq> '''') (map fv_Field violations)"

section \<open>request\_errors.go\<close>

text \<open>A log record: level, event and attributes.\<close>

record log_record =
  lr_level :: string
  lr_event :: string
  lr_attrs :: "(string \<times> string list) list"

definition defaultAuthenticateChallenge :: string where "defaultAuthenticateChallenge = ''Bearer''"
definition bearerUnavailableRetryAfter :: duration where "bearerUnavailableRetryAfter = 30 * second"

definition handleMalformedGeneratedRequest ::
  "(openapi_Problem \<Rightarrow> string option) \<Rightarrow> go_error option \<Rightarrow> fieldViolation list
   \<Rightarrow> responseWriter \<times> request option \<Rightarrow> responseWriter \<times> request option" where
  "handleMalformedGeneratedRequest encode err violations wr =
     (if (case err of None \<Rightarrow> False | Some e \<Rightarrow> has_type ''*http.MaxBytesError'' e)
      then writeProblem encode requestEntityTooLargeProblem wr
      else writeMalformedRequestProblem encode violations wr)"

definition set_challenge :: "string \<Rightarrow> responseWriter \<times> request option \<Rightarrow> responseWriter \<times> request option" where
  "set_challenge challenge wr = (set_header ''WWW-Authenticate'' challenge (fst wr), snd wr)"

definition writeBearerRejection ::
  "(openapi_Problem \<Rightarrow> string option) \<Rightarrow> kind \<Rightarrow> string
   \<Rightarrow> responseWriter \<times> request option \<Rightarrow> responseWriter \<times> request option" where
  "writeBearerRejection encode kind challenge wr =
     (if kind = KindMissing
      then writeProblem encode (problem_response CodeUnauthorized ''credentials are missing'')
             (set_challenge ''Bearer'' wr)
      else if kind = KindMalformed
      then writeProblem encode (problem_response CodeBadRequest ''authentication credential is malformed'')
             (set_challenge ''Bearer error=\"invalid_request\"'' wr)
      else if kind = KindOversize
      then writeProblem encode (problem_response CodeRequestHeaderFieldsTooLarge
             ''authentication credential is too large'') wr
      else if kind = KindInvalid
      then writeProblem encode (problem_response CodeUnauthorized ''credentials are invalid'')
             (set_challenge ''Bearer error=\"invalid_token\"'' wr)
      else if kind = KindUnavailable
      then writeProblem encode ((problem_response CodeServiceUnavailable ''authentication trust is unavailable'')
             \<lparr>pr_retryAfter := bearerUnavailableRetryAfter\<rparr>) wr
      else writeProblem encode (problem_response CodeUnauthorized ''credentials are invalid'')
             (set_challenge challenge wr))"

definition logStrictRequestError :: "bool \<Rightarrow> go_error option \<Rightarrow> fieldViolation list \<Rightarrow> log_record list" where
  "logStrictRequestError has_log err violations =
     (if \<not> has_log then []
      else let fields = violationFields violations
           in [\<lparr>lr_level = ''WARN'', lr_event = ''http_request_rejected'',
                lr_attrs = [(''error_chain'', [ClassChain err])]
                  @ (if fields \<noteq> [] then [(''invalid_fields'', fields)] else [])\<rparr>])"

text \<open>The function \<^verbatim>\<open>RejectRequest\<close> returns, for a non-nil error; \<open>None\<close> is fuel that ran out.\<close>

definition RejectRequest ::
  "nat \<Rightarrow> validator \<Rightarrow> (openapi_Problem \<Rightarrow> string option) \<Rightarrow> bool \<Rightarrow> string \<Rightarrow> go_error
   \<Rightarrow> responseWriter \<times> request option \<Rightarrow> (log_record list \<times> responseWriter \<times> request option) option" where
  "RejectRequest fuel v encode has_log challenge err wr =
     (let challenge' = (if trim_space challenge = '''' then defaultAuthenticateChallenge else challenge)
      in case requestViolations fuel v (Some err) of
           None \<Rightarrow> None
         | Some violations \<Rightarrow>
             Some (logStrictRequestError has_log (Some err) violations,
               (case KindOf err of
                  Some kind \<Rightarrow> writeBearerRejection encode kind challenge' wr
                | None \<Rightarrow>
                    if as_security v err then
                      if errors_is err Canceled \<or> errors_is err DeadlineExceeded
                      then writeProblem encode
                             (problem_response CodeGatewayTimeout ''authentication verification did not complete'') wr
                      else writeProblem encode
                             (problem_response CodeUnauthorized ''credentials are missing or invalid'')
                             (set_challenge challenge' wr)
                    else handleMalformedGeneratedRequest encode (Some err) violations wr)))"

section \<open>domain\_errors.go\<close>

definition routeLabel :: "string \<Rightarrow> string \<Rightarrow> string" where
  "routeLabel method template =
     (let template' = trim_space template; method' = trim_space method
      in if template' = '''' then ''<unmatched>''
         else if method' = '''' then template'
         else method' @ '' '' @ template')"

definition recordUnhandledResponseError ::
  "bool \<Rightarrow> request option \<Rightarrow> go_error option \<Rightarrow> log_record list" where
  "recordUnhandledResponseError has_log r err =
     (if err = None \<or> \<not> has_log then []
      else let route = (case r of None \<Rightarrow> routeLabel '''' ''''
                        | Some rq \<Rightarrow> routeLabel (rq_method rq) (rq_template rq))
           in [\<lparr>lr_level = ''ERROR'', lr_event = ''http_unhandled_failure'',
                lr_attrs = [(''route'', [route]), (''error_chain'', [ClassChain err])]\<rparr>])"

definition RejectResponse ::
  "(openapi_Problem \<Rightarrow> string option) \<Rightarrow> bool \<Rightarrow> mapper option list \<Rightarrow> go_error option
   \<Rightarrow> responseWriter \<times> request option \<Rightarrow> log_record list \<times> responseWriter \<times> request option" where
  "RejectResponse encode has_log domainErrors err wr =
     (case contextFailureProblem err of
        Some response \<Rightarrow> ([], writeProblem encode response wr)
      | None \<Rightarrow>
          (case Classify err domainErrors of
             (mapped, ok) \<Rightarrow>
               if ok then
                 ([], writeProblem encode
                        \<lparr>pr_code = class_Code mapped, pr_detail = class_Detail mapped,
                         pr_invalidParams = [], pr_retryAfter = class_RetryAfter mapped\<rparr> wr)
               else
                 (recordUnhandledResponseError has_log (snd wr) err,
                  writeProblem encode (problem_response CodeInternalError SanitizedDetail) wr)))"

section \<open>Writing a problem\<close>

lemma half_even_near:
  assumes "0 < b"
  shows "2 * (half_even a b * b) \<le> 2 * a + b \<and> 2 * a \<le> 2 * (half_even a b * b) + b"
proof -
  define k r where "k = a div b" and "r = a mod b"
  have "a = k * b + r" "0 \<le> r" "r < b" using assms by (simp_all add: k_def r_def)
  then show ?thesis unfolding half_even_def Let_def k_def [symmetric] r_def [symmetric] by (auto simp: algebra_simps)
qed

lemma half_even_exact: "0 < b \<Longrightarrow> half_even (a * b) b = a"
  by (simp add: half_even_def)

lemma bit_length_le: "n < 2 ^ m \<Longrightarrow> bit_length n \<le> m"
proof (induction m arbitrary: n)
  case 0
  then show ?case by (simp add: bit_length.simps)
next
  case (Suc m)
  then show ?case using Suc.IH [of "n div 2"] by (subst bit_length.simps) (auto simp: div_less_iff_less_mult)
qed

lemma ceil_between: "0 < (q :: int) \<Longrightarrow> s * q < y \<Longrightarrow> y \<le> (s + 1) * q \<Longrightarrow> - ((- y) div q) = s + 1"
proof -
  assume q: "0 < q" "s * q < y" "y \<le> (s + 1) * q"
  have "(- y) div q = - s - 1" by (rule int_div_pos_eq [of _ _ _ "(s + 1) * q - y"]) (use q in \<open>auto simp: algebra_simps\<close>)
  then show ?thesis by simp
qed

text \<open>Below \<open>2 ^ 22\<close> seconds, 48 days, rounding never reaches or leaves a whole second.\<close>

lemma quotient_inside:
  assumes "0 < n" "n < second" "2 ^ 53 \<le> (E :: int)" "x = half_even (n * E) second"
  shows "E - 500000000 \<le> x * second" "x * second \<le> (second - 1) * E + 500000000"
proof -
  have near: "2 * (x * second) \<le> 2 * (n * E) + second" "2 * (n * E) \<le> 2 * (x * second) + second"
    using half_even_near [of second "n * E"] by (simp_all add: assms(4) second_def)
  have "1 * E \<le> n * E" "n * E \<le> (second - 1) * E" using assms by (intro mult_right_mono; simp)+
  then show "E - 500000000 \<le> x * second" "x * second \<le> (second - 1) * E + 500000000" using near by (simp_all add: second_def)
qed

lemma half_gap: "(E - 500000000) * 2147483648 \<le> Z \<Longrightarrow> Z \<le> 1000000000 * W \<Longrightarrow> 9007199254740992 \<le> E \<Longrightarrow> E < 2 * (W :: int)"
  by simp

lemma ceil_seconds_exact:
  assumes "0 < d" "d < 2 ^ 22 * second"
  shows "ceil_seconds d = d div second + (if d mod second = 0 then 0 else 1)"
proof -
  define s n where "s = d div second" and "n = d mod second"
  define p q where "p = 52 + bit_length ((second - 1) div n)" and "q = 53 - bit_length s"
  define E Q where "E = (2 :: int) ^ p" and "Q = (2 :: int) ^ q"
  have n: "0 \<le> n" "n < second" by (simp_all add: n_def second_def)
  have s: "0 \<le> s" "s < 2 ^ 22" using assms by (auto simp: s_def second_def div_less_iff_less_mult)
  have "bit_length s \<le> 22" using s by (intro bit_length_le) simp
  then have Q: "2 ^ 31 \<le> Q" unfolding Q_def q_def by (intro power_increasing) auto
  show ?thesis
  proof (cases "n = 0")
    case True
    have "d = s * second + n" by (simp add: s_def n_def)
    then have "s \<noteq> 0" using assms(1) True by auto
    have "half_even (s * 2 ^ m * Q) (2 ^ m) = s * Q" for m using half_even_exact [of "2 ^ m" "s * Q"] by (simp add: ac_simps)
    moreover have "- (- (s * Q) div Q) = s" using nonzero_mult_div_cancel_right [of Q "- s"] Q by simp
    ultimately have "ceil_seconds d = s"
      using True \<open>s \<noteq> 0\<close> Q by (simp add: ceil_seconds_def Let_def flip: s_def n_def q_def Q_def)
    then show ?thesis using True by (simp add: s_def n_def)
  next
    case False
    define x where "x = half_even (n * E) second"
    have "0 < (second - 1) div n" using n False by (simp add: pos_imp_zdiv_pos_iff)
    then have "0 < bit_length ((second - 1) div n)" by (subst bit_length.simps) simp
    then have E: "2 ^ 53 \<le> E" unfolding E_def p_def by (intro power_increasing) auto
    have xb: "E - 500000000 \<le> x * second" "x * second \<le> (second - 1) * E + 500000000"
      using quotient_inside [OF _ n(2) E x_def] n(1) False by simp_all
    have x: "0 < x" "x < E" using xb E by (simp_all add: second_def)
    show ?thesis
    proof (cases "s = 0")
      case True
      have "- ((- x) div E) = 0 + 1" by (rule ceil_between) (use x E in auto)
      then show ?thesis
        using True False by (simp add: ceil_seconds_def Let_def flip: s_def n_def p_def q_def E_def Q_def x_def)
    next
      case s0: False
      define y where "y = half_even ((s * E + x) * Q) E"
      have near: "2 * (y * E) \<le> 2 * ((s * E + x) * Q) + E" "2 * ((s * E + x) * Q) \<le> 2 * (y * E) + E"
        using half_even_near [of E "(s * E + x) * Q"] E by (simp_all add: y_def)
      have lowQ: "(E - 500000000) * Q \<le> x * second * Q" using xb(1) Q by (intro mult_right_mono) auto
      have highQ: "(E - 500000000) * Q \<le> (E - x) * second * Q" using xb(2) Q by (intro mult_right_mono) (auto simp: algebra_simps second_def)
      have EQ: "(E - 500000000) * 2 ^ 31 \<le> (E - 500000000) * Q" using Q E by (intro mult_left_mono) auto
      have low: "E < 2 * (x * Q)"
        using EQ E lowQ by (intro half_gap [of E "(E - 500000000) * Q"]) (simp_all add: second_def)
      have high: "E < 2 * ((E - x) * Q)"
        using EQ E highQ by (intro half_gap [of E "(E - 500000000) * Q"]) (simp_all add: second_def algebra_simps)
      have "s * Q * E < y * E" using near(2) low by (simp add: algebra_simps)
      moreover have "y * E < (s + 1) * Q * E" using near(1) high by (simp add: algebra_simps)
      ultimately have "s * Q < y" "y < (s + 1) * Q" using E by (simp_all add: mult_less_cancel_right)
      then have "- ((- y) div Q) = s + 1" using Q by (intro ceil_between) auto
      then show ?thesis
        using s0 False by (simp add: ceil_seconds_def Let_def flip: s_def n_def p_def q_def E_def Q_def x_def y_def)
    qed
  qed
qed

lemma retryAfterSeconds_ceiling:
  assumes "0 < d" "d < 2 ^ 22 * second"
  shows "d \<le> retryAfterSeconds d * second \<and> (retryAfterSeconds d - 1) * second < d"
proof -
  define s n where "s = d div second" and "n = d mod second"
  have d: "d = s * second + n" "0 \<le> n" "n < second" by (simp_all add: s_def n_def second_def)
  have "1 \<le> s + (if n = 0 then 0 else 1)"
  proof (rule ccontr)
    assume "\<not> 1 \<le> s + (if n = 0 then 0 else 1)"
    then have "s * second + n \<le> 0" using d(2,3) by (auto simp: second_def split: if_splits)
    then show False using assms(1) d(1) by simp
  qed
  then have "retryAfterSeconds d = s + (if n = 0 then 0 else 1)"
    using assms by (simp add: retryAfterSeconds_def ceil_seconds_exact flip: s_def n_def)
  then show ?thesis using d by (auto simp: algebra_simps)
qed

text \<open>The bound is needed: from 2 to the 24 seconds on, a fraction is lost before it is rounded up.\<close>

lemma retry_after_rounds_down: "retryAfterSeconds (16777216 * second + 1) = 16777216"
  by code_simp

lemma writeProblem_status:
  "rw_status w = None \<Longrightarrow>
   rw_status (fst (writeProblem encode p (w, r))) = Some (def_Status (ForCodeOrInternal (pr_code p)))"
  by (simp add: writeProblem_def Let_def WriteHeader_def set_header_def split: option.split)

lemma writeProblem_result:
  "writeProblem encode p (w, r) = (w', r') \<Longrightarrow> rw_status w = None \<Longrightarrow>
   rw_status w' = Some (def_Status (ForCodeOrInternal (pr_code p)))"
  by (metis fst_conv writeProblem_status)

lemma writeProblem_header:
  "k \<noteq> ''Content-Type'' \<Longrightarrow> k \<noteq> ''Retry-After'' \<Longrightarrow>
   rw_header (fst (writeProblem encode p (w, r))) k = rw_header w k"
  by (simp add: writeProblem_def Let_def WriteHeader_def set_header_def split: option.split)

lemma writeProblem_retry:
  "rw_header w ''Retry-After'' = None \<Longrightarrow>
   rw_header (fst (writeProblem encode p (w, r))) ''Retry-After'' =
     (if 0 < pr_retryAfter p then Some (decimal_int (retryAfterSeconds (pr_retryAfter p))) else None)"
  by (simp add: writeProblem_def Let_def WriteHeader_def set_header_def split: option.split)

lemma writeProblem_record:
  "snd (writeProblem encode p (w, r)) =
     map_option (recordProblemCode (def_Code (ForCodeOrInternal (pr_code p)))) r"
  by (simp add: writeProblem_def Let_def split: option.split)

lemmas writeProblem_facts = writeProblem_status writeProblem_header writeProblem_retry writeProblem_record

lemma ForCodeOrInternal_code_nonempty: "def_Code (ForCodeOrInternal c) \<noteq> ''''"
  by (simp add: ForCodeOrInternal_code catalog_codes)

text \<open>A problem written on an uncommitted response commits the status of a catalog entry,
  advertises \<^verbatim>\<open>Retry-After\<close> only for a positive delay and then, for delays of less than \<open>2 ^ 22\<close> seconds, as the least number of
  whole seconds that covers it (never zero; longer delays may lose a fraction to rounding), and the code recorded for the access log is the
  first one written: a second problem on the same request does not replace it.\<close>

theorem problem_response_written:
  assumes "rw_status w = None" and "rw_header w ''Retry-After'' = None"
    and "rq_record r = Some ''''"
    and "writeProblem encode p (w, Some r) = (w', r')" and "pr_retryAfter p < 2 ^ 22 * second"
  shows "(\<exists>d \<in> set catalog. rw_status w' = Some (def_Status d) \<and> problemCodeForRequest r' = def_Code d)
    \<and> (rw_header w' ''Retry-After'' = None \<longleftrightarrow> pr_retryAfter p \<le> 0)
    \<and> (0 < pr_retryAfter p \<longrightarrow>
        (\<exists>n \<ge> 1. rw_header w' ''Retry-After'' = Some (decimal_int n)
           \<and> pr_retryAfter p \<le> n * second \<and> (n - 1) * second < pr_retryAfter p))
    \<and> problemCodeForRequest (snd (writeProblem encode p2 (w', r'))) = problemCodeForRequest r'"
proof -
  let ?d = "ForCodeOrInternal (pr_code p)"
  have w': "w' = fst (writeProblem encode p (w, Some r))" and r': "r' = snd (writeProblem encode p (w, Some r))"
    using assms(4) by simp_all
  have "r' = Some (r\<lparr>rq_record := Some (def_Code ?d)\<rparr>)"
    using assms(3) by (simp add: r' writeProblem_record recordProblemCode_def)
  then have code: "problemCodeForRequest r' = def_Code ?d"
    and again: "problemCodeForRequest (snd (writeProblem encode p2 (w', r'))) = problemCodeForRequest r'"
    by (simp_all add: problemCodeForRequest_def writeProblem_record recordProblemCode_def
        ForCodeOrInternal_code_nonempty)
  have "\<exists>d \<in> set catalog. rw_status w' = Some (def_Status d) \<and> problemCodeForRequest r' = def_Code d"
    using ForCodeOrInternal_in_catalog [of "pr_code p"] code assms(1) by (auto simp: w' writeProblem_status)
  moreover have "1 \<le> retryAfterSeconds (pr_retryAfter p)" by (simp add: retryAfterSeconds_def)
  ultimately show ?thesis
    using again retryAfterSeconds_ceiling [of "pr_retryAfter p", OF _ assms(5)] assms(2) by (auto simp: w' writeProblem_retry)
qed

lemma problem_response_written_witness:
  "\<exists>w' r'. writeProblem (\<lambda>_. Some ''{}'')
      ((problem_response CodeTooManyRequests ''busy'')\<lparr>pr_retryAfter := 1500 * millisecond\<rparr>)
      (empty_writer, Some \<lparr>rq_id = ''r-1'', rq_record = Some '''', rq_method = ''GET'', rq_template = ''/a''\<rparr>) = (w', r')
     \<and> (\<exists>n \<ge> 1. rw_header w' ''Retry-After'' = Some (decimal_int n) \<and> 1500 * millisecond \<le> n * second)"
proof -
  let ?p = "(problem_response CodeTooManyRequests ''busy'')\<lparr>pr_retryAfter := 1500 * millisecond\<rparr>"
  let ?r = "\<lparr>rq_id = ''r-1'', rq_record = Some '''', rq_method = ''GET'', rq_template = ''/a''\<rparr>"
  obtain w' r' where eq: "writeProblem (\<lambda>_. Some ''{}'') ?p (empty_writer, Some ?r) = (w', r')" by fastforce
  from problem_response_written [OF _ _ _ eq] have
    "\<exists>n \<ge> 1. rw_header w' ''Retry-After'' = Some (decimal_int n) \<and> 1500 * millisecond \<le> n * second"
    by (simp add: empty_writer_def dur_simps) blast
  with eq show ?thesis by blast
qed

section \<open>Failed responses\<close>

lemmas code_status = ForCodeOrInternal_def ForCode_def catalog_def entry_def

lemma statuses [simp]:
  "def_Status (ForCodeOrInternal ''unauthorized'') = 401"
  "def_Status (ForCodeOrInternal ''bad_request'') = 400"
  "def_Status (ForCodeOrInternal ''gateway_timeout'') = 504"
  "def_Status (ForCodeOrInternal ''internal_error'') = 500"
  "def_Status (ForCodeOrInternal ''request_entity_too_large'') = 413"
  "def_Status (ForCodeOrInternal ''request_header_fields_too_large'') = 431"
  "def_Status (ForCodeOrInternal ''service_unavailable'') = 503"
  by (simp_all add: code_status)

lemma has_challenge:
  "rw_header (fst (writeProblem encode p (set_challenge c (w, r)))) ''WWW-Authenticate'' = Some c"
  by (simp add: set_challenge_def writeProblem_header) (simp add: set_header_def)

lemma challenge_status:
  "rw_status w = None \<Longrightarrow>
   rw_status (fst (writeProblem encode p (set_challenge c (w, r)))) = Some (def_Status (ForCodeOrInternal (pr_code p)))"
  by (simp add: set_challenge_def writeProblem_status set_header_def)

lemmas rejection_facts = has_challenge challenge_status writeProblem_status problem_response_def

lemma bearer_401_challenges:
  "rw_status w = None \<Longrightarrow> rw_status (fst (writeBearerRejection encode k c (w, r))) = Some 401 \<Longrightarrow>
   rw_header (fst (writeBearerRejection encode k c (w, r))) ''WWW-Authenticate'' \<noteq> None"
  by (simp add: writeBearerRejection_def rejection_facts split: if_splits)

lemma malformed_status:
  "rw_status w = None \<Longrightarrow>
   rw_status (fst (handleMalformedGeneratedRequest encode (Some e) vs (w, r))) =
     Some (if has_type ''*http.MaxBytesError'' e then 413 else 400)"
  by (simp add: handleMalformedGeneratedRequest_def requestEntityTooLargeProblem_def rejection_facts
      writeMalformedRequestProblem_def)

text \<open>C15: A failed response is answered by the first rule that applies: a spent deadline or a
  caller that left is 504 whatever the mappers say; otherwise the first mapper that claims
  the error decides, if its code is published; everything else is 500. The record is exactly one ERROR
  record with the route and the class chain in the last case (given a logger and an error), and there is none for a failure
  the service classified.\<close>

theorem failed_response_status:
  assumes "rw_status w = None" and "RejectResponse encode has_log mappers err (w, r) = (log, w', r')"
  shows "rw_status w' =
     Some (if errors_is_opt err DeadlineExceeded \<or> errors_is_opt err Canceled then 504
           else case claims err mappers of
                  [] \<Rightarrow> 500
                | c # _ \<Rightarrow> if class_Code c \<in> set AllCodes then def_Status (ForCodeOrInternal (class_Code c)) else 500)
    \<and> log = (if has_log \<and> err \<noteq> None \<and> \<not> errors_is_opt err DeadlineExceeded \<and> \<not> errors_is_opt err Canceled
               \<and> (case claims err mappers of [] \<Rightarrow> True | c # _ \<Rightarrow> class_Code c \<notin> set AllCodes)
             then [\<lparr>lr_level = ''ERROR'', lr_event = ''http_unhandled_failure'',
                    lr_attrs = [(''route'', [case r of None \<Rightarrow> ''<unmatched>'' | Some rq \<Rightarrow> routeLabel (rq_method rq) (rq_template rq)]),
                                (''error_chain'', [ClassChain err])]\<rparr>]
             else [])"
  using assms
  by (cases "claims err mappers")
    (auto simp: RejectResponse_def contextFailureProblem_def timeBudgetExceededProblem_def problem_response_def
      Classify_eq_claims recordUnhandledResponseError_def routeLabel_def Let_def
      dest!: writeProblem_result split: if_splits option.splits)

lemma failed_response_status_witness:
  "\<exists>log w' r'. RejectResponse (\<lambda>_. None) True
      [None, Some (\<lambda>_. (\<lparr>class_Code = CodeNotFound, class_Detail = ''x'', class_RetryAfter = 0\<rparr>, True))]
      (Some (WrapFmt ''load'' DeadlineExceeded)) (empty_writer, None) = (log, w', r')
     \<and> rw_status w' = Some 504 \<and> log = []"
proof -
  let ?ms = "[None, Some (\<lambda>_. (\<lparr>class_Code = CodeNotFound, class_Detail = ''x'', class_RetryAfter = 0\<rparr>, True))]"
  let ?err = "Some (WrapFmt ''load'' DeadlineExceeded)"
  obtain log w' r' where eq: "RejectResponse (\<lambda>_. None) True ?ms ?err (empty_writer, None) = (log, w', r')"
    by (cases "RejectResponse (\<lambda>_. None) True ?ms ?err (empty_writer, None)")
  have "rw_status w' = Some 504 \<and> log = []"
    using failed_response_status [OF _ eq] by (simp add: empty_writer_def errors_is_opt_def)
  with eq show ?thesis by blast
qed

section \<open>Violations\<close>

lemma length_boundedReason: "length (runes (boundedReason reason)) \<le> maxViolationReason"
proof (cases "length reason \<le> maxViolationReason \<or> length (runes reason) \<le> maxViolationReason")
  case True
  then show ?thesis using length_runes_le [of reason] by (auto simp: boundedReason_def Let_def)
next
  case False
  then have "runes (boundedReason reason) = take (maxViolationReason - 1) (runes reason) @ [0x2026]"
    by (simp add: boundedReason_def Let_def runes_append_string list_all_take runes_valid runes_ellipsis)
  then show ?thesis by (simp add: maxViolationReason_def)
qed

definition violations_ok :: "fieldViolation list \<Rightarrow> bool" where
  "violations_ok vs =
     (length vs \<le> maxViolations \<and> (\<forall>x \<in> set vs. length (runes (fv_Reason x)) \<le> maxViolationReason))"

lemma violations_ok_snoc:
  "violations_ok vs \<Longrightarrow> length vs < maxViolations \<Longrightarrow> violations_ok (vs @ [\<lparr>fv_Field = f, fv_Reason = boundedReason s\<rparr>])"
  by (auto simp: violations_ok_def length_boundedReason)

lemma violations_ok_schema:
  "violations_ok vs \<Longrightarrow> length vs < maxViolations \<Longrightarrow> violations_ok (vs @ [schemaViolation e f])"
  by (simp add: schemaViolation_def Let_def violations_ok_snoc)

declare appendViolations.simps(2) [simp del] appendBranches.simps(2) [simp del]

lemma appendViolations_ok:
  shows "appendViolations fuel v vs err field = Some vs' \<Longrightarrow> violations_ok vs \<Longrightarrow> violations_ok vs'"
    and "appendBranches fuel v vs multi field = Some vs' \<Longrightarrow> violations_ok vs \<Longrightarrow> violations_ok vs'"
proof (induction fuel v vs err field and fuel v vs multi field arbitrary: vs' and vs'
    rule: appendViolations_appendBranches.induct)
  case (2 fuel v vs err field)
  show ?case
  proof (cases "maxViolations \<le> length vs \<or> as_security v err")
    case True
    with 2 show ?thesis by (simp add: appendViolations.simps(2) split: if_splits)
  next
    case False
    show ?thesis
    proof (cases "as_request v err")
      case None
      with 2 False show ?thesis
        by (auto simp: appendViolations.simps(2) not_le violations_ok_schema split: option.splits nat.splits)
    next
      case (Some re)
      with 2(3) False obtain fuel' nested where fuel': "fuel = Suc fuel'"
        and nested: "appendViolations fuel' v vs (re_Err re) (parameterField re) = Some nested"
        and vs': "vs' = (if length vs < length nested \<or> parameterField re = '''' then nested
             else nested @ [\<lparr>fv_Field = parameterField re, fv_Reason = boundedReason (requestErrorReason re)\<rparr>])"
        by (auto simp: appendViolations.simps(2) Let_def split: option.splits nat.splits if_splits)
      from False have "\<not> maxViolations \<le> length vs" "\<not> as_security v err" by simp_all
      from 2(2) [OF this Some fuel' refl nested 2(4)] have "violations_ok nested" .
      then show ?thesis using vs' \<open>\<not> maxViolations \<le> length vs\<close> by (auto intro: violations_ok_snoc)
    qed
  qed
next
  case (4 fuel v vs branch multi field)
  then show ?case by (auto simp: appendBranches.simps(2) split: option.splits if_splits)
qed auto

text \<open>A measure the tests descend in: the errors a request error and a multi-error hold are
  smaller than they are.\<close>

definition descends :: "validator \<Rightarrow> (go_error \<Rightarrow> nat) \<Rightarrow> bool" where
  "descends v m =
     ((\<forall>err re e. as_request v err = Some re \<longrightarrow> re_Err re = Some e \<longrightarrow> m e < m err)
      \<and> (\<forall>err es. as_multi v err = Some es \<longrightarrow> (\<forall>e \<in> set es. m e < m err)))"

lemma appendViolations_total:
  shows "descends v m \<Longrightarrow> \<forall>e. err = Some e \<longrightarrow> m e < fuel \<Longrightarrow> \<exists>vs'. appendViolations fuel v vs err field = Some vs'"
    and "descends v m \<Longrightarrow> \<forall>e \<in> set multi. m e < fuel \<Longrightarrow> \<exists>vs'. appendBranches fuel v vs multi field = Some vs'"
proof (induction fuel v vs err field and fuel v vs multi field
    rule: appendViolations_appendBranches.induct)
  case (2 fuel v vs err field)
  obtain fuel' where fuel': "fuel = Suc fuel'" using 2(4) by (cases fuel) auto
  show ?case
  proof (cases "maxViolations \<le> length vs \<or> as_security v err")
    case True
    then show ?thesis by (auto simp: appendViolations.simps(2))
  next
    case False
    then have g: "\<not> maxViolations \<le> length vs" "\<not> as_security v err" by simp_all
    show ?thesis
    proof (cases "as_request v err")
      case None
      have "\<exists>vs'. appendBranches fuel' v vs es field = Some vs'" if "as_multi v err = Some es" for es
        using 2(1) [OF g None that fuel' 2(3)] 2(3,4) that fuel'
        by (fastforce simp: descends_def)
      with None g show ?thesis
        by (auto simp: appendViolations.simps(2) fuel' split: option.split)
    next
      case (Some re)
      have "\<exists>vs'. appendViolations fuel' v vs (re_Err re) (parameterField re) = Some vs'"
        using 2(2) [OF g Some fuel' refl 2(3)] 2(3,4) Some fuel' by (fastforce simp: descends_def)
      with Some g show ?thesis by (auto simp: appendViolations.simps(2) fuel' Let_def)
    qed
  qed
next
  case (4 fuel v vs branch multi field)
  have "\<forall>e. Some branch = Some e \<longrightarrow> m e < fuel" using 4 by simp
  from 4(1) [OF 4(3) this] obtain vs' where "appendViolations fuel v vs (Some branch) field = Some vs'" by blast
  then show ?case using 4(2) 4(3,4) by (auto simp: appendBranches.simps(2))
qed auto

text \<open>C16: however deep and wide a validator's error is, the walk over it ends (with fuel above
  any measure its nesting descends in), and what reaches the response and the log is at
  most ten violations with reasons of at most 200 characters each.\<close>

theorem violations_bounded_and_total:
  assumes "descends v m" and "m err < fuel"
  shows "\<exists>vs. requestViolations fuel v (Some err) = Some vs
           \<and> length vs \<le> 10 \<and> (\<forall>x \<in> set vs. length (runes (fv_Reason x)) \<le> 200)"
proof -
  obtain vs where vs: "appendViolations fuel v [] (Some err) '''' = Some vs"
    using appendViolations_total(1) [OF assms(1)] assms(2) by blast
  then have "violations_ok vs" by (rule appendViolations_ok(1)) (simp add: violations_ok_def)
  then show ?thesis using vs
    by (simp add: requestViolations_def violations_ok_def maxViolations_def maxViolationReason_def)
qed

definition example_multi_validator :: validator where
  "example_multi_validator =
     \<lparr>as_security = (\<lambda>_. False), as_request = (\<lambda>_. None),
      as_multi = (\<lambda>e. case e of WrapMulti t m es \<Rightarrow> Some es | _ \<Rightarrow> None),
      as_schema = (\<lambda>e. case e of
          Typed t i \<Rightarrow> Some \<lparr>se_JSONPointer = [''a/b''], se_Reason = i, se_SchemaField = ''type''\<rparr>
        | _ \<Rightarrow> None)\<rparr>"

lemma example_multi_descends: "descends example_multi_validator size"
  by (auto simp: descends_def example_multi_validator_def
      dest: size_list_estimation' [where f = size, OF _ order_refl] split: go_error.splits)

lemma violations_bounded_and_total_witness:
  "\<exists>vs. requestViolations 5 example_multi_validator
      (Some (WrapMulti ''openapi3.MultiError'' '''' [Typed ''*openapi3.SchemaError'' ''too long''])) = Some vs
     \<and> length vs \<le> 10"
  using violations_bounded_and_total [OF example_multi_descends,
      of "WrapMulti ''openapi3.MultiError'' '''' [Typed ''*openapi3.SchemaError'' ''too long'']" 5]
  by auto

section \<open>Rejected requests\<close>

lemma problem_answer:
  assumes "rw_status w = None" "rw_header w ''Retry-After'' = None"
  shows "rw_status (fst (writeProblem encode p (w, r))) = Some (def_Status (ForCodeOrInternal (pr_code p)))"
    "rw_header (fst (writeProblem encode p (w, r))) ''WWW-Authenticate'' = rw_header w ''WWW-Authenticate''"
    "rw_header (fst (writeProblem encode p (w, r))) ''Retry-After''
       = (if 0 < pr_retryAfter p then Some (decimal_int (retryAfterSeconds (pr_retryAfter p))) else None)"
  using assms by (simp_all add: writeProblem_facts)

lemma challenge_answer:
  assumes "rw_status w = None" "rw_header w ''Retry-After'' = None"
  shows "rw_status (fst (writeProblem encode p (set_challenge c (w, r)))) = Some (def_Status (ForCodeOrInternal (pr_code p)))"
    "rw_header (fst (writeProblem encode p (set_challenge c (w, r)))) ''WWW-Authenticate'' = Some c"
    "rw_header (fst (writeProblem encode p (set_challenge c (w, r)))) ''Retry-After''
       = (if 0 < pr_retryAfter p then Some (decimal_int (retryAfterSeconds (pr_retryAfter p))) else None)"
  using assms problem_answer [of "set_header ''WWW-Authenticate'' c w" encode p r]
  by (simp_all add: set_challenge_def set_header_def)

lemma malformed_answer:
  assumes "rw_status w = None" "rw_header w ''Retry-After'' = None"
  shows "rw_status (fst (handleMalformedGeneratedRequest encode (Some e) vs (w, r)))
       = Some (if has_type ''*http.MaxBytesError'' e then 413 else 400)"
    "rw_header (fst (handleMalformedGeneratedRequest encode (Some e) vs (w, r))) ''WWW-Authenticate'' = rw_header w ''WWW-Authenticate''"
    "rw_header (fst (handleMalformedGeneratedRequest encode (Some e) vs (w, r))) ''Retry-After'' = None"
  using assms by (simp_all add: handleMalformedGeneratedRequest_def requestEntityTooLargeProblem_def problem_response_def
      writeMalformedRequestProblem_def problem_answer)

text \<open>The contract of a rejection: status, challenge and advertised delay by what is wrong with the request.\<close>

definition rejection_contract :: "validator \<Rightarrow> go_error \<Rightarrow> string \<Rightarrow> nat \<times> string option \<times> string option" where
  "rejection_contract v err challenge =
     (case KindOf err of
        Some k \<Rightarrow>
          if k = 1 then (401, Some ''Bearer'', None)
          else if k = 2 then (400, Some ''Bearer error=\"invalid_request\"'', None)
          else if k = 3 then (431, None, None)
          else if k = 4 then (401, Some ''Bearer error=\"invalid_token\"'', None)
          else if k = 5 then (503, None, Some ''30'')
          else (401, Some challenge, None)
      | None \<Rightarrow>
          if as_security v err then
            if errors_is err Canceled \<or> errors_is err DeadlineExceeded then (504, None, None) else (401, Some challenge, None)
          else if has_type ''*http.MaxBytesError'' err then (413, None, None) else (400, None, None))"

lemma thirty_seconds: "decimal_int (retryAfterSeconds (30 * second)) = ''30''"
proof -
  have "retryAfterSeconds (30 * second) = 30"
    using ceil_seconds_exact [of "30 * second"] by (simp add: retryAfterSeconds_def second_def)
  moreover have "decimal_int 30 = ''30''" by code_simp
  ultimately show ?thesis by simp
qed

text \<open>C14: A rejected request is answered, once, by what is wrong with it. However deep the validator's error is nested, the rejection returns
  with one WARN record if there is a logger. A missing credential is 401, a malformed one 400, one that is too large 431, an
  invalid one 401, and when the trust cannot be established it is 503 with 30 seconds of \<^verbatim>\<open>Retry-After\<close>; a failed security requirement
  without a category is 401 or, when the check was cut off, 504; a body over the limit is 413; anything else is 400. The answers that
  ask for credentials carry the \<^verbatim>\<open>WWW-Authenticate\<close> challenge of their branch, the default scheme when the service names none, and the others carry none.\<close>

theorem rejected_request_status:
  assumes "rw_status w = None" and "rw_header w ''WWW-Authenticate'' = None" and "rw_header w ''Retry-After'' = None"
    and "descends v m" and "m err < fuel"
  shows "\<exists>log w' r'. RejectRequest fuel v encode has_log challenge err (w, r) = Some (log, w', r')
     \<and> map lr_level log = (if has_log then [''WARN''] else [])
     \<and> (case rejection_contract v err (if trim_space challenge = '''' then ''Bearer'' else challenge) of (status, asked, delay) \<Rightarrow>
          rw_status w' = Some status \<and> rw_header w' ''WWW-Authenticate'' = asked \<and> rw_header w' ''Retry-After'' = delay)"
proof -
  obtain vs where vs: "requestViolations fuel v (Some err) = Some vs"
    using appendViolations_total(1) [OF assms(4)] assms(5) unfolding requestViolations_def by blast
  note facts = assms(1-3) problem_answer challenge_answer malformed_answer problem_response_def thirty_seconds bearerUnavailableRetryAfter_def
  let ?challenge = "if trim_space challenge = '''' then ''Bearer'' else challenge"
  obtain log w' r' where out: "RejectRequest fuel v encode has_log challenge err (w, r) = Some (log, w', r')"
    by (cases "the (RejectRequest fuel v encode has_log challenge err (w, r))") (auto simp: RejectRequest_def vs Let_def)
  have log: "map lr_level log = (if has_log then [''WARN''] else [])"
    using out by (auto simp: RejectRequest_def vs logStrictRequestError_def Let_def)
  have "(rw_status w', rw_header w' ''WWW-Authenticate'', rw_header w' ''Retry-After'')
      = map_prod Some id (rejection_contract v err ?challenge)"
  proof (cases "KindOf err")
    case None
    have "w' = fst (if as_security v err
           then if errors_is err Canceled \<or> errors_is err DeadlineExceeded
             then writeProblem encode (problem_response CodeGatewayTimeout ''authentication verification did not complete'') (w, r)
             else writeProblem encode (problem_response CodeUnauthorized ''credentials are missing or invalid'') (set_challenge ?challenge (w, r))
           else handleMalformedGeneratedRequest encode (Some err) vs (w, r))"
      using out None by (auto simp: RejectRequest_def vs defaultAuthenticateChallenge_def Let_def)
    then show ?thesis using None by (simp add: rejection_contract_def facts)
  next
    case (Some k)
    have "w' = fst (writeBearerRejection encode k ?challenge (w, r))"
      using out Some by (auto simp: RejectRequest_def vs defaultAuthenticateChallenge_def Let_def)
    then show ?thesis using Some by (simp add: rejection_contract_def writeBearerRejection_def kind_defs facts) (simp add: second_def)
  qed
  then show ?thesis using out log by (auto split: prod.splits)
qed

definition example_validator :: validator where
  "example_validator =
     \<lparr>as_security = has_type ''*openapi3filter.SecurityRequirementsError'', as_request = (\<lambda>_. None),
      as_multi = (\<lambda>_. None), as_schema = (\<lambda>_. None)\<rparr>"

lemma rejected_request_status_witness:
  "\<exists>log w' r'. RejectRequest 1 example_validator (\<lambda>_. None) True '' ''
      (WrapTyped ''*openapi3filter.SecurityRequirementsError'' '''' (Fresh ''no key'')) (empty_writer, None)
        = Some (log, w', r')
     \<and> rw_status w' = Some 401 \<and> rw_header w' ''WWW-Authenticate'' = Some ''Bearer''"
proof -
  let ?err = "WrapTyped ''*openapi3filter.SecurityRequirementsError'' '''' (Fresh ''no key'')"
  have kind: "KindOf ?err = None" "as_security example_validator ?err"
    by (simp_all add: KindOf_def example_validator_def has_type_def)
  have "trim_space '' '' = ''''" by code_simp
  moreover have "descends example_validator (\<lambda>_. 0)" by (simp add: descends_def example_validator_def)
  ultimately show ?thesis
    using rejected_request_status [of empty_writer example_validator "\<lambda>_. 0" ?err 1 "\<lambda>_. None" True "'' ''" None] kind
    by (auto simp: empty_writer_def rejection_contract_def)
qed

section \<open>JSON pointers\<close>

text \<open>RFC 6901: a reader splits at the slashes and decodes each segment.\<close>

fun unescape_segment :: "string \<Rightarrow> string" where
  "unescape_segment [] = []"
| "unescape_segment [c] = [c]"
| "unescape_segment (c # d # s) =
     (if c = CHR ''~'' \<and> d = CHR ''0'' then CHR ''~'' # unescape_segment s
      else if c = CHR ''~'' \<and> d = CHR ''1'' then CHR ''/'' # unescape_segment s
      else c # unescape_segment (d # s))"

lemma escape_segment_simps [simp]:
  "escape_segment [] = []"
  "escape_segment (c # s) =
     (if c = CHR ''~'' then ''~0'' else if c = CHR ''/'' then ''~1'' else [c]) @ escape_segment s"
  by (simp_all add: escape_segment_def replace_char_def)

lemma unescape_escape [simp]: "unescape_segment (escape_segment s) = s"
proof (induction s)
  case (Cons c s)
  then show ?case
    by (cases "escape_segment s") auto
qed simp

lemma escape_segment_no_slash: "CHR ''/'' \<notin> set (escape_segment s)"
  by (induction s) auto

text \<open>The field a schema violation names is an RFC 6901 pointer: splitting it at the slashes
  and decoding the segments gives back exactly the path of the failed member, whatever
  characters its property names have, so two different members never share a name.\<close>

theorem pointer_field_roundtrip:
  assumes "se_JSONPointer e \<noteq> []"
  shows "map unescape_segment (tl (split_on (CHR ''/'') (fv_Field (schemaViolation e fallback)))) = se_JSONPointer e"
  using assms
  by (simp add: schemaViolation_def Let_def pointer_field_def split_join escape_segment_no_slash
      comp_def)

lemma pointer_field_roundtrip_witness:
  "map unescape_segment (tl (split_on (CHR ''/'')
      (fv_Field (schemaViolation \<lparr>se_JSONPointer = [''a/b'', ''~1''], se_Reason = ''r'', se_SchemaField = ''''\<rparr> ''''))))
    = [''a/b'', ''~1'']"
  using pointer_field_roundtrip [of "\<lparr>se_JSONPointer = [''a/b'', ''~1''], se_Reason = ''r'', se_SchemaField = ''''\<rparr>"]
  by simp

end
