(* ===== verification/ReqCtx.thy ===== *)
theory ReqCtx
  imports GoText Sha256
begin

text \<open>
  Package \<^verbatim>\<open>internal/reqctx\<close>: the authenticated caller and the request id. A context is a
  record of the two values the package stores in it. The text \<^verbatim>\<open>CallerIdentity\<close> builds is
  shown to determine the caller (\<^verbatim>\<open>principal.go\<close>), and an accepted request id to be a token
  (\<^verbatim>\<open>request_id.go\<close>).
\<close>

section \<open>principal.go\<close>

record Principal =
  Issuer :: string
  Subject :: string
  ClientID :: string
  Scopes :: "string list"

definition HasScope :: "Principal \<Rightarrow> string \<Rightarrow> bool" where
  "HasScope p scope = List.member (Scopes p) scope"

definition Identified :: "Principal \<Rightarrow> bool" where
  "Identified p =
     (trim_space (Issuer p) \<noteq> '''' \<and> (trim_space (Subject p) \<noteq> '''' \<or> trim_space (ClientID p) \<noteq> ''''))"

text \<open>The concatenation at the end of \<^verbatim>\<open>CallerIdentity\<close>, over \<^verbatim>\<open>kind\<close>, issuer and value.\<close>

definition identity_text :: "string list \<Rightarrow> string" where
  "identity_text fs =
     fs ! 0 @ '':'' @ decimal (length (fs ! 1)) @ '':'' @ fs ! 1
       @ '':'' @ decimal (length (fs ! 2)) @ '':'' @ fs ! 2"

definition CallerIdentity :: "Principal \<Rightarrow> string option" where
  "CallerIdentity p =
     (if \<not> Identified p then None
      else if trim_space (Subject p) = ''''
           then Some (identity_text [''client'', Issuer p, ClientID p])
           else Some (identity_text [''subject'', Issuer p, Subject p]))"

record req_context =
  ctx_principal :: "Principal option"
  ctx_requestID :: "string option"

definition ContextWithPrincipal :: "Principal \<Rightarrow> req_context \<Rightarrow> req_context" where
  "ContextWithPrincipal p ctx = ctx\<lparr>ctx_principal := Some p\<rparr>"

definition PrincipalFromContext :: "req_context \<Rightarrow> Principal option" where
  "PrincipalFromContext ctx = ctx_principal ctx"

section \<open>request\_id.go\<close>

definition maxRequestIDLength :: nat where "maxRequestIDLength = 128"

definition request_id_char :: "char \<Rightarrow> bool" where
  "request_id_char c =
     (let n = of_char c :: nat
      in between 65 90 n \<or> between 97 122 n \<or> between 48 57 n \<or> c \<in> set ''._~-'')"

text \<open>The pattern is anchored at both ends and repeats its class at least once.\<close>

definition validRequestID :: "string \<Rightarrow> bool" where
  "validRequestID value = (length value \<le> maxRequestIDLength \<and> value \<noteq> '''' \<and> list_all request_id_char value)"

definition RequestID :: "req_context \<Rightarrow> string" where
  "RequestID ctx = (case ctx_requestID ctx of None \<Rightarrow> '''' | Some i \<Rightarrow> i)"

text \<open>\<open>generated\<close> is what \<^verbatim>\<open>rand.Text\<close> returns.\<close>

definition ContextWithAcceptedRequestID :: "string \<Rightarrow> string \<Rightarrow> req_context \<Rightarrow> req_context \<times> string" where
  "ContextWithAcceptedRequestID generated candidate ctx =
     (let trimmed = trim_space candidate;
          requestID = (if \<not> validRequestID trimmed then generated else trimmed)
      in (ctx\<lparr>ctx_requestID := Some requestID\<rparr>, requestID))"

section \<open>Caller identities\<close>

lemma append_sep_inject:
  "a @ c # x = b @ c # y \<Longrightarrow> c \<notin> set a \<Longrightarrow> c \<notin> set b \<Longrightarrow> a = b \<and> x = y"
  by (auto simp: append_eq_append_conv2 append_eq_Cons_conv Cons_eq_append_conv)

lemma decimal_no_colon: "CHR '':'' \<notin> set (decimal n)"
proof
  assume "CHR '':'' \<in> set (decimal n)"
  with decimal_digits [of n] have "is_digit (CHR '':'')" by (simp add: list_all_iff)
  then show False by (simp add: is_digit_def between_def)
qed

text \<open>A field with its length in front can be read back from the start of any text.\<close>

lemma counted_inject:
  assumes "decimal (length a) @ CHR '':'' # a @ x = decimal (length b) @ CHR '':'' # b @ y"
  shows "a = b \<and> x = y"
proof -
  have "decimal (length a) = decimal (length b) \<and> a @ x = b @ y"
    using assms decimal_no_colon decimal_no_colon by (rule append_sep_inject)
  then show ?thesis by (auto simp: decimal_inject)
qed

lemma identity_text_inject:
  assumes "length xs = 3" "length ys = 3" "CHR '':'' \<notin> set (xs ! 0)" "CHR '':'' \<notin> set (ys ! 0)"
    and eq: "identity_text xs = identity_text ys"
  shows "xs = ys"
proof -
  let ?t = "\<lambda>x. CHR '':'' # decimal (length x) @ CHR '':'' # x @ []"
  obtain k i v where xs: "xs = [k, i, v]"
    using assms(1) by (auto simp: numeral_3_eq_3 length_Suc_conv)
  obtain k' i' v' where ys: "ys = [k', i', v']"
    using assms(2) by (auto simp: numeral_3_eq_3 length_Suc_conv)
  have "k @ CHR '':'' # decimal (length i) @ CHR '':'' # i @ ?t v =
        k' @ CHR '':'' # decimal (length i') @ CHR '':'' # i' @ ?t v'"
    using eq by (simp add: xs ys identity_text_def numeral_2_eq_2)
  then have k: "k = k'" and r: "decimal (length i) @ CHR '':'' # i @ ?t v = decimal (length i') @ CHR '':'' # i' @ ?t v'"
    using append_sep_inject [of k] assms(3,4) by (auto simp only: xs ys nth_Cons_0)
  from counted_inject [OF r] have i: "i = i'" and "?t v = ?t v'" by simp_all
  then have "v = v'" using counted_inject [of v "[]" v' "[]"] by simp
  with k i show ?thesis by (simp add: xs ys)
qed

interpretation identity: framing identity_text "\<lambda>xs. length xs = 3 \<and> CHR '':'' \<notin> set (xs ! 0)"
  by unfold_locales (auto intro: identity_text_inject)

text \<open>C17: The opaque caller identity is collision-free: two principals with the same identity
  have the same issuer and are the same kind of caller with the same value, a subject or,
  only where there is no subject, a client id. A client never takes over the state of a
  subject of the same name.\<close>

theorem caller_identity_collision_free:
  assumes "CallerIdentity p = Some i" and "CallerIdentity q = Some i"
  shows "Issuer p = Issuer q \<and>
     (if trim_space (Subject p) = '''' then trim_space (Subject q) = '''' \<and> ClientID p = ClientID q
      else trim_space (Subject q) \<noteq> '''' \<and> Subject p = Subject q)"
  using assms
  by (auto simp: CallerIdentity_def split: if_splits dest!: identity.frame_inject [rotated 2])

lemma caller_identity_collision_free_witness:
  "CallerIdentity \<lparr>Issuer = ''iss'', Subject = ''same'', ClientID = '''', Scopes = []\<rparr>
     \<noteq> CallerIdentity \<lparr>Issuer = ''iss'', Subject = '''', ClientID = ''same'', Scopes = []\<rparr>"
proof -
  let ?p = "\<lparr>Issuer = ''iss'', Subject = ''same'', ClientID = '''', Scopes = []\<rparr>"
  let ?q = "\<lparr>Issuer = ''iss'', Subject = '''', ClientID = ''same'', Scopes = []\<rparr>"
  have trim: "trim_space ''iss'' = ''iss''" "trim_space ''same'' = ''same''" "trim_space '''' = ''''"
    by (simp_all add: trim_ascii)
  then obtain i where "CallerIdentity ?p = Some i" by (simp add: CallerIdentity_def Identified_def)
  then show ?thesis using caller_identity_collision_free [of ?p i ?q] trim by auto
qed

lemma accepted_request_id_valid:
  "validRequestID generated \<Longrightarrow>
   validRequestID (snd (ContextWithAcceptedRequestID generated candidate ctx))
   \<and> RequestID (fst (ContextWithAcceptedRequestID generated candidate ctx)) =
     snd (ContextWithAcceptedRequestID generated candidate ctx)"
  by (simp add: ContextWithAcceptedRequestID_def RequestID_def Let_def)

end
