(* ===== verification/HttpIdempotency.thy ===== *)
theory HttpIdempotency
  imports Failure Sha256
begin

text \<open>
  Package \<^verbatim>\<open>internal/httpidempotency\<close>: the identity of an idempotent request, the grammar of
  its key, and the stored form of a response. Hashes are SHA-256 itself. The JSON encoder is
  an argument where it meets a type of the service: \<open>marshal\<close> and \<open>unmarshal\<close> for the
  operation's response, \<open>marshal_stored\<close> and \<open>unmarshal_stored\<close> for the stored envelope,
  \<open>decode_any\<close> for the generic decoding \<^verbatim>\<open>sameJSON\<close> compares. \<open>json_envelope\<close> states what the
  code relies on for the envelope.

  The lemmas show that an identity determines scope and key up to a collision of the hash
  function, that identities and fingerprints hash disjoint streams, and that a stored
  response replays to the same JSON.
\<close>

section \<open>Errors\<close>

definition ErrInvalidKey :: go_error where "ErrInvalidKey = Sentinel ''httpidempotency.ErrInvalidKey''"
definition ErrInvalidScope :: go_error where "ErrInvalidScope = Sentinel ''httpidempotency.ErrInvalidScope''"
definition ErrInvalidFingerprint :: go_error where
  "ErrInvalidFingerprint = Sentinel ''httpidempotency.ErrInvalidFingerprint''"
definition ErrInvalidResult :: go_error where "ErrInvalidResult = Sentinel ''httpidempotency.ErrInvalidResult''"
definition ErrMismatch :: go_error where "ErrMismatch = Sentinel ''httpidempotency.ErrMismatch''"
definition ErrUnavailable :: go_error where "ErrUnavailable = Sentinel ''httpidempotency.ErrUnavailable''"
definition ErrOutcomeUnknown :: go_error where "ErrOutcomeUnknown = Sentinel ''httpidempotency.ErrOutcomeUnknown''"
definition ErrIntegrity :: go_error where "ErrIntegrity = Sentinel ''httpidempotency.ErrIntegrity''"

lemmas idem_errors =
  ErrInvalidKey_def ErrInvalidScope_def ErrInvalidFingerprint_def ErrInvalidResult_def ErrMismatch_def
  ErrUnavailable_def ErrOutcomeUnknown_def ErrIntegrity_def

definition ClassifyError :: mapper where
  "ClassifyError err =
     (if errors_is_opt err ErrInvalidKey
      then (\<lparr>class_Code = CodeBadRequest, class_Detail = ''idempotency key is missing or invalid'',
             class_RetryAfter = 0\<rparr>, True)
      else if errors_is_opt err ErrMismatch
      then (\<lparr>class_Code = CodeIdempotencyKeyMismatch,
             class_Detail = ''idempotency key was used for different input'', class_RetryAfter = 0\<rparr>, True)
      else if errors_is_opt err ErrUnavailable
      then (\<lparr>class_Code = CodeIdempotencyUnavailable, class_Detail = ''idempotency is unavailable'',
             class_RetryAfter = 0\<rparr>, True)
      else if errors_is_opt err ErrOutcomeUnknown
      then (\<lparr>class_Code = CodeIdempotencyOutcomeUnknown, class_Detail = ''idempotency outcome is unknown'',
             class_RetryAfter = 0\<rparr>, True)
      else (zero_classification, False))"

section \<open>Request identity\<close>

definition MaxKeyBytes :: nat where "MaxKeyBytes = 255"
definition maxResultBytes :: nat where "maxResultBytes = 1048576"
definition resultSchemaVersion :: int where "resultSchemaVersion = 1"

record Scope =
  Caller :: string
  Operation :: string
  Resource :: string

definition scope_valid :: "Scope \<Rightarrow> bool" where
  "scope_valid s = (trim_space (Caller s) \<noteq> '''' \<and> trim_space (Operation s) \<noteq> '''')"

record Request =
  identity :: string
  fingerprintVersion :: int
  fingerprint :: string

definition validKeyByte :: "char \<Rightarrow> bool" where
  "validKeyByte c =
     (let n = of_char c :: nat
      in between 48 57 n \<or> between 65 90 n \<or> between 97 122 n
         \<or> List.member [CHR ''!'', CHR 0x23, CHR ''$'', CHR ''%'', CHR ''&'', CHR 0x27, CHR ''*'', CHR ''+'',
                        CHR ''-'', CHR ''.'', CHR ''^'', CHR ''_'', CHR 0x60, CHR ''|'', CHR ''~''] c)"

definition validKey :: "string \<Rightarrow> bool" where
  "validKey value = (value \<noteq> '''' \<and> length value \<le> MaxKeyBytes \<and> list_all validKeyByte value)"

definition parseKey :: "string list \<Rightarrow> go_error + string" where
  "parseKey values =
     (case values of [value] \<Rightarrow> if validKey value then Inr value else Inl ErrInvalidKey | _ \<Rightarrow> Inl ErrInvalidKey)"

definition writePart :: "string \<Rightarrow> string" where
  "writePart value = put_uint64 (length value) @ value"

definition digest_stream :: "string list \<Rightarrow> string" where
  "digest_stream parts = concat (map writePart parts)"

definition digest :: "string \<Rightarrow> string list \<Rightarrow> string" where
  "digest domain parts = sha256 (digest_stream (domain # parts))"

definition identity_domain :: string where "identity_domain = ''http-idempotency.identity.v2''"
definition fingerprint_domain :: string where "fingerprint_domain = ''http-idempotency.fingerprint.v2''"

text \<open>\<^verbatim>\<open>NewRequest\<close>; \<open>marshalled\<close> is \<^verbatim>\<open>json.Marshal\<close> of the semantic input.\<close>

definition NewRequest :: "Scope \<Rightarrow> string \<Rightarrow> int \<Rightarrow> go_error + string \<Rightarrow> go_error + Request" where
  "NewRequest scope key version marshalled =
     (if \<not> scope_valid scope then Inl ErrInvalidScope
      else if \<not> validKey key then Inl ErrInvalidKey
      else if version \<le> 0 then Inl ErrInvalidFingerprint
      else case marshalled of
             Inl err \<Rightarrow> Inl (errorf2 ''encode semantic input'' ErrInvalidFingerprint err)
           | Inr canonical \<Rightarrow>
               Inr \<lparr>identity = digest identity_domain [Caller scope, Operation scope, Resource scope, key],
                    fingerprintVersion = version,
                    fingerprint = digest fingerprint_domain [canonical]\<rparr>)"

text \<open>The header values \<^verbatim>\<open>CaptureKey\<close> put into the context, none when it did not run.\<close>

definition NewRequestFromContext ::
  "string list option \<Rightarrow> Scope \<Rightarrow> int \<Rightarrow> go_error + string \<Rightarrow> go_error + Request" where
  "NewRequestFromContext values scope version marshalled =
     (case parseKey (case values of None \<Rightarrow> [] | Some vs \<Rightarrow> vs) of
        Inl err \<Rightarrow> Inl err
      | Inr key \<Rightarrow> NewRequest scope key version marshalled)"

definition zero_digest :: string where "zero_digest = replicate 32 (CHR 0x00)"

definition request_Valid :: "Request \<Rightarrow> bool" where
  "request_Valid r = (identity r \<noteq> zero_digest \<and> 0 < fingerprintVersion r \<and> fingerprint r \<noteq> zero_digest)"

definition MatchesFingerprint :: "Request \<Rightarrow> int \<Rightarrow> string \<Rightarrow> bool" where
  "MatchesFingerprint r version fp =
     (version = fingerprintVersion r \<and> length fp = length (fingerprint r) \<and> fp = fingerprint r)"

section \<open>The stored response\<close>

record storedResult =
  SchemaVersion :: int
  Status :: int
  Body :: string

record 'r json =
  marshal :: "'r \<Rightarrow> go_error + string"
  unmarshal :: "string \<Rightarrow> go_error + 'r"
  marshal_stored :: "storedResult \<Rightarrow> go_error + string"
  unmarshal_stored :: "string \<Rightarrow> go_error + storedResult"
  decode_any :: "string \<Rightarrow> string option"

type_synonym codec = int

definition codec_Valid :: "codec \<Rightarrow> bool" where
  "codec_Valid status = (200 \<le> status \<and> status < 300)"

definition sameJSON :: "'r json \<Rightarrow> string \<Rightarrow> string \<Rightarrow> bool" where
  "sameJSON js left right =
     (case (decode_any js left, decode_any js right) of (Some l, Some r) \<Rightarrow> l = r | _ \<Rightarrow> False)"

definition decodeResponse :: "'r json \<Rightarrow> string \<Rightarrow> go_error + 'r" where
  "decodeResponse js body =
     (case unmarshal js body of
        Inl err \<Rightarrow> Inl (errorf2 ''decode generated response'' ErrInvalidResult err)
      | Inr response \<Rightarrow>
          (case marshal js response of
             Inl err \<Rightarrow> Inl (errorf2 ''re-encode generated response'' ErrInvalidResult err)
           | Inr roundTrip \<Rightarrow>
               if \<not> sameJSON js body roundTrip
               then Inl (WrapFmt ''generated response changed stored JSON'' ErrInvalidResult)
               else Inr response))"

definition Encode :: "'r json \<Rightarrow> codec \<Rightarrow> 'r \<Rightarrow> go_error + string" where
  "Encode js status response =
     (if \<not> codec_Valid status then Inl (WrapFmt ''status is not a success'' ErrInvalidResult)
      else case marshal js response of
             Inl err \<Rightarrow> Inl (errorf2 ''encode generated response'' ErrInvalidResult err)
           | Inr body \<Rightarrow>
               (case decodeResponse js body of
                  Inl err \<Rightarrow> Inl err
                | Inr _ \<Rightarrow>
                    (case marshal_stored js \<lparr>SchemaVersion = resultSchemaVersion, Status = status, Body = body\<rparr> of
                       Inl err \<Rightarrow> Inl (errorf2 ''encode'' ErrInvalidResult err)
                     | Inr encoded \<Rightarrow>
                         if maxResultBytes < length encoded
                         then Inl (WrapFmt ''exceeds bytes'' ErrInvalidResult)
                         else Inr encoded)))"

definition Decode :: "'r json \<Rightarrow> codec \<Rightarrow> string \<Rightarrow> go_error + 'r" where
  "Decode js status encoded =
     (if \<not> codec_Valid status \<or> encoded = '''' \<or> maxResultBytes < length encoded then Inl ErrInvalidResult
      else case unmarshal_stored js encoded of
             Inl err \<Rightarrow> Inl (errorf2 ''decode'' ErrInvalidResult err)
           | Inr stored \<Rightarrow>
               if SchemaVersion stored \<noteq> resultSchemaVersion
               then Inl (WrapFmt ''result schema'' ErrInvalidResult)
               else if Status stored \<noteq> status
               then Inl (WrapFmt ''stored status'' ErrInvalidResult)
               else decodeResponse js (Body stored))"

section \<open>Identities\<close>

text \<open>An 8-byte length before every part: no two part lists share a stream.\<close>

lemma digest_stream_simps [simp]:
  "digest_stream [] = []" "digest_stream (p # ps) = put_uint64 (length p) @ p @ digest_stream ps"
  by (simp_all add: digest_stream_def writePart_def)

lemma put_uint64_inject: "m < 2 ^ 64 \<Longrightarrow> n < 2 ^ 64 \<Longrightarrow> put_uint64 m = put_uint64 n \<Longrightarrow> m = n"
  by (metis get_put_uint64)

lemma put_uint64_nonempty [simp]: "put_uint64 n \<noteq> []"
  using length_put_uint64 [of n] by (metis list.size(3) numeral_eq_Suc zero_neq_numeral)

definition part_sizes_ok :: "string list \<Rightarrow> bool" where
  "part_sizes_ok parts = list_all (\<lambda>p. length p < 2 ^ 64) parts"

lemma digest_stream_inject:
  "part_sizes_ok xs \<Longrightarrow> part_sizes_ok ys \<Longrightarrow> digest_stream xs = digest_stream ys \<Longrightarrow> xs = ys"
proof (induction xs arbitrary: ys)
  case Nil
  then show ?case by (cases ys) simp_all
next
  case (Cons x xs)
  then obtain y ys' where ys: "ys = y # ys'" by (cases ys) simp_all
  with Cons.prems have "put_uint64 (length x) = put_uint64 (length y)"
    and rest: "x @ digest_stream xs = y @ digest_stream ys'"
    by (simp_all add: append_eq_append_conv)
  with Cons.prems ys have "length x = length y"
    by (auto simp: part_sizes_ok_def intro: put_uint64_inject)
  with rest have "x = y" "digest_stream xs = digest_stream ys'" by simp_all
  with Cons ys show ?case by (simp add: part_sizes_ok_def)
qed

interpretation parts: framing digest_stream part_sizes_ok
  by unfold_locales (rule digest_stream_inject)

text \<open>C6: the durable identity of a request determines the whole business scope it was made
  for: two accepted requests with the same identity have the same caller, operation,
  resource and key, unless the two exhibit a collision of SHA-256. No split of the same
  text into other fields can collide.\<close>

theorem request_identity_determines_scope:
  assumes "NewRequest s key v m = Inr r" and "NewRequest s' key' v' m' = Inr r'"
    and "part_sizes_ok [Caller s, Operation s, Resource s]"
    and "part_sizes_ok [Caller s', Operation s', Resource s']"
    and "identity r = identity r'"
  shows "(Caller s = Caller s' \<and> Operation s = Operation s' \<and> Resource s = Resource s' \<and> key = key')
     \<or> sha256_collision (digest_stream [identity_domain, Caller s, Operation s, Resource s, key])
         (digest_stream [identity_domain, Caller s', Operation s', Resource s', key'])"
proof -
  let ?a = "[identity_domain, Caller s, Operation s, Resource s, key]"
  let ?b = "[identity_domain, Caller s', Operation s', Resource s', key']"
  have keys: "validKey key" "validKey key'"
    and ids: "identity r = sha256 (digest_stream ?a)" "identity r' = sha256 (digest_stream ?b)"
    using assms(1,2) by (auto simp: NewRequest_def digest_def split: if_splits sum.splits)
  have "length identity_domain < 2 ^ 64" by (simp add: identity_domain_def)
  then have "part_sizes_ok ?a" "part_sizes_ok ?b"
    using assms(3,4) keys by (auto simp: part_sizes_ok_def validKey_def MaxKeyBytes_def)
  moreover have "sha256 (digest_stream ?a) = sha256 (digest_stream ?b)" using ids assms(5) by simp
  ultimately show ?thesis
    using parts.digest_determines [of ?a ?b] by auto
qed

lemma domains_separated:
  "part_sizes_ok xs \<Longrightarrow> part_sizes_ok ys \<Longrightarrow>
   digest_stream (identity_domain # xs) \<noteq> digest_stream (fingerprint_domain # ys)"
  using parts.frame_inject [of "identity_domain # xs" "fingerprint_domain # ys"]
  by (auto simp: part_sizes_ok_def identity_domain_def fingerprint_domain_def)

definition example_scope :: Scope where
  "example_scope = \<lparr>Caller = ''subject:3:iss:1:a'', Operation = ''create'', Resource = ''''\<rparr>"

lemma example_scope_valid: "scope_valid example_scope"
  by (simp add: scope_valid_def example_scope_def trim_ascii)

lemma request_identity_determines_scope_witness:
  "\<exists>r r'. NewRequest example_scope ''k1'' 1 (Inr ''{1}'') = Inr r \<and> NewRequest example_scope ''k1'' 1 (Inr ''{2}'') = Inr r'
     \<and> identity r = identity r'
     \<and> (''k1'' = ''k1'' \<or> sha256_collision
          (digest_stream [identity_domain, Caller example_scope, Operation example_scope, Resource example_scope, ''k1''])
          (digest_stream [identity_domain, Caller example_scope, Operation example_scope, Resource example_scope, ''k1'']))"
proof -
  have key: "validKey ''k1''" by code_simp
  obtain r r' where r: "NewRequest example_scope ''k1'' 1 (Inr ''{1}'') = Inr r"
      "NewRequest example_scope ''k1'' 1 (Inr ''{2}'') = Inr r'"
    using example_scope_valid key by (simp add: NewRequest_def)
  have ids: "identity r = identity r'"
    using r example_scope_valid key by (auto simp: NewRequest_def)
  have "part_sizes_ok [Caller example_scope, Operation example_scope, Resource example_scope]"
    by (simp add: part_sizes_ok_def example_scope_def)
  from request_identity_determines_scope [OF r this this ids] r ids show ?thesis by blast
qed

lemma ClassifyError_published:
  "Classify err [Some ClassifyError] = ClassifyError err"
  by (simp add: Classify_eq_claims ClassifyError_def AllCodes_def)

section \<open>Replaying a stored response\<close>

text \<open>What \<^verbatim>\<open>encoding/json\<close> promises for the envelope, a struct of two ints and a byte slice: it
  encodes to a non-empty document that decodes to the same value.\<close>

definition json_envelope :: "'r json \<Rightarrow> bool" where
  "json_envelope js =
     (\<forall>s b. marshal_stored js s = Inr b \<longrightarrow> b \<noteq> '''' \<and> unmarshal_stored js b = Inr s)"

lemma decodeResponse_Inr:
  "decodeResponse js body = Inr r \<longleftrightarrow>
     unmarshal js body = Inr r \<and> (\<exists>b. marshal js r = Inr b \<and> sameJSON js body b)"
  by (auto simp: decodeResponse_def split: sum.split)

text \<open>C7: a response the codec stored can always be replayed: decoding what \<^verbatim>\<open>Encode\<close> wrote, with
  the codec of the same operation, succeeds, and the replayed response renders the same
  JSON as the first answer. A response for which that fails is refused when it is stored,
  and what is stored fits the size limit of the table.\<close>

theorem stored_response_replays:
  assumes "json_envelope js" and "Encode js status response = Inr stored"
  shows "length stored \<le> 1048576
     \<and> (\<exists>replayed first again. Decode js status stored = Inr replayed
          \<and> marshal js response = Inr first \<and> marshal js replayed = Inr again \<and> sameJSON js first again)"
proof -
  obtain body r where st: "codec_Valid status" and body: "marshal js response = Inr body"
    and dec: "decodeResponse js body = Inr r"
    and env: "marshal_stored js \<lparr>SchemaVersion = resultSchemaVersion, Status = status, Body = body\<rparr> = Inr stored"
    and len: "\<not> maxResultBytes < length stored"
    using assms(2) by (auto simp: Encode_def split: if_splits sum.splits)
  have "Decode js status stored = Inr r"
    using assms(1) env st len dec by (auto simp: Decode_def json_envelope_def)
  then show ?thesis using body dec len by (auto simp: decodeResponse_Inr maxResultBytes_def not_less)
qed

definition example_json :: "string json" where
  "example_json =
     \<lparr>marshal = Inr, unmarshal = Inr,
      marshal_stored = (\<lambda>s. if SchemaVersion s = 1 \<and> Status s = 201 then Inr (CHR ''!'' # Body s)
                            else Inl (Fresh ''unsupported'')),
      unmarshal_stored = (\<lambda>b. Inr \<lparr>SchemaVersion = 1, Status = 201, Body = tl b\<rparr>),
      decode_any = Some\<rparr>"

lemma stored_response_replays_witness:
  "\<exists>replayed. Encode example_json 201 ''{}'' = Inr ''!{}'' \<and> Decode example_json 201 ''!{}'' = Inr replayed"
proof -
  have env: "json_envelope example_json" by (auto simp: json_envelope_def example_json_def)
  have enc: "Encode example_json 201 ''{}'' = Inr ''!{}''"
    by (simp add: Encode_def example_json_def codec_Valid_def decodeResponse_def sameJSON_def
        resultSchemaVersion_def maxResultBytes_def)
  from stored_response_replays [OF env enc] enc show ?thesis by blast
qed

end
