(* ===== verification/Transaction.thy ===== *)
theory Transaction
  imports GoBase
begin

text \<open>
  \<^verbatim>\<open>internal/infra/postgres/transaction.go\<close>: the one transaction seam of the SQL adapters.
  A transaction function is a function on the database state; it returns its error or the
  values the Go closure captures, and the state it leaves inside the transaction. What the
  driver and the server answer is the record \<open>tx_env\<close>, and \<open>honest\<close> is what their
  documentation promises of a commit. Error codes of the server are tested by the driver's
  functions, the record \<open>pg\<close>.

  The lemmas show atomicity: the state after \<open>InTx\<close> is the state before or the one the
  function left, and which of the two can only be in doubt when the error matches
  \<^verbatim>\<open>ErrCommitUnknown\<close>.
\<close>

section \<open>The driver\<close>

record pg =
  IsIntegrityConstraintViolation :: "string \<Rightarrow> bool"
  IsTransactionRollback :: "string \<Rightarrow> bool"
  SafeToRetry :: "go_error \<Rightarrow> bool"

definition StatementCompletionUnknown :: string where "StatementCompletionUnknown = ''40003''"
definition SerializationFailure :: string where "SerializationFailure = ''40001''"
definition DeadlockDetected :: string where "DeadlockDetected = ''40P01''"

definition ErrTxClosed :: go_error where "ErrTxClosed = Sentinel ''pgx.ErrTxClosed''"
definition ErrTxCommitRollback :: go_error where "ErrTxCommitRollback = Sentinel ''pgx.ErrTxCommitRollback''"
definition ErrNoRows :: go_error where "ErrNoRows = Sentinel ''pgx.ErrNoRows''"

abbreviation PgError :: "string \<Rightarrow> go_error" where "PgError sqlstate \<equiv> Typed ''*pgconn.PgError'' sqlstate"

definition as_PgError :: "go_error \<Rightarrow> string option" where
  "as_PgError err =
     errors_as (\<lambda>e. case e of Typed t i \<Rightarrow> if t = ''*pgconn.PgError'' then Some i else None | _ \<Rightarrow> None) err"

text \<open>What the caller gave and what happens outside the process during one transaction: whether there is a pool
  and a function, errors of acquiring a connection and of beginning, the answer to \<^verbatim>\<open>COMMIT\<close> and whether the
  server applied it, the error of the deferred rollback, and whether the context ended under a watched connection.\<close>

record tx_env =
  te_pool :: bool
  te_fn :: bool
  te_acquire :: "go_error option"
  te_begin :: "go_error option"
  te_commit :: "go_error option"
  te_applied :: bool
  te_rollback :: "go_error option"
  te_canceled :: "go_error option"

section \<open>Errors\<close>

definition ErrConfig :: go_error where "ErrConfig = Sentinel ''postgres.ErrConfig''"
definition ErrTransaction :: go_error where "ErrTransaction = Sentinel ''postgres.ErrTransaction''"
definition ErrCommitUnknown :: go_error where "ErrCommitUnknown = Sentinel ''postgres.ErrCommitUnknown''"

lemmas tx_errors = ErrTransaction_def ErrCommitUnknown_def ErrTxClosed_def ErrTxCommitRollback_def

definition commitDefinitelyFailed :: "pg \<Rightarrow> go_error \<Rightarrow> bool" where
  "commitDefinitelyFailed p err =
     (case as_PgError err of
        Some sqlstate \<Rightarrow>
          IsIntegrityConstraintViolation p sqlstate
          \<or> (IsTransactionRollback p sqlstate \<and> sqlstate \<noteq> StatementCompletionUnknown)
      | None \<Rightarrow> errors_is err ErrTxCommitRollback \<or> SafeToRetry p err)"

definition classifyCommitError :: "pg \<Rightarrow> go_error option \<Rightarrow> go_error option" where
  "classifyCommitError p err =
     (case err of
        None \<Rightarrow> None
      | Some e \<Rightarrow> if commitDefinitelyFailed p e then Some e else Some (errorf2 '''' ErrCommitUnknown e))"

definition Retryable :: "go_error \<Rightarrow> bool" where
  "Retryable err =
     (case as_PgError err of
        None \<Rightarrow> False
      | Some sqlstate \<Rightarrow> sqlstate = SerializationFailure \<or> sqlstate = DeadlockDetected)"

section \<open>Transactions\<close>

definition commitTx :: "tx_env \<Rightarrow> go_error option" where
  "commitTx env = map_option (WrapFmt ''commit transaction'') (te_commit env)"

text \<open>The deferred function of \<^verbatim>\<open>runInTx\<close>.\<close>

definition deferred_rollback :: "tx_env \<Rightarrow> go_error option \<Rightarrow> go_error option" where
  "deferred_rollback env err =
     (let err1 = (case te_rollback env of
                    None \<Rightarrow> err
                  | Some rollbackErr \<Rightarrow>
                      if errors_is rollbackErr ErrTxClosed then err
                      else case err of None \<Rightarrow> Some rollbackErr | Some e \<Rightarrow> Some (errors_join [e, rollbackErr]))
      in case (te_canceled env, err1) of
           (Some ctxErr, Some e) \<Rightarrow> Some (errors_join [ctxErr, e])
         | _ \<Rightarrow> err1)"

text \<open>\<^verbatim>\<open>runInTx\<close>: the error, what the closure captured, and the database afterwards.\<close>

definition runInTx ::
  "pg \<Rightarrow> tx_env \<Rightarrow> ('s \<Rightarrow> (go_error + 'a) \<times> 's) \<Rightarrow> 's \<Rightarrow> go_error option \<times> 'a option \<times> 's" where
  "runInTx p env fn s =
     (case fn s of
        (Inl err, _) \<Rightarrow> (deferred_rollback env (Some err), None, s)
      | (Inr x, s1) \<Rightarrow>
          (deferred_rollback env (classifyCommitError p (commitTx env)), Some x,
           if te_applied env then s1 else s))"

definition InTx ::
  "pg \<Rightarrow> tx_env \<Rightarrow> ('s \<Rightarrow> (go_error + 'a) \<times> 's) \<Rightarrow> 's \<Rightarrow> go_error option \<times> 'a option \<times> 's" where
  "InTx p env fn s =
     (if \<not> te_pool env then (Some (WrapFmt ''postgres pool is nil'' ErrConfig), None, s)
      else if \<not> te_fn env then (Some (WrapFmt ''transaction function is required'' ErrConfig), None, s)
      else case te_acquire env of
        Some err \<Rightarrow> (Some (errorf2 ''acquire connection'' ErrTransaction err), None, s)
      | None \<Rightarrow>
          (case te_begin env of
             Some err \<Rightarrow> (Some (errorf2 '''' ErrTransaction err), None, s)
           | None \<Rightarrow>
               (case runInTx p env fn s of
                  (err, x, s1) \<Rightarrow> (map_option (\<lambda>e. errorf2 '''' ErrTransaction e) err, x, s1))))"

section \<open>Atomicity\<close>

text \<open>
  What the server and the driver document. The two tests of \<^verbatim>\<open>pgerrcode\<close> accept codes of class 23 and of class 40 only, and
  \<^verbatim>\<open>pgconn.SafeToRetry\<close> looks through wrapped errors. An accepted commit is applied and closes the transaction. A commit
  the server answers with an integrity violation (class 23) or a transaction rollback (class 40) was not applied, except with
  \<^verbatim>\<open>40003\<close>, statement completion unknown, which says nothing; neither was one answered with \<^verbatim>\<open>ROLLBACK\<close>, which the driver
  reports as \<^verbatim>\<open>ErrTxCommitRollback\<close>, or one that never reached the server, which is what \<^verbatim>\<open>SafeToRetry\<close> promises. Any other
  error says nothing.
\<close>

definition pg_laws :: "pg \<Rightarrow> bool" where
  "pg_laws p =
     ((\<forall>c. IsIntegrityConstraintViolation p c \<longrightarrow> take 2 c = ''23'') \<and> (\<forall>c. IsTransactionRollback p c \<longrightarrow> take 2 c = ''40'')
      \<and> (\<forall>m e. SafeToRetry p (WrapFmt m e) = SafeToRetry p e))"

definition honest :: "pg \<Rightarrow> tx_env \<Rightarrow> bool" where
  "honest p env =
     (pg_laws p
      \<and> (case te_commit env of
           None \<Rightarrow> te_applied env \<and> te_rollback env = Some ErrTxClosed
         | Some e \<Rightarrow>
             (\<forall>c. as_PgError e = Some c \<longrightarrow> take 2 c = ''23'' \<or> take 2 c = ''40'' \<and> c \<noteq> ''40003'' \<longrightarrow> \<not> te_applied env)
             \<and> (as_PgError e = None \<longrightarrow> errors_is e ErrTxCommitRollback \<longrightarrow> \<not> te_applied env)
             \<and> (SafeToRetry p e \<longrightarrow> \<not> te_applied env)))"

lemma honest_committed: "honest p env \<Longrightarrow> te_commit env = None \<Longrightarrow> te_applied env \<and> te_rollback env = Some ErrTxClosed"
  by (simp add: honest_def)

text \<open>The code's own test is sound for these promises.\<close>

lemma honest_rejected:
  assumes "honest p env" "commitTx env = Some e" "commitDefinitelyFailed p e"
  shows "\<not> te_applied env"
proof -
  obtain raw where raw: "te_commit env = Some raw" "e = WrapFmt ''commit transaction'' raw" using assms(2) by (auto simp: commitTx_def)
  have "as_PgError e = as_PgError raw" "errors_is e ErrTxCommitRollback = errors_is raw ErrTxCommitRollback"
    by (simp_all add: raw as_PgError_def ErrTxCommitRollback_def)
  then show ?thesis
    using assms(1,3) raw
    by (auto simp: honest_def pg_laws_def commitDefinitelyFailed_def StatementCompletionUnknown_def split: option.splits)
qed

lemma deferred_rollback_is:
  "is_leaf t \<Longrightarrow> err = Some e \<Longrightarrow> errors_is e t \<Longrightarrow>
   \<exists>e'. deferred_rollback env err = Some e' \<and> errors_is e' t"
  by (auto simp: deferred_rollback_def Let_def split: option.split)

lemma deferred_rollback_closed:
  "te_rollback env = Some ErrTxClosed \<Longrightarrow> deferred_rollback env None = None"
  by (simp add: deferred_rollback_def split: option.split)

lemma deferred_rollback_None [simp]: "\<not> deferred_rollback env (Some e) = None"
  by (auto simp: deferred_rollback_def Let_def split: option.split)

lemma commitTx_None [simp]: "commitTx env = None \<longleftrightarrow> te_commit env = None"
  by (simp add: commitTx_def)

lemma classifyCommitError_None [simp]: "classifyCommitError p err = None \<longleftrightarrow> err = None"
  by (simp add: classifyCommitError_def split: option.split)

lemma runInTx_committed:
  assumes "honest p env" "runInTx p env fn s = (None, x, s')"
  shows "\<exists>y. fn s = (Inr y, s') \<and> x = Some y"
proof (cases "fn s")
  case (Pair r s1)
  show ?thesis
  proof (cases r)
    case (Inl e)
    then show ?thesis using assms Pair by (simp add: runInTx_def)
  next
    case (Inr y)
    have "te_commit env = None"
      using assms(2) Pair Inr
      by (cases "classifyCommitError p (commitTx env)") (simp_all add: runInTx_def)
    then show ?thesis using assms Pair Inr honest_committed [of p env] by (auto simp: runInTx_def)
  qed
qed

lemma runInTx_state:
  "runInTx p env fn s = (err, x, s') \<Longrightarrow> s' = s \<or> (\<exists>y. fn s = (Inr y, s') \<and> x = Some y)"
  by (auto simp: runInTx_def split: prod.splits sum.splits if_splits)

lemma runInTx_known_failure:
  assumes "honest p env" "runInTx p env fn s = (Some err, x, s')" "\<not> errors_is err ErrCommitUnknown"
  shows "s' = s"
proof (cases "fn s")
  case (Pair r s1)
  show ?thesis
  proof (cases r)
    case (Inl e)
    then show ?thesis using assms Pair by (simp add: runInTx_def)
  next
    case (Inr y)
    then have err: "deferred_rollback env (classifyCommitError p (commitTx env)) = Some err"
      and s': "s' = (if te_applied env then s1 else s)"
      using assms(2) Pair by (simp_all add: runInTx_def)
    have "commitTx env \<noteq> None"
    proof
      assume none: "commitTx env = None"
      then have "classifyCommitError p (commitTx env) = None" by simp
      moreover have "te_rollback env = Some ErrTxClosed" using honest_committed [OF assms(1)] none by simp
      ultimately show False using err deferred_rollback_closed [of env] by (metis option.distinct(1))
    qed
    then obtain e where e: "commitTx env = Some e" by blast
    have "commitDefinitelyFailed p e"
    proof (rule ccontr)
      assume "\<not> commitDefinitelyFailed p e"
      then have "classifyCommitError p (commitTx env) = Some (errorf2 '''' ErrCommitUnknown e)"
        by (simp add: classifyCommitError_def e)
      from deferred_rollback_is [OF _ this, of ErrCommitUnknown env] err assms(3)
      show False by (auto simp: ErrCommitUnknown_def)
    qed
    then show ?thesis using honest_rejected [OF assms(1) e] s' by simp
  qed
qed

lemma errors_is_ErrTransaction_wrap:
  "errors_is (errorf2 m ErrTransaction e) ErrCommitUnknown = errors_is e ErrCommitUnknown"
  by (simp add: tx_errors)

lemma InTx_outcome:
  assumes "honest p env" "InTx p env fn s = (err, x, s')"
  shows "s' = s \<or> (\<exists>y. fn s = (Inr y, s') \<and> x = Some y)"
    and "err = None \<Longrightarrow> \<exists>y. x = Some y \<and> fn s = (Inr y, s')"
    and "err = Some e \<Longrightarrow> \<not> errors_is e ErrCommitUnknown \<Longrightarrow> s' = s"
    and "x = Some y \<Longrightarrow> \<exists>s1. fn s = (Inr y, s1)"
proof -
  consider (early) "s' = s" "x = None" "err \<noteq> None"
    | (run) err' where "runInTx p env fn s = (err', x, s')" "err = map_option (errorf2 '''' ErrTransaction) err'"
    using assms(2) by (cases "te_acquire env"; cases "te_begin env") (auto simp: InTx_def split: prod.splits if_splits)
  note cs = this
  show "s' = s \<or> (\<exists>y. fn s = (Inr y, s') \<and> x = Some y)"
    using cs by cases (auto dest: runInTx_state)
  show "err = None \<Longrightarrow> \<exists>y. x = Some y \<and> fn s = (Inr y, s')"
    using cs runInTx_committed [OF assms(1), of fn s x s'] by cases auto
  show "err = Some e \<Longrightarrow> \<not> errors_is e ErrCommitUnknown \<Longrightarrow> s' = s"
    using cs runInTx_known_failure [OF assms(1), of fn s _ x s'] by cases (auto simp: errors_is_ErrTransaction_wrap)
  show "x = Some y \<Longrightarrow> \<exists>s1. fn s = (Inr y, s1)"
    using cs by cases (auto simp: runInTx_def split: prod.splits sum.splits)
qed

text \<open>C5: one transaction is atomic and its answer can be trusted: the database is afterwards
  either as before or as the function left it; with no error it is what the function left;
  with an error that does not match \<^verbatim>\<open>ErrCommitUnknown\<close> it is as before, also when the
  rollback failed or the context ended. Only an error that matches it leaves the outcome open.\<close>

theorem transaction_outcome:
  assumes "honest p env" and "InTx p env fn s = (err, x, s')"
  shows "(s' = s \<or> (\<exists>y. fn s = (Inr y, s')))
    \<and> (err = None \<longrightarrow> (\<exists>y. x = Some y \<and> fn s = (Inr y, s')))
    \<and> (\<forall>e. err = Some e \<longrightarrow> \<not> errors_is e ErrCommitUnknown \<longrightarrow> s' = s)"
  using InTx_outcome [OF assms] by blast

definition example_pg :: pg where
  "example_pg =
     \<lparr>IsIntegrityConstraintViolation = (\<lambda>c. take 2 c = ''23''), IsTransactionRollback = (\<lambda>c. take 2 c = ''40''),
      SafeToRetry = (\<lambda>_. False)\<rparr>"

definition commit_rejected :: tx_env where
  "commit_rejected =
     \<lparr>te_pool = True, te_fn = True, te_acquire = None, te_begin = None, te_commit = Some (PgError ''40001''), te_applied = False,
      te_rollback = Some ErrTxClosed, te_canceled = None\<rparr>"

lemma transaction_outcome_witness:
  "\<exists>e x. InTx example_pg commit_rejected (\<lambda>n. (Inr (), n + 1)) (5 :: nat) = (Some e, x, 5)
     \<and> \<not> errors_is e ErrCommitUnknown"
proof -
  have honest: "honest example_pg commit_rejected"
    by (simp add: honest_def pg_laws_def commit_rejected_def example_pg_def)
  obtain e x s' where run: "InTx example_pg commit_rejected (\<lambda>n. (Inr (), n + 1)) (5 :: nat) = (Some e, x, s')"
    and known: "\<not> errors_is e ErrCommitUnknown"
    by (auto simp: InTx_def runInTx_def commit_rejected_def commitTx_def classifyCommitError_def
        commitDefinitelyFailed_def as_PgError_def example_pg_def StatementCompletionUnknown_def
        deferred_rollback_def tx_errors)
  from transaction_outcome [OF honest run] known have "s' = 5" by blast
  with run known show ?thesis by blast
qed

end
