(* ===== verification/IdempotencyStore.thy ===== *)
theory IdempotencyStore
  imports HttpIdempotency Transaction "HOL-Library.AList" "HOL-Library.List_Lexorder" "HOL-Library.Char_ord"
    "HOL-Library.Product_Lexorder"
begin

text \<open>
  \<^verbatim>\<open>internal/infra/postgresidempotency/store.go\<close> over the four queries of
  \<^verbatim>\<open>sqlcgen/postgres_http_idempotency.sql.go\<close>: one authorized mutation and its replay evidence
  in the same transaction.

  The database is the evidence table (an association list by identity token) and the
  service's own data, of any type \<open>'d\<close>, which only \<open>work\<close> touches. Each statement reads the
  clock and the session's state and may fail: that is the record \<open>stmt\<close>, one per statement in
  the order the transaction issues them. PostgreSQL's unique index and row locks serialise
  the transactions of one identity, so the calls of one identity are a sequence; the
  clock still moves between the statements of one call.

  \<open>evidence_table\<close> is the contract the store relies on: who wins a claim, what a completed
  claim leaves, and that other identities are untouched. The lemmas show that a call
  commits evidence and effect together or not at all, that a live row answers without
  running the work, and that any number of calls with one key have at most one effect.
\<close>

section \<open>The table\<close>

record row =
  fingerprint_version :: int
  row_fingerprint :: string
  row_result :: "string option"
  expires_at :: "instant option"

type_synonym table = "(string \<times> row) list"

record stmt =
  st_fault :: "go_error option"
  st_now :: instant
  st_writer :: bool
  st_ctxErr :: "go_error option"

text \<open>SQL comparison with a null \<^verbatim>\<open>expires_at\<close> is not true.\<close>

definition expired :: "instant \<Rightarrow> row \<Rightarrow> bool" where
  "expired now r = (case expires_at r of None \<Rightarrow> False | Some t \<Rightarrow> t \<le> now)"

definition live :: "instant \<Rightarrow> row \<Rightarrow> bool" where
  "live now r = (case expires_at r of None \<Rightarrow> False | Some t \<Rightarrow> now < t)"

text \<open>The check constraint on \<^verbatim>\<open>result\<close> of the migration.\<close>

definition result_check :: "string \<Rightarrow> bool" where
  "result_check r = (1 \<le> length r \<and> length r \<le> 1048576)"

definition claim_row :: "instant \<Rightarrow> string \<Rightarrow> int \<Rightarrow> string \<Rightarrow> table \<Rightarrow> table option" where
  "claim_row now token version fp t =
     (case map_of t token of
        Some r \<Rightarrow> if expired now r
                  then Some (AList.update token
                    \<lparr>fingerprint_version = version, row_fingerprint = fp, row_result = None, expires_at = None\<rparr> t)
                  else None
      | None \<Rightarrow> Some (AList.update token
                  \<lparr>fingerprint_version = version, row_fingerprint = fp, row_result = None, expires_at = None\<rparr> t))"

definition complete_row :: "instant \<Rightarrow> string \<Rightarrow> string \<Rightarrow> int \<Rightarrow> table \<Rightarrow> table option" where
  "complete_row now token res retentionMicros t =
     (case map_of t token of
        Some r \<Rightarrow> if row_result r = None
                  then Some (AList.update token
                    (r\<lparr>row_result := Some res, expires_at := Some (now + retentionMicros * microsecond)\<rparr>) t)
                  else None
      | None \<Rightarrow> None)"

definition ClaimHTTPIdempotency ::
  "stmt \<Rightarrow> string \<Rightarrow> int \<Rightarrow> string \<Rightarrow> table \<Rightarrow> (go_error + string) \<times> table" where
  "ClaimHTTPIdempotency st token version fp t =
     (case st_fault st of
        Some err \<Rightarrow> (Inl err, t)
      | None \<Rightarrow>
          if \<not> st_writer st then (Inl ErrNoRows, t)
          else case claim_row (st_now st) token version fp t of
                 None \<Rightarrow> (Inl ErrNoRows, t)
               | Some t' \<Rightarrow> (Inr token, t'))"

definition CompleteHTTPIdempotency ::
  "stmt \<Rightarrow> string \<Rightarrow> int \<Rightarrow> string \<Rightarrow> table \<Rightarrow> (go_error + string) \<times> table" where
  "CompleteHTTPIdempotency st res retentionMicros token t =
     (case st_fault st of
        Some err \<Rightarrow> (Inl err, t)
      | None \<Rightarrow>
          (case complete_row (st_now st) token res retentionMicros t of
             None \<Rightarrow> (Inl ErrNoRows, t)
           | Some t' \<Rightarrow> if result_check res then (Inr res, t') else (Inl (PgError ''23514''), t)))"

record ReadRow =
  RowExists :: bool
  WriterPrimary :: bool
  Live :: bool
  FingerprintVersion :: "int option"
  Fingerprint :: string
  Result :: string

definition ReadHTTPIdempotency :: "stmt \<Rightarrow> string \<Rightarrow> table \<Rightarrow> go_error + ReadRow" where
  "ReadHTTPIdempotency st token t =
     (case st_fault st of
        Some err \<Rightarrow> Inl err
      | None \<Rightarrow>
          Inr (case map_of t token of
                 None \<Rightarrow> \<lparr>RowExists = False, WriterPrimary = st_writer st, Live = False,
                          FingerprintVersion = None, Fingerprint = '''', Result = ''''\<rparr>
               | Some r \<Rightarrow> \<lparr>RowExists = True, WriterPrimary = st_writer st, Live = live (st_now st) r,
                            FingerprintVersion = Some (fingerprint_version r), Fingerprint = row_fingerprint r,
                            Result = (case row_result r of None \<Rightarrow> '''' | Some b \<Rightarrow> b)\<rparr>))"

text \<open>\<^verbatim>\<open>CleanupHTTPIdempotency\<close>: the oldest expired rows no other session has locked.\<close>

definition expired_tokens :: "instant \<Rightarrow> string list \<Rightarrow> nat \<Rightarrow> table \<Rightarrow> string list" where
  "expired_tokens now locked batch t =
     take batch (map fst (sort_key (\<lambda>(k, r). (case expires_at r of Some e \<Rightarrow> e | None \<Rightarrow> 0, k))
       (filter (\<lambda>(k, r). expired now r \<and> k \<notin> set locked) t)))"

definition CleanupHTTPIdempotency :: "stmt \<Rightarrow> string list \<Rightarrow> nat \<Rightarrow> table \<Rightarrow> (go_error + nat) \<times> table" where
  "CleanupHTTPIdempotency st locked batch t =
     (case st_fault st of
        Some err \<Rightarrow> (Inl err, t)
      | None \<Rightarrow> let gone = expired_tokens (st_now st) locked batch t
                in (Inr (length gone), filter (\<lambda>(k, r). k \<notin> set gone) t))"

section \<open>store.go\<close>

definition cleanupBatchSize :: nat where "cleanupBatchSize = 500"

definition store_ErrConfig :: go_error where "store_ErrConfig = Sentinel ''postgresidempotency.ErrConfig''"

record 'd db =
  evidence :: table
  business :: 'd

text \<open>The feature's effect inside the transaction: an error, or the encoded result.\<close>

type_synonym 'd work = "'d \<Rightarrow> (go_error + string) \<times> 'd"

definition NewStore :: "bool \<Rightarrow> duration \<Rightarrow> go_error + duration" where
  "NewStore has_pool retention =
     (if \<not> has_pool then Inl (WrapFmt ''postgres pool is required'' store_ErrConfig)
      else if retention \<le> 0 then Inl (WrapFmt ''retention must be positive'' store_ErrConfig)
      else Inr retention)"

definition storageFailure :: "stmt \<Rightarrow> string \<Rightarrow> go_error \<Rightarrow> go_error" where
  "storageFailure st stage err =
     (case st_ctxErr st of
        Some ctxErr \<Rightarrow> WrapFmt stage ctxErr
      | None \<Rightarrow> errorf2 stage ErrUnavailable err)"

definition durationMicros :: "duration \<Rightarrow> int" where
  "durationMicros d =
     (let micros = quot d microsecond in if rem d microsecond \<noteq> 0 then wrap64 (micros + 1) else micros)"

definition claim :: "stmt \<Rightarrow> Request \<Rightarrow> table \<Rightarrow> (go_error + bool) \<times> table" where
  "claim st request t =
     (case ClaimHTTPIdempotency st (identity request) (fingerprintVersion request) (fingerprint request) t of
        (Inr _, t') \<Rightarrow> (Inr True, t')
      | (Inl err, t') \<Rightarrow> if errors_is err ErrNoRows then (Inr False, t')
                         else (Inl (storageFailure st ''claim'' err), t'))"

definition storedEvidence :: "Request \<Rightarrow> ReadRow \<Rightarrow> go_error + string option" where
  "storedEvidence request row =
     (if \<not> WriterPrimary row then Inl ErrUnavailable
      else if \<not> RowExists row \<or> \<not> Live row then Inr None
      else if (case FingerprintVersion row of None \<Rightarrow> True
               | Some v \<Rightarrow> \<not> MatchesFingerprint request v (Fingerprint row)) then Inl ErrMismatch
      else if Result row = '''' then Inl ErrIntegrity
      else Inr (Some (Result row)))"

definition executeWork :: "stmt \<Rightarrow> duration \<Rightarrow> Request \<Rightarrow> 'd work \<Rightarrow> 'd db \<Rightarrow> (go_error + string) \<times> 'd db" where
  "executeWork st retention request work s =
     (case work (business s) of
        (Inl err, d) \<Rightarrow> (Inl err, s\<lparr>business := d\<rparr>)
      | (Inr encoded, d) \<Rightarrow>
          (case CompleteHTTPIdempotency st encoded (durationMicros retention) (identity request) (evidence s) of
             (Inl err, t) \<Rightarrow>
               (Inl (if errors_is err ErrNoRows then ErrIntegrity else storageFailure st ''complete'' err),
                s\<lparr>business := d, evidence := t\<rparr>)
           | (Inr completed, t) \<Rightarrow>
               (if completed = '''' then Inl ErrIntegrity else Inr encoded, s\<lparr>business := d, evidence := t\<rparr>)))"

text \<open>The loop of \<^verbatim>\<open>executeTransaction\<close>: \<open>left\<close> passes are left and \<open>i\<close> statements were issued.\<close>

fun transaction_loop ::
  "nat \<Rightarrow> nat \<Rightarrow> (nat \<Rightarrow> stmt) \<Rightarrow> duration \<Rightarrow> Request \<Rightarrow> 'd work \<Rightarrow> 'd db \<Rightarrow> (go_error + string \<times> bool) \<times> 'd db" where
  "transaction_loop 0 i env retention request work s = (Inl ErrUnavailable, s)"
| "transaction_loop (Suc left) i env retention request work s =
     (case claim (env i) request (evidence s) of
        (Inl err, t) \<Rightarrow> (Inl err, s\<lparr>evidence := t\<rparr>)
      | (Inr claimed, t) \<Rightarrow>
          let s1 = s\<lparr>evidence := t\<rparr>
          in if claimed
             then (case executeWork (env (i + 1)) retention request work s1 of
                     (Inl err, s2) \<Rightarrow> (Inl err, s2)
                   | (Inr res, s2) \<Rightarrow> (Inr (res, False), s2))
             else (case ReadHTTPIdempotency (env (i + 1)) (identity request) t of
                     Inl err \<Rightarrow> (Inl (storageFailure (env (i + 1)) ''read'' err), s1)
                   | Inr row \<Rightarrow>
                       (case storedEvidence request row of
                          Inl err \<Rightarrow> (Inl err, s1)
                        | Inr (Some res) \<Rightarrow> (Inr (res, True), s1)
                        | Inr None \<Rightarrow> transaction_loop left (i + 2) env retention request work s1)))"

definition executeTransaction ::
  "(nat \<Rightarrow> stmt) \<Rightarrow> duration \<Rightarrow> Request \<Rightarrow> 'd work \<Rightarrow> 'd db \<Rightarrow> (go_error + string \<times> bool) \<times> 'd db" where
  "executeTransaction env retention request work s = transaction_loop 2 0 env retention request work s"

text \<open>\<^verbatim>\<open>read\<close>: a fresh connection, which may not be had, and one query.\<close>

definition read_evidence :: "stmt \<Rightarrow> go_error option \<Rightarrow> Request \<Rightarrow> table \<Rightarrow> go_error + string" where
  "read_evidence st acquireErr request t =
     (if \<not> request_Valid request then Inl (WrapFmt ''store and request are required'' store_ErrConfig)
      else case acquireErr of
        Some err \<Rightarrow> Inl (storageFailure st ''read connection'' err)
      | None \<Rightarrow>
          (case ReadHTTPIdempotency st (identity request) t of
             Inl err \<Rightarrow> Inl (storageFailure st ''read'' err)
           | Inr row \<Rightarrow>
               (case storedEvidence request row of
                  Inl err \<Rightarrow> Inl err
                | Inr None \<Rightarrow> Inl ErrOutcomeUnknown
                | Inr (Some res) \<Rightarrow> Inr res)))"

text \<open>What happens around one call: the transaction, its statements, and the read that
  reconciles an unknown commit.\<close>

record call_env =
  ce_tx :: tx_env
  ce_stmts :: "nat \<Rightarrow> stmt"
  ce_read :: stmt
  ce_acquire :: "go_error option"

definition execute ::
  "pg \<Rightarrow> call_env \<Rightarrow> duration \<Rightarrow> Request \<Rightarrow> 'd work \<Rightarrow> 'd db \<Rightarrow> (go_error + string \<times> bool) \<times> 'd db" where
  "execute p env retention request work s =
     (if \<not> request_Valid request then (Inl (WrapFmt ''store, request, and work are required'' store_ErrConfig), s)
      else case InTx p (ce_tx env) (executeTransaction (ce_stmts env) retention request work) s of
             (None, captured, s') \<Rightarrow> (Inr (case captured of Some x \<Rightarrow> x | None \<Rightarrow> ('''', False)), s')
           | (Some err, captured, s') \<Rightarrow>
               (case captured of
                  Some (res, True) \<Rightarrow> (Inr (res, True), s')
                | _ \<Rightarrow>
                    if \<not> errors_is err ErrCommitUnknown
                    then (Inl (WrapFmt ''execute idempotency transaction'' err), s')
                    else (case read_evidence (ce_read env) (ce_acquire env) request (evidence s') of
                            Inr stored \<Rightarrow> (Inr (stored, True), s')
                          | Inl _ \<Rightarrow> (Inl (errorf2 '''' ErrOutcomeUnknown err), s'))))"

text \<open>\<^verbatim>\<open>NewExecutor\<close>'s closure: the work encodes its response, and the result is decoded again.\<close>

definition executor_work :: "'r json \<Rightarrow> codec \<Rightarrow> ('d \<Rightarrow> (go_error + 'r) \<times> 'd) \<Rightarrow> 'd work" where
  "executor_work js status work d =
     (case work d of (Inl err, d') \<Rightarrow> (Inl err, d') | (Inr response, d') \<Rightarrow> (Encode js status response, d'))"

definition executor ::
  "pg \<Rightarrow> call_env \<Rightarrow> duration \<Rightarrow> 'r json \<Rightarrow> codec \<Rightarrow> Request \<Rightarrow> ('d \<Rightarrow> (go_error + 'r) \<times> 'd) \<Rightarrow> 'd db
   \<Rightarrow> (go_error + 'r \<times> bool) \<times> 'd db" where
  "executor p env retention js status request work s =
     (case execute p env retention request (executor_work js status work) s of
        (Inl err, s') \<Rightarrow> (Inl (WrapFmt ''execute idempotent operation'' err), s')
      | (Inr (res, replayed), s') \<Rightarrow>
          (case Decode js status res of
             Inr response \<Rightarrow> (Inr (response, replayed), s')
           | Inl err \<Rightarrow>
               (Inl (if replayed then WrapFmt ''decode stored response'' ErrIntegrity
                     else WrapFmt ''decode idempotency response'' err), s')))"

definition cleanupBatch :: "stmt \<Rightarrow> go_error option \<Rightarrow> string list \<Rightarrow> table \<Rightarrow> nat \<times> go_error option \<times> table" where
  "cleanupBatch st acquireErr locked t =
     (case acquireErr of
        Some err \<Rightarrow> (0, Some (storageFailure st ''cleanup connection'' err), t)
      | None \<Rightarrow>
          (case CleanupHTTPIdempotency st locked cleanupBatchSize t of
             (Inl err, t') \<Rightarrow> (0, Some (storageFailure st ''cleanup'' err), t')
           | (Inr rows, t') \<Rightarrow> (rows, None, t')))"

section \<open>The contract of the table\<close>

definition open_row :: "int \<Rightarrow> string \<Rightarrow> row" where
  "open_row v fp = \<lparr>fingerprint_version = v, row_fingerprint = fp, row_result = None, expires_at = None\<rparr>"

definition done_row :: "int \<Rightarrow> string \<Rightarrow> string \<Rightarrow> instant \<Rightarrow> row" where
  "done_row v fp res e = \<lparr>fingerprint_version = v, row_fingerprint = fp, row_result = Some res, expires_at = Some e\<rparr>"

lemma row_simps [simp]:
  "row_result (open_row v fp) = None" "expires_at (open_row v fp) = None"
  "row_result (done_row v fp res e) = Some res" "expires_at (done_row v fp res e) = Some e"
  "fingerprint_version (done_row v fp res e) = v" "row_fingerprint (done_row v fp res e) = fp"
  "(open_row v fp)\<lparr>row_result := Some res, expires_at := Some e\<rparr> = done_row v fp res e"
  by (simp_all add: open_row_def done_row_def)

locale evidence_table =
  fixes look :: "'t \<Rightarrow> string \<Rightarrow> row option"
    and claim_op :: "instant \<Rightarrow> string \<Rightarrow> int \<Rightarrow> string \<Rightarrow> 't \<Rightarrow> 't option"
    and complete_op :: "instant \<Rightarrow> string \<Rightarrow> string \<Rightarrow> int \<Rightarrow> 't \<Rightarrow> 't option"
  assumes claim_wins: "(\<exists>t'. claim_op now k v fp t = Some t') \<longleftrightarrow> (\<forall>r. look t k = Some r \<longrightarrow> expired now r)"
    and claim_effect: "claim_op now k v fp t = Some t' \<Longrightarrow> look t' = (look t)(k \<mapsto> open_row v fp)"
    and complete_wins: "(\<exists>t'. complete_op now k res micros t = Some t') \<longleftrightarrow>
      (\<exists>r. look t k = Some r \<and> row_result r = None)"
    and complete_effect: "complete_op now k res micros t = Some t' \<Longrightarrow> look t k = Some r \<Longrightarrow>
      look t' = (look t)(k \<mapsto> r\<lparr>row_result := Some res, expires_at := Some (now + micros * microsecond)\<rparr>)"
begin

lemma claimed_completes:
  assumes "claim_op now k v fp t = Some t1"
  shows "\<exists>t2. complete_op now2 k res micros t1 = Some t2
     \<and> look t2 = (look t)(k \<mapsto> done_row v fp res (now2 + micros * microsecond))"
proof -
  have open_: "look t1 k = Some (open_row v fp)" using claim_effect [OF assms] by simp
  then obtain t2 where t2: "complete_op now2 k res micros t1 = Some t2"
    using complete_wins [of now2 k res micros t1] by auto
  show ?thesis using complete_effect [OF t2 open_] claim_effect [OF assms] t2 by (auto simp: fun_upd_def)
qed

lemma live_blocks_claim:
  "look t k = Some r \<Longrightarrow> live now r \<Longrightarrow> claim_op now k v fp t = None"
  using claim_wins [of now k v fp t] by (auto simp: live_def expired_def split: option.splits)

lemma loser_sees_row:
  "claim_op now k v fp t = None \<Longrightarrow> \<exists>r. look t k = Some r \<and> \<not> expired now r"
  using claim_wins [of now k v fp t] by auto

end

interpretation tbl: evidence_table map_of claim_row complete_row
proof unfold_locales
  fix now k v fp t t' res micros r
  show "(\<exists>t'. claim_row now k v fp t = Some t') \<longleftrightarrow> (\<forall>r. map_of t k = Some r \<longrightarrow> expired now r)"
    by (simp add: claim_row_def split: option.split)
  show "claim_row now k v fp t = Some t' \<Longrightarrow> map_of t' = (map_of t)(k \<mapsto> open_row v fp)"
    by (auto simp: claim_row_def open_row_def update_conv' split: option.splits if_splits)
  show "(\<exists>t'. complete_row now k res micros t = Some t') \<longleftrightarrow> (\<exists>r. map_of t k = Some r \<and> row_result r = None)"
    by (simp add: complete_row_def split: option.split)
  show "complete_row now k res micros t = Some t' \<Longrightarrow> map_of t k = Some r \<Longrightarrow>
      map_of t' = (map_of t)(k \<mapsto> r\<lparr>row_result := Some res, expires_at := Some (now + micros * microsecond)\<rparr>)"
    by (auto simp: complete_row_def update_conv' split: if_splits)
qed

section \<open>One transaction\<close>

lemma claim_cases:
  assumes "claim st request t = (out, t')"
  obtains (won) "out = Inr True" "claim_row (st_now st) (identity request) (fingerprintVersion request) (fingerprint request) t = Some t'"
  | (lost) "out = Inr False" "t' = t"
  | (failed) err where "out = Inl err" "t' = t"
  using assms
  by (auto simp: claim_def ClaimHTTPIdempotency_def split: option.splits if_splits prod.splits sum.splits)

lemma claim_live:
  assumes "map_of t (identity request) = Some r" "live (st_now st) r"
  shows "\<exists>out. claim st request t = (out, t) \<and> out \<noteq> Inr True"
proof -
  obtain out t' where c: "claim st request t = (out, t')" by fastforce
  then show ?thesis
    by (cases rule: claim_cases) (use c tbl.live_blocks_claim [OF assms] in auto)
qed

text \<open>What a call of this request leaves when it wins: evidence of \<open>res\<close> and the effect of the work.\<close>

definition committed :: "Request \<Rightarrow> 'd work \<Rightarrow> string \<Rightarrow> instant \<Rightarrow> 'd db \<Rightarrow> 'd db \<Rightarrow> bool" where
  "committed request work res e s s' =
     (work (business s) = (Inr res, business s') \<and> result_check res
      \<and> map_of (evidence s') = (map_of (evidence s))
          (identity request \<mapsto> done_row (fingerprintVersion request) (fingerprint request) res e))"

lemma executeWork_wins:
  assumes "claim_row now (identity request) (fingerprintVersion request) (fingerprint request) (evidence s) = Some t"
    and "executeWork st retention request work (s\<lparr>evidence := t\<rparr>) = (Inr res, s')"
  shows "committed request work res (st_now st + durationMicros retention * microsecond) s s'"
proof -
  obtain d where w: "work (business s) = (Inr res, d)" and fault: "st_fault st = None" and ok: "result_check res"
    and s': "business s' = d" "complete_row (st_now st) (identity request) res (durationMicros retention) t
        = Some (evidence s')"
    using assms(2)
    by (auto simp: executeWork_def CompleteHTTPIdempotency_def split: sum.splits prod.splits option.splits if_splits)
  then show ?thesis
    using tbl.claimed_completes [OF assms(1), of "st_now st" res "durationMicros retention"]
    by (auto simp: committed_def)
qed

lemma loop_winner:
  "transaction_loop n i env retention request work s = (Inr (res, False), s') \<Longrightarrow>
   \<exists>j. committed request work res (st_now (env j) + durationMicros retention * microsecond) s s'"
proof (induction n arbitrary: i s)
  case (Suc n)
  obtain out t where c: "claim (env i) request (evidence s) = (out, t)" by fastforce
  then show ?case
  proof (cases rule: claim_cases)
    case won
    then show ?thesis using Suc.prems c executeWork_wins
      by (fastforce simp: Let_def split: prod.splits sum.splits)
  next
    case lost
    then have "transaction_loop n (i + 2) env retention request work s = (Inr (res, False), s')"
      using Suc.prems c by (auto simp: Let_def split: sum.splits option.splits)
    then show ?thesis by (rule Suc.IH)
  next
    case failed
    then show ?thesis using Suc.prems c by simp
  qed
qed simp

lemma evidence_found:
  assumes "ReadHTTPIdempotency st (identity request) t = Inr row" "storedEvidence request row = Inr (Some res)"
  shows "\<exists>r. map_of t (identity request) = Some r \<and> row_result r = Some res \<and> live (st_now st) r
     \<and> fingerprint_version r = fingerprintVersion request \<and> row_fingerprint r = fingerprint request"
  using assms
  by (auto simp: ReadHTTPIdempotency_def storedEvidence_def MatchesFingerprint_def split: option.splits if_splits)

lemma loop_replay:
  "transaction_loop n i env retention request work s = (Inr (res, True), s') \<Longrightarrow>
   s' = s \<and> (\<exists>r. map_of (evidence s) (identity request) = Some r \<and> row_result r = Some res
     \<and> fingerprint_version r = fingerprintVersion request \<and> row_fingerprint r = fingerprint request)"
proof (induction n arbitrary: i s)
  case (Suc n)
  obtain out t where c: "claim (env i) request (evidence s) = (out, t)" by fastforce
  then show ?case
  proof (cases rule: claim_cases)
    case won
    then show ?thesis using Suc.prems c by (auto simp: Let_def split: prod.splits sum.splits)
  next
    case lost
    with Suc.prems c consider
        (found) row where "ReadHTTPIdempotency (env (i + 1)) (identity request) (evidence s) = Inr row"
          "storedEvidence request row = Inr (Some res)" "s' = s"
      | (again) "transaction_loop n (i + 2) env retention request work s = (Inr (res, True), s')"
      by (auto simp: Let_def split: sum.splits option.splits)
    then show ?thesis using evidence_found Suc.IH by cases blast+
  next
    case failed
    then show ?thesis using Suc.prems c by simp
  qed
qed simp

text \<open>While the row of this identity is live at every reading of the clock, no pass of the
  loop runs the work.\<close>

lemma loop_live:
  assumes "map_of (evidence s) (identity request) = Some r" "\<And>j. live (st_now (env j)) r"
  shows "\<exists>out. transaction_loop n i env retention request work s = (out, s) \<and> (\<forall>res. out \<noteq> Inr (res, False))"
proof (induction n arbitrary: i)
  case (Suc n)
  obtain out where "claim (env i) request (evidence s) = (out, evidence s)" "out \<noteq> Inr True"
    using claim_live [OF assms(1) assms(2)] by blast
  with Suc.IH [of "i + 2"] show ?case
    by (auto simp: Let_def split: sum.splits option.splits)
qed simp

section \<open>One call\<close>

lemma executeTransaction_state:
  assumes "executeTransaction env retention request work s = (Inr x, s')"
  shows "s' = s \<or> (\<exists>res e. x = (res, False) \<and> committed request work res e s s')"
proof (cases x)
  case (Pair res replayed)
  then show ?thesis
    using assms loop_winner [of 2 0 env retention request work s res s']
      loop_replay [of 2 0 env retention request work s res s']
    by (cases replayed) (auto simp: executeTransaction_def)
qed

text \<open>The ways \<open>execute\<close> can answer.\<close>

lemma execute_cases:
  assumes "execute p env retention request work s = (out, s')"
  obtains (invalid) "\<not> request_Valid request" "s' = s" "\<exists>err. out = Inl err"
  | (fresh) x where "InTx p (ce_tx env) (executeTransaction (ce_stmts env) retention request work) s = (None, Some x, s')"
      "out = Inr x"
  | (odd) "InTx p (ce_tx env) (executeTransaction (ce_stmts env) retention request work) s = (None, None, s')"
  | (replayed) err res where
      "InTx p (ce_tx env) (executeTransaction (ce_stmts env) retention request work) s = (Some err, Some (res, True), s')"
      "out = Inr (res, True)"
  | (known) err x where
      "InTx p (ce_tx env) (executeTransaction (ce_stmts env) retention request work) s = (Some err, x, s')"
      "\<not> errors_is err ErrCommitUnknown" "\<exists>e. out = Inl e"
  | (reconciled) err x res where
      "InTx p (ce_tx env) (executeTransaction (ce_stmts env) retention request work) s = (Some err, x, s')"
      "errors_is err ErrCommitUnknown"
      "read_evidence (ce_read env) (ce_acquire env) request (evidence s') = Inr res" "out = Inr (res, True)"
  | (unknown) err x where
      "InTx p (ce_tx env) (executeTransaction (ce_stmts env) retention request work) s = (Some err, x, s')"
      "out = Inl (errorf2 '''' ErrOutcomeUnknown err)"
  using assms unfolding execute_def
  by (auto split: if_splits prod.splits option.splits sum.splits bool.splits)

lemma execute_state:
  assumes "honest p (ce_tx env)" "execute p env retention request work s = (out, s')"
  shows "s' = s \<or> (\<exists>res e. committed request work res e s s')"
  using assms(2)
proof (cases rule: execute_cases)
  case invalid
  then show ?thesis by simp
qed (use InTx_outcome(1) [OF assms(1), of "executeTransaction (ce_stmts env) retention request work" s]
  executeTransaction_state [of "ce_stmts env" retention request work s] in \<open>blast+\<close>)

lemma read_evidence_Inr:
  "read_evidence st acq request t = Inr res \<Longrightarrow>
   \<exists>r. map_of t (identity request) = Some r \<and> row_result r = Some res
     \<and> fingerprint_version r = fingerprintVersion request \<and> row_fingerprint r = fingerprint request"
  by (auto simp: read_evidence_def split: if_splits option.splits sum.splits dest!: evidence_found)

text \<open>Evidence for this request: a completed row of its identity with its fingerprint.\<close>

definition evidenced :: "Request \<Rightarrow> string \<Rightarrow> table \<Rightarrow> bool" where
  "evidenced request res t =
     (\<exists>r. map_of t (identity request) = Some r \<and> row_result r = Some res
        \<and> fingerprint_version r = fingerprintVersion request \<and> row_fingerprint r = fingerprint request)"

lemma committed_evidenced: "committed request work res e s s' \<Longrightarrow> evidenced request res (evidence s')"
  by (auto simp: committed_def evidenced_def)

text \<open>C1: a call commits the business effect and its evidence together or neither: the database
  is unchanged or holds exactly the effect of one run of the work on the previous data and
  a completed row with that run's result, every other identity untouched. An answer without
  error is backed by a committed row of this request with the answered result; a fresh
  answer is the result of the run just committed; and any error that does not match
  \<^verbatim>\<open>ErrOutcomeUnknown\<close> leaves the database unchanged.\<close>

theorem execute_commits_effect_with_evidence:
  assumes "honest p (ce_tx env)" and "execute p env retention request work s = (out, s')"
  shows "(s' = s \<or> (\<exists>res e. committed request work res e s s'))
    \<and> (\<forall>res replayed. out = Inr (res, replayed) \<longrightarrow> evidenced request res (evidence s'))
    \<and> (\<forall>res. out = Inr (res, False) \<longrightarrow> (\<exists>e. committed request work res e s s'))
    \<and> (\<forall>err. out = Inl err \<longrightarrow> \<not> errors_is err ErrOutcomeUnknown \<longrightarrow> s' = s)"
proof (intro conjI)
  show "s' = s \<or> (\<exists>res e. committed request work res e s s')"
    using execute_state [OF assms] .
  note outcome = InTx_outcome [OF assms(1), of "executeTransaction (ce_stmts env) retention request work" s]
  have fresh_out: "evidenced request res (evidence s') \<and> (\<not> replayed \<longrightarrow> (\<exists>e. committed request work res e s s'))"
    if "executeTransaction (ce_stmts env) retention request work s = (Inr (res, replayed), s')" for res replayed
    using that loop_winner [of 2 0 "ce_stmts env" retention request work s res s'] committed_evidenced
      loop_replay [of 2 0 "ce_stmts env" retention request work s res s']
    by (cases replayed) (fastforce simp: executeTransaction_def evidenced_def)+
  have both: "evidenced request res (evidence s') \<and> (\<not> replayed \<longrightarrow> (\<exists>e. committed request work res e s s'))"
    if "out = Inr (res, replayed)" for res replayed
    using assms(2)
  proof (cases rule: execute_cases)
    case (fresh x)
    then show ?thesis using outcome(2) [OF fresh(1)] fresh_out that by auto
  next
    case odd
    then show ?thesis using outcome(2) [OF odd] by auto
  next
    case (replayed err res')
    obtain s1 where run: "executeTransaction (ce_stmts env) retention request work s = (Inr (res', True), s1)"
      using outcome(4) [OF replayed(1)] by blast
    then have "s1 = s" "evidenced request res' (evidence s)"
      using loop_replay [of 2 0 "ce_stmts env" retention request work s res' s1]
      by (auto simp: executeTransaction_def evidenced_def)
    then show ?thesis using outcome(1) [OF replayed(1)] run replayed(2) that by auto
  next
    case (reconciled err x res')
    then show ?thesis using read_evidence_Inr [OF reconciled(3)] that by (simp add: evidenced_def)
  qed (use that in auto)
  show "\<forall>res replayed. out = Inr (res, replayed) \<longrightarrow> evidenced request res (evidence s')"
    "\<forall>res. out = Inr (res, False) \<longrightarrow> (\<exists>e. committed request work res e s s')"
    using both by blast+
  show "\<forall>err. out = Inl err \<longrightarrow> \<not> errors_is err ErrOutcomeUnknown \<longrightarrow> s' = s"
    using assms(2) by (cases rule: execute_cases) (use outcome(2,3) in \<open>auto simp: idem_errors\<close>)
qed

section \<open>Live evidence\<close>

text \<open>A call that reaches a writable primary and meets no storage fault.\<close>

definition healthy :: "call_env \<Rightarrow> bool" where
  "healthy env =
     (te_pool (ce_tx env) \<and> te_fn (ce_tx env) \<and> te_acquire (ce_tx env) = None \<and> te_begin (ce_tx env) = None
      \<and> (\<forall>j. st_fault (ce_stmts env j) = None \<and> st_writer (ce_stmts env j)))"

lemma claim_loses:
  assumes "map_of t (identity request) = Some r" "live (st_now st) r" "st_fault st = None"
  shows "claim st request t = (Inr False, t)"
  using tbl.live_blocks_claim [OF assms(1,2)] assms(3)
  by (simp add: claim_def ClaimHTTPIdempotency_def)

lemma loop_live_answer:
  assumes "map_of (evidence s) (identity request) = Some r" "\<And>j. live (st_now (env j)) r"
    and "\<And>j. st_fault (env j) = None \<and> st_writer (env j)"
  shows "transaction_loop (Suc n) i env retention request work s =
     ((if fingerprint_version r = fingerprintVersion request \<and> row_fingerprint r = fingerprint request
       then (case row_result r of None \<Rightarrow> Inl ErrIntegrity
             | Some res \<Rightarrow> if res = '''' then Inl ErrIntegrity else Inr (res, True))
       else Inl ErrMismatch), s)"
  using claim_loses [OF assms(1,2), of i] assms
  by (auto simp: Let_def ReadHTTPIdempotency_def storedEvidence_def MatchesFingerprint_def split: option.split)

lemma InTx_replay:
  assumes "te_pool env \<and> te_fn env \<and> te_acquire env = None" "te_begin env = None" "fn s = (Inr y, s)"
  shows "\<exists>err. InTx p env fn s = (err, Some y, s)"
  using assms by (auto simp: InTx_def runInTx_def)

lemma InTx_failure:
  assumes "te_pool env \<and> te_fn env \<and> te_acquire env = None" "te_begin env = None" "fn s = (Inl e, s1)" "is_leaf t" "errors_is e t"
  shows "\<exists>err. InTx p env fn s = (Some err, None, s) \<and> errors_is err t"
  using assms deferred_rollback_is [of t "Some e" e env] by (auto simp: InTx_def runInTx_def)

lemma execute_replays:
  assumes "request_Valid request" "te_pool (ce_tx env) \<and> te_fn (ce_tx env) \<and> te_acquire (ce_tx env) = None" "te_begin (ce_tx env) = None"
    and "executeTransaction (ce_stmts env) retention request work s = (Inr (res, True), s)"
  shows "execute p env retention request work s = (Inr (res, True), s)"
  using InTx_replay [where fn = "executeTransaction (ce_stmts env) retention request work", OF assms(2,3,4), of p]
    assms(1)
  by (auto simp: execute_def split: option.split)

lemma execute_fails:
  assumes "request_Valid request" "te_pool (ce_tx env) \<and> te_fn (ce_tx env) \<and> te_acquire (ce_tx env) = None" "te_begin (ce_tx env) = None"
    and "executeTransaction (ce_stmts env) retention request work s = (Inl e, s1)" "is_leaf t" "errors_is e t"
    and "\<And>res. read_evidence (ce_read env) (ce_acquire env) request (evidence s) \<noteq> Inr res"
  shows "\<exists>err. execute p env retention request work s = (Inl err, s) \<and> errors_is err t"
proof -
  obtain err where "InTx p (ce_tx env) (executeTransaction (ce_stmts env) retention request work) s
      = (Some err, None, s)" "errors_is err t"
    using InTx_failure [where fn = "executeTransaction (ce_stmts env) retention request work", OF assms(2-6)] by blast
  then show ?thesis using assms(1) assms(7)
    by (cases "read_evidence (ce_read env) (ce_acquire env) request (evidence s)") (auto simp: execute_def)
qed

lemma execute_live_unchanged:
  assumes "honest p (ce_tx env)" "map_of (evidence s) (identity request) = Some r"
    and "\<And>j. live (st_now (ce_stmts env j)) r" and "execute p env retention request work s = (out, s')"
  shows "s' = s"
proof -
  let ?run = "executeTransaction (ce_stmts env) retention request work"
  obtain o1 where run: "?run s = (o1, s)"
    using loop_live [where env = "ce_stmts env" and n = 2 and i = 0, OF assms(2,3), of retention work]
    by (auto simp only: executeTransaction_def)
  have same: "s' = s" if "InTx p (ce_tx env) ?run s = (err, x, s')" for err x
    using InTx_outcome(1) [OF assms(1) that] run by auto
  show ?thesis using assms(4) by (cases rule: execute_cases) (auto intro: same)
qed

text \<open>C3: while the row of a request's identity is live, a call with that identity never runs the
  work and never changes the database, whatever fails around it. On a healthy primary it
  answers the stored result, also when the commit of its read-only transaction fails, if the
  fingerprint is the stored one, and \<^verbatim>\<open>ErrMismatch\<close> otherwise.\<close>

theorem live_evidence_answers:
  assumes "honest p (ce_tx env)" and "map_of (evidence s) (identity request) = Some r"
    and "row_result r = Some res" and "res \<noteq> ''''" and "\<And>j. live (st_now (ce_stmts env j)) r"
    and "execute p env retention request work s = (out, s')" and "request_Valid request"
  shows "s' = s
    \<and> (healthy env \<longrightarrow>
        (if fingerprint_version r = fingerprintVersion request \<and> row_fingerprint r = fingerprint request
         then out = Inr (res, True)
         else \<exists>err. out = Inl err \<and> errors_is err ErrMismatch))"
proof (intro conjI impI)
  show "s' = s" using execute_live_unchanged [OF assms(1,2,5,6)] .
  assume h: "healthy env"
  then have env: "te_pool (ce_tx env) \<and> te_fn (ce_tx env) \<and> te_acquire (ce_tx env) = None" "te_begin (ce_tx env) = None"
    and st: "\<And>j. st_fault (ce_stmts env j) = None \<and> st_writer (ce_stmts env j)"
    by (simp_all add: healthy_def)
  have run: "executeTransaction (ce_stmts env) retention request work s =
     ((if fingerprint_version r = fingerprintVersion request \<and> row_fingerprint r = fingerprint request
       then (case row_result r of None \<Rightarrow> Inl ErrIntegrity
             | Some res \<Rightarrow> if res = '''' then Inl ErrIntegrity else Inr (res, True))
       else Inl ErrMismatch), s)"
    unfolding executeTransaction_def numeral_2_eq_2 by (rule loop_live_answer [OF assms(2,5) st])
  show "if fingerprint_version r = fingerprintVersion request \<and> row_fingerprint r = fingerprint request
     then out = Inr (res, True) else \<exists>err. out = Inl err \<and> errors_is err ErrMismatch"
  proof (cases "fingerprint_version r = fingerprintVersion request \<and> row_fingerprint r = fingerprint request")
    case True
    then have "executeTransaction (ce_stmts env) retention request work s = (Inr (res, True), s)"
      using run assms(3,4) by simp
    from execute_replays [OF assms(7) env this, of p] assms(6) True show ?thesis by simp
  next
    case False
    then have tx: "executeTransaction (ce_stmts env) retention request work s = (Inl ErrMismatch, s)"
      using run by (simp only: if_False)
    have "\<And>res'. read_evidence (ce_read env) (ce_acquire env) request (evidence s) \<noteq> Inr res'"
      using False assms(2) read_evidence_Inr by fastforce
    from execute_fails [OF assms(7) env tx _ _ this, of ErrMismatch p] False assms(6)
    show ?thesis by (auto simp: idem_errors)
  qed
qed

section \<open>Many calls with one key\<close>

lemma durationMicros_covers:
  assumes "0 < d" "d < 2 ^ 63"
  shows "d \<le> durationMicros d * microsecond \<and> (durationMicros d - 1) * microsecond < d"
proof -
  define q m where "q = d div 1000" and "m = d mod 1000"
  have quotients: "quot d microsecond = q" "rem d microsecond = m"
    using assms(1)
    by (simp_all add: rem_def quot_nonneg microsecond_def minus_mult_div_eq_mod q_def m_def)
  have parts: "d = 1000 * q + m" "0 \<le> m" "m < 1000" by (simp_all add: q_def m_def)
  have "0 \<le> q" using assms(1) by (simp add: q_def pos_imp_zdiv_nonneg_iff)
  then have "wrap64 (q + 1) = q + 1" using assms parts by (intro wrap64_id) linarith+
  then have "durationMicros d = (if m \<noteq> 0 then q + 1 else q)"
    by (simp add: durationMicros_def quotients Let_def)
  then show ?thesis using parts by (simp add: microsecond_def)
qed

text \<open>A sequence of calls, each with its own work and its own surroundings.\<close>

fun run_calls :: "pg \<Rightarrow> duration \<Rightarrow> Request \<Rightarrow> (call_env \<times> 'd work) list \<Rightarrow> 'd db \<Rightarrow> 'd db" where
  "run_calls p retention request [] s = s"
| "run_calls p retention request ((env, work) # calls) s =
     run_calls p retention request calls (snd (execute p env retention request work s))"

definition clock_within :: "instant \<Rightarrow> instant \<Rightarrow> call_env \<Rightarrow> bool" where
  "clock_within t0 t1 env = (\<forall>j. t0 \<le> st_now (ce_stmts env j) \<and> st_now (ce_stmts env j) < t1)"

lemma run_calls_live:
  assumes "\<forall>(env, work) \<in> set calls. honest p (ce_tx env) \<and> clock_within t0 t1 env"
    and "map_of (evidence s) (identity request) = Some r" and "expires_at r = Some e" and "t1 \<le> e"
  shows "run_calls p retention request calls s = s"
  using assms
proof (induction calls)
  case (Cons c calls)
  obtain env work where c: "c = (env, work)" by (cases c)
  then have "honest p (ce_tx env)" "\<And>j. live (st_now (ce_stmts env j)) r"
    using Cons.prems by (auto simp: clock_within_def live_def intro: order_less_le_trans)
  moreover obtain out s' where x: "execute p env retention request work s = (out, s')" by fastforce
  ultimately have "s' = s" using execute_live_unchanged Cons.prems(2) by blast
  with Cons x c show ?case by simp
qed simp

lemma committed_expiry:
  assumes "honest p (ce_tx env)" "execute p env retention request work s = (out, s')" "s' \<noteq> s"
  shows "\<exists>res j. committed request work res
     (st_now (ce_stmts env j) + durationMicros retention * microsecond) s s'"
proof -
  let ?run = "executeTransaction (ce_stmts env) retention request work"
  have won: "\<exists>y. ?run s = (Inr y, s')" if "InTx p (ce_tx env) ?run s = (err, x, s')" for err x
    using InTx_outcome(1) [OF assms(1) that] assms(3) by auto
  have "\<exists>y. ?run s = (Inr y, s')"
    using assms(2) by (cases rule: execute_cases) (use assms(3) won in blast)+
  then obtain res replayed where run: "?run s = (Inr (res, replayed), s')" by force
  then have "replayed = False"
    using loop_replay [of 2 0 "ce_stmts env" retention request work s res s'] assms(3)
    by (cases replayed) (auto simp: executeTransaction_def)
  with run show ?thesis
    using loop_winner [of 2 0 "ce_stmts env" retention request work s res s'] by (auto simp: executeTransaction_def)
qed

text \<open>C2: at most one effect. Any number of calls with one identity, issued within one retention
  period and meeting any faults (storage errors, lost or rejected commits, cancellations,
  reconciliations), leave the database as it was or with the effect of exactly one of their
  works, run once on the initial data, together with that run's evidence.\<close>

theorem at_most_one_effect:
  assumes "0 < retention" "retention < 2 ^ 63"
    and "\<forall>(env, work) \<in> set calls. honest p (ce_tx env) \<and> clock_within t0 (t0 + retention) env"
  shows "run_calls p retention request calls s = s
     \<or> (\<exists>env work res e. (env, work) \<in> set calls
          \<and> committed request work res e s (run_calls p retention request calls s))"
  using assms(3)
proof (induction calls)
  case (Cons c calls)
  obtain env work where c: "c = (env, work)" by (cases c)
  obtain out s' where x: "execute p env retention request work s = (out, s')" by fastforce
  have h: "honest p (ce_tx env)" and clk: "clock_within t0 (t0 + retention) env"
    and rest: "\<forall>(env, work) \<in> set calls. honest p (ce_tx env) \<and> clock_within t0 (t0 + retention) env"
    using Cons.prems c by auto
  show ?case
  proof (cases "s' = s")
    case True
    then have "run_calls p retention request (c # calls) s = run_calls p retention request calls s"
      using x c by simp
    then show ?thesis using Cons.IH [OF rest] by auto
  next
    case False
    then obtain res j where won: "committed request work res
        (st_now (ce_stmts env j) + durationMicros retention * microsecond) s s'"
      using committed_expiry [OF h x] by blast
    have "t0 + retention \<le> st_now (ce_stmts env j) + durationMicros retention * microsecond"
      using clk durationMicros_covers [OF assms(1,2)] unfolding clock_within_def by (meson add_mono)
    then have "run_calls p retention request calls s' = s'"
      using run_calls_live [OF rest, of s' request] won by (auto simp: committed_def)
    then show ?thesis using won x c by auto
  qed
qed simp

text \<open>A concrete call on a healthy primary, for the examples.\<close>

definition example_request :: Request where
  "example_request =
     \<lparr>identity = replicate 32 (CHR ''a''), fingerprintVersion = 1, fingerprint = replicate 32 (CHR ''b'')\<rparr>"

definition example_call :: "go_error option \<Rightarrow> instant \<Rightarrow> call_env" where
  "example_call commitErr now =
     \<lparr>ce_tx = \<lparr>te_pool = True, te_fn = True, te_acquire = None, te_begin = None, te_commit = commitErr, te_applied = True,
               te_rollback = Some ErrTxClosed, te_canceled = None\<rparr>,
      ce_stmts = (\<lambda>j. \<lparr>st_fault = None, st_now = now, st_writer = True, st_ctxErr = None\<rparr>),
      ce_read = \<lparr>st_fault = None, st_now = now, st_writer = True, st_ctxErr = None\<rparr>, ce_acquire = None\<rparr>"

definition example_work :: "nat work" where "example_work n = (Inr ''{}'', Suc n)"

definition example_after :: "nat db" where
  "example_after =
     \<lparr>evidence = [(identity example_request, done_row 1 (replicate 32 (CHR ''b'')) ''{}'' 5010)], business = 1\<rparr>"

lemma example_request_valid: "request_Valid example_request"
  by (simp add: request_Valid_def example_request_def zero_digest_def numeral_eq_Suc)

lemma example_honest:
  "honest example_pg (ce_tx (example_call None now))"
  "honest example_pg (ce_tx (example_call (Some (Fresh ''connection reset'')) now))"
  by (simp_all add: honest_def pg_laws_def example_call_def as_PgError_def example_pg_def tx_errors)

lemma example_execute:
  "execute example_pg (example_call None 10) 5000 example_request example_work \<lparr>evidence = [], business = 0\<rparr> =
     (Inr (''{}'', False), example_after)"
  by (simp add: execute_def example_request_valid [unfolded example_request_def] InTx_def runInTx_def example_call_def executeTransaction_def
      numeral_2_eq_2 claim_def ClaimHTTPIdempotency_def claim_row_def executeWork_def example_work_def
      CompleteHTTPIdempotency_def complete_row_def result_check_def commitTx_def classifyCommitError_def
      deferred_rollback_def example_after_def done_row_def example_request_def durationMicros_def quot_def rem_def
      microsecond_def)

lemma execute_commits_effect_with_evidence_witness:
  "\<exists>e. committed example_request example_work ''{}'' e \<lparr>evidence = [], business = 0\<rparr> example_after"
  using execute_commits_effect_with_evidence [OF example_honest(1) example_execute] by blast

lemma example_live: "live (st_now (ce_stmts (example_call c 20) j)) (done_row 1 fp ''{}'' 5010)"
  by (simp add: live_def example_call_def)

lemma live_evidence_answers_witness:
  "\<exists>s'. execute example_pg (example_call (Some (Fresh ''connection reset'')) 20) 5000 example_request example_work example_after
     = (Inr (''{}'', True), s') \<and> s' = example_after"
proof -
  let ?env = "example_call (Some (Fresh ''connection reset'')) 20"
  obtain out s' where x: "execute example_pg ?env 5000 example_request example_work example_after = (out, s')"
    by fastforce
  have row: "map_of (evidence example_after) (identity example_request)
      = Some (done_row 1 (replicate 32 (CHR ''b'')) ''{}'' 5010)"
    by (simp add: example_after_def)
  have "healthy ?env" by (simp add: healthy_def example_call_def)
  then have "out = Inr (''{}'', True) \<and> s' = example_after"
    using live_evidence_answers [OF example_honest(2) row _ _ example_live x example_request_valid]
    by (simp add: example_request_def)
  with x show ?thesis by blast
qed

lemma at_most_one_effect_witness:
  "let s0 = \<lparr>evidence = [], business = 0\<rparr>;
       s = run_calls example_pg 5000 example_request
             [(example_call None 10, example_work), (example_call (Some (Fresh ''connection reset'')) 20, example_work)] s0
   in s = s0 \<or> business s = 1"
proof -
  let ?calls = "[(example_call None 10, example_work), (example_call (Some (Fresh ''connection reset'')) 20, example_work)]"
  have "\<forall>(env, work) \<in> set ?calls. honest example_pg (ce_tx env) \<and> clock_within 10 (10 + 5000) env"
    using example_honest by (simp add: clock_within_def example_call_def)
  from at_most_one_effect [OF _ _ this, of example_request "\<lparr>evidence = [], business = 0\<rparr>"]
  show ?thesis by (auto simp: committed_def example_work_def Let_def)
qed

section \<open>Cleanup\<close>

text \<open>Each batch has its own statement, connection error and rows locked by other sessions, and works on the table as
  the other sessions have left it since the batch before.\<close>

record batch_env =
  be_stmt :: stmt
  be_acquire :: "go_error option"
  be_locked :: "string list"
  be_others :: "table \<Rightarrow> table"

lemma filter_removes:
  "x \<in> set xs \<Longrightarrow> \<not> P x \<Longrightarrow> length (filter P xs) < length xs"
  by (induction xs) (auto simp: less_Suc_eq_le)

lemma distinct_map_filter_fst: "distinct (map f xs) \<Longrightarrow> distinct (map f (filter P xs))"
  by (induction xs) auto

lemma expired_tokens_in:
  "k \<in> set (expired_tokens now locked batch t) \<Longrightarrow> \<exists>r. (k, r) \<in> set t \<and> expired now r \<and> k \<notin> set locked"
  by (auto simp: expired_tokens_def dest!: in_set_takeD) blast

text \<open>The loop may go on as long as batches are full; \<open>None\<close> is a loop that never ends.\<close>

partial_function (option) cleanup_loop :: "(nat \<Rightarrow> batch_env) \<Rightarrow> nat \<Rightarrow> nat \<Rightarrow> table \<Rightarrow> (nat \<times> go_error option \<times> table) option" where
  "cleanup_loop env i removed t =
     (case cleanupBatch (be_stmt (env i)) (be_acquire (env i)) (be_locked (env i)) (be_others (env i) t) of
        (rows, err, t') \<Rightarrow>
          if err \<noteq> None \<or> rows < cleanupBatchSize then Some (removed + rows, err, t')
          else cleanup_loop env (i + 1) (removed + rows) t')"

definition Cleanup :: "bool \<Rightarrow> (nat \<Rightarrow> batch_env) \<Rightarrow> table \<Rightarrow> (nat \<times> go_error option \<times> table) option" where
  "Cleanup has_store env t =
     (if \<not> has_store then Some (0, Some (WrapFmt ''store is required'' store_ErrConfig), t) else cleanup_loop env 0 0 t)"

definition kept_live :: "instant \<Rightarrow> table \<Rightarrow> table \<Rightarrow> bool" where
  "kept_live t1 t t' =
     (set t' \<subseteq> set t \<and> (\<forall>k r. (k, r) \<in> set t \<longrightarrow> \<not> expired t1 r \<longrightarrow> distinct (map fst t) \<longrightarrow> (k, r) \<in> set t')
      \<and> (distinct (map fst t) \<longrightarrow> distinct (map fst t')))"

lemma expired_mono: "expired now r \<Longrightarrow> now \<le> t1 \<Longrightarrow> expired t1 r"
  by (auto simp: expired_def split: option.splits)


lemma cleanupBatch_kept:
  assumes "cleanupBatch st acq locked t = (rows, err, t')" "st_now st \<le> t1"
  shows "kept_live t1 t t'"
proof -
  let ?gone = "expired_tokens (st_now st) locked cleanupBatchSize t"
  consider "t' = t" | "t' = filter (\<lambda>(k, r). k \<notin> set ?gone) t"
    using assms(1) by (auto simp: cleanupBatch_def CleanupHTTPIdempotency_def Let_def split: option.splits)
  then show ?thesis
  proof cases
    case 2
    have "k \<notin> set ?gone" if "(k, r) \<in> set t" "\<not> expired t1 r" "distinct (map fst t)" for k r
      using that expired_tokens_in [of k] expired_mono [OF _ assms(2)] by (metis eq_key_imp_eq_value)
    then show ?thesis using 2 by (auto simp: kept_live_def distinct_map_filter_fst)
  qed (simp add: kept_live_def)
qed

text \<open>A full batch removes as many rows as it says.\<close>

lemma expired_tokens_distinct: "distinct (map fst t) \<Longrightarrow> distinct (expired_tokens now locked batch t)"
proof -
  assume "distinct (map fst t)"
  then have "distinct (map fst (filter (\<lambda>(k, r). expired now r \<and> k \<notin> set locked) t))" by (rule distinct_map_filter_fst)
  then show ?thesis unfolding expired_tokens_def by (intro distinct_take) (simp add: distinct_map)
qed

lemma removed_count:
  assumes "distinct (map fst t)" "distinct gone" "set gone \<subseteq> fst ` set t"
  shows "length (filter (\<lambda>(k, r). k \<notin> set gone) t) + length gone = length t"
proof -
  have "set (map fst (filter (\<lambda>x. fst x \<in> set gone) t)) = set gone" using assms(3) by force
  then have "length (filter (\<lambda>x. fst x \<in> set gone) t) = length gone"
    using assms distinct_card [of gone] distinct_card [of "map fst (filter (\<lambda>x. fst x \<in> set gone) t)"] distinct_map_filter_fst
    by (metis length_map)
  then show ?thesis using sum_length_filter_compl [of "\<lambda>x. fst x \<in> set gone" t] by (simp add: case_prod_unfold)
qed

lemma cleanupBatch_result:
  assumes "cleanupBatch st acq locked t = (rows, err, t')"
  shows "rows = 0 \<and> err \<noteq> None \<and> t' = t
    \<or> err = None \<and> rows = length (expired_tokens (st_now st) locked cleanupBatchSize t)
      \<and> t' = filter (\<lambda>(k, r). k \<notin> set (expired_tokens (st_now st) locked cleanupBatchSize t)) t"
  using assms by (auto simp: cleanupBatch_def CleanupHTTPIdempotency_def Let_def split: option.splits)

lemma cleanupBatch_count:
  assumes "cleanupBatch st acq locked t = (rows, err, t')" "distinct (map fst t)"
  shows "length t' + rows = length t"
proof -
  have "set (expired_tokens (st_now st) locked cleanupBatchSize t) \<subseteq> fst ` set t" using expired_tokens_in by force
  then show ?thesis
    using cleanupBatch_result [OF assms(1)] removed_count [OF assms(2) expired_tokens_distinct [OF assms(2)]] by auto
qed

text \<open>A short batch leaves no expired row but those others hold.\<close>

lemma short_batch_finds_all:
  assumes "cleanupBatch st acq locked t = (rows, None, t')" "rows < cleanupBatchSize" "(k, r) \<in> set t'" "expired (st_now st) r"
  shows "k \<in> set locked"
proof (rule ccontr)
  assume "k \<notin> set locked"
  let ?old = "filter (\<lambda>(k, r). expired (st_now st) r \<and> k \<notin> set locked) t"
  let ?keys = "map fst (sort_key (\<lambda>(k, r). (case expires_at r of Some e \<Rightarrow> e | None \<Rightarrow> 0, k)) ?old)"
  have res: "rows = length (take cleanupBatchSize ?keys)" "t' = filter (\<lambda>(k, r). k \<notin> set (take cleanupBatchSize ?keys)) t"
    using cleanupBatch_result [OF assms(1)] by (auto simp: expired_tokens_def)
  then have "take cleanupBatchSize ?keys = ?keys" using assms(2) by (simp add: min_def split: if_splits)
  moreover have "k \<in> set ?keys" using assms(3,4) \<open>k \<notin> set locked\<close> res(2) by force
  ultimately show False using assms(3) res(2) by auto
qed

text \<open>What the other sessions may do: keys stay unique, and fewer rows than a batch arrive between two batches.\<close>

definition others_ok :: "(nat \<Rightarrow> batch_env) \<Rightarrow> bool" where
  "others_ok env =
     (\<forall>j u. distinct (map fst u) \<longrightarrow> distinct (map fst (be_others (env j) u)) \<and> length (be_others (env j) u) < length u + cleanupBatchSize)"

definition others_keep :: "(nat \<Rightarrow> batch_env) \<Rightarrow> string \<Rightarrow> row \<Rightarrow> bool" where
  "others_keep env k r = (\<forall>j u. (k, r) \<in> set u \<longrightarrow> (k, r) \<in> set (be_others (env j) u))"

lemma cleanup_loop_outcome:
  assumes "others_ok env" "\<forall>j. st_now (be_stmt (env j)) \<le> t1"
  shows "distinct (map fst t) \<Longrightarrow>
     \<exists>n err t'. cleanup_loop env i removed t = Some (n, err, t') \<and> distinct (map fst t')
       \<and> (\<forall>k r. (k, r) \<in> set t \<longrightarrow> \<not> expired t1 r \<longrightarrow> others_keep env k r \<longrightarrow> (k, r) \<in> set t')
       \<and> (err = None \<longrightarrow> (\<exists>j. \<forall>k r. (k, r) \<in> set t' \<longrightarrow> expired (st_now (be_stmt (env j))) r \<longrightarrow> k \<in> set (be_locked (env j))))"
proof (induction "length t" arbitrary: i removed t rule: less_induct)
  case less
  let ?u = "be_others (env i) t"
  obtain rows e t1' where b: "cleanupBatch (be_stmt (env i)) (be_acquire (env i)) (be_locked (env i)) ?u = (rows, e, t1')"
    by (cases "cleanupBatch (be_stmt (env i)) (be_acquire (env i)) (be_locked (env i)) ?u")
  have u: "distinct (map fst ?u)" "length ?u < length t + cleanupBatchSize" using assms(1) less.prems by (auto simp: others_ok_def)
  have kept: "kept_live t1 ?u t1'" using cleanupBatch_kept [OF b] assms(2) by blast
  have d: "distinct (map fst t1')" using kept u(1) by (simp add: kept_live_def)
  have live: "(k, r) \<in> set t1'" if "(k, r) \<in> set t" "\<not> expired t1 r" "others_keep env k r" for k r
    using that kept u(1) by (auto simp: kept_live_def others_keep_def)
  show ?case
  proof (cases "e \<noteq> None \<or> rows < cleanupBatchSize")
    case True
    then have run: "cleanup_loop env i removed t = Some (removed + rows, e, t1')" by (simp add: cleanup_loop.simps [of env i] b)
    have "\<exists>j. \<forall>k r. (k, r) \<in> set t1' \<longrightarrow> expired (st_now (be_stmt (env j))) r \<longrightarrow> k \<in> set (be_locked (env j))" if "e = None"
      using short_batch_finds_all [of "be_stmt (env i)" "be_acquire (env i)" "be_locked (env i)" ?u rows t1'] b True that by blast
    then show ?thesis using run d live by blast
  next
    case False
    then have run: "cleanup_loop env i removed t = cleanup_loop env (i + 1) (removed + rows) t1'" by (simp add: cleanup_loop.simps [of env i] b)
    have "length t1' < length t" using cleanupBatch_count [OF b u(1)] u(2) False by simp
    from less.hyps [OF this d, of "i + 1" "removed + rows"] show ?thesis unfolding run using live by blast
  qed
qed

text \<open>C4: cleanup ends and deletes exactly what it may. As long as fewer rows than a batch arrive between two of its batches, whatever else other
  sessions insert, change, delete or lock, it returns; a row that is not expired at the latest clock reading and that no other session
  touches is still there, unchanged; and when it ends without an error, the rows left that its last statement saw as
  expired are rows other sessions held locked.\<close>

theorem cleanup_keeps_live_rows:
  assumes "distinct (map fst t)" and "others_ok env" and "\<forall>j. st_now (be_stmt (env j)) \<le> t1"
  shows "\<exists>n err t'. Cleanup True env t = Some (n, err, t')
     \<and> (\<forall>k r. map_of t k = Some r \<longrightarrow> \<not> expired t1 r \<longrightarrow> others_keep env k r \<longrightarrow> map_of t' k = Some r)
     \<and> (err = None \<longrightarrow> (\<exists>j. \<forall>k r. map_of t' k = Some r \<longrightarrow> expired (st_now (be_stmt (env j))) r \<longrightarrow> k \<in> set (be_locked (env j))))"
proof -
  obtain n err t' where c: "cleanup_loop env 0 0 t = Some (n, err, t')" and d: "distinct (map fst t')"
    and live: "\<forall>k r. (k, r) \<in> set t \<longrightarrow> \<not> expired t1 r \<longrightarrow> others_keep env k r \<longrightarrow> (k, r) \<in> set t'"
    and rest: "err = None \<longrightarrow> (\<exists>j. \<forall>k r. (k, r) \<in> set t' \<longrightarrow> expired (st_now (be_stmt (env j))) r \<longrightarrow> k \<in> set (be_locked (env j)))"
    using cleanup_loop_outcome [OF assms(2,3,1), of 0 0] by blast
  have "map_of t' k = Some r" if "map_of t k = Some r" "\<not> expired t1 r" "others_keep env k r" for k r
    using that live d by (metis map_of_SomeD map_of_is_SomeI)
  moreover have "err = None \<longrightarrow> (\<exists>j. \<forall>k r. map_of t' k = Some r \<longrightarrow> expired (st_now (be_stmt (env j))) r \<longrightarrow> k \<in> set (be_locked (env j)))"
    using rest map_of_SomeD by fast
  ultimately show ?thesis using c by (auto simp: Cleanup_def)
qed

text \<open>Another session adds a row before every batch.\<close>

definition example_batch :: "nat \<Rightarrow> batch_env" where
  "example_batch j =
     \<lparr>be_stmt = \<lparr>st_fault = None, st_now = 100, st_writer = True, st_ctxErr = None\<rparr>, be_acquire = None, be_locked = [],
      be_others = (\<lambda>u. if ''c'' \<in> fst ` set u then u else (''c'', done_row 1 ''f'' ''z'' 700) # u)\<rparr>"

lemma cleanup_keeps_live_rows_witness:
  "\<exists>n err t'. Cleanup True example_batch [(''a'', done_row 1 ''f'' ''x'' 50), (''b'', done_row 1 ''f'' ''y'' 500)] = Some (n, err, t')
     \<and> map_of t' ''b'' = Some (done_row 1 ''f'' ''y'' 500)"
proof -
  have "others_ok example_batch" by (auto simp: others_ok_def example_batch_def cleanupBatchSize_def)
  moreover have "\<forall>j. st_now (be_stmt (example_batch j)) \<le> 100" by (simp add: example_batch_def)
  moreover have "others_keep example_batch ''b'' (done_row 1 ''f'' ''y'' 500)" by (simp add: others_keep_def example_batch_def)
  ultimately show ?thesis
    using cleanup_keeps_live_rows [of "[(''a'', done_row 1 ''f'' ''x'' 50), (''b'', done_row 1 ''f'' ''y'' 500)]" example_batch 100]
    by (fastforce simp: expired_def done_row_def)
qed

end
