(* ===== verification/NatsMessage.thy ===== *)
theory NatsMessage
  imports GoText Sha256 "HOL-Library.AList"
begin

text \<open>
  Package \<^verbatim>\<open>internal/infra/natsjs\<close>, what a message is: subjects (\<^verbatim>\<open>config.go\<close>), the envelope as
  NATS headers (\<^verbatim>\<open>message_wire.go\<close>), the dead-letter transfer and its inverse
  (\<^verbatim>\<open>message_deadletter.go\<close>), and the errors of \<^verbatim>\<open>errors.go\<close>; with
  \<^verbatim>\<open>internal/domainevent/event.go\<close>, the events a service publishes.

  A header is an association list from names to values, read and written the way
  \<^verbatim>\<open>nats.Header\<close> is. The size of an encoded message, the trace context the OpenTelemetry
  propagator adds and the RFC 3339 text of an instant come from the record \<open>lib\<close>;
  \<open>lib_laws\<close> says what the code relies on. What NATS does to a message on its way is the argument
  \<open>wire\<close> of the properties, with \<open>wire_laws\<close>: header values arrive trimmed.

  The lemmas show that a published event without surrounding spaces is the event delivered, that a dead-letter transfer
  restores to the event it came from, and that the derived publication id identifies one
  stored record.
\<close>

section \<open>errors.go\<close>

definition ErrRejected :: go_error where "ErrRejected = Sentinel ''natsjs.ErrRejected''"
definition ErrAmbiguous :: go_error where "ErrAmbiguous = Sentinel ''natsjs.ErrAmbiguous''"
definition nats_ErrDraining :: go_error where "nats_ErrDraining = Sentinel ''natsjs.ErrDraining''"
definition ErrTerminal :: go_error where "ErrTerminal = Sentinel ''natsjs.ErrTerminal''"

definition permanent_type :: string where "permanent_type = ''natsjs.permanentError''"

definition Permanent :: "go_error option \<Rightarrow> go_error option" where
  "Permanent err = map_option (WrapTyped permanent_type '''') err"

definition IsPermanent :: "go_error option \<Rightarrow> bool" where
  "IsPermanent err = (case err of None \<Rightarrow> False | Some e \<Rightarrow> has_type permanent_type e)"

section \<open>config.go\<close>

definition HeaderLimitBytes :: nat where "HeaderLimitBytes = 8192"
definition operationTimeout :: duration where "operationTimeout = 5 * second"
definition maxHeaderValueBytes :: nat where "maxHeaderValueBytes = 256"

fun filter_parts :: "string list \<Rightarrow> bool" where
  "filter_parts [] = True"
| "filter_parts (part # parts) =
     (if part = '''' then False
      else if part = ''>'' then parts = []
      else if part = ''*'' then filter_parts parts
      else if list_ex (\<lambda>c. c = CHR ''*'' \<or> c = CHR ''>'') part then False
      else filter_parts parts)"

definition validFilterSubject :: "string \<Rightarrow> bool" where
  "validFilterSubject value =
     (if value = '''' \<or> hd value = CHR ''.'' \<or> last value = CHR ''.''
         \<or> list_ex (\<lambda>c. c \<in> {CHR '' '', CHR 0x09, CHR 0x0D, CHR 0x0A}) value
      then False else filter_parts (split_on (CHR ''.'') value))"

definition validPublishSubject :: "string \<Rightarrow> bool" where
  "validPublishSubject value =
     (validFilterSubject value \<and> \<not> list_ex (\<lambda>part. part = ''*'' \<or> part = ''>'') (split_on (CHR ''.'') value))"

section \<open>Events and headers\<close>

type_synonym header = "(string \<times> string list) list"

definition hget :: "header \<Rightarrow> string \<Rightarrow> string" where
  "hget h k = (case map_of h k of Some (v # _) \<Rightarrow> v | _ \<Rightarrow> '''')"

definition hset :: "string \<Rightarrow> string \<Rightarrow> header \<Rightarrow> header" where
  "hset k v h = AList.update k [v] h"

text \<open>A creation time is an instant and the zone offset it is written in.\<close>

record Event =
  ev_Subject :: string
  ev_MessageID :: string
  ev_PublicationID :: string
  ev_Type :: string
  ev_Schema :: string
  ev_CreatedAt :: instant
  ev_Offset :: int
  ev_Payload :: string

record natsMsg =
  nm_Subject :: string
  nm_Header :: header
  nm_Data :: string

record metadata =
  md_Stream :: string
  md_Consumer :: string
  md_StreamSequence :: nat
  md_ConsumerSequence :: nat
  md_NumDelivered :: nat
  md_NumPending :: nat
  md_Timestamp :: instant

text \<open>A message the broker delivers; its metadata may be missing.\<close>

record source =
  src_msg :: natsMsg
  src_metadata :: "metadata option"

record Message =
  msg_subject :: string
  msg_messageID :: string
  msg_publicationID :: string
  msg_eventType :: string
  msg_schema :: string
  msg_createdAt :: instant
  msg_payload :: string
  msg_metadata :: metadata

record lib =
  msg_size :: "natsMsg \<Rightarrow> nat"
  inject :: "header \<Rightarrow> header"
  trace_fields :: "string list"
  format_time :: "instant \<Rightarrow> string"
  parse_time :: "string \<Rightarrow> instant option"

section \<open>message\_wire.go\<close>

definition headerMessageID :: string where "headerMessageID = ''Message-Id''"
definition headerEventType :: string where "headerEventType = ''Event-Type''"
definition headerEventSchema :: string where "headerEventSchema = ''Event-Schema''"
definition headerCreatedAt :: string where "headerCreatedAt = ''Created-At''"
definition headerOriginalSubject :: string where "headerOriginalSubject = ''Original-Subject''"
definition headerDeadLetterReason :: string where "headerDeadLetterReason = ''Dead-Letter-Reason''"
definition MsgIDHeader :: string where "MsgIDHeader = ''Nats-Msg-Id''"

lemmas header_names =
  headerMessageID_def headerEventType_def headerEventSchema_def headerCreatedAt_def
  headerOriginalSubject_def headerDeadLetterReason_def MsgIDHeader_def

definition envelopeHeaders :: "string list" where
  "envelopeHeaders = [headerMessageID, headerEventType, headerEventSchema, headerCreatedAt]"

definition parseCreatedAt :: "lib \<Rightarrow> header \<Rightarrow> instant option" where
  "parseCreatedAt lb h =
     (case parse_time lb (hget h headerCreatedAt) of
        None \<Rightarrow> None
      | Some t \<Rightarrow> if t = zero_time then None else Some t)"

definition validateHeaderValue :: "string \<Rightarrow> string \<Rightarrow> go_error option" where
  "validateHeaderValue name value =
     (if maxHeaderValueBytes < length value then Some (WrapFmt (name @ '' exceeds bytes'') ErrRejected)
      else if \<not> valid_utf8 value then Some (WrapFmt (name @ '' must be valid UTF-8'') ErrRejected)
      else if contains_rune is_control value then Some (WrapFmt (name @ '' contains a control character'') ErrRejected)
      else None)"

definition validateRequiredValue :: "string \<Rightarrow> string \<Rightarrow> go_error option" where
  "validateRequiredValue name value =
     (if value = '''' then Some (WrapFmt (name @ '' is required'') ErrRejected)
      else validateHeaderValue name value)"

definition validateEvent :: "Event \<Rightarrow> nat \<Rightarrow> go_error option" where
  "validateEvent event maxPayloadBytes =
     first_error
       [if \<not> validPublishSubject (ev_Subject event) then Some (WrapFmt ''invalid event subject'' ErrRejected) else None,
        validateRequiredValue ''message ID'' (ev_MessageID event),
        validateRequiredValue ''publication ID'' (ev_PublicationID event),
        validateRequiredValue ''event type'' (ev_Type event),
        validateRequiredValue ''event schema'' (ev_Schema event),
        if ev_CreatedAt event = zero_time \<or> ev_Offset event \<noteq> 0
        then Some (WrapFmt ''creation time must be non-zero UTC'' ErrRejected) else None,
        if maxPayloadBytes < length (ev_Payload event)
        then Some (WrapFmt ''payload exceeds configured maximum'' ErrRejected) else None]"

definition encodedHeaderBytes :: "header \<Rightarrow> nat" where
  "encodedHeaderBytes h =
     (if h = [] then 0
      else 12 + sum_list (map (\<lambda>(key, values). sum_list (map (\<lambda>v. length key + 2 + length v + 2) values)) h))"

definition validateEncodedMessage :: "lib \<Rightarrow> natsMsg \<Rightarrow> nat \<Rightarrow> go_error option" where
  "validateEncodedMessage lb msg maxPayloadBytes =
     (if maxPayloadBytes < length (nm_Data msg) then Some (WrapFmt ''payload exceeds configured maximum'' ErrRejected)
      else if HeaderLimitBytes < encodedHeaderBytes (nm_Header msg)
      then Some (WrapFmt ''encoded headers exceed bytes'' ErrRejected)
      else if wrap64 (int maxPayloadBytes + int HeaderLimitBytes) < int (msg_size lb msg)
      then Some (WrapFmt ''encoded message exceeds configured maximum'' ErrRejected)
      else None)"

definition event_header :: "lib \<Rightarrow> Event \<Rightarrow> header" where
  "event_header lb event =
     inject lb
       (hset headerCreatedAt (format_time lb (ev_CreatedAt event))
         (hset headerEventSchema (ev_Schema event)
           (hset headerEventType (ev_Type event)
             (hset MsgIDHeader (ev_PublicationID event)
               (hset headerMessageID (ev_MessageID event) [])))))"

definition buildNATSMessage :: "lib \<Rightarrow> Event \<Rightarrow> nat \<Rightarrow> go_error + natsMsg" where
  "buildNATSMessage lb event maxPayloadBytes =
     (let msg = \<lparr>nm_Subject = ev_Subject event, nm_Header = event_header lb event, nm_Data = ev_Payload event\<rparr>
      in case validateEncodedMessage lb msg maxPayloadBytes of Some err \<Rightarrow> Inl err | None \<Rightarrow> Inr msg)"

definition decodeMessage :: "lib \<Rightarrow> natsMsg \<Rightarrow> metadata \<Rightarrow> go_error + Message" where
  "decodeMessage lb msg md =
     (let h = nm_Header msg
      in case parseCreatedAt lb h of
           None \<Rightarrow> Inl (WrapFmt ''invalid creation time'' ErrRejected)
         | Some createdAt \<Rightarrow>
             let messageID = hget h headerMessageID; publicationID = hget h MsgIDHeader;
                 eventType = hget h headerEventType; schema = hget h headerEventSchema
             in case first_error [validateRequiredValue headerMessageID messageID,
                                  validateRequiredValue MsgIDHeader publicationID,
                                  validateRequiredValue headerEventType eventType,
                                  validateRequiredValue headerEventSchema schema] of
                  Some err \<Rightarrow> Inl err
                | None \<Rightarrow>
                    Inr \<lparr>msg_subject = nm_Subject msg, msg_messageID = messageID, msg_publicationID = publicationID,
                         msg_eventType = eventType, msg_schema = schema, msg_createdAt = createdAt,
                         msg_payload = nm_Data msg, msg_metadata = md\<rparr>)"

section \<open>message\_deadletter.go\<close>

definition DeadLetterMalformed :: string where "DeadLetterMalformed = ''malformed''"
definition DeadLetterExhausted :: string where "DeadLetterExhausted = ''exhausted''"
definition DeadLetterPermanent :: string where "DeadLetterPermanent = ''permanent''"
definition deadLetterTransferPrefix :: string where "deadLetterTransferPrefix = ''dlq-''"
definition redrivePublicationPrefix :: string where "redrivePublicationPrefix = ''redrive-''"

definition carryIdentityHeaders :: "lib \<Rightarrow> header \<Rightarrow> header \<Rightarrow> header" where
  "carryIdentityHeaders lb h src =
     foldl (\<lambda>h name. let value = hget src name in if value \<noteq> '''' then hset name value h else h)
       h (envelopeHeaders @ trace_fields lb)"

definition record_fields :: "lib \<Rightarrow> natsMsg \<Rightarrow> metadata \<Rightarrow> string list" where
  "record_fields lb msg md =
     [md_Stream md, decimal (md_StreamSequence md), format_time lb (md_Timestamp md), hget (nm_Header msg) MsgIDHeader]"

definition streamRecordID :: "lib \<Rightarrow> string \<Rightarrow> natsMsg \<Rightarrow> metadata \<Rightarrow> string" where
  "streamRecordID lb prefix msg md =
     prefix @ hex_encode (sha256 (str_join [CHR 0x00] (record_fields lb msg md)))"

definition deadLetterTransferID :: "lib \<Rightarrow> natsMsg \<Rightarrow> metadata \<Rightarrow> string" where
  "deadLetterTransferID lb msg md = streamRecordID lb deadLetterTransferPrefix msg md"

text \<open>\<open>decodedID\<close> is the decoded message's id, empty for a delivery that did not decode.\<close>

definition deadLetterMessage ::
  "lib \<Rightarrow> natsMsg \<Rightarrow> metadata \<Rightarrow> string \<Rightarrow> string \<Rightarrow> string \<Rightarrow> natsMsg \<times> string" where
  "deadLetterMessage lb msg md decodedID subject reason =
     (let h1 = carryIdentityHeaders lb [] (nm_Header msg);
          h2 = hset headerDeadLetterReason reason (hset headerOriginalSubject (nm_Subject msg) h1);
          transferID = deadLetterTransferID lb msg md;
          h3 = hset MsgIDHeader transferID h2;
          h4 = (if decodedID \<noteq> '''' then hset headerMessageID decodedID h3
                else if hget h3 headerMessageID = '''' then hset headerMessageID transferID h3
                else h3)
      in (\<lparr>nm_Subject = subject, nm_Header = h4, nm_Data = nm_Data msg\<rparr>, transferID))"

definition RestoreDeadLetter :: "lib \<Rightarrow> source option \<Rightarrow> go_error + Event" where
  "RestoreDeadLetter lb rec =
     (case rec of
        None \<Rightarrow> Inl (WrapFmt ''dead-letter message is required'' ErrRejected)
      | Some s \<Rightarrow>
          (case src_metadata s of
             None \<Rightarrow> Inl (WrapFmt ''dead-letter metadata unavailable'' ErrRejected)
           | Some md \<Rightarrow>
               let h = nm_Header (src_msg s)
               in case parseCreatedAt lb h of
                    None \<Rightarrow> Inl (WrapFmt ''dead-letter record carries no restorable creation time'' ErrRejected)
                  | Some createdAt \<Rightarrow>
                      let event = \<lparr>ev_Subject = hget h headerOriginalSubject, ev_MessageID = hget h headerMessageID,
                                   ev_PublicationID = streamRecordID lb redrivePublicationPrefix (src_msg s) md,
                                   ev_Type = hget h headerEventType, ev_Schema = hget h headerEventSchema,
                                   ev_CreatedAt = createdAt, ev_Offset = 0, ev_Payload = nm_Data (src_msg s)\<rparr>
                      in case validateEvent event (length (ev_Payload event)) of
                           Some err \<Rightarrow> Inl (WrapFmt ''dead-letter record is not restorable'' err)
                         | None \<Rightarrow> Inr event))"

definition DeadLetterReason :: "source option \<Rightarrow> string" where
  "DeadLetterReason rec = (case rec of None \<Rightarrow> '''' | Some s \<Rightarrow> hget (nm_Header (src_msg s)) headerDeadLetterReason)"

section \<open>domainevent/event.go\<close>

record domainEvent =
  de_ID :: string
  de_Type :: string
  de_Version :: nat
  de_OccurredAt :: instant
  de_Offset :: int
  de_Payload :: string

definition validateText :: "string \<Rightarrow> string \<Rightarrow> go_error option" where
  "validateText name value =
     (if value = '''' then Some (Fresh (name @ '' is required''))
      else if \<not> valid_utf8 value \<or> contains_rune is_control value
      then Some (Fresh (name @ '' must be valid text without control characters''))
      else None)"

text \<open>\<open>json_valid\<close> is \<^verbatim>\<open>json.Valid\<close>.\<close>

definition Validate :: "(string \<Rightarrow> bool) \<Rightarrow> domainEvent \<Rightarrow> go_error option" where
  "Validate json_valid e =
     first_error
       [validateText ''id'' (de_ID e), validateText ''type'' (de_Type e),
        if de_Version e = 0 then Some (Fresh ''version must be positive'') else None,
        if de_OccurredAt e = zero_time then Some (Fresh ''occurred_at is required'') else None,
        if de_Offset e \<noteq> 0 then Some (Fresh ''occurred_at must use UTC'') else None,
        if de_Payload e = '''' \<or> \<not> json_valid (de_Payload e) then Some (Fresh ''payload must be valid JSON'') else None]"

record kind_def =
  kd_Type :: string
  kd_Version :: nat

definition Kind_New ::
  "(string \<Rightarrow> bool) \<Rightarrow> kind_def \<Rightarrow> string \<Rightarrow> instant \<Rightarrow> int \<Rightarrow> go_error + string \<Rightarrow> go_error + domainEvent" where
  "Kind_New json_valid k i occurredAt offset marshalled =
     (case marshalled of
        Inl err \<Rightarrow> Inl (WrapFmt ''marshal domain event payload'' err)
      | Inr encoded \<Rightarrow>
          let event = \<lparr>de_ID = i, de_Type = kd_Type k, de_Version = kd_Version k, de_OccurredAt = occurredAt,
                       de_Offset = offset, de_Payload = encoded\<rparr>
          in case Validate json_valid event of Some err \<Rightarrow> Inl err | None \<Rightarrow> Inr event)"

section \<open>Headers and values\<close>

lemma hget_hset [simp]: "hget (hset k v h) k' = (if k' = k then v else hget h k')"
  by (simp add: hget_def hset_def update_conv')

lemma hget_Nil [simp]: "hget [] k = ''''"
  by (simp add: hget_def)

lemma hget_carry:
  "hget (foldl (\<lambda>h name. let value = hget src name in if value \<noteq> '''' then hset name value h else h) h names) k =
     (if k \<in> set names \<and> hget src k \<noteq> '''' then hget src k else hget h k)"
  by (induction names arbitrary: h) (auto simp: Let_def)

lemma hget_carryIdentityHeaders:
  "hget (carryIdentityHeaders lb [] src) k =
     (if k \<in> set (envelopeHeaders @ trace_fields lb) then hget src k else '''')"
  unfolding carryIdentityHeaders_def hget_carry by simp

text \<open>A value a header may carry: what \<open>validateRequiredValue\<close> accepts, under any name.\<close>

definition carried :: "string \<Rightarrow> bool" where
  "carried v = (v \<noteq> '''' \<and> length v \<le> maxHeaderValueBytes \<and> valid_utf8 v \<and> \<not> contains_rune is_control v)"

lemma validateRequiredValue_None: "validateRequiredValue name v = None \<longleftrightarrow> carried v"
  by (auto simp: validateRequiredValue_def validateHeaderValue_def carried_def)

lemma validateEvent_None:
  "validateEvent e n = None \<longleftrightarrow>
     validPublishSubject (ev_Subject e) \<and> carried (ev_MessageID e) \<and> carried (ev_PublicationID e)
     \<and> carried (ev_Type e) \<and> carried (ev_Schema e) \<and> ev_CreatedAt e \<noteq> zero_time \<and> ev_Offset e = 0
     \<and> length (ev_Payload e) \<le> n"
  by (auto simp: validateEvent_def first_error_None validateRequiredValue_None)

lemma carried_text: "s \<noteq> '''' \<Longrightarrow> length s \<le> 256 \<Longrightarrow> list_all (\<lambda>c. between 0x20 0x7E (of_char c)) s \<Longrightarrow> carried s"
proof -
  assume s: "s \<noteq> ''''" "length s \<le> 256" and tok: "list_all (\<lambda>c. between 0x20 0x7E (of_char c)) s"
  have ascii: "list_all (\<lambda>c. of_char c < (0x80::nat)) s"
    using tok by (auto simp: list_all_iff between_def)
  have "\<not> contains_rune is_control s"
    using tok by (auto simp: contains_rune_def runes_ascii [OF ascii] list_ex_iff list_all_iff is_control_def between_def)
  then show ?thesis using s valid_utf8_ascii [OF ascii] by (simp add: carried_def maxHeaderValueBytes_def)
qed

lemma carried_token: "s \<noteq> '''' \<Longrightarrow> length s \<le> 256 \<Longrightarrow> list_all (\<lambda>c. between 0x21 0x7E (of_char c)) s \<Longrightarrow> carried s"
  by (rule carried_text) (auto simp: list_all_iff between_def)

section \<open>What the code relies on\<close>

text \<open>Instants of the years 1 to 9999, the ones RFC 3339 can write.\<close>

definition writable_time :: "instant \<Rightarrow> bool" where
  "writable_time t = (zero_time \<le> t \<and> t < 253402300800 * second)"

definition lib_laws :: "lib \<Rightarrow> bool" where
  "lib_laws lb =
     ((\<forall>t. writable_time t \<longrightarrow> parse_time lb (format_time lb t) = Some t)
      \<and> (\<forall>h k. k \<in> set (MsgIDHeader # envelopeHeaders) \<longrightarrow> hget (inject lb h) k = hget h k)
      \<and> set (trace_fields lb) \<inter> {MsgIDHeader, headerOriginalSubject, headerDeadLetterReason} = {})"

lemma event_header_get:
  assumes "lib_laws lb"
  shows "hget (event_header lb e) headerMessageID = ev_MessageID e"
    "hget (event_header lb e) MsgIDHeader = ev_PublicationID e"
    "hget (event_header lb e) headerEventType = ev_Type e"
    "hget (event_header lb e) headerEventSchema = ev_Schema e"
    "hget (event_header lb e) headerCreatedAt = format_time lb (ev_CreatedAt e)"
  using assms by (simp_all add: event_header_def lib_laws_def envelopeHeaders_def header_names)

text \<open>The NATS client and server between \<^verbatim>\<open>buildNATSMessage\<close> and \<^verbatim>\<open>decodeMessage\<close>. The client writes the
  headers with \<^verbatim>\<open>http.Header.Write\<close>, which replaces line ends by spaces and trims each value; subject
  and payload arrive as they are. A \<open>wire\<close> is any such transfer, stated for the header names this
  package reads; the RFC 3339 text of an instant has no white space for it to change.\<close>

definition header_space :: "char \<Rightarrow> bool" where
  "header_space c = (c \<in> {CHR '' '', CHR 0x09, CHR 0x0A, CHR 0x0D})"

definition wire_value :: "string \<Rightarrow> string" where
  "wire_value v =
     rev (dropWhile header_space (rev (dropWhile header_space
       (map (\<lambda>c. if c = CHR 0x0A \<or> c = CHR 0x0D then CHR '' '' else c) v))))"

definition wire_laws :: "lib \<Rightarrow> (natsMsg \<Rightarrow> natsMsg) \<Rightarrow> bool" where
  "wire_laws lb wire =
     ((\<forall>m. nm_Subject (wire m) = nm_Subject m \<and> nm_Data (wire m) = nm_Data m
         \<and> (\<forall>k \<in> set (MsgIDHeader # envelopeHeaders). hget (nm_Header (wire m)) k = wire_value (hget (nm_Header m) k)))
      \<and> (\<forall>t. writable_time t \<longrightarrow> wire_value (format_time lb t) = format_time lb t))"

lemma wire_value_token:
  assumes "list_all (\<lambda>c. between 0x21 0x7E (of_char c)) s"
  shows "wire_value s = s"
proof -
  have plain: "\<not> header_space c \<and> c \<noteq> CHR 0x0A \<and> c \<noteq> CHR 0x0D" if "c \<in> set s" for c
    using assms that by (auto simp: list_all_iff header_space_def between_def)
  have drop: "dropWhile header_space xs = xs" if "set xs \<subseteq> set s" for xs
    using that plain by (cases xs) auto
  have "map (\<lambda>c. if c = CHR 0x0A \<or> c = CHR 0x0D then CHR '' '' else c) s = s"
    using plain by (auto intro: map_idI)
  then show ?thesis by (simp add: wire_value_def drop)
qed

lemma decode_delivered:
  assumes lib: "lib_laws lb" and wire: "wire_laws lb wire" and time: "writable_time (ev_CreatedAt e)" "ev_CreatedAt e \<noteq> zero_time"
    and build: "buildNATSMessage lb e maxPayload = Inr msg"
    and arrive: "carried (wire_value (ev_MessageID e))" "carried (wire_value (ev_PublicationID e))"
      "carried (wire_value (ev_Type e))" "carried (wire_value (ev_Schema e))"
  shows "decodeMessage lb (wire msg) md =
     Inr \<lparr>msg_subject = ev_Subject e, msg_messageID = wire_value (ev_MessageID e),
          msg_publicationID = wire_value (ev_PublicationID e), msg_eventType = wire_value (ev_Type e),
          msg_schema = wire_value (ev_Schema e), msg_createdAt = ev_CreatedAt e,
          msg_payload = ev_Payload e, msg_metadata = md\<rparr>"
proof -
  have msg: "msg = \<lparr>nm_Subject = ev_Subject e, nm_Header = event_header lb e, nm_Data = ev_Payload e\<rparr>"
    using build by (simp add: buildNATSMessage_def Let_def split: option.splits)
  have h: "hget (nm_Header (wire msg)) k = wire_value (hget (event_header lb e) k)"
    if "k \<in> set (MsgIDHeader # envelopeHeaders)" for k
    using wire that by (auto simp: wire_laws_def msg)
  have sd: "nm_Subject (wire msg) = ev_Subject e" "nm_Data (wire msg) = ev_Payload e"
    using wire by (simp_all add: wire_laws_def msg)
  have "parse_time lb (wire_value (format_time lb (ev_CreatedAt e))) = Some (ev_CreatedAt e)"
    using lib wire time(1) by (simp add: lib_laws_def wire_laws_def)
  then show ?thesis
    using arrive time(2)
    by (simp add: decodeMessage_def parseCreatedAt_def sd h envelopeHeaders_def event_header_get [OF lib] Let_def
        validateRequiredValue_None [THEN iffD2])
qed

lemma decode_published:
  assumes "lib_laws lb" and "wire_laws lb wire" and "writable_time (ev_CreatedAt e)"
    and valid: "validateEvent e maxPayload = None" and "buildNATSMessage lb e maxPayload = Inr msg"
    and clean: "list_all (\<lambda>v. wire_value v = v) [ev_MessageID e, ev_PublicationID e, ev_Type e, ev_Schema e]"
  shows "decodeMessage lb (wire msg) md =
     Inr \<lparr>msg_subject = ev_Subject e, msg_messageID = ev_MessageID e, msg_publicationID = ev_PublicationID e,
          msg_eventType = ev_Type e, msg_schema = ev_Schema e, msg_createdAt = ev_CreatedAt e,
          msg_payload = ev_Payload e, msg_metadata = md\<rparr>"
  using decode_delivered [OF assms(1-3) _ assms(5)] valid clean by (simp add: validateEvent_None)

text \<open>What is published is what is delivered: an event the producer admits and encodes, whose
  header values neither begin nor end with a space, decodes at any delivery of the
  message it became to the same subject, identities, type, schema, creation time and payload.\<close>

theorem published_event_is_delivered:
  assumes "lib_laws lb" and "wire_laws lb wire" and "writable_time (ev_CreatedAt e)"
    and "validateEvent e maxPayload = None" and "buildNATSMessage lb e maxPayload = Inr msg"
    and "list_all (\<lambda>v. wire_value v = v) [ev_MessageID e, ev_PublicationID e, ev_Type e, ev_Schema e]"
  shows "decodeMessage lb (wire msg) md =
     Inr \<lparr>msg_subject = ev_Subject e, msg_messageID = ev_MessageID e, msg_publicationID = ev_PublicationID e,
          msg_eventType = ev_Type e, msg_schema = ev_Schema e, msg_createdAt = ev_CreatedAt e,
          msg_payload = ev_Payload e, msg_metadata = md\<rparr>"
  by (rule decode_published [OF assms])

definition example_event :: Event where
  "example_event =
     \<lparr>ev_Subject = ''orders.created'', ev_MessageID = ''m-1'', ev_PublicationID = ''p-1'', ev_Type = ''order'',
      ev_Schema = ''v1'', ev_CreatedAt = zero_time + 1, ev_Offset = 0, ev_Payload = ''{}''\<rparr>"

text \<open>A library that writes an instant as its decimal number, for the examples.\<close>

definition example_lib :: lib where
  "example_lib =
     \<lparr>msg_size = (\<lambda>m. length (nm_Subject m) + encodedHeaderBytes (nm_Header m) + length (nm_Data m)),
      inject = (\<lambda>h. h), trace_fields = [''traceparent'', ''tracestate''],
      format_time = (\<lambda>t. decimal (nat (t - zero_time))), parse_time = (\<lambda>s. Some (int (digits_value s) + zero_time))\<rparr>"

lemma example_lib_laws: "lib_laws example_lib"
  by (simp add: lib_laws_def example_lib_def writable_time_def digits_value_decimal header_names)

lemma example_event_valid: "validateEvent example_event 100 = None"
proof -
  have tokens: "carried ''m-1''" "carried ''p-1''" "carried ''order''" "carried ''v1''"
    by (rule carried_token, simp, simp, simp add: between_def)+
  have "validPublishSubject ''orders.created''" by code_simp
  with tokens show ?thesis by (simp add: validateEvent_None example_event_def zero_time_def)
qed

definition example_metadata :: metadata where
  "example_metadata =
     \<lparr>md_Stream = ''EVENTS'', md_Consumer = ''c'', md_StreamSequence = 7, md_ConsumerSequence = 7, md_NumDelivered = 1,
      md_NumPending = 0, md_Timestamp = 5\<rparr>"

definition example_msg :: natsMsg where
  "example_msg = \<lparr>nm_Subject = ''orders.created'', nm_Header = event_header example_lib example_event, nm_Data = ''{}''\<rparr>"

lemma example_build: "buildNATSMessage example_lib example_event 100 = Inr example_msg"
proof -
  have "validateEncodedMessage example_lib example_msg 100 = None" by code_simp
  then show ?thesis by (simp add: buildNATSMessage_def example_msg_def example_event_def Let_def)
qed

text \<open>A wire that trims every header value.\<close>

definition example_wire :: "natsMsg \<Rightarrow> natsMsg" where
  "example_wire m = m\<lparr>nm_Header := map (\<lambda>(k, vs). (k, map wire_value vs)) (nm_Header m)\<rparr>"

lemma example_wire_laws: "wire_laws example_lib example_wire"
proof -
  have "hget (map (\<lambda>(k, vs). (k, map wire_value vs)) h) k = wire_value (hget h k)" for h k
    by (auto simp: hget_def map_of_map wire_value_def split: option.split list.split)
  moreover have "wire_value (decimal n) = decimal n" for n
    using decimal_digits [of n] by (intro wire_value_token) (auto simp: list_all_iff is_digit_def between_def)
  ultimately show ?thesis by (simp add: wire_laws_def example_wire_def example_lib_def)
qed

lemma example_time: "writable_time (ev_CreatedAt example_event)" "ev_CreatedAt example_event \<noteq> zero_time"
  by (simp_all add: example_event_def writable_time_def zero_time_def second_def)

lemma published_event_is_delivered_witness:
  "\<exists>m. decodeMessage example_lib (example_wire example_msg) example_metadata = Inr m \<and> msg_messageID m = ''m-1'' \<and> msg_payload m = ''{}''"
proof -
  have "list_all (\<lambda>v. wire_value v = v) [ev_MessageID example_event, ev_PublicationID example_event, ev_Type example_event, ev_Schema example_event]"
    by code_simp
  from published_event_is_delivered [OF example_lib_laws example_wire_laws example_time(1) example_event_valid example_build this, of example_metadata]
  show ?thesis by (simp add: example_event_def)
qed

text \<open>The condition on spaces is needed: the producer admits a message id with a space before it, and
  the delivery carries another id.\<close>

lemma surrounding_space_is_lost:
  "\<exists>msg m. validateEvent (example_event\<lparr>ev_MessageID := '' m-1''\<rparr>) 100 = None
     \<and> buildNATSMessage example_lib (example_event\<lparr>ev_MessageID := '' m-1''\<rparr>) 100 = Inr msg
     \<and> decodeMessage example_lib (example_wire msg) example_metadata = Inr m \<and> msg_messageID m = ''m-1''"
proof -
  let ?e = "example_event\<lparr>ev_MessageID := '' m-1''\<rparr>"
  have id: "carried '' m-1''" by (rule carried_text) (simp_all add: between_def)
  then have ok: "validateEvent ?e 100 = None" using example_event_valid by (simp add: validateEvent_None)
  obtain msg where msg: "buildNATSMessage example_lib ?e 100 = Inr msg"
  proof -
    have "validateEncodedMessage example_lib \<lparr>nm_Subject = ev_Subject ?e, nm_Header = event_header example_lib ?e,
        nm_Data = ev_Payload ?e\<rparr> 100 = None" by code_simp
    then show ?thesis using that by (simp add: buildNATSMessage_def Let_def)
  qed
  have w: "wire_value '' m-1'' = ''m-1''" "wire_value ''p-1'' = ''p-1''" "wire_value ''order'' = ''order''" "wire_value ''v1'' = ''v1''"
    by code_simp+
  have c: "carried ''m-1''" "carried ''p-1''" "carried ''order''" "carried ''v1''"
    by (rule carried_token, simp, simp, simp add: between_def)+
  have "\<exists>m. decodeMessage example_lib (example_wire msg) example_metadata = Inr m \<and> msg_messageID m = ''m-1''"
    using decode_delivered [OF example_lib_laws example_wire_laws _ _ msg, of example_metadata] w c example_time
    by (simp add: example_event_def)
  then show ?thesis using ok msg by blast
qed

section \<open>Dead letters\<close>

lemma carried_recordID:
  assumes "prefix = deadLetterTransferPrefix \<or> prefix = redrivePublicationPrefix"
  shows "carried (streamRecordID lb prefix msg md)"
  using assms hex_token
  by (intro carried_token)
    (auto simp: streamRecordID_def deadLetterTransferPrefix_def redrivePublicationPrefix_def between_def)

lemma transfer_header:
  assumes "lib_laws lb" and t_def: "t = fst (deadLetterMessage lb msg md decodedID subject reason)"
  shows "hget (nm_Header t) headerOriginalSubject = nm_Subject msg"
    "hget (nm_Header t) headerDeadLetterReason = reason"
    "hget (nm_Header t) MsgIDHeader = deadLetterTransferID lb msg md"
    "hget (nm_Header t) headerEventType = hget (nm_Header msg) headerEventType"
    "hget (nm_Header t) headerEventSchema = hget (nm_Header msg) headerEventSchema"
    "hget (nm_Header t) headerCreatedAt = hget (nm_Header msg) headerCreatedAt"
    "hget (nm_Header t) headerMessageID =
       (if decodedID \<noteq> '''' then decodedID
        else if hget (nm_Header msg) headerMessageID = '''' then deadLetterTransferID lb msg md
        else hget (nm_Header msg) headerMessageID)"
  using assms(1)
  by (simp_all add: t_def deadLetterMessage_def Let_def hget_carryIdentityHeaders lib_laws_def envelopeHeaders_def
      header_names)

text \<open>C22: \<^verbatim>\<open>RestoreDeadLetter\<close> is the inverse of the transfer: the transfer of a delivery that decoded,
  read back from wherever the dead-letter stream stored it, restores to an event with the
  original subject, message id, type, schema, creation time and payload, under a fresh
  publication id that depends on the stored record only; and the record says why it was
  moved. The transfer of a delivery that did not decode still carries a message id.\<close>

theorem dead_letter_restores:
  assumes "lib_laws lb" and "decodeMessage lb msg md = Inr d" and "validPublishSubject (nm_Subject msg)"
    and "deadLetterMessage lb msg md (msg_messageID d) subject reason = (t, transferID)"
  shows "RestoreDeadLetter lb (Some \<lparr>src_msg = t, src_metadata = Some md'\<rparr>) =
     Inr \<lparr>ev_Subject = msg_subject d, ev_MessageID = msg_messageID d,
          ev_PublicationID = streamRecordID lb redrivePublicationPrefix t md',
          ev_Type = msg_eventType d, ev_Schema = msg_schema d, ev_CreatedAt = msg_createdAt d, ev_Offset = 0,
          ev_Payload = msg_payload d\<rparr>
    \<and> DeadLetterReason (Some \<lparr>src_msg = t, src_metadata = Some md'\<rparr>) = reason
    \<and> hget (nm_Header (fst (deadLetterMessage lb other md '''' subject reason))) headerMessageID \<noteq> ''''"
proof (intro conjI)
  let ?h = "nm_Header msg"
  have t: "t = fst (deadLetterMessage lb msg md (msg_messageID d) subject reason)" using assms(4) by simp
  note th = transfer_header [OF assms(1) t]
  have data: "nm_Data t = nm_Data msg" by (simp add: t deadLetterMessage_def Let_def)
  obtain created where c: "parse_time lb (hget ?h headerCreatedAt) = Some created" "created \<noteq> zero_time"
    and d: "d = \<lparr>msg_subject = nm_Subject msg, msg_messageID = hget ?h headerMessageID,
        msg_publicationID = hget ?h MsgIDHeader, msg_eventType = hget ?h headerEventType,
        msg_schema = hget ?h headerEventSchema, msg_createdAt = created, msg_payload = nm_Data msg, msg_metadata = md\<rparr>"
    and ok: "carried (hget ?h headerMessageID)" "carried (hget ?h headerEventType)" "carried (hget ?h headerEventSchema)"
    using assms(2)
    by (auto simp: decodeMessage_def parseCreatedAt_def Let_def first_error_None validateRequiredValue_None
        split: option.splits if_splits)
  have "msg_messageID d \<noteq> ''''" using ok d by (simp add: carried_def)
  then show "RestoreDeadLetter lb (Some \<lparr>src_msg = t, src_metadata = Some md'\<rparr>) =
     Inr \<lparr>ev_Subject = msg_subject d, ev_MessageID = msg_messageID d,
          ev_PublicationID = streamRecordID lb redrivePublicationPrefix t md',
          ev_Type = msg_eventType d, ev_Schema = msg_schema d, ev_CreatedAt = msg_createdAt d, ev_Offset = 0,
          ev_Payload = msg_payload d\<rparr>"
    using th data c ok assms(3) carried_recordID [of redrivePublicationPrefix lb t md']
    by (simp add: RestoreDeadLetter_def parseCreatedAt_def d Let_def validateEvent_None [THEN iffD2])
  show "DeadLetterReason (Some \<lparr>src_msg = t, src_metadata = Some md'\<rparr>) = reason"
    using th by (simp add: DeadLetterReason_def)
  show "hget (nm_Header (fst (deadLetterMessage lb other md '''' subject reason))) headerMessageID \<noteq> ''''"
    using transfer_header(7) [OF assms(1) refl, of other md "''''" subject reason]
      carried_recordID [of deadLetterTransferPrefix lb other md]
    by (simp add: deadLetterTransferID_def carried_def)
qed

lemma dead_letter_restores_witness:
  "\<exists>d t tid. decodeMessage example_lib example_msg example_metadata = Inr d
     \<and> deadLetterMessage example_lib example_msg example_metadata (msg_messageID d) ''dlq'' DeadLetterExhausted = (t, tid)
     \<and> (\<exists>e. RestoreDeadLetter example_lib (Some \<lparr>src_msg = t, src_metadata = Some example_metadata\<rparr>) = Inr e
          \<and> ev_Subject e = msg_subject d \<and> ev_MessageID e = msg_messageID d)"
proof -
  have "carried (ev_MessageID example_event)" "carried (ev_PublicationID example_event)"
    "carried (ev_Type example_event)" "carried (ev_Schema example_event)" "ev_CreatedAt example_event \<noteq> zero_time"
    using example_event_valid by (simp_all add: validateEvent_None)
  moreover have "parse_time example_lib (format_time example_lib (ev_CreatedAt example_event))
      = Some (ev_CreatedAt example_event)"
    by (simp add: example_lib_def digits_value_decimal example_event_def)
  ultimately obtain d where d: "decodeMessage example_lib example_msg example_metadata = Inr d"
    by (simp add: decodeMessage_def parseCreatedAt_def example_msg_def event_header_get [OF example_lib_laws] Let_def
        validateRequiredValue_None [THEN iffD2])
  obtain t tid where t: "deadLetterMessage example_lib example_msg example_metadata (msg_messageID d) ''dlq''
      DeadLetterExhausted = (t, tid)" by fastforce
  have "validPublishSubject (nm_Subject example_msg)"
    using example_event_valid by (simp add: validateEvent_None example_msg_def example_event_def)
  from dead_letter_restores [OF example_lib_laws d this t, of example_metadata] d t show ?thesis by auto
qed

section \<open>Derived publication ids\<close>

definition no_nul :: "string list \<Rightarrow> bool" where
  "no_nul xs = (xs \<noteq> [] \<and> (\<forall>x \<in> set xs. CHR 0x00 \<notin> set x))"

interpretation record_ids: framing "str_join [CHR 0x00]" no_nul
  by unfold_locales (metis no_nul_def split_join)

text \<open>C23: A derived publication id identifies one stored record: two records with the same prefix and
  the same derived id agree on stream, sequence, store time as written and publication id
  (none of which has a NUL), unless they exhibit a collision of SHA-256; and deriving it
  again from the same record gives the same id, so a retried transfer deduplicates.\<close>

theorem derived_id_identifies_record:
  assumes "no_nul (record_fields lb msg md)" and "no_nul (record_fields lb msg' md')"
    and "streamRecordID lb prefix msg md = streamRecordID lb prefix msg' md'"
  shows "(md_Stream md = md_Stream md' \<and> md_StreamSequence md = md_StreamSequence md'
      \<and> format_time lb (md_Timestamp md) = format_time lb (md_Timestamp md')
      \<and> hget (nm_Header msg) MsgIDHeader = hget (nm_Header msg') MsgIDHeader)
    \<or> sha256_collision (str_join [CHR 0x00] (record_fields lb msg md)) (str_join [CHR 0x00] (record_fields lb msg' md'))"
proof -
  have "sha256 (str_join [CHR 0x00] (record_fields lb msg md)) = sha256 (str_join [CHR 0x00] (record_fields lb msg' md'))"
    using assms(3) by (simp add: streamRecordID_def hex_encode_inject)
  from record_ids.digest_determines [OF assms(1,2) this] show ?thesis
    by (auto simp: record_fields_def decimal_inject)
qed

lemma derived_id_identifies_record_witness:
  "no_nul (record_fields example_lib example_msg example_metadata)
   \<and> (md_Stream example_metadata = ''EVENTS'' \<or> sha256_collision
        (str_join [CHR 0x00] (record_fields example_lib example_msg example_metadata))
        (str_join [CHR 0x00] (record_fields example_lib example_msg example_metadata)))"
proof -
  have "CHR 0x00 \<notin> set (decimal n)" for n
    using decimal_digits [of n] by (auto simp: list_all_iff is_digit_def between_def)
  then have ok: "no_nul (record_fields example_lib example_msg example_metadata)"
    by (simp add: no_nul_def record_fields_def example_metadata_def example_msg_def
        event_header_get [OF example_lib_laws]) (simp add: example_event_def example_lib_def)
  from derived_id_identifies_record [OF ok ok refl] ok show ?thesis by (simp add: example_metadata_def)
qed

end
