(* ===== verification/NatsRegistry.thy ===== *)
theory NatsRegistry
  imports NatsMessage
begin

text \<open>
  \<^verbatim>\<open>internal/infra/natsjs/registry.go\<close> and \<^verbatim>\<open>outbox.go\<close>: the routing table from event kinds to
  subjects, the handlers registered for them, and the mapping between domain events and
  publication envelopes. A table is an association list by kind and version; a feature
  handler is a function from the decoded event to its error.

  The route table and the handler table both satisfy the contract \<open>keyed_registry\<close> of the prelude.
\<close>

section \<open>Routes\<close>

type_synonym routeKey = "string \<times> nat"
type_synonym routeTable = "(routeKey \<times> string) list"

record Route =
  rt_Type :: string
  rt_Version :: nat
  rt_Subject :: string

definition route_subject :: "routeTable \<Rightarrow> string \<Rightarrow> nat \<Rightarrow> go_error + string" where
  "route_subject t eventType version =
     (case map_of t (eventType, version) of
        None \<Rightarrow> Inl (WrapFmt ''no route'' ErrRejected)
      | Some subject \<Rightarrow> Inr subject)"

definition add_route :: "routeKey \<Rightarrow> string \<Rightarrow> routeTable \<Rightarrow> go_error + routeTable" where
  "add_route key subject t =
     (if map_of t key \<noteq> None then Inl (WrapFmt ''duplicate route'' ErrRejected)
      else Inr (AList.update key subject t))"

fun build_loop :: "Route list \<Rightarrow> routeTable \<Rightarrow> go_error + routeTable" where
  "build_loop [] subjects = Inr subjects"
| "build_loop (route # routes) subjects =
     (case validateRequiredValue ''event type'' (rt_Type route) of
        Some err \<Rightarrow> Inl err
      | None \<Rightarrow>
          if rt_Version route = 0 then Inl (WrapFmt ''event version must be positive'' ErrRejected)
          else if \<not> validPublishSubject (rt_Subject route) then Inl (WrapFmt ''invalid event subject'' ErrRejected)
          else case add_route (rt_Type route, rt_Version route) (rt_Subject route) subjects of
                 Inl err \<Rightarrow> Inl err
               | Inr subjects' \<Rightarrow> build_loop routes subjects')"

definition buildRoutes :: "Route list \<Rightarrow> go_error + routeTable" where
  "buildRoutes routes =
     (if routes = [] then Inl (WrapFmt ''at least one event route is required'' ErrRejected)
      else build_loop routes [])"

section \<open>Schemas\<close>

definition SchemaForVersion :: "nat \<Rightarrow> string" where
  "SchemaForVersion version = CHR ''v'' # decimal version"

definition schemaVersion :: "string \<Rightarrow> go_error + nat" where
  "schemaVersion schema =
     (if length schema < 2 \<or> hd schema \<noteq> CHR ''v'' then Inl (Fresh ''invalid event schema'')
      else case parse_uint 16 (tl schema) of
             None \<Rightarrow> Inl (Fresh ''invalid event schema'')
           | Some version \<Rightarrow>
               if version = 0 \<or> schema \<noteq> SchemaForVersion version then Inl (Fresh ''invalid event schema'')
               else Inr version)"

definition EventFromDomain :: "string \<Rightarrow> domainEvent \<Rightarrow> Event" where
  "EventFromDomain subject event =
     \<lparr>ev_Subject = subject, ev_MessageID = de_ID event, ev_PublicationID = de_ID event, ev_Type = de_Type event,
      ev_Schema = SchemaForVersion (de_Version event), ev_CreatedAt = de_OccurredAt event,
      ev_Offset = de_Offset event, ev_Payload = de_Payload event\<rparr>"

section \<open>Handlers\<close>

type_synonym event_handler = "domainEvent \<Rightarrow> go_error option"

record Registry =
  subjects :: routeTable
  eventHandlers :: "(routeKey \<times> event_handler) list"

definition NewRegistry :: "Route list \<Rightarrow> go_error + Registry" where
  "NewRegistry routes =
     (case buildRoutes routes of Inl err \<Rightarrow> Inl err | Inr t \<Rightarrow> Inr \<lparr>subjects = t, eventHandlers = []\<rparr>)"

definition register :: "routeKey \<Rightarrow> event_handler option \<Rightarrow> Registry \<Rightarrow> go_error + Registry" where
  "register key handler r =
     (case route_subject (subjects r) (fst key) (snd key) of
        Inl err \<Rightarrow> Inl err
      | Inr _ \<Rightarrow>
          (case handler of
             None \<Rightarrow> Inl (WrapFmt ''handler is required'' ErrRejected)
           | Some f \<Rightarrow>
               if map_of (eventHandlers r) key \<noteq> None then Inl (WrapFmt ''duplicate handler'' ErrRejected)
               else Inr (r\<lparr>eventHandlers := AList.update key f (eventHandlers r)\<rparr>)))"

text \<open>\<^verbatim>\<open>Handle\<close>: \<open>unmarshal\<close> decodes the payload into the handler's type.\<close>

definition typed_handler ::
  "(string \<Rightarrow> go_error + 'p) \<Rightarrow> (string \<Rightarrow> instant \<Rightarrow> 'p \<Rightarrow> go_error option) \<Rightarrow> event_handler" where
  "typed_handler unmarshal handler event =
     (case unmarshal (de_Payload event) of
        Inl err \<Rightarrow> Permanent (Some (WrapFmt ''decode'' err))
      | Inr payload \<Rightarrow> handler (de_ID event) (de_OccurredAt event) payload)"

definition Handle ::
  "(string \<Rightarrow> go_error + 'p) \<Rightarrow> routeKey \<Rightarrow> (string \<Rightarrow> instant \<Rightarrow> 'p \<Rightarrow> go_error option) option \<Rightarrow> Registry
   \<Rightarrow> go_error + Registry" where
  "Handle unmarshal key handler r =
     (case handler of
        None \<Rightarrow> Inl (WrapFmt ''event handler is required'' ErrRejected)
      | Some f \<Rightarrow>
          (case register key (Some (typed_handler unmarshal f)) r of
             Inl err \<Rightarrow> Inl (WrapFmt ''register typed event handler'' err)
           | Inr r' \<Rightarrow> Inr r'))"

definition dispatch :: "Registry \<Rightarrow> Message \<Rightarrow> go_error option" where
  "dispatch r message =
     (case schemaVersion (msg_schema message) of
        Inl err \<Rightarrow> Permanent (Some err)
      | Inr version \<Rightarrow>
          let key = (msg_eventType message, version)
          in case map_of (eventHandlers r) key of
               None \<Rightarrow> Permanent (Some (Fresh ''no handler''))
             | Some handler \<Rightarrow>
                 if msg_subject message \<noteq> (case map_of (subjects r) key of None \<Rightarrow> '''' | Some s \<Rightarrow> s)
                 then Permanent (Some (Fresh ''unexpected subject''))
                 else handler \<lparr>de_ID = msg_messageID message, de_Type = msg_eventType message, de_Version = version,
                               de_OccurredAt = msg_createdAt message, de_Offset = 0, de_Payload = msg_payload message\<rparr>)"

definition Handler :: "Registry \<Rightarrow> go_error + (Message \<Rightarrow> go_error option)" where
  "Handler r =
     (if eventHandlers r = [] then Inl (WrapFmt ''no typed event handlers are registered'' ErrRejected)
      else Inr (dispatch r))"

text \<open>\<^verbatim>\<open>Publisher.Publish\<close> up to the producer: the event handed to \<^verbatim>\<open>Producer.Publish\<close>.\<close>

definition publication :: "(string \<Rightarrow> bool) \<Rightarrow> routeTable \<Rightarrow> domainEvent \<Rightarrow> go_error + Event" where
  "publication json_valid t event =
     (case Validate json_valid event of
        Some err \<Rightarrow> Inl (WrapFmt ''validate domain event'' err)
      | None \<Rightarrow>
          (case route_subject t (de_Type event) (de_Version event) of
             Inl err \<Rightarrow> Inl err
           | Inr subject \<Rightarrow> Inr (EventFromDomain subject event)))"

text \<open>The routing closure of \<^verbatim>\<open>NewOutboxAppender\<close>.\<close>

definition outbox_route :: "routeTable \<Rightarrow> domainEvent \<Rightarrow> go_error + string" where
  "outbox_route t event =
     (case validateRequiredValue ''message ID'' (de_ID event) of
        Some err \<Rightarrow> Inl err
      | None \<Rightarrow> route_subject t (de_Type event) (de_Version event))"

section \<open>Properties\<close>

interpretation routes: keyed_registry map_of add_route
  by unfold_locales (auto simp: add_route_def update_conv' split: if_splits)

interpretation handlers: keyed_registry "\<lambda>r. map_of (eventHandlers r)" "\<lambda>k f. register k (Some f)"
  by unfold_locales (auto simp: register_def update_conv' split: sum.splits if_splits)

lemma schemaVersion_SchemaForVersion:
  "1 \<le> v \<Longrightarrow> v < 65536 \<Longrightarrow> schemaVersion (SchemaForVersion v) = Inr v"
  using parse_uint_decimal [of 16 v] decimal_nonempty [of v]
  by (auto simp: schemaVersion_def SchemaForVersion_def Suc_le_eq)

text \<open>the schema text of a version is canonical: a text is read as version \<open>v\<close> exactly when
  \<open>v\<close> is a positive 16-bit number and the text is the one the publisher writes for it, so no
  two texts name one version and none is read as version zero.\<close>

theorem schema_version_canonical:
  "schemaVersion s = Inr v \<longleftrightarrow> 1 \<le> v \<and> v < 65536 \<and> s = SchemaForVersion v"
  using schemaVersion_SchemaForVersion [of v] parse_uint_bound [of 16 "tl s" v]
  by (auto simp: schemaVersion_def split: option.splits if_splits)

lemma dispatch_hit:
  assumes "schemaVersion (msg_schema m) = Inr v" "map_of (eventHandlers r) (msg_eventType m, v) = Some h"
    and "map_of (subjects r) (msg_eventType m, v) = Some (msg_subject m)"
  shows "dispatch r m = h \<lparr>de_ID = msg_messageID m, de_Type = msg_eventType m, de_Version = v,
      de_OccurredAt = msg_createdAt m, de_Offset = 0, de_Payload = msg_payload m\<rparr>"
  using assms by (simp add: dispatch_def Let_def)

lemma publication_Inr:
  assumes "publication json_valid t e = Inr ev"
  shows "map_of t (de_Type e, de_Version e) = Some (ev_Subject ev) \<and> ev = EventFromDomain (ev_Subject ev) e
     \<and> 1 \<le> de_Version e \<and> de_Offset e = 0"
  using assms
  by (auto simp: publication_def route_subject_def EventFromDomain_def Validate_def first_error_None Suc_le_eq
      split: option.splits if_splits)

lemma wire_value_schema: "wire_value (SchemaForVersion v) = SchemaForVersion v"
  using decimal_digits [of v]
  by (intro wire_value_token) (auto simp: SchemaForVersion_def list_all_iff is_digit_def between_def)

text \<open>C24: an event published through a registry's routes, carried by NATS, delivered, and dispatched by
  a registry with the same routes reaches exactly the handler registered for its kind and version,
  with the event that was published: same id, type, version, time and payload. NATS trims the header
  values it carries, so the id and the type must neither begin nor end with a space.\<close>

theorem published_event_reaches_its_handler:
  assumes "lib_laws lb" and "wire_laws lb wire" and "writable_time (de_OccurredAt e)" and "de_Version e < 65536"
    and "publication json_valid (subjects r) e = Inr ev"
    and "validateEvent ev maxPayload = None" and "buildNATSMessage lb ev maxPayload = Inr msg"
    and "map_of (eventHandlers r) (de_Type e, de_Version e) = Some h"
    and "wire_value (de_ID e) = de_ID e" and "wire_value (de_Type e) = de_Type e"
  shows "\<exists>m. decodeMessage lb (wire msg) md = Inr m \<and> dispatch r m = h e"
proof -
  have route: "map_of (subjects r) (de_Type e, de_Version e) = Some (ev_Subject ev)"
    and ev: "ev = EventFromDomain (ev_Subject ev) e" and v: "1 \<le> de_Version e" "de_Offset e = 0"
    using publication_Inr [OF assms(5)] by simp_all
  have fields: "ev_MessageID ev = de_ID e" "ev_Type ev = de_Type e" "ev_Schema ev = SchemaForVersion (de_Version e)"
    "ev_CreatedAt ev = de_OccurredAt e" "ev_Payload ev = de_Payload e"
    by (subst ev, simp add: EventFromDomain_def)+
  let ?m = "\<lparr>msg_subject = ev_Subject ev, msg_messageID = ev_MessageID ev, msg_publicationID = ev_PublicationID ev,
          msg_eventType = ev_Type ev, msg_schema = ev_Schema ev, msg_createdAt = ev_CreatedAt ev,
          msg_payload = ev_Payload ev, msg_metadata = md\<rparr>"
  have "list_all (\<lambda>v. wire_value v = v) [ev_MessageID ev, ev_PublicationID ev, ev_Type ev, ev_Schema ev]"
    by (subst (1 2 3 4) ev) (simp add: EventFromDomain_def assms(9,10) wire_value_schema)
  then have "decodeMessage lb (wire msg) md = Inr ?m"
    using assms(1-3,6,7) fields(4) by (intro decode_published) simp_all
  moreover have "dispatch r ?m = h \<lparr>de_ID = de_ID e, de_Type = de_Type e, de_Version = de_Version e,
      de_OccurredAt = de_OccurredAt e, de_Offset = 0, de_Payload = de_Payload e\<rparr>"
    using dispatch_hit [of ?m "de_Version e" r h] route assms(8) fields
      schemaVersion_SchemaForVersion [OF v(1) assms(4)] by simp
  moreover have "h \<lparr>de_ID = de_ID e, de_Type = de_Type e, de_Version = de_Version e,
      de_OccurredAt = de_OccurredAt e, de_Offset = 0, de_Payload = de_Payload e\<rparr> = h e"
    using v(2) by (cases e) simp
  ultimately show ?thesis by (intro exI [of _ ?m]) (simp only: simp_thms)
qed

text \<open>C25: A registered handler stays: after it, no sequence of further registrations replaces it, and
  every attempt to register its kind again is refused.\<close>

theorem registered_handler_stays:
  assumes "register k (Some f) r = Inr r1"
    and "fold (\<lambda>(k, g) s. case s of Inl e \<Rightarrow> Inl e | Inr r \<Rightarrow> register k (Some g) r) later (Inr r1) = Inr r2"
  shows "map_of (eventHandlers r2) k = Some f \<and> (\<exists>err. register k (Some g) r2 = Inl err)"
proof -
  have "map_of (eventHandlers r1) k = Some f" using handlers.add_look [OF assms(1)] by simp
  then have kept: "map_of (eventHandlers r2) k = Some f" using handlers.adds_keep [OF assms(2)] by blast
  then show ?thesis using handlers.add_taken [where v = f] by blast
qed

definition example_registry :: Registry where
  "example_registry = \<lparr>subjects = [((''order'', 1), ''orders.created'')], eventHandlers = [((''order'', 1), \<lambda>_. None)]\<rparr>"

definition example_domain_event :: domainEvent where
  "example_domain_event =
     \<lparr>de_ID = ''m-1'', de_Type = ''order'', de_Version = 1, de_OccurredAt = zero_time + 1, de_Offset = 0, de_Payload = ''{}''\<rparr>"

lemma published_event_reaches_its_handler_witness:
  "\<exists>ev msg m. publication (\<lambda>_. True) (subjects example_registry) example_domain_event = Inr ev
     \<and> buildNATSMessage example_lib ev 100 = Inr msg \<and> decodeMessage example_lib (example_wire msg) example_metadata = Inr m
     \<and> dispatch example_registry m = None"
proof -
  let ?e = example_domain_event
  have tokens: "carried ''m-1''" "carried ''order''" "carried ''v1''"
    by (rule carried_token, simp, simp, simp add: between_def)+
  then have "validateText ''id'' ''m-1'' = None" "validateText ''type'' ''order'' = None"
    by (simp_all add: validateText_def carried_def)
  then have "Validate (\<lambda>_. True) ?e = None"
    by (simp add: Validate_def example_domain_event_def)
  then have ev: "publication (\<lambda>_. True) (subjects example_registry) ?e = Inr (EventFromDomain ''orders.created'' ?e)"
    by (simp add: publication_def route_subject_def example_registry_def example_domain_event_def)
  let ?v = "EventFromDomain ''orders.created'' ?e"
  have schema: "SchemaForVersion (Suc 0) = ''v1''" by code_simp
  have "validPublishSubject ''orders.created''" by code_simp
  with tokens have ok: "validateEvent ?v 100 = None"
    by (simp add: validateEvent_None EventFromDomain_def example_domain_event_def schema zero_time_def)
  obtain msg where msg: "buildNATSMessage example_lib ?v 100 = Inr msg"
  proof -
    have "validateEncodedMessage example_lib \<lparr>nm_Subject = ev_Subject ?v, nm_Header = event_header example_lib ?v,
        nm_Data = ev_Payload ?v\<rparr> 100 = None" by code_simp
    then show ?thesis using that by (simp add: buildNATSMessage_def Let_def)
  qed
  have "writable_time (de_OccurredAt ?e)" "de_Version ?e < 65536"
    and h: "map_of (eventHandlers example_registry) (de_Type ?e, de_Version ?e) = Some (\<lambda>_. None)"
    by (simp_all add: example_domain_event_def writable_time_def zero_time_def second_def example_registry_def)
  moreover have "wire_value (de_ID ?e) = de_ID ?e" "wire_value (de_Type ?e) = de_Type ?e" by code_simp+
  ultimately have "\<exists>m. decodeMessage example_lib (example_wire msg) example_metadata = Inr m \<and> dispatch example_registry m = None"
    using published_event_reaches_its_handler [OF example_lib_laws example_wire_laws _ _ ev ok msg h] by blast
  with ev msg
  show ?thesis by blast
qed

lemma registered_handler_stays_witness:
  "\<exists>r1. register (''order'', 1) (Some (\<lambda>_. None)) \<lparr>subjects = [((''order'', 1), ''orders.created'')], eventHandlers = []\<rparr>
      = Inr r1 \<and> (\<exists>err. register (''order'', 1) (Some (\<lambda>_. Some ErrTerminal)) r1 = Inl err)"
proof -
  let ?r = "\<lparr>subjects = [((''order'', 1), ''orders.created'')], eventHandlers = []\<rparr>"
  obtain r1 where r1: "register (''order'', 1) (Some (\<lambda>_. None)) ?r = Inr r1"
    by (simp add: register_def route_subject_def)
  from registered_handler_stays [OF r1, of "[]" r1 "\<lambda>_. Some ErrTerminal"] r1 show ?thesis by auto
qed

end
