(* ===== verification/NatsWorker.thy ===== *)
theory NatsWorker
  imports NatsMessage
begin

text \<open>
  The consuming side of \<^verbatim>\<open>internal/infra/natsjs\<close>: the worker's configuration and topology
  (\<^verbatim>\<open>worker_config.go\<close>, \<^verbatim>\<open>worker_topology.go\<close>), one delivery from admission to settlement
  (\<^verbatim>\<open>worker_delivery.go\<close>), the classification of a publish (\<^verbatim>\<open>producer.go\<close>), the labels of
  \<^verbatim>\<open>vocabulary.go\<close>, and the names of \<^verbatim>\<open>internal/messagingconfig\<close>.

  What one delivery does to the broker is the list of its actions in order, each with the
  broker's answer; the answers, the shutdown of the worker and the handler's timeout are
  the record \<open>broker\<close>. Metric records and terminal log records are kept as lists.

  The lemmas show that a message is acknowledged only when its work succeeded or its
  transfer is stored, that no delivery is dropped silently, how attempts are bounded,
  and what an accepted configuration guarantees.
\<close>

section \<open>vocabulary.go\<close>

definition outcomeAccepted :: string where "outcomeAccepted = ''accepted''"
definition outcomeRejected :: string where "outcomeRejected = ''rejected''"
definition outcomeAmbiguous :: string where "outcomeAmbiguous = ''ambiguous''"
definition outcomeSuccess :: string where "outcomeSuccess = ''success''"
definition outcomeTerminal :: string where "outcomeTerminal = ''terminal''"
definition outcomePermanent :: string where "outcomePermanent = ''permanent''"
definition outcomeCanceled :: string where "outcomeCanceled = ''canceled''"
definition outcomeTimeout :: string where "outcomeTimeout = ''timeout''"
definition outcomeRetryable :: string where "outcomeRetryable = ''retryable''"
definition boundedOther :: string where "boundedOther = ''other''"

lemmas outcome_names =
  outcomeAccepted_def outcomeRejected_def outcomeAmbiguous_def outcomeSuccess_def outcomeTerminal_def
  outcomePermanent_def outcomeCanceled_def outcomeTimeout_def outcomeRetryable_def boundedOther_def

definition boundedOutcome :: "string \<Rightarrow> string" where
  "boundedOutcome value =
     (if List.member [outcomeAccepted, outcomeRejected, outcomeAmbiguous, outcomeSuccess, outcomeTerminal,
                      outcomePermanent, outcomeCanceled, outcomeTimeout, outcomeRetryable] value
      then value else boundedOther)"

section \<open>producer.go\<close>

definition classifyPublishError :: "go_error \<Rightarrow> string \<times> string \<times> go_error" where
  "classifyPublishError err =
     (if has_type ''*jetstream.APIError'' err \<or> errors_is err (Sentinel ''nats.ErrNoResponders'')
         \<or> errors_is err (Sentinel ''jetstream.ErrNoStreamResponse'')
         \<or> errors_is err (Sentinel ''jetstream.ErrStreamNotFound'')
      then (outcomeRejected, ''broker_rejected'', WrapFmt ''broker rejected publish'' ErrRejected)
      else (outcomeAmbiguous, ''ack_unavailable'', WrapFmt ''publish acknowledgement unavailable'' ErrAmbiguous))"

text \<open>\<^verbatim>\<open>Producer.Publish\<close>: \<open>publish\<close> is the one attempt \<^verbatim>\<open>publishOnce\<close> makes, on the message and its
  deduplication id.\<close>

record PublishResult =
  pub_Stream :: string
  pub_Sequence :: nat
  pub_Duplicate :: bool

definition Publish ::
  "lib \<Rightarrow> nat \<Rightarrow> go_error option \<Rightarrow> bool \<Rightarrow> (natsMsg \<Rightarrow> string \<Rightarrow> go_error + PublishResult) \<Rightarrow> Event
   \<Rightarrow> (go_error + PublishResult) \<times> (string \<times> string)" where
  "Publish lb maxPayload ctxErr draining publish event =
     (case validateEvent event maxPayload of
        Some err \<Rightarrow> (Inl err, outcomeRejected, ''invalid_message'')
      | None \<Rightarrow>
          (case ctxErr of
             Some err \<Rightarrow> (Inl (errorf2 ''publish context before dispatch'' ErrRejected err), outcomeRejected,
                          ''context_done_before_dispatch'')
           | None \<Rightarrow>
               if draining then (Inl (errorf2 '''' ErrRejected nats_ErrDraining), outcomeRejected, ''draining'')
               else (case buildNATSMessage lb event maxPayload of
                       Inl err \<Rightarrow> (Inl err, outcomeRejected, ''invalid_message'')
                     | Inr msg \<Rightarrow>
                         (case publish msg (ev_PublicationID event) of
                            Inl err \<Rightarrow> (case classifyPublishError err of (outcome, reason, wrapped) \<Rightarrow>
                                          (Inl wrapped, outcome, reason))
                          | Inr ack \<Rightarrow> (Inr ack, outcomeAccepted, ''none'')))))"

section \<open>messagingconfig and worker\_config.go\<close>

definition ValidStreamOrConsumerName :: "string \<Rightarrow> bool" where
  "ValidStreamOrConsumerName value =
     (value \<noteq> '''' \<and> \<not> list_ex (\<lambda>c. List.member
        [CHR '' '', CHR ''.'', CHR ''*'', CHR 0x5C, CHR ''/'', CHR ''>'', CHR 0x09, CHR 0x0D, CHR 0x0A] c) value)"

definition ResidentDeliveryLimit :: int where "ResidentDeliveryLimit = 67108864"
definition maxRetryDelays :: nat where "maxRetryDelays = 9"

record WorkerConfig =
  wc_Consumer :: string
  wc_FilterSubject :: string
  wc_DeadLetterSubject :: string
  wc_MaxConcurrency :: int
  wc_MaxDeliveryBytes :: int
  wc_HandlerTimeout :: duration
  wc_RetryDelays :: "duration list"
  wc_DeadLetterRetryDelay :: duration

definition DefaultWorkerConfig :: "string \<Rightarrow> string \<Rightarrow> string \<Rightarrow> int \<Rightarrow> int \<Rightarrow> WorkerConfig" where
  "DefaultWorkerConfig consumer filterSubject deadLetterSubject maxConcurrency maxPayloadBytes =
     \<lparr>wc_Consumer = consumer, wc_FilterSubject = filterSubject, wc_DeadLetterSubject = deadLetterSubject,
      wc_MaxConcurrency = maxConcurrency, wc_MaxDeliveryBytes = wrap64 (maxPayloadBytes + int HeaderLimitBytes),
      wc_HandlerTimeout = 30 * second,
      wc_RetryDelays = [second, 5 * second, 30 * second, 2 * minute],
      wc_DeadLetterRetryDelay = 30 * second\<rparr>"

fun subject_loop :: "string list \<Rightarrow> string list \<Rightarrow> bool" where
  "subject_loop [] subjectParts = (subjectParts = [])"
| "subject_loop (part # filterParts) subjectParts =
     (if part = ''>'' then True
      else case subjectParts of
             [] \<Rightarrow> False
           | s # rest \<Rightarrow> if part \<noteq> ''*'' \<and> part \<noteq> s then False else subject_loop filterParts rest)"

definition subjectMatches :: "string \<Rightarrow> string \<Rightarrow> bool" where
  "subjectMatches filterSubject subject =
     subject_loop (split_on (CHR ''.'') filterSubject) (split_on (CHR ''.'') subject)"

definition rejected :: "bool \<Rightarrow> string \<Rightarrow> go_error option" where
  "rejected bad text = (if bad then Some (WrapFmt text ErrRejected) else None)"

definition ValidateWorkerConfig :: "WorkerConfig \<Rightarrow> int \<Rightarrow> go_error option" where
  "ValidateWorkerConfig cfg maxPayloadBytes =
     first_error
       ([rejected (\<not> ValidStreamOrConsumerName (wc_Consumer cfg)) ''invalid durable consumer'',
         rejected (\<not> validFilterSubject (wc_FilterSubject cfg)) ''invalid filter subject'',
         rejected (\<not> validPublishSubject (wc_DeadLetterSubject cfg)) ''invalid dead-letter subject'',
         rejected (subjectMatches (wc_FilterSubject cfg) (wc_DeadLetterSubject cfg))
           ''source filter and dead-letter subject overlap'',
         rejected (wc_MaxConcurrency cfg \<le> 0) ''max concurrency must be positive'',
         rejected (wc_MaxDeliveryBytes cfg \<le> 0) ''max delivery bytes must be positive'',
         rejected (wc_MaxDeliveryBytes cfg < wrap64 (maxPayloadBytes + int HeaderLimitBytes))
           ''max delivery bytes cannot contain the configured envelope'',
         rejected (quot ResidentDeliveryLimit (wc_MaxDeliveryBytes cfg) < wc_MaxConcurrency cfg)
           ''exceeds the resident limit'',
         rejected (wc_HandlerTimeout cfg \<le> 0) ''handler timeout must be positive'',
         rejected (length (wc_RetryDelays cfg) < 1 \<or> maxRetryDelays < length (wc_RetryDelays cfg))
           ''retry delays must contain one to nine values'']
        @ map (\<lambda>delay. rejected (delay \<le> 0) ''retry delay must be positive'') (wc_RetryDelays cfg)
        @ [rejected (wc_DeadLetterRetryDelay cfg \<le> 0) ''dead-letter retry delay must be positive''])"

section \<open>worker\_topology.go\<close>

definition settlementSchedulingSlack :: duration where "settlementSchedulingSlack = second"

record ConsumerConfig =
  cc_Name :: string
  cc_Durable :: string
  cc_AckWait :: duration
  cc_MaxDeliver :: int
  cc_MaxAckPending :: int
  cc_FilterSubject :: string

definition desiredConsumerConfig :: "WorkerConfig \<Rightarrow> ConsumerConfig" where
  "desiredConsumerConfig cfg =
     \<lparr>cc_Name = wc_Consumer cfg, cc_Durable = wc_Consumer cfg,
      cc_AckWait = wrap64 (wc_HandlerTimeout cfg + 2 * operationTimeout + settlementSchedulingSlack),
      cc_MaxDeliver = - 1, cc_MaxAckPending = wc_MaxConcurrency cfg, cc_FilterSubject = wc_FilterSubject cfg\<rparr>"

section \<open>worker\_delivery.go\<close>

record worker =
  wk_cfg :: WorkerConfig
  wk_maxPayload :: nat

datatype action =
    DoubleAck "go_error option"
  | PublishDeadLetter natsMsg string "go_error option"
  | NakWithDelay duration "go_error option"

text \<open>What the surroundings answer during one delivery.\<close>

record broker =
  br_ack :: "go_error option"
  br_publish :: "go_error option"
  br_nak :: "go_error option"
  br_rootErr :: "go_error option"
  br_handlerCtxErr :: "go_error option"

datatype invocation = HandlerPanicked string | HandlerReturned "go_error option"

record handling =
  hd_err :: "go_error option"
  hd_actions :: "action list"
  hd_records :: "(string \<times> string) list"
  hd_transfers :: "string list"
  hd_terminal :: "string list"
  hd_invoked :: bool

definition no_handling :: handling where
  "no_handling = \<lparr>hd_err = None, hd_actions = [], hd_records = [], hd_transfers = [], hd_terminal = [], hd_invoked = False\<rparr>"

definition terminal :: "string \<Rightarrow> string \<Rightarrow> handling \<Rightarrow> handling" where
  "terminal reason text h =
     h\<lparr>hd_err := Some (WrapFmt text ErrTerminal), hd_terminal := hd_terminal h @ [reason]\<rparr>"

definition act :: "action \<Rightarrow> handling \<Rightarrow> handling" where
  "act a h = h\<lparr>hd_actions := hd_actions h @ [a]\<rparr>"

definition attemptLimit :: "worker \<Rightarrow> nat" where
  "attemptLimit w = 1 + length (wc_RetryDelays (wk_cfg w))"

text \<open>\<open>None\<close> is an index out of range, which panics.\<close>

definition retryDelayFor :: "worker \<Rightarrow> nat \<Rightarrow> duration option" where
  "retryDelayFor w numDelivered =
     (if 1 \<le> numDelivered \<and> numDelivered - 1 < length (wc_RetryDelays (wk_cfg w))
      then Some (wc_RetryDelays (wk_cfg w) ! (numDelivered - 1)) else None)"

definition requestRedelivery :: "broker \<Rightarrow> duration \<Rightarrow> string \<Rightarrow> handling \<Rightarrow> handling" where
  "requestRedelivery b delay rejectedReason h =
     (let h1 = act (NakWithDelay delay (br_nak b)) h
      in if br_nak b \<noteq> None then terminal rejectedReason ''request delayed source redelivery'' h1 else h1)"

definition confirmAck :: "broker \<Rightarrow> handling \<Rightarrow> handling \<times> bool" where
  "confirmAck b h = (act (DoubleAck (br_ack b)) h, br_ack b = None)"

definition deadLetter ::
  "lib \<Rightarrow> worker \<Rightarrow> broker \<Rightarrow> natsMsg \<Rightarrow> metadata \<Rightarrow> string \<Rightarrow> string \<Rightarrow> handling \<Rightarrow> handling" where
  "deadLetter lb w b msg md decodedID reason h =
     (case deadLetterMessage lb msg md decodedID (wc_DeadLetterSubject (wk_cfg w)) reason of
        (t, transferID) \<Rightarrow>
          if validateEncodedMessage lb t (wk_maxPayload w) \<noteq> None
          then terminal ''dlq_envelope'' ''retained source cannot fit dead-letter envelope''
                 (h\<lparr>hd_transfers := hd_transfers h @ [outcomeRejected]\<rparr>)
          else
            let h1 = act (PublishDeadLetter t transferID (br_publish b)) h
            in case br_publish b of
                 Some err \<Rightarrow>
                   let outcome = fst (classifyPublishError err);
                       h2 = h1\<lparr>hd_transfers := hd_transfers h1 @ [outcome]\<rparr>
                   in if outcome = outcomeAmbiguous
                      then requestRedelivery b (wc_DeadLetterRetryDelay (wk_cfg w)) ''dlq_redelivery_rejected'' h2
                      else terminal ''dlq_rejected'' ''dead-letter publish rejected'' h2
               | None \<Rightarrow>
                   let h2 = h1\<lparr>hd_transfers := hd_transfers h1 @ [outcomeAccepted]\<rparr>
                   in case confirmAck b h2 of
                        (h3, confirmed) \<Rightarrow>
                          if \<not> confirmed
                          then requestRedelivery b (wc_DeadLetterRetryDelay (wk_cfg w)) ''source_ack_redelivery_rejected'' h3
                          else h3)"

definition recordHandler :: "string \<Rightarrow> string \<Rightarrow> handling \<Rightarrow> handling" where
  "recordHandler outcome reason h = h\<lparr>hd_records := hd_records h @ [(boundedOutcome outcome, reason)]\<rparr>"

definition acknowledge :: "broker \<Rightarrow> handling \<Rightarrow> handling" where
  "acknowledge b h =
     (case confirmAck b h of
        (h1, confirmed) \<Rightarrow> recordHandler outcomeSuccess (if confirmed then ''none'' else ''ack_ambiguous'') h1)"

definition handlerOutcome :: "go_error option \<Rightarrow> go_error option \<Rightarrow> bool \<Rightarrow> string" where
  "handlerOutcome contextErr err exhausted =
     (if errors_is_opt contextErr DeadlineExceeded then outcomeTimeout
      else if \<not> exhausted \<and> errors_is_opt err Canceled then outcomeCanceled
      else outcomeRetryable)"

definition settle ::
  "lib \<Rightarrow> worker \<Rightarrow> broker \<Rightarrow> natsMsg \<Rightarrow> metadata \<Rightarrow> Message \<Rightarrow> invocation \<Rightarrow> handling \<Rightarrow> handling" where
  "settle lb w b msg md message result h =
     (case result of
        HandlerPanicked cls \<Rightarrow>
          terminal ''handler_panic'' ''feature handler panicked'' (recordHandler outcomeTerminal ''handler_panic'' h)
      | HandlerReturned None \<Rightarrow> acknowledge b h
      | HandlerReturned (Some err) \<Rightarrow>
          if br_rootErr b \<noteq> None then recordHandler outcomeCanceled ''shutdown'' h
          else if IsPermanent (Some err)
          then deadLetter lb w b msg md (msg_messageID message) DeadLetterPermanent
                 (recordHandler outcomePermanent ''handler_permanent'' h)
          else
            let exhausted = attemptLimit w \<le> md_NumDelivered md;
                outcome = handlerOutcome (br_handlerCtxErr b) (Some err) exhausted
            in if exhausted
               then deadLetter lb w b msg md (msg_messageID message) DeadLetterExhausted
                      (recordHandler outcome ''handler_exhausted'' h)
               else
                 let h1 = recordHandler outcome ''handler_retry'' h
                 in case retryDelayFor w (md_NumDelivered md) of
                      None \<Rightarrow> h1\<lparr>hd_err := Some (Typed ''runtime.Error'' ''index out of range'')\<rparr>
                    | Some delay \<Rightarrow> requestRedelivery b delay ''handler_redelivery_rejected'' h1)"

text \<open>\<^verbatim>\<open>handle\<close>: one delivery end to end; \<open>handler\<close> is the feature handler's run.\<close>

definition handle :: "lib \<Rightarrow> worker \<Rightarrow> broker \<Rightarrow> (Message \<Rightarrow> invocation) \<Rightarrow> source \<Rightarrow> handling" where
  "handle lb w b handler source =
     (case src_metadata source of
        None \<Rightarrow> terminal ''metadata_unavailable'' ''source metadata unavailable'' no_handling
      | Some md \<Rightarrow>
          let msg = src_msg source
          in if wc_MaxDeliveryBytes (wk_cfg w) < int (msg_size lb msg) \<or> wk_maxPayload w < length (nm_Data msg)
             then terminal ''delivery_bound'' ''retained source exceeds admitted message bound'' no_handling
             else if HeaderLimitBytes < encodedHeaderBytes (nm_Header msg)
             then deadLetter lb w b msg md '''' DeadLetterMalformed no_handling
             else (case decodeMessage lb msg md of
                     Inl err \<Rightarrow> deadLetter lb w b msg md '''' DeadLetterMalformed no_handling
                   | Inr decoded \<Rightarrow>
                       if attemptLimit w < md_NumDelivered md
                       then deadLetter lb w b msg md (msg_messageID decoded) DeadLetterExhausted no_handling
                       else settle lb w b msg md decoded (handler decoded) (no_handling\<lparr>hd_invoked := True\<rparr>)))"

section \<open>Settlement\<close>

text \<open>Every acknowledgement in a list of actions has a stored transfer before it, unless \<open>ok\<close>.\<close>

fun ack_justified :: "bool \<Rightarrow> action list \<Rightarrow> bool" where
  "ack_justified ok [] = True"
| "ack_justified ok (DoubleAck r # as) = (ok \<and> ack_justified ok as)"
| "ack_justified ok (PublishDeadLetter t i r # as) = ack_justified (ok \<or> r = None) as"
| "ack_justified ok (NakWithDelay d r # as) = ack_justified ok as"

text \<open>The source is settled: an acknowledgement was sent, or a redelivery was accepted.\<close>

definition settled :: "action list \<Rightarrow> bool" where
  "settled as = (\<exists>a \<in> set as. (\<exists>r. a = DoubleAck r) \<or> (\<exists>d. a = NakWithDelay d None))"

lemmas handling_defs =
  terminal_def act_def requestRedelivery_def confirmAck_def recordHandler_def acknowledge_def no_handling_def

lemma deadLetter_cases:
  assumes "hd_actions h = []" and "hd_err h = None" and r_def: "r = deadLetter lb w b msg md i reason h"
  shows "ack_justified False (hd_actions r) \<and> (hd_err r = None \<longrightarrow> settled (hd_actions r))
     \<and> hd_invoked r = hd_invoked h"
  using assms(1,2) unfolding r_def
  by (auto simp: deadLetter_def handling_defs settled_def Let_def split: prod.split option.split)

lemma deadLetter_publishes:
  assumes "hd_actions h = []" "hd_actions (deadLetter lb w b msg md i reason h) \<noteq> []"
  shows "hd_actions (deadLetter lb w b msg md i reason h) ! 0 =
     PublishDeadLetter (fst (deadLetterMessage lb msg md i (wc_DeadLetterSubject (wk_cfg w)) reason))
       (snd (deadLetterMessage lb msg md i (wc_DeadLetterSubject (wk_cfg w)) reason)) (br_publish b)"
  using assms
  by (auto simp: deadLetter_def handling_defs Let_def split: prod.splits option.splits if_splits)

lemma ack_justified_mono: "ack_justified False as \<Longrightarrow> ack_justified ok as"
proof -
  have "ack_justified x as \<Longrightarrow> (x \<longrightarrow> y) \<Longrightarrow> ack_justified y as" for x y
    by (induction x as arbitrary: y rule: ack_justified.induct) auto
  then show "ack_justified False as \<Longrightarrow> ack_justified ok as" by blast
qed

lemma settle_ok:
  assumes "hd_actions h = []" "hd_err h = None"
  shows "ack_justified (result = HandlerReturned None) (hd_actions (settle lb w b msg md m result h))
     \<and> (hd_err (settle lb w b msg md m result h) = None \<longrightarrow>
          settled (hd_actions (settle lb w b msg md m result h)) \<or> br_rootErr b \<noteq> None)"
proof (cases result)
  case (HandlerPanicked c)
  then show ?thesis using assms by (simp add: settle_def handling_defs)
next
  case (HandlerReturned e)
  show ?thesis
  proof (cases e)
    case None
    then show ?thesis using assms HandlerReturned by (simp add: settle_def handling_defs settled_def)
  next
    case (Some err)
    have dead: "ack_justified False (hd_actions (deadLetter lb w b msg md i reason (recordHandler o' r' h)))
       \<and> (hd_err (deadLetter lb w b msg md i reason (recordHandler o' r' h)) = None \<longrightarrow>
            settled (hd_actions (deadLetter lb w b msg md i reason (recordHandler o' r' h))))" for i reason o' r'
      using deadLetter_cases [of "recordHandler o' r' h", OF _ _ refl] assms by (simp add: recordHandler_def)
    show ?thesis
      using dead assms HandlerReturned Some
      by (auto simp: settle_def Let_def requestRedelivery_def terminal_def act_def settled_def recordHandler_def
          split: option.split)
  qed
qed

text \<open>C20: at-least-once delivery. Whatever the broker answers and however the handler ends, the
  source is acknowledged only after the handler returned success or a transfer of the
  message is stored in the dead-letter stream; and a delivery handled without a fault of the
  worker is never dropped: it was acknowledged, its redelivery was accepted, or the worker
  is shutting down and leaves it to the broker.\<close>

theorem delivery_settled_safely:
  "let h = handle lb w b handler source
   in ack_justified (\<exists>md m. src_metadata source = Some md \<and> decodeMessage lb (src_msg source) md = Inr m
          \<and> handler m = HandlerReturned None) (hd_actions h)
      \<and> (hd_err h = None \<longrightarrow> settled (hd_actions h) \<or> br_rootErr b \<noteq> None)"
proof (cases "src_metadata source")
  case None
  then show ?thesis by (simp add: handle_def handling_defs)
next
  case (Some md)
  have dead: "ack_justified ok (hd_actions (deadLetter lb w b (src_msg source) md i reason no_handling))
     \<and> (hd_err (deadLetter lb w b (src_msg source) md i reason no_handling) = None \<longrightarrow>
          settled (hd_actions (deadLetter lb w b (src_msg source) md i reason no_handling)))" for ok i reason
    using deadLetter_cases [of no_handling, OF _ _ refl, of lb w b "src_msg source" md i reason] ack_justified_mono
    by (simp add: no_handling_def)
  have run: "ack_justified (handler m = HandlerReturned None)
      (hd_actions (settle lb w b (src_msg source) md m (handler m) (no_handling\<lparr>hd_invoked := True\<rparr>)))
     \<and> (hd_err (settle lb w b (src_msg source) md m (handler m) (no_handling\<lparr>hd_invoked := True\<rparr>)) = None \<longrightarrow>
          settled (hd_actions (settle lb w b (src_msg source) md m (handler m) (no_handling\<lparr>hd_invoked := True\<rparr>)))
          \<or> br_rootErr b \<noteq> None)" for m
    by (rule settle_ok) (simp_all add: no_handling_def)
  show ?thesis
  proof (cases "decodeMessage lb (src_msg source) md")
    case (Inl e)
    then show ?thesis using Some dead by (simp add: handle_def Let_def terminal_def no_handling_def)
  next
    case (Inr m)
    then show ?thesis using Some dead run [of m] by (simp add: handle_def Let_def terminal_def no_handling_def)
  qed
qed

section \<open>Attempts\<close>

lemma deadLetter_invoked [simp]: "hd_invoked (deadLetter lb w b msg md i reason h) = hd_invoked h"
  by (simp add: deadLetter_def handling_defs Let_def split: prod.split option.split)

lemma handle_invoked:
  "hd_invoked (handle lb w b handler source) \<Longrightarrow>
   \<exists>md. src_metadata source = Some md \<and> md_NumDelivered md \<le> attemptLimit w"
  by (auto simp: handle_def Let_def terminal_def no_handling_def split: option.splits sum.splits if_splits)

lemma handle_runs:
  assumes "src_metadata source = Some md" "decodeMessage lb (src_msg source) md = Inr m"
    and "int (msg_size lb (src_msg source)) \<le> wc_MaxDeliveryBytes (wk_cfg w)"
    and "length (nm_Data (src_msg source)) \<le> wk_maxPayload w"
    and "encodedHeaderBytes (nm_Header (src_msg source)) \<le> HeaderLimitBytes"
    and "md_NumDelivered md \<le> attemptLimit w"
  shows "handle lb w b handler source =
     settle lb w b (src_msg source) md m (handler m) (no_handling\<lparr>hd_invoked := True\<rparr>)"
  using assms by (simp add: handle_def Let_def not_less)

lemma retryDelayFor_below:
  "1 \<le> n \<Longrightarrow> n < attemptLimit w \<Longrightarrow> retryDelayFor w n = Some (wc_RetryDelays (wk_cfg w) ! (n - 1))"
  by (auto simp: retryDelayFor_def attemptLimit_def)

text \<open>C21: a message gets one attempt per configured retry delay plus one. A delivery past that limit
  never reaches the handler. On an admitted delivery whose handler fails with an error that
  is not permanent, outside shutdown, the worker asks for redelivery after the delay of
  that attempt while attempts are left (the index is always in range, so this never
  panics), and from the last attempt on its first action is the transfer to the
  dead-letter stream, if the transfer fits its envelope.\<close>

theorem attempts_are_bounded:
  assumes "src_metadata source = Some md" and "1 \<le> md_NumDelivered md"
    and "decodeMessage lb (src_msg source) md = Inr m"
    and "int (msg_size lb (src_msg source)) \<le> wc_MaxDeliveryBytes (wk_cfg w)"
    and "length (nm_Data (src_msg source)) \<le> wk_maxPayload w"
    and "encodedHeaderBytes (nm_Header (src_msg source)) \<le> HeaderLimitBytes"
    and "handler m = HandlerReturned (Some err)" and "\<not> IsPermanent (Some err)" and "br_rootErr b = None"
  shows "(hd_invoked (handle lb w b handler source) \<longleftrightarrow> md_NumDelivered md \<le> 1 + length (wc_RetryDelays (wk_cfg w)))
    \<and> (md_NumDelivered md \<le> length (wc_RetryDelays (wk_cfg w)) \<longrightarrow>
        hd_actions (handle lb w b handler source) =
          [NakWithDelay (wc_RetryDelays (wk_cfg w) ! (md_NumDelivered md - 1)) (br_nak b)])
    \<and> (length (wc_RetryDelays (wk_cfg w)) < md_NumDelivered md \<longrightarrow>
        (case hd_actions (handle lb w b handler source) of
           [] \<Rightarrow> hd_err (handle lb w b handler source) \<noteq> None
         | a # _ \<Rightarrow> \<exists>t i. deadLetterMessage lb (src_msg source) md (msg_messageID m)
                          (wc_DeadLetterSubject (wk_cfg w)) DeadLetterExhausted = (t, i)
                      \<and> a = PublishDeadLetter t i (br_publish b)))"
proof (cases "md_NumDelivered md \<le> attemptLimit w")
  case True
  note run = handle_runs [OF assms(1,3,4,5,6) True, of b handler]
  let ?h = "no_handling\<lparr>hd_invoked := True\<rparr>"
  show ?thesis
  proof (cases "md_NumDelivered md < attemptLimit w")
    case below: True
    then have "handle lb w b handler source =
        requestRedelivery b (wc_RetryDelays (wk_cfg w) ! (md_NumDelivered md - 1)) ''handler_redelivery_rejected''
          (recordHandler (handlerOutcome (br_handlerCtxErr b) (Some err) False) ''handler_retry'' ?h)"
      using assms(7,8,9) run retryDelayFor_below [OF assms(2) below]
      by (simp add: settle_def Let_def not_le)
    then show ?thesis using below
      by (simp add: attemptLimit_def handling_defs Let_def)
  next
    case False
    define g where "g = recordHandler (handlerOutcome (br_handlerCtxErr b) (Some err) True) ''handler_exhausted'' ?h"
    have g: "hd_actions g = []" "hd_err g = None" "hd_invoked g"
      by (simp_all add: g_def recordHandler_def no_handling_def)
    have h: "handle lb w b handler source = deadLetter lb w b (src_msg source) md (msg_messageID m) DeadLetterExhausted g"
      using assms(7,8,9) run False by (simp add: settle_def Let_def g_def)
    then show ?thesis
      using False True g deadLetter_publishes [OF g(1), of lb w b "src_msg source" md "msg_messageID m" DeadLetterExhausted]
        deadLetter_cases [OF g(1,2) refl, of lb w b "src_msg source" md "msg_messageID m" DeadLetterExhausted]
      by (auto simp: attemptLimit_def settled_def split: list.split)
  qed
next
  case False
  have n: "hd_actions no_handling = []" "hd_err no_handling = None" "\<not> hd_invoked no_handling"
    by (simp_all add: no_handling_def)
  have h: "handle lb w b handler source =
      deadLetter lb w b (src_msg source) md (msg_messageID m) DeadLetterExhausted no_handling"
    using assms False by (simp add: handle_def Let_def not_less not_le)
  then show ?thesis
    using False n deadLetter_publishes [OF n(1), of lb w b "src_msg source" md "msg_messageID m" DeadLetterExhausted]
      deadLetter_cases [OF n(1,2) refl, of lb w b "src_msg source" md "msg_messageID m" DeadLetterExhausted]
    by (auto simp: attemptLimit_def settled_def split: list.split)
qed

definition example_worker :: worker where
  "example_worker = \<lparr>wk_cfg = DefaultWorkerConfig ''c'' ''orders.*'' ''dlq'' 4 100, wk_maxPayload = 100\<rparr>"

definition example_broker :: broker where
  "example_broker = \<lparr>br_ack = None, br_publish = None, br_nak = None, br_rootErr = None, br_handlerCtxErr = None\<rparr>"

abbreviation example_source :: source where
  "example_source \<equiv> \<lparr>src_msg = example_msg, src_metadata = Some example_metadata\<rparr>"

lemma example_decoded: "\<exists>m. decodeMessage example_lib example_msg example_metadata = Inr m"
proof -
  have "list_all (\<lambda>v. wire_value v = v) [ev_MessageID example_event, ev_PublicationID example_event, ev_Type example_event, ev_Schema example_event]"
    by code_simp
  note decode_published [OF example_lib_laws example_wire_laws example_time(1) example_event_valid example_build this, of example_metadata]
  moreover have "example_wire example_msg = example_msg" by code_simp
  ultimately show ?thesis by simp
qed

lemma example_limits:
  "int (msg_size example_lib (src_msg example_source)) \<le> wc_MaxDeliveryBytes (wk_cfg example_worker)"
  "length (nm_Data (src_msg example_source)) \<le> wk_maxPayload example_worker"
  "encodedHeaderBytes (nm_Header (src_msg example_source)) \<le> HeaderLimitBytes"
  "md_NumDelivered example_metadata \<le> attemptLimit example_worker"
  by code_simp+

lemma delivery_settled_safely_witness:
  "let h = handle example_lib example_worker example_broker (\<lambda>_. HandlerReturned None) example_source
   in hd_actions h = [DoubleAck None] \<and> ack_justified True (hd_actions h) \<and> settled (hd_actions h)"
proof -
  obtain m where m: "decodeMessage example_lib (src_msg example_source) example_metadata = Inr m"
    using example_decoded by auto
  note run = handle_runs [OF _ m example_limits, of example_broker "\<lambda>_. HandlerReturned None"]
  show ?thesis
    using delivery_settled_safely [of example_lib example_worker example_broker "\<lambda>_. HandlerReturned None" example_source]
      m run by (simp add: Let_def settle_def example_broker_def handling_defs no_handling_def)
qed

lemma attempts_are_bounded_witness:
  "\<exists>m. decodeMessage example_lib example_msg example_metadata = Inr m
     \<and> hd_actions (handle example_lib example_worker example_broker (\<lambda>_. HandlerReturned (Some (Fresh ''busy'')))
          example_source) = [NakWithDelay second None]"
proof -
  obtain m where m: "decodeMessage example_lib (src_msg example_source) example_metadata = Inr m"
    using example_decoded by auto
  have "\<not> IsPermanent (Some (Fresh ''busy''))" by (simp add: IsPermanent_def has_type_def)
  note bounded = attempts_are_bounded [of example_source example_metadata, OF _ _ m example_limits(1-3) refl this,
      of example_broker]
  have "hd_actions (handle example_lib example_worker example_broker (\<lambda>_. HandlerReturned (Some (Fresh ''busy'')))
      example_source) = [NakWithDelay second None]"
    using bounded by (simp add: example_metadata_def example_worker_def DefaultWorkerConfig_def example_broker_def)
  with m show ?thesis by auto
qed

section \<open>Configuration\<close>

text \<open>NATS subject matching, by token.\<close>

inductive nats_match :: "string list \<Rightarrow> string list \<Rightarrow> bool" where
  match_end: "nats_match [] []"
| match_token: "nats_match f s \<Longrightarrow> nats_match (t # f) (t # s)"
| match_star: "nats_match f s \<Longrightarrow> nats_match (''*'' # f) (t # s)"
| match_rest: "s \<noteq> [] \<Longrightarrow> nats_match [''>''] s"

lemma subject_loop_complete: "nats_match f s \<Longrightarrow> subject_loop f s"
  by (induction rule: nats_match.induct) auto

text \<open>Read the other way: what \<^verbatim>\<open>subjectMatches\<close> reports and NATS does not match is a filter that
  ends in the tail wildcard with no token left for it.\<close>

lemma subject_loop_sound:
  "subject_loop f s \<Longrightarrow> filter_parts f \<Longrightarrow> nats_match f s \<or> (\<exists>g. f = g @ [''>''] \<and> nats_match g s)"
proof (induction f s rule: subject_loop.induct)
  case (2 part f s)
  show ?case
  proof (cases "part = ''>''")
    case True
    then show ?thesis using 2(3) by (cases s) (auto intro: nats_match.intros)
  next
    case False
    with 2(2) obtain t rest where s: "s = t # rest" and p: "part = ''*'' \<or> part = t" and l: "subject_loop f rest"
      by (auto split: list.splits if_splits)
    have "filter_parts f" using 2(3) False by (auto split: if_splits)
    from 2(1) [OF False s _ l this] p have
      "nats_match f rest \<or> (\<exists>g. f = g @ [''>''] \<and> nats_match g rest)" by auto
    then show ?thesis using p s by (auto intro: nats_match.intros)
  qed
qed (simp add: match_end)

lemma rejected_None [simp]: "rejected bad text = None \<longleftrightarrow> \<not> bad"
  by (simp add: rejected_def)

lemma resident_bound:
  "0 < bytes \<Longrightarrow> n \<le> quot ResidentDeliveryLimit bytes \<Longrightarrow> n * bytes \<le> ResidentDeliveryLimit"
proof -
  assume b: "0 < bytes" and "n \<le> quot ResidentDeliveryLimit bytes"
  then have "n \<le> ResidentDeliveryLimit div bytes" by (simp add: quot_nonneg ResidentDeliveryLimit_def)
  then have "n * bytes \<le> ResidentDeliveryLimit div bytes * bytes" using b by (simp add: mult_right_mono)
  also have "\<dots> \<le> ResidentDeliveryLimit"
    using b pos_mod_sign [of bytes ResidentDeliveryLimit]
    by (simp add: minus_mod_eq_div_mult [symmetric])
  finally show ?thesis .
qed

text \<open>A worker whose configuration is accepted never consumes its own dead letters (under NATS
  wildcard matching, its filter does not match the dead-letter subject), holds at most 64 MiB
  of deliveries at once, admits every message the producer can build, has between one and
  nine positive retry delays, and its consumer waits for an acknowledgement longer than a
  handler run with its two settlement calls. The payload limit is one whose envelope still
  fits a 64-bit \<^verbatim>\<open>int\<close>: the sum in the check wraps beyond it.\<close>

theorem accepted_worker_config:
  assumes "ValidateWorkerConfig cfg maxPayload = None" and "wc_HandlerTimeout cfg < 2 ^ 62"
    and "0 \<le> maxPayload" "maxPayload < 2 ^ 62"
  shows "\<not> nats_match (split_on (CHR ''.'') (wc_FilterSubject cfg)) (split_on (CHR ''.'') (wc_DeadLetterSubject cfg))
    \<and> wc_MaxConcurrency cfg * wc_MaxDeliveryBytes cfg \<le> 64 * 1024 * 1024
    \<and> maxPayload + int HeaderLimitBytes \<le> wc_MaxDeliveryBytes cfg
    \<and> 1 \<le> length (wc_RetryDelays cfg) \<and> length (wc_RetryDelays cfg) \<le> 9 \<and> (\<forall>d \<in> set (wc_RetryDelays cfg). 0 < d)
    \<and> wc_HandlerTimeout cfg + 2 * operationTimeout < cc_AckWait (desiredConsumerConfig cfg)"
proof -
  have "wrap64 (maxPayload + int HeaderLimitBytes) = maxPayload + int HeaderLimitBytes"
    using assms(3,4) by (intro wrap64_id) (simp_all add: HeaderLimitBytes_def)
  then have ok: "\<not> subjectMatches (wc_FilterSubject cfg) (wc_DeadLetterSubject cfg)" "0 < wc_MaxDeliveryBytes cfg"
    "maxPayload + int HeaderLimitBytes \<le> wc_MaxDeliveryBytes cfg"
    "wc_MaxConcurrency cfg \<le> quot ResidentDeliveryLimit (wc_MaxDeliveryBytes cfg)"
    "1 \<le> length (wc_RetryDelays cfg)" "length (wc_RetryDelays cfg) \<le> 9" "\<forall>d \<in> set (wc_RetryDelays cfg). 0 < d"
    "0 < wc_HandlerTimeout cfg"
    using assms(1) by (auto simp: ValidateWorkerConfig_def first_error_None maxRetryDelays_def not_less not_le Suc_le_eq)
  have "cc_AckWait (desiredConsumerConfig cfg) = wc_HandlerTimeout cfg + 2 * operationTimeout + settlementSchedulingSlack"
    using assms(2) ok(8)
    by (simp add: desiredConsumerConfig_def wrap64_id operationTimeout_def settlementSchedulingSlack_def second_def)
  then show ?thesis
    using ok resident_bound [OF ok(2,4)] subject_loop_complete
    by (auto simp: subjectMatches_def settlementSchedulingSlack_def second_def ResidentDeliveryLimit_def)
qed

lemma accepted_worker_config_witness:
  "ValidateWorkerConfig (DefaultWorkerConfig ''c'' ''orders.*'' ''dlq'' 4 100) 100 = None
   \<and> \<not> nats_match (split_on (CHR ''.'') ''orders.*'') (split_on (CHR ''.'') ''dlq'')"
proof -
  let ?c = "DefaultWorkerConfig ''c'' ''orders.*'' ''dlq'' 4 100"
  have names: "ValidStreamOrConsumerName ''c''" "validFilterSubject ''orders.*''" "validPublishSubject ''dlq''"
    "\<not> subjectMatches ''orders.*'' ''dlq''" by code_simp+
  have ok: "ValidateWorkerConfig ?c 100 = None"
    using names by (simp add: ValidateWorkerConfig_def first_error_None DefaultWorkerConfig_def HeaderLimitBytes_def wrap64_id
        quot_def ResidentDeliveryLimit_def dur_simps maxRetryDelays_def)
  from accepted_worker_config [OF ok] ok show ?thesis
    by (simp add: DefaultWorkerConfig_def second_def)
qed

text \<open>The bound on the payload limit is needed: where the sum wraps, a worker whose deliveries are far
  smaller than the payloads it must take is accepted.\<close>

lemma wrapped_envelope_is_accepted:
  "ValidateWorkerConfig ((DefaultWorkerConfig ''c'' ''orders.*'' ''dlq'' 4 100)) (2 ^ 63 - 1) = None"
proof -
  have names: "ValidStreamOrConsumerName ''c''" "validFilterSubject ''orders.*''" "validPublishSubject ''dlq''"
    "\<not> subjectMatches ''orders.*'' ''dlq''" by code_simp+
  then show ?thesis
    by (simp add: ValidateWorkerConfig_def first_error_None DefaultWorkerConfig_def HeaderLimitBytes_def wrap64_def
        quot_def ResidentDeliveryLimit_def dur_simps maxRetryDelays_def)
qed

end
