(* ===== verification/OutboundTrust.thy ===== *)
theory OutboundTrust
  imports GoText
begin

unbundle bit_operations_syntax

text \<open>
  \<^verbatim>\<open>internal/outboundtrust\<close>: which network addresses outbound traffic may reach, and the
  shape of a fixed HTTPS target.

  An address is a \<^verbatim>\<open>netip.Addr\<close>: invalid, an IPv4 address (32 bits) or an IPv6 address
  (128 bits and a zone). The methods of \<^verbatim>\<open>netip\<close> the code calls are modelled from their
  definitions: \<open>Unmap\<close>, \<open>IsGlobalUnicast\<close>, \<open>IsPrivate\<close> and \<open>prefix_Contains\<close>, which never
  matches an address with a zone.

  The main result compares \<open>PublicAddress\<close>, which tests ordered lists of prefixes, with a
  table of closed address ranges that does not depend on their order.
\<close>

section \<open>Addresses of package netip\<close>

datatype addr = InvalidAddr | V4 "32 word" | V6 "128 word" string

definition octets :: "32 word \<Rightarrow> nat \<times> nat \<times> nat \<times> nat" where
  "octets w = (unat (drop_bit 24 w), unat (take_bit 8 (drop_bit 16 w)), unat (take_bit 8 (drop_bit 8 w)),
     unat (take_bit 8 w))"

fun v4 :: "nat \<Rightarrow> nat \<Rightarrow> nat \<Rightarrow> nat \<Rightarrow> 32 word" where
  "v4 a b c d = of_nat (a * 16777216 + b * 65536 + c * 256 + d)"

text \<open>An IPv6 address from its leading 16-bit groups; the other groups are zero.\<close>

definition v6 :: "nat list \<Rightarrow> 128 word" where
  "v6 gs = of_nat (foldl (\<lambda>n g. n * 65536 + g) 0 (take 8 (gs @ [0, 0, 0, 0, 0, 0, 0, 0])))"

text \<open>\<^verbatim>\<open>Unmap\<close> turns an IPv4-mapped IPv6 address into the IPv4 address and drops its zone.\<close>

fun Unmap :: "addr \<Rightarrow> addr" where
  "Unmap (V6 w z) = (if drop_bit 32 w = 0xffff then V4 (ucast w) else V6 w z)"
| "Unmap a = a"

fun IsLoopback :: "addr \<Rightarrow> bool" where
  "IsLoopback (V4 w) = (drop_bit 24 w = 127)"
| "IsLoopback (V6 w z) = (w = 1)"
| "IsLoopback InvalidAddr = False"

fun IsMulticast :: "addr \<Rightarrow> bool" where
  "IsMulticast (V4 w) = (drop_bit 28 w = 0xe)"
| "IsMulticast (V6 w z) = (drop_bit 120 w = 0xff)"
| "IsMulticast InvalidAddr = False"

fun IsLinkLocalUnicast :: "addr \<Rightarrow> bool" where
  "IsLinkLocalUnicast (V4 w) = (drop_bit 16 w = 0xa9fe)"
| "IsLinkLocalUnicast (V6 w z) = (drop_bit 118 w = 0x3fa)"
| "IsLinkLocalUnicast InvalidAddr = False"

definition IsGlobalUnicast :: "addr \<Rightarrow> bool" where
  "IsGlobalUnicast a =
     (a \<noteq> InvalidAddr \<and> a \<noteq> V4 0 \<and> a \<noteq> V4 0xffffffff \<and> a \<noteq> V6 0 '''' \<and>
      \<not> IsLoopback a \<and> \<not> IsMulticast a \<and> \<not> IsLinkLocalUnicast a)"

fun IsPrivate :: "addr \<Rightarrow> bool" where
  "IsPrivate (V4 w) = (drop_bit 24 w = 10 \<or> drop_bit 20 w = 0xac1 \<or> drop_bit 16 w = 0xc0a8)"
| "IsPrivate (V6 w z) = (drop_bit 121 w = 0x7e)"
| "IsPrivate InvalidAddr = False"

text \<open>A prefix is an address without a zone and a number of leading bits; \<^verbatim>\<open>Contains\<close> is
  false for the other family and for any address with a zone.\<close>

datatype ip_prefix = P4 "32 word" nat | P6 "128 word" nat

fun prefix_Contains :: "ip_prefix \<Rightarrow> addr \<Rightarrow> bool" where
  "prefix_Contains (P4 p n) (V4 w) = (drop_bit (32 - n) w = drop_bit (32 - n) p)"
| "prefix_Contains (P6 p n) (V6 w z) = (z = '''' \<and> drop_bit (128 - n) w = drop_bit (128 - n) p)"
| "prefix_Contains _ _ = False"

section \<open>Public addresses\<close>

definition nonPublicIPv4Prefixes :: "ip_prefix list" where
  "nonPublicIPv4Prefixes =
     [P4 (v4 0 0 0 0) 8, P4 (v4 100 64 0 0) 10, P4 (v4 192 0 0 0) 24, P4 (v4 192 0 2 0) 24,
      P4 (v4 192 88 99 0) 24, P4 (v4 198 18 0 0) 15, P4 (v4 198 51 100 0) 24, P4 (v4 203 0 113 0) 24,
      P4 (v4 240 0 0 0) 4]"

definition globallyReachableIPv4SpecialPrefixes :: "ip_prefix list" where
  "globallyReachableIPv4SpecialPrefixes = [P4 (v4 192 0 0 9) 32, P4 (v4 192 0 0 10) 32]"

definition allocatedGlobalIPv6Prefix :: ip_prefix where
  "allocatedGlobalIPv6Prefix = P6 (v6 [0x2000]) 3"

definition publicNAT64Prefix :: ip_prefix where
  "publicNAT64Prefix = P6 (v6 [0x64, 0xff9b]) 96"

definition nonPublicIPv6Prefixes :: "ip_prefix list" where
  "nonPublicIPv6Prefixes =
     [P6 (v6 [0x2001]) 23, P6 (v6 [0x2001, 0xdb8]) 32, P6 (v6 [0x2002]) 16, P6 (v6 [0x3fff]) 20]"

definition globallyReachableIPv6SpecialPrefixes :: "ip_prefix list" where
  "globallyReachableIPv6SpecialPrefixes =
     [P6 (v6 [0x2001, 1, 0, 0, 0, 0, 0, 1]) 128, P6 (v6 [0x2001, 1, 0, 0, 0, 0, 0, 2]) 128,
      P6 (v6 [0x2001, 1, 0, 0, 0, 0, 0, 3]) 128, P6 (v6 [0x2001, 3]) 32, P6 (v6 [0x2001, 4, 0x112]) 48,
      P6 (v6 [0x2001, 0x20]) 28, P6 (v6 [0x2001, 0x30]) 28]"

definition containsAddr :: "ip_prefix list \<Rightarrow> addr \<Rightarrow> bool" where
  "containsAddr prefixes address = list_ex (\<lambda>p. prefix_Contains p address) prefixes"

text \<open>The recursive call is on an IPv4 address, so it calls no further.\<close>

function PublicAddress :: "addr \<Rightarrow> bool" where
  "PublicAddress address0 =
     (let address = Unmap address0
      in if \<not> IsGlobalUnicast address \<or> IsPrivate address then False
         else case address of
           InvalidAddr \<Rightarrow> False
         | V4 w \<Rightarrow>
             if containsAddr globallyReachableIPv4SpecialPrefixes address then True
             else \<not> containsAddr nonPublicIPv4Prefixes address
         | V6 w z \<Rightarrow>
             if prefix_Contains publicNAT64Prefix address then PublicAddress (V4 (ucast w))
             else if \<not> prefix_Contains allocatedGlobalIPv6Prefix address then False
             else if containsAddr globallyReachableIPv6SpecialPrefixes address then True
             else \<not> containsAddr nonPublicIPv6Prefixes address)"
  by pat_completeness auto
termination
proof (relation "measure (\<lambda>a. case a of V6 w z \<Rightarrow> 1 | _ \<Rightarrow> 0)")
  fix address0 address w z
  assume "address = Unmap address0" "address = V6 w z"
  then show "(V4 (ucast w), address0) \<in> measure (\<lambda>a. case a of V6 w z \<Rightarrow> 1 | _ \<Rightarrow> (0::nat))"
    by (cases address0) auto
qed simp

declare PublicAddress.simps [simp del]

section \<open>Fixed HTTPS targets\<close>

text \<open>\<^verbatim>\<open>url.URL\<close> as \<^verbatim>\<open>url.Parse\<close> fills it; the parser itself is an argument of the definitions
  that call it. \<open>splitHostPort\<close> is the function behind \<^verbatim>\<open>Hostname\<close> and \<^verbatim>\<open>Port\<close>.\<close>

record url =
  u_Scheme :: string
  u_Opaque :: string
  u_User :: "string option"
  u_Host :: string
  u_Path :: string
  u_RawQuery :: string
  u_ForceQuery :: bool
  u_Fragment :: string

definition splitHostPort :: "string \<Rightarrow> string \<times> string" where
  "splitHostPort hostPort =
     (let port = rev (takeWhile (\<lambda>c. c \<noteq> CHR '':'') (rev hostPort));
          (host, p) = (if length port < length hostPort \<and> list_all is_digit port
                       then (take (length hostPort - length port - 1) hostPort, port) else (hostPort, ''''))
      in (if host \<noteq> [] \<and> hd host = CHR ''['' \<and> last host = CHR '']''
          then butlast (tl host) else host, p))"

definition u_Hostname :: "url \<Rightarrow> string" where "u_Hostname u = fst (splitHostPort (u_Host u))"
definition u_Port :: "url \<Rightarrow> string" where "u_Port u = snd (splitHostPort (u_Host u))"

text \<open>\<^verbatim>\<open>strings.EqualFold\<close> against a lower-case ASCII text: besides the capitals, the long s and the
  Kelvin sign fold to ASCII letters.\<close>

definition fold_rune :: "nat \<Rightarrow> nat" where
  "fold_rune r = (if 65 \<le> r \<and> r \<le> 90 then r + 32 else if r = 0x17f then 115 else if r = 0x212a then 107 else r)"

definition equal_fold :: "string \<Rightarrow> string \<Rightarrow> bool" where
  "equal_fold s t = (map fold_rune (runes s) = map fold_rune (runes t))"

datatype TargetIssue =
    TargetOK
  | TargetNotAbsolute
  | TargetNotHTTPS
  | TargetHasUserInfoOrFragment
  | TargetHasQuery

definition zero_url :: url where
  "zero_url = \<lparr>u_Scheme = '''', u_Opaque = '''', u_User = None, u_Host = '''', u_Path = '''', u_RawQuery = '''',
     u_ForceQuery = False, u_Fragment = ''''\<rparr>"

definition HTTPSTarget :: "(string \<Rightarrow> url option) \<Rightarrow> (string \<Rightarrow> string) \<Rightarrow> string \<Rightarrow> url \<times> TargetIssue" where
  "HTTPSTarget url_Parse toLower raw =
     (case url_Parse raw of
        None \<Rightarrow> (zero_url, TargetNotAbsolute)
      | Some parsed \<Rightarrow>
          if u_Scheme parsed = '''' \<or> u_Opaque parsed \<noteq> '''' \<or> u_Host parsed = '''' \<or> u_Hostname parsed = ''''
          then (zero_url, TargetNotAbsolute)
          else if \<not> equal_fold (u_Scheme parsed) ''https'' then (zero_url, TargetNotHTTPS)
          else if u_User parsed \<noteq> None \<or> u_Fragment parsed \<noteq> '''' then (zero_url, TargetHasUserInfoOrFragment)
          else if u_RawQuery parsed \<noteq> '''' \<or> u_ForceQuery parsed then (zero_url, TargetHasQuery)
          else (parsed\<lparr>u_Scheme := ''https'', u_Host := toLower (u_Host parsed)\<rparr>, TargetOK))"

lemma HTTPSTarget_OK:
  "HTTPSTarget url_Parse toLower raw = (u, TargetOK) \<Longrightarrow>
   u_Scheme u = ''https'' \<and> u_Opaque u = '''' \<and> u_User u = None \<and> u_RawQuery u = '''' \<and> \<not> u_ForceQuery u
   \<and> u_Fragment u = '''' \<and> (\<exists>v. url_Parse raw = Some v \<and> u_Host v \<noteq> '''' \<and> u_Host u = toLower (u_Host v) \<and> u_Path u = u_Path v)"
  by (auto simp: HTTPSTarget_def split: option.splits if_splits)

section \<open>A table of address ranges\<close>

text \<open>Closed ranges of address numbers. The IPv4 table names every block that is not public;
  in the IPv6 table the first and the last range are everything outside \<^verbatim>\<open>2000::/3\<close>.\<close>

definition within :: "nat \<Rightarrow> nat \<Rightarrow> nat \<Rightarrow> bool" where
  "within lo hi n = (lo \<le> n \<and> n \<le> hi)"

definition in_ranges :: "(nat \<times> nat) list \<Rightarrow> nat \<Rightarrow> bool" where
  "in_ranges rs n = list_ex (\<lambda>(lo, hi). within lo hi n) rs"

definition dotted :: "nat \<Rightarrow> nat \<Rightarrow> nat \<Rightarrow> nat \<Rightarrow> nat" where
  "dotted a b c d = a * 16777216 + b * 65536 + c * 256 + d"

definition reserved4 :: "(nat \<times> nat) list" where
  "reserved4 =
     [(dotted 0 0 0 0, dotted 0 255 255 255), (dotted 10 0 0 0, dotted 10 255 255 255),
      (dotted 100 64 0 0, dotted 100 127 255 255), (dotted 127 0 0 0, dotted 127 255 255 255),
      (dotted 169 254 0 0, dotted 169 254 255 255), (dotted 172 16 0 0, dotted 172 31 255 255),
      (dotted 192 0 0 0, dotted 192 0 0 8), (dotted 192 0 0 11, dotted 192 0 0 255),
      (dotted 192 0 2 0, dotted 192 0 2 255), (dotted 192 88 99 0, dotted 192 88 99 255),
      (dotted 192 168 0 0, dotted 192 168 255 255), (dotted 198 18 0 0, dotted 198 19 255 255),
      (dotted 198 51 100 0, dotted 198 51 100 255), (dotted 203 0 113 0, dotted 203 0 113 255),
      (dotted 224 0 0 0, dotted 255 255 255 255)]"

definition grouped6 :: "nat list \<Rightarrow> nat" where
  "grouped6 gs = foldl (\<lambda>n g. n * 65536 + g) 0 (take 8 (gs @ [0, 0, 0, 0, 0, 0, 0, 0]))"

definition reserved6 :: "(nat \<times> nat) list" where
  "reserved6 =
     [(0, grouped6 [0x2000] - 1), (grouped6 [0x2001], grouped6 [0x2001, 1]),
      (grouped6 [0x2001, 1, 0, 0, 0, 0, 0, 4], grouped6 [0x2001, 3] - 1),
      (grouped6 [0x2001, 4], grouped6 [0x2001, 4, 0x112] - 1),
      (grouped6 [0x2001, 4, 0x113], grouped6 [0x2001, 0x20] - 1),
      (grouped6 [0x2001, 0x40], grouped6 [0x2001, 0x200] - 1),
      (grouped6 [0x2001, 0xdb8], grouped6 [0x2001, 0xdb9] - 1),
      (grouped6 [0x2002], grouped6 [0x2003] - 1), (grouped6 [0x3fff], grouped6 [0x3fff, 0x1000] - 1),
      (grouped6 [0x4000], 2 ^ 128 - 1)]"

definition nat64_range :: "nat \<times> nat" where
  "nat64_range = (grouped6 [0x64, 0xff9b], grouped6 [0x64, 0xff9b, 0, 0, 0, 1] - 1)"

fun public_by_table :: "addr \<Rightarrow> bool" where
  "public_by_table InvalidAddr = False"
| "public_by_table (V4 w) = (\<not> in_ranges reserved4 (unat w))"
| "public_by_table (V6 w z) =
     (z = '''' \<and>
      (if in_ranges [nat64_range] (unat w) then \<not> in_ranges reserved4 (unat w mod 2 ^ 32)
       else \<not> in_ranges reserved6 (unat w)))"

lemma div_range: "n div 2 ^ b = k \<longleftrightarrow> within (k * 2 ^ b) (k * 2 ^ b + (2 ^ b - 1)) n"
proof
  assume "n div 2 ^ b = k"
  then have "n = k * 2 ^ b + n mod 2 ^ b" by (metis div_mult_mod_eq)
  moreover have "n mod 2 ^ b < 2 ^ b" by simp
  ultimately show "within (k * 2 ^ b) (k * 2 ^ b + (2 ^ b - 1)) n"
    unfolding within_def by linarith
next
  assume "within (k * 2 ^ b) (k * 2 ^ b + (2 ^ b - 1)) n"
  moreover have "0 < (2::nat) ^ b" by simp
  ultimately have "k * 2 ^ b \<le> n" "n < k * 2 ^ b + 2 ^ b" unfolding within_def by linarith+
  then show "n div 2 ^ b = k"
    by (intro div_nat_eqI) (simp_all add: mult.commute)
qed

text \<open>A prefix test is a range test.\<close>

lemma drop_bit_range:
  fixes w :: "'a::len word"
  shows "drop_bit b w = v \<longleftrightarrow> within (unat v * 2 ^ b) (unat v * 2 ^ b + (2 ^ b - 1)) (unat w)"
proof -
  have "drop_bit b w = v \<longleftrightarrow> unat w div 2 ^ b = unat v"
    by (simp only: word_unat_eq_iff unat_drop_bit_eq drop_bit_eq_div [of b "unat w"])
  then show ?thesis by (simp only: div_range)
qed

lemmas range_defs = in_ranges_def reserved4_def reserved6_def nat64_range_def dotted_def grouped6_def v6_def
lemmas ipv4_defs = globallyReachableIPv4SpecialPrefixes_def nonPublicIPv4Prefixes_def containsAddr_def
lemmas ipv6_defs = publicNAT64Prefix_def allocatedGlobalIPv6Prefix_def globallyReachableIPv6SpecialPrefixes_def
  nonPublicIPv6Prefixes_def containsAddr_def

text \<open>Where the two tables cut the IPv4 space differently.\<close>

lemma split4:
  "within 3221225472 3221225727 n \<longleftrightarrow>
     within 3221225472 3221225480 n \<or> n = 3221225481 \<or> n = 3221225482 \<or> within 3221225483 3221225727 n"
  "within 3758096384 4294967295 n \<longleftrightarrow> within 3758096384 4026531839 n \<or> within 4026531840 4294967295 n"
  unfolding within_def by linarith+

lemma PublicAddress_V4: "PublicAddress (V4 w) \<longleftrightarrow> \<not> in_ranges reserved4 (unat w)"
proof (cases "w = 3221225481 \<or> w = 3221225482")
  case True
  then show ?thesis
  proof
    assume w: "w = 3221225481"
    show ?thesis unfolding w
      by (subst PublicAddress.simps) (simp add: IsGlobalUnicast_def ipv4_defs range_defs within_def)
  next
    assume w: "w = 3221225482"
    show ?thesis unfolding w
      by (subst PublicAddress.simps) (simp add: IsGlobalUnicast_def ipv4_defs range_defs within_def)
  qed
next
  case False
  then have special: "unat w \<noteq> 3221225481" "unat w \<noteq> 3221225482"
    by (simp_all add: word_unat_eq_iff)
  have ends: "within 0 16777215 (unat w)" if "w = 0"
    using that by (simp add: within_def)
  have "within 4026531840 4294967295 (unat w)" if "w = 4294967295"
    using that by (simp add: within_def)
  with ends special False show ?thesis
    by (subst PublicAddress.simps)
      (auto simp: IsGlobalUnicast_def ipv4_defs drop_bit_range range_defs split4)
qed

text \<open>Two combinations of range tests are equal if they agree at every point where one of the
  ranges begins or has just ended: between those points neither changes.\<close>

definition floor_in :: "nat list \<Rightarrow> nat \<Rightarrow> nat" where
  "floor_in cs n = Max {c \<in> set cs. c \<le> n}"

lemma floor_in_mem:
  assumes "0 \<in> set cs"
  shows "floor_in cs n \<in> set cs"
  using assms Max_in [of "{c \<in> set cs. c \<le> n}"] by (auto simp: floor_in_def)

lemma le_floor_in:
  assumes "0 \<in> set cs" "c \<in> set cs"
  shows "c \<le> floor_in cs n \<longleftrightarrow> c \<le> n"
proof -
  have "{c \<in> set cs. c \<le> n} \<noteq> {}" using assms(1) by auto
  then have "floor_in cs n \<le> n"
    using Max_in [of "{c \<in> set cs. c \<le> n}"] by (simp add: floor_in_def)
  moreover have "c \<le> floor_in cs n" if "c \<le> n"
    using that assms(2) by (auto simp: floor_in_def intro: Max_ge)
  ultimately show ?thesis by linarith
qed

lemma within_floor_in:
  assumes "0 \<in> set cs" "lo \<in> set cs" "Suc hi \<in> set cs"
  shows "within lo hi (floor_in cs n) = within lo hi n"
  using le_floor_in [OF assms(1,2), of n] le_floor_in [OF assms(1,3), of n] by (auto simp: within_def)

definition marks :: "(nat \<times> nat) list \<Rightarrow> nat list" where
  "marks rs = 0 # map fst rs @ map (Suc \<circ> snd) rs"

lemma in_ranges_floor_in:
  "set (marks rs) \<subseteq> set cs \<Longrightarrow> in_ranges rs (floor_in cs n) = in_ranges rs n"
  by (induction rs) (auto simp: in_ranges_def marks_def within_floor_in)

lemma ranges_agree:
  assumes "list_all (\<lambda>c. P (map (\<lambda>rs. in_ranges rs c) rss)) (marks (concat rss))"
  shows "P (map (\<lambda>rs. in_ranges rs n) rss)"
proof -
  let ?cs = "marks (concat rss)"
  have "P (map (\<lambda>rs. in_ranges rs (floor_in ?cs n)) rss)"
    using assms floor_in_mem [of ?cs n] by (auto simp: list_all_iff marks_def)
  moreover have "in_ranges rs (floor_in ?cs n) = in_ranges rs n" if "rs \<in> set rss" for rs
    using that by (intro in_ranges_floor_in) (auto simp: marks_def)
  ultimately show ?thesis by (simp cong: map_cong)
qed

text \<open>The IPv6 prefix lists as ranges.\<close>

definition special6 :: "(nat \<times> nat) list" where
  "special6 =
     [(grouped6 [0x2001, 1, 0, 0, 0, 0, 0, 1], grouped6 [0x2001, 1, 0, 0, 0, 0, 0, 1]),
      (grouped6 [0x2001, 1, 0, 0, 0, 0, 0, 2], grouped6 [0x2001, 1, 0, 0, 0, 0, 0, 2]),
      (grouped6 [0x2001, 1, 0, 0, 0, 0, 0, 3], grouped6 [0x2001, 1, 0, 0, 0, 0, 0, 3]),
      (grouped6 [0x2001, 3], grouped6 [0x2001, 4] - 1),
      (grouped6 [0x2001, 4, 0x112], grouped6 [0x2001, 4, 0x113] - 1),
      (grouped6 [0x2001, 0x20], grouped6 [0x2001, 0x30] - 1), (grouped6 [0x2001, 0x30], grouped6 [0x2001, 0x40] - 1)]"

definition nonpublic6 :: "(nat \<times> nat) list" where
  "nonpublic6 =
     [(grouped6 [0x2001], grouped6 [0x2001, 0x200] - 1), (grouped6 [0x2001, 0xdb8], grouped6 [0x2001, 0xdb9] - 1),
      (grouped6 [0x2002], grouped6 [0x2003] - 1), (grouped6 [0x3fff], grouped6 [0x3fff, 0x1000] - 1)]"

lemma ucast_unat: "unat (ucast (w :: 128 word) :: 32 word) = unat w mod 2 ^ 32"
  by (simp add: unsigned_ucast_eq take_bit_eq_mod)

lemma in_nat64: "prefix_Contains publicNAT64Prefix (V6 w z) \<longleftrightarrow> z = '''' \<and> in_ranges [nat64_range] (unat w)"
  by (simp add: ipv6_defs drop_bit_range range_defs)

lemma in_allocated6:
  "prefix_Contains allocatedGlobalIPv6Prefix (V6 w z) \<longleftrightarrow>
   z = '''' \<and> in_ranges [(grouped6 [0x2000], grouped6 [0x4000] - 1)] (unat w)"
  by (simp add: ipv6_defs drop_bit_range range_defs)

lemma in_nonpublic6: "containsAddr nonPublicIPv6Prefixes (V6 w []) = in_ranges nonpublic6 (unat w)"
  by (simp add: ipv6_defs drop_bit_range range_defs nonpublic6_def)

lemma in_special6:
  "containsAddr globallyReachableIPv6SpecialPrefixes (V6 w []) = in_ranges special6 (unat w)"
proof -
  have point: "w = v \<longleftrightarrow> within (unat v) (unat v) (unat w)" for v :: "128 word"
    by (auto simp: within_def word_unat_eq_iff)
  show ?thesis
    by (simp add: ipv6_defs drop_bit_range range_defs special6_def point)
qed

lemma reserved6_agrees:
  assumes "n < 2 ^ 128"
  shows "(in_ranges [(grouped6 [0x2000], grouped6 [0x4000] - 1)] n \<and> (in_ranges special6 n \<or> \<not> in_ranges nonpublic6 n))
    \<longleftrightarrow> \<not> in_ranges reserved6 n"
proof -
  have "in_ranges [(0, 2 ^ 128 - 1)] n" using assms by (simp add: in_ranges_def within_def)
  then show ?thesis
    using ranges_agree [of "\<lambda>bs. bs ! 0 \<longrightarrow> (bs ! 1 \<and> (bs ! 2 \<or> \<not> bs ! 3)) = (\<not> bs ! 4)"
      "[[(0, 2 ^ 128 - 1)], [(grouped6 [0x2000], grouped6 [0x4000] - 1)], special6, nonpublic6, reserved6]" n]
    by (simp add: marks_def range_defs special6_def nonpublic6_def within_def)
qed

lemma special6_reserved:
  assumes "\<not> IsGlobalUnicast (V6 w []) \<or> IsPrivate (V6 w [])"
  shows "in_ranges reserved6 (unat w) \<and> \<not> in_ranges [nat64_range] (unat w)"
proof -
  let ?rs = "[(0, 1), (grouped6 [0xff00], 2 ^ 128 - 1), (grouped6 [0xfe80], grouped6 [0xfec0] - 1),
    (grouped6 [0xfc00], grouped6 [0xfe00] - 1)]"
  have "in_ranges ?rs (unat w)"
    using assms by (auto simp: IsGlobalUnicast_def drop_bit_range in_ranges_def grouped6_def)
      (simp_all add: within_def)
  then show ?thesis
    using ranges_agree [of "\<lambda>bs. bs ! 0 \<longrightarrow> bs ! 1 \<and> \<not> bs ! 2" "[?rs, reserved6, [nat64_range]]" "unat w"]
    by (simp add: marks_def range_defs within_def)
qed

lemma PublicAddress_V6:
  assumes "Unmap (V6 w z) = V6 w z"
  shows "PublicAddress (V6 w z) \<longleftrightarrow> public_by_table (V6 w z)"
proof (cases "z = ''''")
  case False
  then have "\<not> prefix_Contains publicNAT64Prefix (V6 w z)" "\<not> prefix_Contains allocatedGlobalIPv6Prefix (V6 w z)"
    by (simp_all add: in_nat64 in_allocated6)
  then show ?thesis using False assms by (subst PublicAddress.simps) (simp add: Let_def)
next
  case zone: True
  have range: "unat w < 2 ^ 128" using unsigned_less [of w] by simp
  show ?thesis
  proof (cases "\<not> IsGlobalUnicast (V6 w []) \<or> IsPrivate (V6 w [])")
    case True
    then show ?thesis
      using zone assms special6_reserved [OF True] by (subst PublicAddress.simps) (simp add: Let_def)
  next
    case False
    then show ?thesis
      using zone assms reserved6_agrees [OF range]
      by (subst PublicAddress.simps)
        (simp add: Let_def in_nat64 in_allocated6 in_special6 in_nonpublic6 PublicAddress_V4 ucast_unat, blast)
  qed
qed

text \<open>C31: Outbound traffic is admitted to an address exactly when the address is in the public part of
  the table: \<^verbatim>\<open>PublicAddress\<close> unmaps an IPv4-mapped address first, refuses every address with a
  zone and everything outside \<^verbatim>\<open>2000::/3\<close>, looks at the embedded IPv4 address behind the NAT64
  prefix, and carves the globally reachable exceptions out of the reserved blocks. The table
  has one entry for each block that must not be reached (loopback, private, shared,
  link-local, documentation, benchmarking, multicast and reserved space among them) and no order.\<close>

theorem public_address_by_table: "PublicAddress a = public_by_table (Unmap a)"
proof -
  have idem: "Unmap (Unmap a) = Unmap a" by (cases a) simp_all
  have unmapped: "PublicAddress a = PublicAddress (Unmap a)"
    using PublicAddress.simps [of a] PublicAddress.simps [of "Unmap a"] unfolding idem by (rule trans [OF _ sym])
  show ?thesis
  proof (cases "Unmap a")
    case InvalidAddr
    then show ?thesis unfolding unmapped by (subst PublicAddress.simps) (simp add: IsGlobalUnicast_def)
  next
    case (V4 w)
    then show ?thesis unfolding unmapped by (simp add: PublicAddress_V4)
  next
    case (V6 w z)
    then show ?thesis unfolding unmapped using idem PublicAddress_V6 [of w z] by simp
  qed
qed

end
