(* ===== verification/WebhookSecret.thy ===== *)
theory WebhookSecret
  imports Sha256 "HOL-Library.AList"
begin

text \<open>
  \<^verbatim>\<open>internal/webhooksecret\<close>: the signing keys that the outbound and the inbound webhook
  adapters share. \<open>Decode\<close> reads a \<^verbatim>\<open>whsec_\<close> text through \<^verbatim>\<open>base64.StdEncoding\<close>, and
  \<open>Bind\<close> records which principal a key belongs to, by the digest of the key.

  The locale \<open>secret_bindings\<close> is the contract of the second: a key that was bound stays
  with its principal, so a table filled by bindings that all succeed never gives one key to
  two principals. Both manifests rest on it.
\<close>

section \<open>Standard base64\<close>

definition base64_value :: "char \<Rightarrow> nat option" where
  "base64_value c =
     (let n = (of_char c :: nat)
      in if 65 \<le> n \<and> n \<le> 90 then Some (n - 65)
         else if 97 \<le> n \<and> n \<le> 122 then Some (n - 71)
         else if 48 \<le> n \<and> n \<le> 57 then Some (n + 4)
         else if n = 43 then Some 62 else if n = 47 then Some 63 else None)"

text \<open>Groups of four characters; only the last may end in one or two padding characters, whose
  missing bits are ignored, as the encoding is not strict.\<close>

fun base64_groups :: "string \<Rightarrow> string option" where
  "base64_groups [] = Some []"
| "base64_groups (a # b # c # d # rest) =
     (case (base64_value a, base64_value b) of
        (Some x, Some y) \<Rightarrow>
          if c = CHR ''='' then
            (if d = CHR ''='' \<and> rest = [] then Some [char_of (x * 4 + y div 16)] else None)
          else (case base64_value c of
             None \<Rightarrow> None
           | Some z \<Rightarrow>
               if d = CHR ''='' then
                 (if rest = [] then Some [char_of (x * 4 + y div 16), char_of (y mod 16 * 16 + z div 4)] else None)
               else (case base64_value d of
                  None \<Rightarrow> None
                | Some u \<Rightarrow> map_option (\<lambda>bs. char_of (x * 4 + y div 16) # char_of (y mod 16 * 16 + z div 4)
                                            # char_of (z mod 4 * 64 + u) # bs) (base64_groups rest)))
      | _ \<Rightarrow> None)"
| "base64_groups _ = None"

text \<open>The decoder skips line ends wherever they stand.\<close>

definition base64_decode :: "string \<Rightarrow> string option" where
  "base64_decode s = base64_groups (filter (\<lambda>c. c \<noteq> char_of (10::nat) \<and> c \<noteq> char_of (13::nat)) s)"

section \<open>Keys\<close>

definition minKeyBytes :: nat where "minKeyBytes = 32"
definition maxKeyBytes :: nat where "maxKeyBytes = 64"

definition ValidKey :: "string \<Rightarrow> bool" where
  "ValidKey key = (minKeyBytes \<le> length key \<and> length key \<le> maxKeyBytes)"

definition cut_prefix :: "string \<Rightarrow> string \<Rightarrow> string option" where
  "cut_prefix p s = (if take (length p) s = p then Some (drop (length p) s) else None)"

definition secret_Decode :: "string \<Rightarrow> string option" where
  "secret_Decode value =
     (case cut_prefix ''whsec_'' value of
        None \<Rightarrow> None
      | Some encoded \<Rightarrow>
          (case base64_decode encoded of
             None \<Rightarrow> None
           | Some key \<Rightarrow> if \<not> ValidKey key then None else Some key))"

section \<open>Bindings\<close>

definition MaxManifestBytes :: nat where "MaxManifestBytes = 1048576"
definition MaxManifestEntries :: nat where "MaxManifestEntries = 4096"

type_synonym 'p bindings = "(string \<times> 'p) list"

definition secret_Bind :: "string \<Rightarrow> 'p \<Rightarrow> 'p bindings \<Rightarrow> 'p bindings option" where
  "secret_Bind secret owner b =
     (let digest = sha256 secret
      in if (case map_of b digest of Some previous \<Rightarrow> previous \<noteq> owner | None \<Rightarrow> False) then None
         else Some (AList.update digest owner b))"

definition holder :: "'p bindings \<Rightarrow> string \<Rightarrow> 'p option" where
  "holder b secret = map_of b (sha256 secret)"

locale secret_bindings =
  fixes bind :: "string \<Rightarrow> 'p \<Rightarrow> 'b \<Rightarrow> 'b option"
    and held :: "'b \<Rightarrow> string \<Rightarrow> 'p option"
  assumes bind_held: "bind s p b = Some b' \<Longrightarrow> held b' s = Some p"
    and bind_keeps: "bind s p b = Some b' \<Longrightarrow> held b t = Some q \<Longrightarrow> held b' t = Some q"
begin

text \<open>A table of keys all of which are held by the owner of their entry stays so when one more
  key is bound and entered, and in such a table equal keys have equal owners.\<close>

lemma bound_update:
  assumes "bind s p b = Some b'" "\<And>t u. look t = Some u \<Longrightarrow> held b u = Some (own t)" "own k = p"
    and "(look(k \<mapsto> s)) t = Some u"
  shows "held b' u = Some (own t)"
  using assms bind_held bind_keeps by (cases "t = k") auto

lemma bound_owner:
  assumes "\<And>t u. look t = Some u \<Longrightarrow> held b u = Some (own t)" "look t = Some u" "look t' = Some u"
  shows "own t = own t'"
  using assms(1) [OF assms(2)] assms(1) [OF assms(3)] by simp

end

interpretation keys: secret_bindings secret_Bind holder
  by unfold_locales (auto simp: secret_Bind_def holder_def Let_def update_conv' split: if_splits option.splits)

lemma secret_Decode_valid: "secret_Decode value = Some key \<Longrightarrow> ValidKey key"
  by (auto simp: secret_Decode_def split: option.splits if_splits)

end
