(* ===== verification/WebhookDispatch.thy ===== *)
theory WebhookDispatch
  imports WebhookSecret OutboundTrust "HOL-Library.List_Lexorder" "HOL-Library.Char_ord"
begin

text \<open>
  \<^verbatim>\<open>internal/infra/postgreswebhook/{dispatcher,endpoints,secrets,errors}.go\<close>: the endpoint and
  secret manifests, the preparation of a fan-out (one delivery for each receiver, in
  sorted order, with identifiers derived by hashing), its staging in the caller's
  transaction, and the read back after a commit whose outcome is unknown.

  The record \<open>weblib\<close> stands for what the code takes from libraries it only calls: the URL
  parser, the JSON codecs and the time format. The River job queue is the argument \<open>ins\<close>
  of \<open>Stage\<close>; \<open>river_laws\<close> states what its documentation promises of an insert with
  unique options: a job whose unique arguments are present is skipped and the present job
  is returned, and any other job is added.

  The abstract specification is \<open>stage_spec\<close>: a fan-out is added whole, found whole, or
  refused.
\<close>

section \<open>Errors and tokens\<close>

abbreviation wh_ErrConfig :: go_error where "wh_ErrConfig \<equiv> Sentinel ''postgreswebhook.ErrConfig''"
abbreviation wh_ErrConflict :: go_error where "wh_ErrConflict \<equiv> Sentinel ''postgreswebhook.ErrConflict''"
abbreviation wh_ErrNotFound :: go_error where "wh_ErrNotFound \<equiv> Sentinel ''postgreswebhook.ErrNotFound''"
abbreviation errDestinationDenied :: go_error where "errDestinationDenied \<equiv> Sentinel ''postgreswebhook.errDestinationDenied''"
abbreviation errSecretUnavailable :: go_error where "errSecretUnavailable \<equiv> Sentinel ''postgreswebhook.errSecretUnavailable''"
abbreviation errResponseLimit :: go_error where "errResponseLimit \<equiv> Sentinel ''postgreswebhook.errResponseLimit''"

definition MaxEventDataBytes :: nat where "MaxEventDataBytes = 131072"
definition MaxReceivers :: nat where "MaxReceivers = 1000"
definition maxIdentityBytes :: nat where "maxIdentityBytes = 256"
definition deliveryKind :: string where "deliveryKind = ''outbound_webhook''"
definition maxAttempts :: int where "maxAttempts = 20"

definition validateToken :: "string \<Rightarrow> string \<Rightarrow> go_error option" where
  "validateToken name value =
     (if value = '''' \<or> maxIdentityBytes < length value \<or> \<not> valid_utf8 value
         \<or> contains_rune (\<lambda>r. is_control r \<or> is_space r) value
      then Some (WrapFmt (name @ '' is invalid'') wh_ErrConfig) else None)"

text \<open>Go ranges over a map of names in no fixed order: which invalid name the error carries is
  not determined, so the first in the order of the source stands for all of them.\<close>

fun validate_tokens :: "(string \<times> string) list \<Rightarrow> go_error option" where
  "validate_tokens [] = None"
| "validate_tokens ((name, value) # rest) =
     (case validateToken name value of Some err \<Rightarrow> Some err | None \<Rightarrow> validate_tokens rest)"

section \<open>Library code\<close>

record endpointEntry =
  ee_OwnerScope :: string
  ee_ReceiverID :: string
  ee_Generation :: int
  ee_URL :: string
  ee_ActiveKeyReference :: string
  ee_PredecessorKeyReference :: string

record secretEntry =
  se_OwnerScope :: string
  se_ReceiverID :: string
  se_KeyReference :: string
  se_Secret :: string

record deliveryArgs =
  da_AcceptanceID :: string
  da_DeliveryID :: string
  da_OwnerScope :: string
  da_ReceiverID :: string
  da_ReceiverGeneration :: int
  da_URL :: string
  da_ActiveKeyReference :: string
  da_PredecessorKeyReference :: string
  da_FanoutFingerprint :: string
  da_Body :: string

record weblib =
  url_Parse :: "string \<Rightarrow> url option"
  url_String :: "url \<Rightarrow> string"
  json_Valid :: "string \<Rightarrow> bool"
  marshal_body :: "string \<Rightarrow> string \<Rightarrow> string \<Rightarrow> go_error + string"
  format_rfc3339nano :: "instant \<Rightarrow> string"
  unmarshal_endpoints :: "string \<Rightarrow> endpointEntry list option"
  unmarshal_secrets :: "string \<Rightarrow> secretEntry list option"
  unmarshal_args :: "string \<Rightarrow> deliveryArgs option"

section \<open>Webhook URLs\<close>

definition errDestinationURLDenied :: go_error where
  "errDestinationURLDenied = WrapFmt ''destination URL must be absolute HTTPS on port 443'' errDestinationDenied"

definition acceptableWebhookURL :: "url \<Rightarrow> bool" where
  "acceptableWebhookURL u =
     (u_Scheme u = ''https'' \<and> u_Hostname u \<noteq> '''' \<and> u_User u = None \<and> u_RawQuery u = '''' \<and> \<not> u_ForceQuery u
      \<and> u_Fragment u = '''' \<and> (u_Port u = '''' \<or> u_Port u = ''443''))"

text \<open>\<^verbatim>\<open>net.JoinHostPort\<close>: a host with a colon is bracketed.\<close>

definition JoinHostPort :: "string \<Rightarrow> string \<Rightarrow> string" where
  "JoinHostPort host port =
     (if CHR '':'' \<in> set host then ''['' @ host @ '']:'' @ port else host @ '':'' @ port)"

definition parseWebhookURL :: "weblib \<Rightarrow> string \<Rightarrow> go_error + url" where
  "parseWebhookURL lib raw =
     (if 2048 < length raw then Inl errDestinationURLDenied
      else case url_Parse lib raw of
        None \<Rightarrow> Inl errDestinationURLDenied
      | Some parsed \<Rightarrow>
          if \<not> acceptableWebhookURL parsed then Inl errDestinationURLDenied
          else Inr (if u_Port parsed = '''' then parsed\<lparr>u_Host := JoinHostPort (u_Hostname parsed) ''443''\<rparr>
                    else parsed))"

section \<open>The endpoint manifest\<close>

definition maxEndpointManifestBytes :: nat where "maxEndpointManifestBytes = 1048576"
definition maxEndpointManifestEntries :: nat where "maxEndpointManifestEntries = 4096"

type_synonym endpointKey = "string \<times> string"

record endpoint =
  ep_OwnerScope :: string
  ep_ReceiverID :: string
  ep_Generation :: int
  ep_URL :: string
  ep_ActiveKeyReference :: string
  ep_PredecessorKeyReference :: string

type_synonym EndpointManifest = "(endpointKey \<times> endpoint) list"

definition parse_endpoint :: "weblib \<Rightarrow> endpointEntry \<Rightarrow> EndpointManifest \<Rightarrow> go_error + EndpointManifest" where
  "parse_endpoint lib e m =
     (if validate_tokens [(''owner_scope'', ee_OwnerScope e), (''receiver_id'', ee_ReceiverID e),
           (''active_key_reference'', ee_ActiveKeyReference e)] \<noteq> None
      then Inl (Fresh ''parse webhook endpoints: invalid identifier'')
      else if ee_PredecessorKeyReference e \<noteq> ''''
           \<and> validateToken ''predecessor_key_reference'' (ee_PredecessorKeyReference e) \<noteq> None
      then Inl (Fresh ''parse webhook endpoints: invalid predecessor key'')
      else if ee_PredecessorKeyReference e \<noteq> '''' \<and> ee_PredecessorKeyReference e = ee_ActiveKeyReference e
      then Inl (Fresh ''parse webhook endpoints: predecessor key must differ from active key'')
      else if ee_Generation e \<le> 0 then Inl (Fresh ''parse webhook endpoints: positive generation is required'')
      else case parseWebhookURL lib (ee_URL e) of
        Inl err \<Rightarrow> Inl err
      | Inr parsed \<Rightarrow>
          let key = (ee_OwnerScope e, ee_ReceiverID e)
          in if map_of m key \<noteq> None then Inl (Fresh ''parse webhook endpoints: duplicate receiver'')
             else Inr (AList.update key
               \<lparr>ep_OwnerScope = ee_OwnerScope e, ep_ReceiverID = ee_ReceiverID e, ep_Generation = ee_Generation e,
                ep_URL = url_String lib parsed, ep_ActiveKeyReference = ee_ActiveKeyReference e,
                ep_PredecessorKeyReference = ee_PredecessorKeyReference e\<rparr> m))"

fun parse_endpoints :: "weblib \<Rightarrow> endpointEntry list \<Rightarrow> EndpointManifest \<Rightarrow> go_error + EndpointManifest" where
  "parse_endpoints lib [] m = Inr m"
| "parse_endpoints lib (e # es) m =
     (case parse_endpoint lib e m of Inl err \<Rightarrow> Inl err | Inr m' \<Rightarrow> parse_endpoints lib es m')"

definition ParseEndpointManifest :: "weblib \<Rightarrow> string \<Rightarrow> go_error + EndpointManifest" where
  "ParseEndpointManifest lib raw =
     (if raw = '''' \<or> maxEndpointManifestBytes < length raw
      then Inl (Fresh ''parse webhook endpoints: document size is invalid'')
      else case unmarshal_endpoints lib raw of
        None \<Rightarrow> Inl (Fresh ''parse webhook endpoints: invalid JSON'')
      | Some entries \<Rightarrow>
          if entries = [] \<or> maxEndpointManifestEntries < length entries
          then Inl (Fresh ''parse webhook endpoints: entries are required'')
          else parse_endpoints lib entries [])"

definition endpoint_resolve :: "EndpointManifest option \<Rightarrow> string \<Rightarrow> string \<Rightarrow> go_error + endpoint" where
  "endpoint_resolve m owner receiver =
     (case m of
        None \<Rightarrow> Inl (WrapFmt ''endpoint manifest is required'' wh_ErrConfig)
      | Some entries \<Rightarrow>
          (case map_of entries (owner, receiver) of
             None \<Rightarrow> Inl (WrapFmt ''receiver is not registered'' wh_ErrNotFound)
           | Some e \<Rightarrow> Inr e))"

section \<open>The secret manifest\<close>

type_synonym secretTuple = "string \<times> string \<times> string"
type_synonym secretPrincipal = "string \<times> string"
type_synonym SecretManifest = "(secretTuple \<times> string) list"

definition parse_secret ::
  "secretEntry \<Rightarrow> SecretManifest \<times> secretPrincipal bindings \<Rightarrow> go_error + SecretManifest \<times> secretPrincipal bindings" where
  "parse_secret e mb =
     (if validate_tokens [(''owner_scope'', se_OwnerScope e), (''receiver_id'', se_ReceiverID e),
           (''key_reference'', se_KeyReference e)] \<noteq> None
      then Inl (Fresh ''parse webhook secret manifest: invalid identifier'')
      else case secret_Decode (se_Secret e) of
        None \<Rightarrow> Inl (Fresh ''parse webhook secret manifest: secret encoding is invalid'')
      | Some secret \<Rightarrow>
          let tuple = (se_OwnerScope e, se_ReceiverID e, se_KeyReference e)
          in if map_of (fst mb) tuple \<noteq> None then Inl (Fresh ''parse webhook secret manifest: duplicate binding'')
             else case secret_Bind secret (se_OwnerScope e, se_ReceiverID e) (snd mb) of
               None \<Rightarrow> Inl (Fresh ''parse webhook secret manifest: key is cross-bound'')
             | Some b \<Rightarrow> Inr (AList.update tuple secret (fst mb), b))"

fun parse_secrets ::
  "secretEntry list \<Rightarrow> SecretManifest \<times> secretPrincipal bindings \<Rightarrow> go_error + SecretManifest \<times> secretPrincipal bindings" where
  "parse_secrets [] mb = Inr mb"
| "parse_secrets (e # es) mb = (case parse_secret e mb of Inl err \<Rightarrow> Inl err | Inr mb' \<Rightarrow> parse_secrets es mb')"

definition ParseSecretManifest :: "weblib \<Rightarrow> string \<Rightarrow> go_error + SecretManifest" where
  "ParseSecretManifest lib raw =
     (if raw = '''' \<or> MaxManifestBytes < length raw
      then Inl (Fresh ''parse webhook secret manifest: document size is invalid'')
      else case unmarshal_secrets lib raw of
        None \<Rightarrow> Inl (Fresh ''parse webhook secret manifest: invalid JSON'')
      | Some entries \<Rightarrow>
          if entries = [] \<or> MaxManifestEntries < length entries
          then Inl (Fresh ''parse webhook secret manifest: entries are required'')
          else (case parse_secrets entries ([], []) of Inl err \<Rightarrow> Inl err | Inr mb \<Rightarrow> Inr (fst mb)))"

definition secret_resolve :: "SecretManifest option \<Rightarrow> string \<Rightarrow> string \<Rightarrow> string \<Rightarrow> go_error + string" where
  "secret_resolve m owner receiver reference =
     (case m of
        None \<Rightarrow> Inl (WrapFmt ''secret manifest is required'' wh_ErrConfig)
      | Some entries \<Rightarrow>
          (case map_of entries (owner, receiver, reference) of
             None \<Rightarrow> Inl (WrapFmt ''binding not found'' errSecretUnavailable)
           | Some v \<Rightarrow> Inr v))"

section \<open>Identifiers\<close>

definition writeFields :: "string list \<Rightarrow> string" where
  "writeFields values = concat (map (\<lambda>v. v @ [char_of (0::nat)]) values)"

definition deriveStableID :: "string \<Rightarrow> string list \<Rightarrow> string" where
  "deriveStableID prefix values = prefix @ hex_encode (sha256 (writeFields values))"

definition deriveDeliveryID :: "string \<Rightarrow> string \<Rightarrow> string \<Rightarrow> int \<Rightarrow> string" where
  "deriveDeliveryID owner eventID receiver generation =
     deriveStableID ''whd_'' [owner, eventID, receiver, decimal_int generation]"

definition endpoint_fields :: "endpoint \<Rightarrow> string list" where
  "endpoint_fields e =
     [ep_ReceiverID e, decimal_int (ep_Generation e), ep_URL e, ep_ActiveKeyReference e, ep_PredecessorKeyReference e]"

definition fanout_fields :: "string \<Rightarrow> string \<Rightarrow> string \<Rightarrow> endpoint list \<Rightarrow> string list" where
  "fanout_fields owner eventID body endpoints = [owner, eventID, body] @ concat (map endpoint_fields endpoints)"

definition fingerprintFanout :: "string \<Rightarrow> string \<Rightarrow> string \<Rightarrow> endpoint list \<Rightarrow> string" where
  "fingerprintFanout owner eventID body endpoints =
     hex_encode (sha256 (writeFields (fanout_fields owner eventID body endpoints)))"

section \<open>Preparing a fan-out\<close>

record wh_Event =
  we_OwnerScope :: string
  we_ID :: string
  we_Type :: string
  we_OccurredAt :: instant
  we_Data :: string

definition validateWebhookEvent :: "weblib \<Rightarrow> wh_Event \<Rightarrow> go_error option" where
  "validateWebhookEvent lib event =
     (case validate_tokens [(''owner_scope'', we_OwnerScope event), (''event_id'', we_ID event),
             (''event_type'', we_Type event)] of
        Some err \<Rightarrow> Some err
      | None \<Rightarrow>
          if we_OccurredAt event = zero_time then Some (WrapFmt ''occurred_at is required'' wh_ErrConfig)
          else if we_Data event = '''' \<or> MaxEventDataBytes < length (we_Data event) \<or> \<not> json_Valid lib (we_Data event)
          then Some (WrapFmt ''data must be valid JSON'' wh_ErrConfig) else None)"

definition validate_args :: "weblib \<Rightarrow> deliveryArgs \<Rightarrow> go_error option" where
  "validate_args lib a =
     (case validate_tokens [(''acceptance_id'', da_AcceptanceID a), (''delivery_id'', da_DeliveryID a),
             (''owner_scope'', da_OwnerScope a), (''receiver_id'', da_ReceiverID a),
             (''active_key_reference'', da_ActiveKeyReference a), (''fanout_fingerprint'', da_FanoutFingerprint a)] of
        Some err \<Rightarrow> Some err
      | None \<Rightarrow>
          (case (if da_PredecessorKeyReference a = '''' then None
                 else validateToken ''predecessor_key_reference'' (da_PredecessorKeyReference a)) of
             Some err \<Rightarrow> Some err
           | None \<Rightarrow>
               if da_ReceiverGeneration a \<le> 0 \<or> da_Body a = '''' \<or> \<not> json_Valid lib (da_Body a)
               then Some (WrapFmt ''receiver generation and JSON body are required'' wh_ErrConfig)
               else (case parseWebhookURL lib (da_URL a) of Inl err \<Rightarrow> Some err | Inr _ \<Rightarrow> None)))"

text \<open>The loop over the sorted receivers; \<open>previous\<close> is \<^verbatim>\<open>ordered[i-1]\<close>.\<close>

fun check_receivers :: "string option \<Rightarrow> string list \<Rightarrow> go_error option" where
  "check_receivers previous [] = None"
| "check_receivers previous (r # rs) =
     (case validateToken ''receiver_id'' r of
        Some err \<Rightarrow> Some err
      | None \<Rightarrow> if previous = Some r then Some (WrapFmt ''duplicate receiver'' wh_ErrConflict)
                else check_receivers (Some r) rs)"

fun resolve_all :: "EndpointManifest \<Rightarrow> string \<Rightarrow> string list \<Rightarrow> go_error + endpoint list" where
  "resolve_all m owner [] = Inr []"
| "resolve_all m owner (r # rs) =
     (case endpoint_resolve (Some m) owner r of
        Inl err \<Rightarrow> Inl err
      | Inr e \<Rightarrow> (case resolve_all m owner rs of Inl err \<Rightarrow> Inl err | Inr es \<Rightarrow> Inr (e # es)))"

definition prepared_args :: "wh_Event \<Rightarrow> string \<Rightarrow> string \<Rightarrow> string option \<Rightarrow> endpoint \<Rightarrow> deliveryArgs" where
  "prepared_args event body fingerprint anchor e =
     (let deliveryID = deriveDeliveryID (we_OwnerScope event) (we_ID event) (ep_ReceiverID e) (ep_Generation e)
      in \<lparr>da_AcceptanceID = (case anchor of Some a \<Rightarrow> a | None \<Rightarrow> deliveryID), da_DeliveryID = deliveryID,
          da_OwnerScope = we_OwnerScope event, da_ReceiverID = ep_ReceiverID e,
          da_ReceiverGeneration = ep_Generation e, da_URL = ep_URL e,
          da_ActiveKeyReference = ep_ActiveKeyReference e,
          da_PredecessorKeyReference = ep_PredecessorKeyReference e,
          da_FanoutFingerprint = fingerprint, da_Body = body\<rparr>)"

text \<open>The last loop: the event anchor is the acceptance identifier of the first delivery.\<close>

fun build_deliveries ::
  "weblib \<Rightarrow> wh_Event \<Rightarrow> string \<Rightarrow> string \<Rightarrow> string option \<Rightarrow> endpoint list \<Rightarrow> go_error + deliveryArgs list" where
  "build_deliveries lib event body fingerprint anchor [] = Inr []"
| "build_deliveries lib event body fingerprint anchor (e # es) =
     (let args = prepared_args event body fingerprint anchor e
      in case validate_args lib args of
           Some err \<Rightarrow> Inl (WrapFmt (''prepare webhook delivery '' @ da_DeliveryID args) err)
         | None \<Rightarrow>
             (case build_deliveries lib event body fingerprint None es of
                Inl err \<Rightarrow> Inl err
              | Inr ds \<Rightarrow> Inr (args # ds)))"

definition Prepare ::
  "weblib \<Rightarrow> EndpointManifest \<Rightarrow> wh_Event \<Rightarrow> string list \<Rightarrow> go_error + deliveryArgs list" where
  "Prepare lib endpoints event receivers =
     (case validateWebhookEvent lib event of
        Some err \<Rightarrow> Inl err
      | None \<Rightarrow>
          if receivers = [] \<or> MaxReceivers < length receivers
          then Inl (WrapFmt ''receivers must contain 1..1000 entries'' wh_ErrConfig)
          else let ordered = sort receivers
               in case check_receivers None ordered of
                    Some err \<Rightarrow> Inl err
                  | None \<Rightarrow>
                      (case marshal_body lib (we_Type event) (format_rfc3339nano lib (we_OccurredAt event)) (we_Data event) of
                         Inl err \<Rightarrow> Inl (errorf2 ''encode event'' wh_ErrConfig err)
                       | Inr body \<Rightarrow>
                           (case resolve_all endpoints (we_OwnerScope event) ordered of
                              Inl err \<Rightarrow> Inl err
                            | Inr resolved \<Rightarrow>
                                build_deliveries lib event body
                                  (fingerprintFanout (we_OwnerScope event) (we_ID event) body resolved)
                                  (Some (deriveStableID ''whe_'' [we_OwnerScope event, we_ID event])) resolved)))"

definition DeliveryIDs :: "deliveryArgs list \<Rightarrow> string list" where
  "DeliveryIDs ds = map da_DeliveryID ds"

section \<open>Staging\<close>

record insertOpts =
  io_MaxAttempts :: int
  io_ByArgs :: bool
  io_ByAllStates :: bool

definition deliveryInsertOpts :: insertOpts where
  "deliveryInsertOpts = \<lparr>io_MaxAttempts = maxAttempts, io_ByArgs = True, io_ByAllStates = True\<rparr>"

text \<open>What \<^verbatim>\<open>InsertTx\<close> returns: whether the insert was skipped, and the encoded arguments of the
  job that is now present (\<open>None\<close> for a nil job).\<close>

record insertResult =
  ir_Skipped :: bool
  ir_Job :: "string option"

type_synonym 't inserter = "insertOpts \<Rightarrow> deliveryArgs \<Rightarrow> 't \<Rightarrow> (go_error + insertResult) \<times> 't"

definition matchesFanout :: "deliveryArgs \<Rightarrow> deliveryArgs \<Rightarrow> bool" where
  "matchesFanout got want =
     (da_DeliveryID got = da_DeliveryID want \<and> da_FanoutFingerprint got = da_FanoutFingerprint want)"

definition encodedMatchesFanout :: "weblib \<Rightarrow> string \<Rightarrow> deliveryArgs \<Rightarrow> bool" where
  "encodedMatchesFanout lib encoded want =
     (case unmarshal_args lib encoded of None \<Rightarrow> False | Some got \<Rightarrow> matchesFanout got want)"

fun stage_loop ::
  "weblib \<Rightarrow> 't inserter \<Rightarrow> deliveryArgs list \<Rightarrow> nat \<Rightarrow> nat \<Rightarrow> 't \<Rightarrow> (go_error + bool) \<times> 't" where
  "stage_loop lib ins [] newCount existingCount tx =
     (if newCount \<noteq> 0 \<and> existingCount \<noteq> 0 then Inl (WrapFmt ''partial fanout replay'' wh_ErrConflict)
      else Inr (newCount \<noteq> 0), tx)"
| "stage_loop lib ins (d # ds) newCount existingCount tx =
     (case ins deliveryInsertOpts d tx of
        (Inl err, tx') \<Rightarrow> (Inl (WrapFmt ''stage webhook delivery'' err), tx')
      | (Inr result, tx') \<Rightarrow>
          if \<not> ir_Skipped result then stage_loop lib ins ds (newCount + 1) existingCount tx'
          else if (case ir_Job result of None \<Rightarrow> True | Some encoded \<Rightarrow> \<not> encodedMatchesFanout lib encoded d)
          then (Inl wh_ErrConflict, tx')
          else stage_loop lib ins ds newCount (existingCount + 1) tx')"

text \<open>\<open>client\<close> is \<open>None\<close> when the River client or the transaction is nil.\<close>

definition Stage :: "weblib \<Rightarrow> 't inserter option \<Rightarrow> deliveryArgs list \<Rightarrow> 't \<Rightarrow> (go_error + bool) \<times> 't" where
  "Stage lib client ds tx =
     (case client of
        None \<Rightarrow> (Inl (WrapFmt ''prepared deliveries and transaction are required'' wh_ErrConfig), tx)
      | Some ins \<Rightarrow>
          if ds = [] then (Inl (WrapFmt ''prepared deliveries and transaction are required'' wh_ErrConfig), tx)
          else stage_loop lib ins ds 0 0 tx)"

section \<open>Reading back after an unknown commit\<close>

text \<open>The rows of the query: each is scanned, which may fail; the iteration may end in an error.\<close>

fun found_rows ::
  "weblib \<Rightarrow> (go_error + string) list \<Rightarrow> (string \<times> deliveryArgs) list \<Rightarrow> go_error + (string \<times> deliveryArgs) list" where
  "found_rows lib [] found = Inr found"
| "found_rows lib (row # rows) found =
     (case row of
        Inl err \<Rightarrow> Inl (WrapFmt ''resolve webhook acceptance'' err)
      | Inr encoded \<Rightarrow>
          (case unmarshal_args lib encoded of
             None \<Rightarrow> Inl (WrapFmt ''stored webhook arguments are invalid'' wh_ErrConflict)
           | Some args \<Rightarrow> found_rows lib rows (AList.update (da_DeliveryID args) args found)))"

text \<open>\<open>pool\<close> is the query the pool runs, \<open>None\<close> when it is nil.\<close>

definition ResolveCurrent ::
  "weblib \<Rightarrow> (string list \<Rightarrow> go_error + (go_error + string) list \<times> go_error option) option \<Rightarrow> deliveryArgs list
   \<Rightarrow> go_error + bool" where
  "ResolveCurrent lib pool ds =
     (case pool of
        None \<Rightarrow> Inl (WrapFmt ''prepared deliveries and pool are required'' wh_ErrConfig)
      | Some query \<Rightarrow>
      if ds = [] then Inl (WrapFmt ''prepared deliveries and pool are required'' wh_ErrConfig)
      else case query (DeliveryIDs ds) of
        Inl err \<Rightarrow> Inl (WrapFmt ''resolve webhook acceptance'' err)
      | Inr (rows, rowsErr) \<Rightarrow>
          (case found_rows lib rows [] of
             Inl err \<Rightarrow> Inl err
           | Inr found \<Rightarrow>
               (case rowsErr of
                  Some err \<Rightarrow> Inl (WrapFmt ''resolve webhook acceptance'' err)
                | None \<Rightarrow>
                    if found = [] then Inr False
                    else if length found \<noteq> length ds
                    then Inl (WrapFmt ''fanout readback is not atomic'' wh_ErrConflict)
                    else if list_ex (\<lambda>d. case map_of found (da_DeliveryID d) of
                              None \<Rightarrow> True | Some stored \<Rightarrow> \<not> matchesFanout stored d) ds
                    then Inl wh_ErrConflict
                    else Inr True)))"

section \<open>Identity of a fan-out\<close>

abbreviation no_nul :: "string \<Rightarrow> bool" where
  "no_nul v \<equiv> char_of (0::nat) \<notin> set v"

lemma writeFields_simps [simp]:
  "writeFields [] = []" "writeFields (v # vs) = v @ char_of (0::nat) # writeFields vs"
  by (simp_all add: writeFields_def)

lemma nul_split:
  "no_nul v \<Longrightarrow> no_nul w \<Longrightarrow> v @ char_of (0::nat) # s = w @ char_of (0::nat) # t \<longleftrightarrow> v = w \<and> s = t"
  by (induction v arbitrary: w) (case_tac w; auto)+

lemma writeFields_inject:
  "list_all no_nul vs \<Longrightarrow> list_all no_nul ws \<Longrightarrow> writeFields vs = writeFields ws \<Longrightarrow> vs = ws"
proof (induction vs arbitrary: ws)
  case Nil
  then show ?case by (cases ws) simp_all
next
  case (Cons v vs)
  from Cons.prems(3) obtain w ws' where ws: "ws = w # ws'" by (cases ws) simp_all
  from Cons.prems(3) have "v = w \<and> writeFields vs = writeFields ws'"
    unfolding ws writeFields_simps using Cons.prems(1,2) ws by (subst (asm) nul_split) simp_all
  then show ?case using Cons.IH [of ws'] Cons.prems(1,2) ws by simp
qed

interpretation webhook_fields: framing writeFields "list_all no_nul"
  by unfold_locales (rule writeFields_inject)

text \<open>A valid token has no NUL byte: NUL is a control character.\<close>

lemma validateToken_no_nul:
  assumes "validateToken name v = None"
  shows "no_nul v"
proof
  assume "char_of (0::nat) \<in> set v"
  then have "0 \<in> set (runes v)" using ascii_byte_is_rune [of "char_of (0::nat)" v] by simp
  then have "contains_rune (\<lambda>r. is_control r \<or> is_space r) v"
    unfolding contains_rune_def list_ex_iff by (intro bexI [of _ 0]) (simp add: is_control_def)
  with assms show False by (simp add: validateToken_def)
qed

lemma validate_tokens_None:
  "validate_tokens nvs = None \<longleftrightarrow> (\<forall>(n, v) \<in> set nvs. validateToken n v = None)"
  by (induction nvs rule: validate_tokens.induct) (auto split: option.splits)

lemma is_digit_not_nul: "is_digit c \<Longrightarrow> c \<noteq> char_of (0::nat)"
  by (auto simp: is_digit_def between_def)

lemma decimal_int_no_nul [simp]: "no_nul (decimal_int i)"
proof -
  have "no_nul (decimal n)" for n
    using decimal_digits [of n] is_digit_not_nul by (auto simp: list_all_iff)
  moreover have "char_of (0::nat) \<noteq> CHR ''-''" by code_simp
  ultimately show ?thesis by (auto simp: decimal_int_def)
qed

lemma decimal_int_inject: "0 < i \<Longrightarrow> 0 < j \<Longrightarrow> decimal_int i = decimal_int j \<longleftrightarrow> i = j"
  by (auto simp: decimal_int_def decimal_inject)

text \<open>What the code relies on: the URL parser refuses control characters, and encoded JSON has none.\<close>

definition weblib_laws :: "weblib \<Rightarrow> bool" where
  "weblib_laws lib =
     ((\<forall>s u. url_Parse lib s = Some u \<longrightarrow> no_nul s) \<and>
      (\<forall>t ts d b. marshal_body lib t ts d = Inr b \<longrightarrow> no_nul b))"

lemma validate_args_None:
  assumes "weblib_laws lib" "validate_args lib a = None"
  shows "no_nul (da_OwnerScope a)" "no_nul (da_ReceiverID a)" "no_nul (da_ActiveKeyReference a)"
    "no_nul (da_PredecessorKeyReference a)" "no_nul (da_URL a)" "0 < da_ReceiverGeneration a"
proof -
  have "validate_tokens [(''acceptance_id'', da_AcceptanceID a), (''delivery_id'', da_DeliveryID a),
      (''owner_scope'', da_OwnerScope a), (''receiver_id'', da_ReceiverID a),
      (''active_key_reference'', da_ActiveKeyReference a), (''fanout_fingerprint'', da_FanoutFingerprint a)] = None"
    using assms(2) by (auto simp: validate_args_def split: option.splits)
  then show "no_nul (da_OwnerScope a)" "no_nul (da_ReceiverID a)" "no_nul (da_ActiveKeyReference a)"
    unfolding validate_tokens_None by (auto dest!: validateToken_no_nul)
  show "no_nul (da_PredecessorKeyReference a)" "0 < da_ReceiverGeneration a"
    using assms(2)
    by (auto simp: validate_args_def split: option.splits if_splits dest: validateToken_no_nul)
  have "\<exists>u. url_Parse lib (da_URL a) = Some u"
    using assms(2) by (auto simp: validate_args_def parseWebhookURL_def split: option.splits if_splits)
  then show "no_nul (da_URL a)" using assms(1) by (auto simp: weblib_laws_def)
qed

lemma build_deliveries_Inr:
  "build_deliveries lib event body fp anchor es = Inr ds \<Longrightarrow>
   (\<forall>d \<in> set ds. validate_args lib d = None) \<and>
   ds = (case es of [] \<Rightarrow> [] | e # rest \<Rightarrow>
           prepared_args event body fp anchor e # map (prepared_args event body fp None) rest)"
proof (induction es arbitrary: anchor ds)
  case (Cons e es)
  then obtain rest where r: "build_deliveries lib event body fp None es = Inr rest"
    and ds: "ds = prepared_args event body fp anchor e # rest"
    and v: "validate_args lib (prepared_args event body fp anchor e) = None"
    by (auto simp: Let_def split: option.splits sum.splits)
  from Cons.IH [OF r] have "(\<forall>d \<in> set rest. validate_args lib d = None)"
    and "rest = map (prepared_args event body fp None) es"
    by (cases es; simp)+
  with ds v show ?case by simp
qed simp

lemma validateWebhookEvent_None:
  assumes "validateWebhookEvent lib event = None"
  shows "no_nul (we_OwnerScope event)" "no_nul (we_ID event)"
proof -
  have "validate_tokens [(''owner_scope'', we_OwnerScope event), (''event_id'', we_ID event),
      (''event_type'', we_Type event)] = None"
    using assms by (auto simp: validateWebhookEvent_def split: option.splits)
  then show "no_nul (we_OwnerScope event)" "no_nul (we_ID event)"
    unfolding validate_tokens_None by (auto dest!: validateToken_no_nul)
qed

definition deliveries_of :: "wh_Event \<Rightarrow> string \<Rightarrow> endpoint list \<Rightarrow> deliveryArgs list" where
  "deliveries_of event body es =
     (let fp = fingerprintFanout (we_OwnerScope event) (we_ID event) body es
      in case es of [] \<Rightarrow> [] | e # rest \<Rightarrow>
           prepared_args event body fp (Some (deriveStableID ''whe_'' [we_OwnerScope event, we_ID event])) e
           # map (prepared_args event body fp None) rest)"

lemma resolve_all_length: "resolve_all m owner rs = Inr es \<Longrightarrow> length es = length rs"
  by (induction rs arbitrary: es) (auto split: sum.splits)

lemma Prepare_Inr:
  assumes "Prepare lib m event rs = Inr ds"
  obtains body es where "marshal_body lib (we_Type event) (format_rfc3339nano lib (we_OccurredAt event)) (we_Data event) = Inr body"
    and "validateWebhookEvent lib event = None" and "check_receivers None (sort rs) = None"
    and "resolve_all m (we_OwnerScope event) (sort rs) = Inr es" and "es \<noteq> []"
    and "ds = deliveries_of event body es" and "\<forall>d \<in> set ds. validate_args lib d = None"
proof -
  from assms obtain body es where p: "marshal_body lib (we_Type event) (format_rfc3339nano lib (we_OccurredAt event)) (we_Data event) = Inr body"
      "validateWebhookEvent lib event = None" "check_receivers None (sort rs) = None" "rs \<noteq> []"
      "resolve_all m (we_OwnerScope event) (sort rs) = Inr es"
    and b: "build_deliveries lib event body (fingerprintFanout (we_OwnerScope event) (we_ID event) body es)
        (Some (deriveStableID ''whe_'' [we_OwnerScope event, we_ID event])) es = Inr ds"
    by (auto simp: Prepare_def Let_def split: option.splits if_splits sum.splits)
  have "es \<noteq> []" using resolve_all_length [OF p(5)] p(4) by auto
  moreover have "ds = deliveries_of event body es" "\<forall>d \<in> set ds. validate_args lib d = None"
    unfolding deliveries_of_def Let_def using build_deliveries_Inr [OF b] by blast+
  ultimately show ?thesis using that p by blast
qed

lemma deliveries_of_fingerprint:
  "d \<in> set (deliveries_of event body es) \<Longrightarrow>
   da_FanoutFingerprint d = fingerprintFanout (we_OwnerScope event) (we_ID event) body es"
  by (auto simp: deliveries_of_def Let_def prepared_args_def split: list.splits)

lemma deliveries_of_endpoints:
  "map (\<lambda>d. [da_ReceiverID d, decimal_int (da_ReceiverGeneration d), da_URL d, da_ActiveKeyReference d,
      da_PredecessorKeyReference d]) (deliveries_of event body es) = map endpoint_fields es"
  "map da_ReceiverGeneration (deliveries_of event body es) = map ep_Generation es"
  by (auto simp: deliveries_of_def Let_def prepared_args_def endpoint_fields_def split: list.splits)

lemma endpoints_no_nul:
  assumes "weblib_laws lib" "\<forall>d \<in> set (deliveries_of event body es). validate_args lib d = None" "e \<in> set es"
  shows "list_all no_nul (endpoint_fields e)" "0 < ep_Generation e"
proof -
  have "endpoint_fields e \<in> set (map endpoint_fields es)" using assms(3) by simp
  then obtain d where d: "d \<in> set (deliveries_of event body es)"
    and e: "endpoint_fields e = [da_ReceiverID d, decimal_int (da_ReceiverGeneration d), da_URL d,
       da_ActiveKeyReference d, da_PredecessorKeyReference d]"
    unfolding deliveries_of_endpoints(1) [symmetric, of _ event body] by auto
  show "list_all no_nul (endpoint_fields e)"
    unfolding e using validate_args_None [OF assms(1)] assms(2) d by simp
  have "ep_Generation e \<in> set (map ep_Generation es)" using assms(3) by simp
  then show "0 < ep_Generation e"
    unfolding deliveries_of_endpoints(2) [symmetric, of _ event body]
    using validate_args_None(6) [OF assms(1)] assms(2) by auto
qed

lemma blocks_inject:
  "(\<And>x. length (f x) = n) \<Longrightarrow> 0 < n \<Longrightarrow> concat (map f xs) = concat (map f ys) \<Longrightarrow> map f xs = map f ys"
proof (induction xs arbitrary: ys)
  case Nil
  then show ?case by (cases ys) (auto simp: Let_def dest: arg_cong [of _ _ length])
next
  case (Cons x xs)
  then show ?case
    by (cases ys) (auto dest: arg_cong [of _ _ length])
qed

text \<open>The bytes that are hashed into the fingerprint of a fan-out.\<close>

definition fanout_stream :: "weblib \<Rightarrow> EndpointManifest \<Rightarrow> wh_Event \<Rightarrow> string list \<Rightarrow> string" where
  "fanout_stream lib m event rs =
     (case marshal_body lib (we_Type event) (format_rfc3339nano lib (we_OccurredAt event)) (we_Data event) of
        Inl _ \<Rightarrow> ''''
      | Inr body \<Rightarrow>
          (case resolve_all m (we_OwnerScope event) (sort rs) of
             Inl _ \<Rightarrow> ''''
           | Inr es \<Rightarrow> writeFields (fanout_fields (we_OwnerScope event) (we_ID event) body es)))"

lemma fanout_fields_no_nul:
  assumes "weblib_laws lib" "validateWebhookEvent lib event = None"
    and "marshal_body lib t ts dt = Inr body"
    and "\<forall>d \<in> set (deliveries_of event body es). validate_args lib d = None"
  shows "list_all no_nul (fanout_fields (we_OwnerScope event) (we_ID event) body es)"
proof -
  have "no_nul body" using assms(1,3) by (auto simp: weblib_laws_def)
  moreover have "list_all no_nul (concat (map endpoint_fields es))"
    using endpoints_no_nul(1) [OF assms(1,4)] by (auto simp: list_all_iff)
  ultimately show ?thesis
    using validateWebhookEvent_None [OF assms(2)] by (simp add: fanout_fields_def list_all_append)
qed

lemma fanout_fields_inject:
  assumes "fanout_fields o1 i1 b1 es1 = fanout_fields o2 i2 b2 es2"
  shows "o1 = o2" "i1 = i2" "b1 = b2" "map endpoint_fields es1 = map endpoint_fields es2"
proof -
  have "concat (map endpoint_fields es1) = concat (map endpoint_fields es2)"
    using assms by (simp add: fanout_fields_def)
  then show "map endpoint_fields es1 = map endpoint_fields es2"
    by (rule blocks_inject [of endpoint_fields 5, rotated 2]) (simp_all add: endpoint_fields_def)
  show "o1 = o2" "i1 = i2" "b1 = b2" using assms by (simp_all add: fanout_fields_def)
qed

lemma prepared_args_cong:
  assumes "endpoint_fields e1 = endpoint_fields e2" "0 < ep_Generation e1" "0 < ep_Generation e2"
    and "we_OwnerScope v1 = we_OwnerScope v2" "we_ID v1 = we_ID v2"
  shows "prepared_args v1 b f a e1 = prepared_args v2 b f a e2"
  using assms by (simp add: endpoint_fields_def prepared_args_def decimal_int_inject Let_def)

lemma deliveries_of_cong:
  assumes "map endpoint_fields es1 = map endpoint_fields es2"
    and "\<forall>e \<in> set es1 \<union> set es2. 0 < ep_Generation e"
    and "we_OwnerScope v1 = we_OwnerScope v2" "we_ID v1 = we_ID v2"
  shows "deliveries_of v1 b es1 = deliveries_of v2 b es2"
proof -
  have fp: "fingerprintFanout (we_OwnerScope v1) (we_ID v1) b es1 = fingerprintFanout (we_OwnerScope v2) (we_ID v2) b es2"
    using assms by (simp add: fingerprintFanout_def fanout_fields_def)
  have args: "map (prepared_args v1 b f a) xs = map (prepared_args v2 b f a) ys"
    if "map endpoint_fields xs = map endpoint_fields ys" "\<forall>e \<in> set xs \<union> set ys. 0 < ep_Generation e" for f a xs ys
    using that assms(3,4)
    by (induction xs ys rule: list_induct2') (auto intro: prepared_args_cong)
  show ?thesis
  proof (cases es1)
    case Nil
    then show ?thesis using assms(1) by (simp add: deliveries_of_def)
  next
    case (Cons e1 r1)
    then obtain e2 r2 where es2: "es2 = e2 # r2" using assms(1) by (cases es2) auto
    have "prepared_args v1 b f a e1 = prepared_args v2 b f a e2" for f a
      using assms Cons es2 by (intro prepared_args_cong) auto
    moreover have "map (prepared_args v1 b f None) r1 = map (prepared_args v2 b f None) r2" for f
      using assms Cons es2 by (intro args) auto
    ultimately show ?thesis
      unfolding deliveries_of_def Let_def fp unfolding Cons es2 using assms(3,4) by simp
  qed
qed

text \<open>C28: The fan-out fingerprint identifies the accepted fan-out. Two prepared fan-outs, of any events
  and under any two states of the endpoint manifest, whose deliveries carry the same
  fingerprint are the same list of deliveries: the same owner and event, the same encoded
  body, the same receivers at the same generations with the same URLs and key references.
  The only other possibility is that the two byte streams that were hashed are a collision
  of SHA-256.\<close>

theorem fanout_fingerprint_identifies:
  assumes "weblib_laws lib"
    and "Prepare lib m event rs = Inr ds" and "Prepare lib m' event' rs' = Inr ds'"
    and "d \<in> set ds" and "d' \<in> set ds'" and "da_FanoutFingerprint d = da_FanoutFingerprint d'"
  shows "ds = ds' \<or> sha256_collision (fanout_stream lib m event rs) (fanout_stream lib m' event' rs')"
proof -
  obtain body es where p: "marshal_body lib (we_Type event) (format_rfc3339nano lib (we_OccurredAt event)) (we_Data event) = Inr body"
      "validateWebhookEvent lib event = None" "resolve_all m (we_OwnerScope event) (sort rs) = Inr es"
      "ds = deliveries_of event body es" "\<forall>d \<in> set ds. validate_args lib d = None"
    using Prepare_Inr [OF assms(2)] by metis
  obtain body' es' where p': "marshal_body lib (we_Type event') (format_rfc3339nano lib (we_OccurredAt event')) (we_Data event') = Inr body'"
      "validateWebhookEvent lib event' = None" "resolve_all m' (we_OwnerScope event') (sort rs') = Inr es'"
      "ds' = deliveries_of event' body' es'" "\<forall>d \<in> set ds'. validate_args lib d = None"
    using Prepare_Inr [OF assms(3)] by metis
  let ?f = "fanout_fields (we_OwnerScope event) (we_ID event) body es"
  let ?f' = "fanout_fields (we_OwnerScope event') (we_ID event') body' es'"
  have "sha256 (writeFields ?f) = sha256 (writeFields ?f')"
    using assms(4-6) p(4) p'(4) by (simp add: deliveries_of_fingerprint fingerprintFanout_def hex_encode_inject)
  from webhook_fields.digest_determines [OF fanout_fields_no_nul fanout_fields_no_nul this]
  have "?f = ?f' \<or> sha256_collision (writeFields ?f) (writeFields ?f')"
    using assms(1) p p' by blast
  moreover have "ds = ds'" if "?f = ?f'"
  proof -
    note same = fanout_fields_inject [OF that]
    have "\<forall>e \<in> set es \<union> set es'. 0 < ep_Generation e"
      using endpoints_no_nul(2) [OF assms(1)] p(4,5) p'(4,5) by blast
    then show ?thesis unfolding p(4) p'(4) same(3) using same by (intro deliveries_of_cong) auto
  qed
  ultimately show ?thesis using p p' by (auto simp: fanout_stream_def)
qed

section \<open>Staging implements its specification\<close>

text \<open>The job table as the fan-out sees it: for an acceptance identifier, the delivery and the
  fingerprint its job carries (the inner \<open>None\<close> is a job that does not decode).\<close>

type_synonym fan_table = "string \<Rightarrow> (string \<times> string) option option"

definition fan_key :: "deliveryArgs \<Rightarrow> string \<times> string" where
  "fan_key d = (da_DeliveryID d, da_FanoutFingerprint d)"

definition stage_spec :: "deliveryArgs list \<Rightarrow> fan_table \<Rightarrow> (bool \<times> fan_table) option" where
  "stage_spec ds t =
     (if list_all (\<lambda>d. t (da_AcceptanceID d) = None) ds
      then Some (True, t ++ map_of (map (\<lambda>d. (da_AcceptanceID d, Some (fan_key d))) ds))
      else if list_all (\<lambda>d. t (da_AcceptanceID d) = Some (Some (fan_key d))) ds then Some (False, t)
      else None)"

definition fan_view :: "weblib \<Rightarrow> (string \<Rightarrow> string option) \<Rightarrow> fan_table" where
  "fan_view lib jobs k = map_option (\<lambda>e. map_option fan_key (unmarshal_args lib e)) (jobs k)"

definition river_laws ::
  "weblib \<Rightarrow> 't inserter \<Rightarrow> ('t \<Rightarrow> string \<Rightarrow> string option) \<Rightarrow> (deliveryArgs \<Rightarrow> string) \<Rightarrow> bool" where
  "river_laws lib ins jobs enc =
     ((\<forall>d. validate_args lib d = None \<longrightarrow> map_option fan_key (unmarshal_args lib (enc d)) = Some (fan_key d)) \<and>
      (\<forall>d tx r tx'. ins deliveryInsertOpts d tx = (Inr r, tx') \<longrightarrow>
         (case jobs tx (da_AcceptanceID d) of
            None \<Rightarrow> \<not> ir_Skipped r \<and> jobs tx' = (jobs tx)(da_AcceptanceID d \<mapsto> enc d)
          | Some e \<Rightarrow> ir_Skipped r \<and> ir_Job r = Some e \<and> jobs tx' = jobs tx)))"

lemma matchesFanout_key: "matchesFanout a d \<longleftrightarrow> fan_key a = fan_key d"
  by (simp add: matchesFanout_def fan_key_def)

lemma encodedMatchesFanout_key:
  "encodedMatchesFanout lib e d \<longleftrightarrow> map_option fan_key (unmarshal_args lib e) = Some (fan_key d)"
  by (auto simp: encodedMatchesFanout_def matchesFanout_key split: option.splits)

lemma river_new:
  assumes "river_laws lib ins jobs enc" "ins deliveryInsertOpts d tx = (Inr r, tx')"
    and "fan_view lib (jobs tx) (da_AcceptanceID d) = None" "validate_args lib d = None"
  shows "\<not> ir_Skipped r" "fan_view lib (jobs tx') = (fan_view lib (jobs tx))(da_AcceptanceID d \<mapsto> Some (fan_key d))"
proof -
  from assms(3) have "jobs tx (da_AcceptanceID d) = None" by (simp add: fan_view_def)
  with assms(1,2) have s: "\<not> ir_Skipped r" "jobs tx' = (jobs tx)(da_AcceptanceID d \<mapsto> enc d)"
    by (fastforce simp: river_laws_def)+
  have e: "map_option fan_key (unmarshal_args lib (enc d)) = Some (fan_key d)"
    using assms(1,4) by (simp add: river_laws_def)
  show "\<not> ir_Skipped r" by (rule s(1))
  show "fan_view lib (jobs tx') = (fan_view lib (jobs tx))(da_AcceptanceID d \<mapsto> Some (fan_key d))"
    unfolding s(2) using e by (auto simp: fan_view_def)
qed

lemma river_old:
  assumes "river_laws lib ins jobs enc" "ins deliveryInsertOpts d tx = (Inr r, tx')"
    and "fan_view lib (jobs tx) (da_AcceptanceID d) = Some k"
  shows "ir_Skipped r" "fan_view lib (jobs tx') = fan_view lib (jobs tx)"
    "(case ir_Job r of None \<Rightarrow> True | Some e \<Rightarrow> \<not> encodedMatchesFanout lib e d) \<longleftrightarrow> k \<noteq> Some (fan_key d)"
proof -
  from assms(3) obtain e where e: "jobs tx (da_AcceptanceID d) = Some e"
    and k: "k = map_option fan_key (unmarshal_args lib e)"
    by (auto simp: fan_view_def)
  with assms(1,2) have s: "ir_Skipped r" "ir_Job r = Some e" "jobs tx' = jobs tx"
    by (fastforce simp: river_laws_def)+
  show "ir_Skipped r" "fan_view lib (jobs tx') = fan_view lib (jobs tx)" using s by simp_all
  show "(case ir_Job r of None \<Rightarrow> True | Some e \<Rightarrow> \<not> encodedMatchesFanout lib e d) \<longleftrightarrow> k \<noteq> Some (fan_key d)"
    by (simp add: s(2) encodedMatchesFanout_key k)
qed

text \<open>The loop over one fan-out: what it adds are the deliveries that were absent, and it succeeds
  when the present ones match and no delivery, of this fan-out or counted before, is of the other kind.\<close>

definition absent :: "fan_table \<Rightarrow> deliveryArgs list \<Rightarrow> deliveryArgs list" where
  "absent t ds = filter (\<lambda>d. t (da_AcceptanceID d) = None) ds"

definition added :: "deliveryArgs list \<Rightarrow> fan_table" where
  "added ds = map_of (map (\<lambda>d. (da_AcceptanceID d, Some (fan_key d))) ds)"

definition staged :: "fan_table \<Rightarrow> deliveryArgs list \<Rightarrow> nat \<Rightarrow> nat \<Rightarrow> (bool \<times> fan_table) option" where
  "staged t ds n m =
     (if list_all (\<lambda>d. t (da_AcceptanceID d) \<in> {None, Some (Some (fan_key d))}) ds
         \<and> \<not> (n + length (absent t ds) \<noteq> 0 \<and> m + (length ds - length (absent t ds)) \<noteq> 0)
      then Some (n + length (absent t ds) \<noteq> 0, t ++ added (absent t ds)) else None)"

lemma staged_Cons_new:
  assumes "t (da_AcceptanceID d) = None" "distinct (map da_AcceptanceID (d # ds))"
  shows "staged t (d # ds) n m = staged (t(da_AcceptanceID d \<mapsto> Some (fan_key d))) ds (n + 1) m"
proof -
  let ?t = "t(da_AcceptanceID d \<mapsto> Some (fan_key d))"
  have same: "?t (da_AcceptanceID e) = t (da_AcceptanceID e)" if "e \<in> set ds" for e
    using assms(2) imageI [OF that, of da_AcceptanceID] by auto
  then have a: "absent ?t ds = absent t ds" by (auto simp: absent_def cong: filter_cong)
  have "list_all (\<lambda>e. ?t (da_AcceptanceID e) \<in> {None, Some (Some (fan_key e))}) ds
     = list_all (\<lambda>e. t (da_AcceptanceID e) \<in> {None, Some (Some (fan_key e))}) ds"
    by (rule list.pred_cong [OF refl]) (simp add: same del: fun_upd_apply)
  moreover have "added (absent t ds) (da_AcceptanceID d) = None"
    using assms(2) by (auto simp: added_def absent_def map_of_eq_None_iff)
  then have "t ++ added (d # absent t ds) = ?t ++ added (absent t ds)"
    by (auto simp: added_def map_add_def fun_eq_iff split: option.split)
  moreover have "absent t (d # ds) = d # absent t ds" using assms(1) by (simp add: absent_def)
  ultimately show ?thesis by (simp add: staged_def a assms(1) del: fun_upd_apply)
qed

lemma staged_Cons_old:
  assumes "t (da_AcceptanceID d) = Some (Some (fan_key d))"
  shows "staged t (d # ds) n m = staged t ds n (m + 1)"
proof -
  have "length (absent t ds) \<le> length ds" by (simp add: absent_def)
  then show ?thesis using assms by (simp add: staged_def absent_def Suc_diff_le)
qed

lemma stage_loop_staged:
  assumes "river_laws lib ins jobs enc" "distinct (map da_AcceptanceID ds)" "\<forall>d \<in> set ds. validate_args lib d = None"
  shows "case stage_loop lib ins ds n m tx of
      (Inr b, tx') \<Rightarrow> staged (fan_view lib (jobs tx)) ds n m = Some (b, fan_view lib (jobs tx'))
    | (Inl err, tx') \<Rightarrow> (\<exists>e. err = WrapFmt ''stage webhook delivery'' e)
        \<or> errors_is err wh_ErrConflict \<and> staged (fan_view lib (jobs tx)) ds n m = None"
  using assms(2,3)
proof (induction ds arbitrary: n m tx)
  case Nil
  then show ?case by (simp add: staged_def absent_def added_def)
next
  case (Cons d ds)
  obtain x tx' where i: "ins deliveryInsertOpts d tx = (x, tx')" by fastforce
  show ?case
  proof (cases x)
    case (Inl err)
    then show ?thesis using i by simp
  next
    case (Inr r)
    note ins = i [unfolded Inr]
    have tail: "distinct (map da_AcceptanceID ds)" "\<forall>d \<in> set ds. validate_args lib d = None"
      and valid: "validate_args lib d = None" using Cons.prems by simp_all
    show ?thesis
    proof (cases "fan_view lib (jobs tx) (da_AcceptanceID d)")
      case None
      note new = river_new [OF assms(1) ins None valid]
      have "stage_loop lib ins (d # ds) n m tx = stage_loop lib ins ds (n + 1) m tx'"
        using ins new(1) by simp
      moreover have "staged (fan_view lib (jobs tx)) (d # ds) n m = staged (fan_view lib (jobs tx')) ds (n + 1) m"
        unfolding new(2) by (rule staged_Cons_new) (use None Cons.prems in simp_all)
      ultimately show ?thesis using Cons.IH [OF tail, where n = "n + 1" and m = m and tx = tx'] by metis
    next
      case (Some k)
      note old = river_old [OF assms(1) ins Some]
      show ?thesis
      proof (cases "k = Some (fan_key d)")
        case True
        then have "stage_loop lib ins (d # ds) n m tx = stage_loop lib ins ds n (m + 1) tx'"
          using ins old by simp
        moreover have "staged (fan_view lib (jobs tx)) (d # ds) n m = staged (fan_view lib (jobs tx')) ds n (m + 1)"
          unfolding old(2) using Some True by (intro staged_Cons_old) simp
        ultimately show ?thesis using Cons.IH [OF tail, where n = n and m = "m + 1" and tx = tx'] by metis
      next
        case False
        then have "staged (fan_view lib (jobs tx)) (d # ds) n m = None"
          using Some by (simp add: staged_def)
        then show ?thesis using False old ins by simp
      qed
    qed
  qed
qed

lemma staged_spec: "ds \<noteq> [] \<Longrightarrow> staged t ds 0 0 = stage_spec ds t"
proof -
  assume ds: "ds \<noteq> []"
  have len: "length (absent t ds) \<le> length ds" by (simp add: absent_def)
  show ?thesis
  proof (cases "list_all (\<lambda>d. t (da_AcceptanceID d) = None) ds")
    case True
    then have "absent t ds = ds" "list_all (\<lambda>d. t (da_AcceptanceID d) \<in> {None, Some (Some (fan_key d))}) ds"
      by (auto simp: absent_def list_all_iff)
    then show ?thesis using True ds by (simp add: staged_def stage_spec_def added_def)
  next
    case False
    then obtain d where "d \<in> set ds" "t (da_AcceptanceID d) \<noteq> None" by (auto simp: list_all_iff)
    then have less: "length (absent t ds) < length ds"
      unfolding absent_def by (rule length_filter_less)
    show ?thesis
    proof (cases "absent t ds = []")
      case True
      then have "list_all (\<lambda>d. t (da_AcceptanceID d) \<in> {None, Some (Some (fan_key d))}) ds
          = list_all (\<lambda>d. t (da_AcceptanceID d) = Some (Some (fan_key d))) ds"
        by (intro list.pred_cong refl) (auto simp: absent_def filter_empty_conv)
      then show ?thesis using True False by (simp add: staged_def stage_spec_def added_def)
    next
      case part: False
      then obtain d where "d \<in> set ds" "t (da_AcceptanceID d) = None"
        by (auto simp: absent_def filter_empty_conv)
      then have "\<not> list_all (\<lambda>d. t (da_AcceptanceID d) = Some (Some (fan_key d))) ds"
        unfolding list_all_iff by (metis option.distinct(1))
      then show ?thesis using part False less by (simp add: staged_def stage_spec_def)
    qed
  qed
qed

section \<open>Acceptance identifiers\<close>

definition manifest_ok :: "EndpointManifest \<Rightarrow> bool" where
  "manifest_ok m = (\<forall>k e. map_of m k = Some e \<longrightarrow> k = (ep_OwnerScope e, ep_ReceiverID e) \<and> 0 < ep_Generation e)"

lemma parse_endpoint_ok: "parse_endpoint lib e m = Inr m' \<Longrightarrow> manifest_ok m \<Longrightarrow> manifest_ok m'"
  by (auto simp: parse_endpoint_def Let_def manifest_ok_def update_conv' split: if_splits sum.splits)

lemma parse_endpoints_ok: "parse_endpoints lib es m = Inr m' \<Longrightarrow> manifest_ok m \<Longrightarrow> manifest_ok m'"
  by (induction es arbitrary: m) (auto dest: parse_endpoint_ok split: sum.splits)

lemma ParseEndpointManifest_ok: "ParseEndpointManifest lib raw = Inr m \<Longrightarrow> manifest_ok m"
  by (auto simp: ParseEndpointManifest_def manifest_ok_def [of "[]"] split: if_splits option.splits
      dest!: parse_endpoints_ok)

lemma resolve_all_receivers:
  "manifest_ok m \<Longrightarrow> resolve_all m owner rs = Inr es \<Longrightarrow> map ep_ReceiverID es = rs"
  by (induction rs arbitrary: es)
    (auto simp: endpoint_resolve_def manifest_ok_def split: sum.splits option.splits)

lemma check_receivers_distinct:
  "check_receivers p xs = None \<Longrightarrow> sorted xs \<Longrightarrow> (\<And>q x. p = Some q \<Longrightarrow> x \<in> set xs \<Longrightarrow> q \<le> x) \<Longrightarrow>
   distinct xs \<and> (\<forall>q. p = Some q \<longrightarrow> q \<notin> set xs)"
proof (induction xs arbitrary: p)
  case (Cons x xs)
  from Cons.prems(1) have c: "check_receivers (Some x) xs = None" and px: "p \<noteq> Some x"
    by (auto split: option.splits if_splits)
  have "distinct xs \<and> (\<forall>q. Some x = Some q \<longrightarrow> q \<notin> set xs)"
    using Cons.prems(2) by (intro Cons.IH [OF c]) auto
  moreover have "q \<notin> set xs" if "p = Some q" for q
    using that px Cons.prems(2) Cons.prems(3) [OF that, of x] by (auto dest: order_antisym)
  ultimately show ?case using px by auto
qed simp

definition delivery_stream :: "wh_Event \<Rightarrow> deliveryArgs \<Rightarrow> string" where
  "delivery_stream event d =
     writeFields [we_OwnerScope event, we_ID event, da_ReceiverID d, decimal_int (da_ReceiverGeneration d)]"

lemma deliveries_of_ids:
  assumes "d \<in> set (deliveries_of event body es)"
  shows "da_DeliveryID d = ''whd_'' @ hex_encode (sha256 (delivery_stream event d))"
  using assms
  by (auto simp: deliveries_of_def Let_def prepared_args_def deriveDeliveryID_def deriveStableID_def
      delivery_stream_def split: list.splits)

lemma deliveries_of_acceptance:
  "map da_AcceptanceID (deliveries_of event body es) =
   (case map da_DeliveryID (deliveries_of event body es) of [] \<Rightarrow> []
    | _ # ids \<Rightarrow> (''whe_'' @ hex_encode (sha256 (writeFields [we_OwnerScope event, we_ID event]))) # ids)"
  by (auto simp: deliveries_of_def Let_def prepared_args_def deriveStableID_def split: list.splits)

lemma deliveries_of_receivers: "map da_ReceiverID (deliveries_of event body es) = map ep_ReceiverID es"
  by (auto simp: deliveries_of_def Let_def prepared_args_def split: list.splits)

lemma distinct_acceptance:
  assumes "distinct (map da_DeliveryID (deliveries_of event body es))"
  shows "distinct (map da_AcceptanceID (deliveries_of event body es))"
proof -
  have "''whe_'' @ x \<noteq> da_DeliveryID d" if "d \<in> set (deliveries_of event body es)" for x d
    using deliveries_of_ids [OF that] by simp
  then show ?thesis
    using assms unfolding deliveries_of_acceptance
    by (cases "deliveries_of event body es") auto
qed

lemma Prepare_distinct:
  assumes "weblib_laws lib" "manifest_ok m" "Prepare lib m event rs = Inr ds"
  shows "distinct (map da_AcceptanceID ds) \<and> distinct (map da_DeliveryID ds)
    \<or> (\<exists>d \<in> set ds. \<exists>d' \<in> set ds. sha256_collision (delivery_stream event d) (delivery_stream event d'))"
proof (rule disjCI)
  assume free: "\<not> (\<exists>d \<in> set ds. \<exists>d' \<in> set ds. sha256_collision (delivery_stream event d) (delivery_stream event d'))"
  obtain body es where p: "validateWebhookEvent lib event = None" "check_receivers None (sort rs) = None"
      "resolve_all m (we_OwnerScope event) (sort rs) = Inr es"
      "ds = deliveries_of event body es" "\<forall>d \<in> set ds. validate_args lib d = None"
    using Prepare_Inr [OF assms(3)] by metis
  have "distinct (sort rs)"
    using check_receivers_distinct [OF p(2)] sorted_sort by blast
  then have receivers: "distinct (map da_ReceiverID ds)"
    using resolve_all_receivers [OF assms(2) p(3)] p(4) by (simp add: deliveries_of_receivers)
  have "da_ReceiverID d = da_ReceiverID d'" if "d \<in> set ds" "d' \<in> set ds" "da_DeliveryID d = da_DeliveryID d'" for d d'
  proof -
    let ?f = "\<lambda>d. [we_OwnerScope event, we_ID event, da_ReceiverID d, decimal_int (da_ReceiverGeneration d)]"
    have ok: "list_all no_nul (?f x)" if "x \<in> set ds" for x
      using that p(5) validate_args_None [OF assms(1)] validateWebhookEvent_None [OF p(1)] by simp
    have "sha256 (writeFields (?f d)) = sha256 (writeFields (?f d'))"
      using that p(4) by (simp add: deliveries_of_ids delivery_stream_def hex_encode_inject)
    note same = webhook_fields.digest_determines [OF ok [OF that(1)] ok [OF that(2)] this]
    have "\<not> sha256_collision (writeFields (?f d)) (writeFields (?f d'))"
      using free that(1,2) unfolding delivery_stream_def by blast
    with same have "?f d = ?f d'" by blast
    then show ?thesis by (simp only: list.inject)
  qed
  then have "distinct (map da_DeliveryID ds)"
    using receivers unfolding distinct_map inj_on_def by blast
  then show "distinct (map da_AcceptanceID ds) \<and> distinct (map da_DeliveryID ds)"
    using distinct_acceptance unfolding p(4) by blast
qed

section \<open>Reading a staged fan-out back\<close>

lemma found_rows_all:
  assumes "\<forall>r \<in> set rows. \<exists>e a. r = Inr e \<and> unmarshal_args lib e = Some a \<and> fan_key a \<in> K"
    and "\<forall>(i, a) \<in> set found. fan_key a \<in> K \<and> da_DeliveryID a = i" "distinct (map fst found)"
  shows "\<exists>found'. found_rows lib rows found = Inr found' \<and> distinct (map fst found')
    \<and> (\<forall>(i, a) \<in> set found'. fan_key a \<in> K \<and> da_DeliveryID a = i)
    \<and> fst ` set found \<union> {da_DeliveryID a | e a. Inr e \<in> set rows \<and> unmarshal_args lib e = Some a} = fst ` set found'"
  using assms
proof (induction rows arbitrary: found)
  case (Cons r rows)
  then obtain e a where r: "r = Inr e" "unmarshal_args lib e = Some a" "fan_key a \<in> K" by auto
  let ?g = "AList.update (da_DeliveryID a) a found"
  have inv: "\<forall>(i, b) \<in> set ?g. fan_key b \<in> K \<and> da_DeliveryID b = i"
  proof (clarify)
    fix i b assume "(i, b) \<in> set ?g"
    moreover have "distinct (map fst ?g)" using Cons.prems(3) by (rule distinct_update)
    ultimately have "map_of ?g i = Some b" by simp
    then show "fan_key b \<in> K \<and> da_DeliveryID b = i"
      using r(3) Cons.prems(2) by (auto simp: update_conv' split: if_splits dest!: map_of_SomeD)
  qed
  have keys: "fst ` set ?g = insert (da_DeliveryID a) (fst ` set found)"
    by (simp add: dom_update)
  have "\<forall>r \<in> set rows. \<exists>e a. r = Inr e \<and> unmarshal_args lib e = Some a \<and> fan_key a \<in> K"
    using Cons.prems(1) by simp
  from Cons.IH [OF this inv distinct_update [OF Cons.prems(3)]]
  obtain found' where f: "found_rows lib rows ?g = Inr found'" "distinct (map fst found')"
      "\<forall>(i, a) \<in> set found'. fan_key a \<in> K \<and> da_DeliveryID a = i"
      "fst ` set ?g \<union> {da_DeliveryID a | e a. Inr e \<in> set rows \<and> unmarshal_args lib e = Some a} = fst ` set found'"
    by blast
  have "{da_DeliveryID a | e a. Inr e \<in> set (r # rows) \<and> unmarshal_args lib e = Some a}
      = insert (da_DeliveryID a) {da_DeliveryID a | e a. Inr e \<in> set rows \<and> unmarshal_args lib e = Some a}"
    using r by auto
  moreover have "found_rows lib (r # rows) found = Inr found'" using r f(1) by simp
  ultimately show ?case using f(2-4) keys by (intro exI [of _ found']) simp
qed auto

text \<open>What the query returns for a fan-out whose jobs are all present.\<close>

lemma resolve_present:
  assumes "ds \<noteq> []" "distinct (map da_DeliveryID ds)"
    and "\<forall>d \<in> set ds. \<exists>e. jobs (da_AcceptanceID d) = Some e \<and> map_option fan_key (unmarshal_args lib e) = Some (fan_key d)"
    and "set rows = (\<lambda>d. Inr (the (jobs (da_AcceptanceID d)))) ` set ds"
  shows "ResolveCurrent lib (Some (\<lambda>_. Inr (rows, None))) ds = Inr True"
proof -
  let ?K = "fan_key ` set ds"
  have "\<forall>r \<in> set rows. \<exists>e a. r = Inr e \<and> unmarshal_args lib e = Some a \<and> fan_key a \<in> ?K"
    using assms(3,4) by fastforce
  then obtain found where f: "found_rows lib rows [] = Inr found" "distinct (map fst found)"
      "\<forall>(i, a) \<in> set found. fan_key a \<in> ?K \<and> da_DeliveryID a = i"
      "{da_DeliveryID a | e a. Inr e \<in> set rows \<and> unmarshal_args lib e = Some a} = fst ` set found"
    using found_rows_all [of rows lib ?K "[]"] by auto
  have keys: "fst ` set found = da_DeliveryID ` set ds"
  proof -
    have "\<exists>e a. Inr e \<in> set rows \<and> unmarshal_args lib e = Some a \<and> da_DeliveryID d = da_DeliveryID a" if d: "d \<in> set ds" for d
    proof -
      from assms(3) d obtain e a where "jobs (da_AcceptanceID d) = Some e" "unmarshal_args lib e = Some a"
        "fan_key a = fan_key d" by fastforce
      then show ?thesis using assms(4) imageI [OF d, of "\<lambda>d. Inr (the (jobs (da_AcceptanceID d)))"]
        by (auto simp: fan_key_def)
    qed
    then have "da_DeliveryID ` set ds \<subseteq> fst ` set found" unfolding f(4) [symmetric] by blast
    moreover have "i \<in> da_DeliveryID ` set ds" if "(i, a) \<in> set found" for i a
      using bspec [OF f(3) that] by (auto simp: fan_key_def)
    ultimately show ?thesis by fastforce
  qed
  have "length found = length ds"
    using keys assms(2) f(2) by (metis distinct_card length_map list.set_map)
  moreover have "matchesFanout a d" if "d \<in> set ds" "map_of found (da_DeliveryID d) = Some a" for d a
  proof -
    have "fan_key a \<in> ?K" "da_DeliveryID a = da_DeliveryID d"
      using f(3) map_of_SomeD [OF that(2)] by auto
    then obtain d' where "d' \<in> set ds" "fan_key a = fan_key d'" by auto
    moreover from this have "d' = d"
      using \<open>da_DeliveryID a = da_DeliveryID d\<close> assms(2) that(1) by (auto simp: fan_key_def distinct_map inj_on_def)
    ultimately show ?thesis by (simp add: matchesFanout_key)
  qed
  moreover have "map_of found (da_DeliveryID d) \<noteq> None" if "d \<in> set ds" for d
    using keys that by (auto simp: map_of_eq_None_iff)
  moreover have "found \<noteq> []" using keys assms(1) by auto
  ultimately show ?thesis
    using assms(1) f(1) by (auto simp: ResolveCurrent_def list_ex_iff split: option.split)
qed

lemma stage_spec_present:
  assumes "distinct (map da_AcceptanceID ds)" "stage_spec ds t = Some (b, t')" "d \<in> set ds"
  shows "t' (da_AcceptanceID d) = Some (Some (fan_key d))"
proof (cases "list_all (\<lambda>d. t (da_AcceptanceID d) = None) ds")
  case True
  then have t': "t' = t ++ map_of (map (\<lambda>d. (da_AcceptanceID d, Some (fan_key d))) ds)"
    using assms(2) by (simp add: stage_spec_def)
  have "map_of (map (\<lambda>d. (da_AcceptanceID d, Some (fan_key d))) ds) (da_AcceptanceID d) = Some (Some (fan_key d))"
    using assms(1,3) by (intro map_of_is_SomeI) (auto simp: comp_def)
  then show ?thesis unfolding t' by (simp add: map_add_Some_iff)
next
  case False
  then show ?thesis using assms(2,3) by (auto simp: stage_spec_def list_all_iff split: if_splits)
qed

lemma fan_view_present:
  assumes "fan_view lib jobs k = Some (Some x)"
  shows "\<exists>e. jobs k = Some e \<and> map_option fan_key (unmarshal_args lib e) = Some x"
  using assms by (auto simp: fan_view_def)

text \<open>C26: staging implements the abstract specification \<open>stage_spec\<close> on the job table, for every
  fan-out the dispatcher prepared from a parsed manifest. If \<^verbatim>\<open>Stage\<close> returns without an error,
  either no delivery was present and all of them are now (\<^verbatim>\<open>inserted\<close>), or all were present with the
  same fingerprint and the table is unchanged; and reading the fan-out back from the rows of
  the table then reports that it is present. If it returns an error, the queue failed, or
  the error is a conflict and the specification refuses the fan-out too: it is partly
  present, or present with other contents. The remaining case is a collision of SHA-256
  between two delivery identifiers.\<close>

theorem stage_refines_spec:
  assumes "weblib_laws lib" and "ParseEndpointManifest lib raw = Inr m" and "Prepare lib m event rs = Inr ds"
    and "river_laws lib ins jobs enc"
  shows "(\<exists>d \<in> set ds. \<exists>d' \<in> set ds. sha256_collision (delivery_stream event d) (delivery_stream event d')) \<or>
    (case Stage lib (Some ins) ds tx of
       (Inr inserted, tx') \<Rightarrow>
         stage_spec ds (fan_view lib (jobs tx)) = Some (inserted, fan_view lib (jobs tx')) \<and>
         (\<forall>rows. set rows = (\<lambda>d. Inr (the (jobs tx' (da_AcceptanceID d)))) ` set ds \<longrightarrow>
            ResolveCurrent lib (Some (\<lambda>_. Inr (rows, None))) ds = Inr True)
     | (Inl err, tx') \<Rightarrow> (\<exists>e. err = WrapFmt ''stage webhook delivery'' e)
         \<or> errors_is err wh_ErrConflict \<and> stage_spec ds (fan_view lib (jobs tx)) = None)"
proof (rule iffD2 [OF disj_imp], rule impI)
  assume "\<not> (\<exists>d \<in> set ds. \<exists>d' \<in> set ds. sha256_collision (delivery_stream event d) (delivery_stream event d'))"
  with Prepare_distinct [OF assms(1) ParseEndpointManifest_ok [OF assms(2)] assms(3)]
  have ids: "distinct (map da_AcceptanceID ds)" "distinct (map da_DeliveryID ds)" by blast+
  obtain body es where p: "es \<noteq> []" "ds = deliveries_of event body es" "\<forall>d \<in> set ds. validate_args lib d = None"
    using Prepare_Inr [OF assms(3)] by metis
  then have ds: "ds \<noteq> []" by (cases es) (simp_all add: deliveries_of_def Let_def)
  obtain x tx' where s: "Stage lib (Some ins) ds tx = (x, tx')" by fastforce
  then have loop: "stage_loop lib ins ds 0 0 tx = (x, tx')" using ds by (simp add: Stage_def)
  note result = stage_loop_staged [OF assms(4) ids(1) p(3), where n = 0 and m = 0 and tx = tx, unfolded loop staged_spec [OF ds]]
  show "case Stage lib (Some ins) ds tx of
       (Inr inserted, tx') \<Rightarrow>
         stage_spec ds (fan_view lib (jobs tx)) = Some (inserted, fan_view lib (jobs tx')) \<and>
         (\<forall>rows. set rows = (\<lambda>d. Inr (the (jobs tx' (da_AcceptanceID d)))) ` set ds \<longrightarrow>
            ResolveCurrent lib (Some (\<lambda>_. Inr (rows, None))) ds = Inr True)
     | (Inl err, tx') \<Rightarrow> (\<exists>e. err = WrapFmt ''stage webhook delivery'' e)
         \<or> errors_is err wh_ErrConflict \<and> stage_spec ds (fan_view lib (jobs tx)) = None"
  proof (cases x)
    case (Inl err)
    then show ?thesis using result s by simp
  next
    case (Inr b)
    then have spec: "stage_spec ds (fan_view lib (jobs tx)) = Some (b, fan_view lib (jobs tx'))"
      using result by simp
    have "\<forall>d \<in> set ds. \<exists>e. jobs tx' (da_AcceptanceID d) = Some e
        \<and> map_option fan_key (unmarshal_args lib e) = Some (fan_key d)"
      using stage_spec_present [OF ids(1) spec] fan_view_present by blast
    from resolve_present [OF ds ids(2) this] spec show ?thesis using s Inr by simp
  qed
qed

section \<open>Secrets\<close>

definition secret_owner :: "secretTuple \<Rightarrow> secretPrincipal" where
  "secret_owner t = (fst t, fst (snd t))"

definition secrets_bound :: "SecretManifest \<times> secretPrincipal bindings \<Rightarrow> bool" where
  "secrets_bound mb =
     (\<forall>t s. map_of (fst mb) t = Some s \<longrightarrow> ValidKey s \<and> holder (snd mb) s = Some (secret_owner t))"

lemma secrets_boundD:
  assumes "secrets_bound mb" "map_of (fst mb) t = Some s"
  shows "ValidKey s" "holder (snd mb) s = Some (secret_owner t)"
  using assms unfolding secrets_bound_def by blast+

lemma parse_secret_bound:
  assumes "parse_secret e mb = Inr mb'" "secrets_bound mb"
  shows "secrets_bound mb'"
proof -
  let ?t = "(se_OwnerScope e, se_ReceiverID e, se_KeyReference e)"
  obtain secret b where d: "secret_Decode (se_Secret e) = Some secret"
    and b: "secret_Bind secret (se_OwnerScope e, se_ReceiverID e) (snd mb) = Some b"
    and mb': "mb' = (AList.update ?t secret (fst mb), b)"
    using assms(1) by (auto simp: parse_secret_def Let_def split: if_splits option.splits)
  have held: "holder (snd mb) u = Some (secret_owner t)" if "map_of (fst mb) t = Some u" for t u
    using secrets_boundD(2) [OF assms(2) that] .
  show ?thesis
    unfolding secrets_bound_def mb' fst_conv snd_conv update_conv'
  proof (intro allI impI conjI)
    fix t s assume t: "((map_of (fst mb))(?t \<mapsto> secret)) t = Some s"
    show "holder b s = Some (secret_owner t)"
      by (rule keys.bound_update [OF b held _ t]) (simp_all add: secret_owner_def)
    show "ValidKey s"
      using t secret_Decode_valid [OF d] secrets_boundD(1) [OF assms(2)] by (auto split: if_splits)
  qed
qed

lemma parse_secrets_bound: "parse_secrets es mb = Inr mb' \<Longrightarrow> secrets_bound mb \<Longrightarrow> secrets_bound mb'"
  by (induction es arbitrary: mb) (auto dest: parse_secret_bound split: sum.splits)

text \<open>C32: A parsed secret manifest never lets one key sign for two receivers. Whatever two bindings the
  manifest resolves to the same key bytes belong to the same owner and receiver, and every
  key has between 32 and 64 bytes.\<close>

theorem secret_signs_for_one_receiver:
  assumes "ParseSecretManifest lib raw = Inr m"
    and "secret_resolve (Some m) owner receiver reference = Inr key"
    and "secret_resolve (Some m) owner' receiver' reference' = Inr key"
  shows "owner = owner' \<and> receiver = receiver' \<and> 32 \<le> length key \<and> length key \<le> 64"
proof -
  obtain entries b where "parse_secrets entries ([], []) = Inr (m, b)"
    using assms(1) by (auto simp: ParseSecretManifest_def split: if_splits option.splits sum.splits)
  then have "secrets_bound (m, b)" by (rule parse_secrets_bound) (simp add: secrets_bound_def)
  then have held: "holder b u = Some (secret_owner t)" and valid: "ValidKey u" if "map_of m t = Some u" for t u
    using secrets_boundD [of "(m, b)" t u] that by simp_all
  have look: "map_of m (owner, receiver, reference) = Some key" "map_of m (owner', receiver', reference') = Some key"
    using assms(2,3) by (auto simp: secret_resolve_def split: option.splits)
  show ?thesis
    using keys.bound_owner [where look = "map_of m" and own = secret_owner, OF held look] valid [OF look(1)]
    by (simp add: secret_owner_def ValidKey_def minKeyBytes_def maxKeyBytes_def)
qed

section \<open>A concrete library\<close>

text \<open>Derived identifiers are valid tokens: a short ASCII prefix and hexadecimal digits.\<close>

lemma ascii_token_valid:
  assumes "v \<noteq> []" "length v \<le> 256" "list_all (\<lambda>c. between 0x21 0x7e (of_char c)) v"
  shows "validateToken name v = None"
proof -
  have range: "0x21 \<le> (of_char c :: nat)" "of_char c \<le> (0x7e :: nat)" if "c \<in> set v" for c
    using assms(3) that by (simp_all add: list_all_iff between_def)
  then have ascii: "list_all (\<lambda>c. of_char c < (0x80::nat)) v" by (fastforce simp: list_all_iff)
  have "\<not> (is_control (of_char c) \<or> is_space (of_char c))" if "c \<in> set v" for c
    using range [OF that] by (auto simp: is_control_def is_space_def between_def)
  then have "\<not> contains_rune (\<lambda>r. is_control r \<or> is_space r) v"
    by (simp add: contains_rune_def runes_ascii [OF ascii] list_ex_iff)
  then show ?thesis
    using assms(1,2) valid_utf8_ascii [OF ascii] by (simp add: validateToken_def maxIdentityBytes_def)
qed

lemma hex_token_valid:
  assumes "list_all (\<lambda>c. between 0x21 0x7e (of_char c)) p" "length p \<le> 16"
  shows "validateToken name (p @ hex_encode (sha256 x)) = None"
proof -
  have len: "length (hex_encode (sha256 x)) = 64" by simp
  then have "hex_encode (sha256 x) \<noteq> []" by (metis length_0_conv zero_neq_numeral)
  then show ?thesis using assms len hex_token by (intro ascii_token_valid) simp_all
qed

definition example_url :: url where
  "example_url = zero_url\<lparr>u_Scheme := ''https'', u_Host := ''a.test:443'', u_Path := ''/h''\<rparr>"

definition example_entry :: endpointEntry where
  "example_entry = \<lparr>ee_OwnerScope = ''o'', ee_ReceiverID = ''r'', ee_Generation = 1, ee_URL = ''https://a.test:443/h'',
     ee_ActiveKeyReference = ''k'', ee_PredecessorKeyReference = ''''\<rparr>"

definition example_secret :: secretEntry where
  "example_secret = \<lparr>se_OwnerScope = ''o'', se_ReceiverID = ''r'', se_KeyReference = ''k'',
     se_Secret = ''whsec_AAAAAAAAAAAAAAAAAAAAAAAAAAAAAAAAAAAAAAAAAAA=''\<rparr>"

definition example_encode :: "deliveryArgs \<Rightarrow> string" where
  "example_encode d = writeFields [da_DeliveryID d, da_FanoutFingerprint d]"

definition example_args :: "string \<Rightarrow> string \<Rightarrow> deliveryArgs" where
  "example_args i f = \<lparr>da_AcceptanceID = '''', da_DeliveryID = i, da_OwnerScope = '''', da_ReceiverID = '''',
     da_ReceiverGeneration = 0, da_URL = '''', da_ActiveKeyReference = '''', da_PredecessorKeyReference = '''',
     da_FanoutFingerprint = f, da_Body = ''''\<rparr>"

definition example_decode :: "string \<Rightarrow> deliveryArgs option" where
  "example_decode s =
     (case split_on (char_of (0::nat)) s of [i, f, []] \<Rightarrow> Some (example_args i f) | _ \<Rightarrow> None)"

definition example_weblib :: weblib where
  "example_weblib =
     \<lparr>url_Parse = (\<lambda>s. if s = ''https://a.test:443/h'' then Some example_url else None),
      url_String = (\<lambda>_. ''https://a.test:443/h''), json_Valid = (\<lambda>s. s = ''{}''),
      marshal_body = (\<lambda>t ts d. Inr ''{}''), format_rfc3339nano = (\<lambda>_. ''''),
      unmarshal_endpoints = (\<lambda>_. Some [example_entry]), unmarshal_secrets = (\<lambda>_. Some [example_secret]),
      unmarshal_args = example_decode\<rparr>"

definition example_webhook_event :: wh_Event where
  "example_webhook_event = \<lparr>we_OwnerScope = ''o'', we_ID = ''e'', we_Type = ''t'', we_OccurredAt = 0, we_Data = ''{}''\<rparr>"

text \<open>A job queue that keeps the encoded arguments by acceptance identifier.\<close>

definition example_insert :: "(string \<times> string) list inserter" where
  "example_insert opts d tx =
     (case map_of tx (da_AcceptanceID d) of
        Some e \<Rightarrow> (Inr \<lparr>ir_Skipped = True, ir_Job = Some e\<rparr>, tx)
      | None \<Rightarrow> (Inr \<lparr>ir_Skipped = False, ir_Job = Some (example_encode d)\<rparr>,
                 AList.update (da_AcceptanceID d) (example_encode d) tx))"

definition example_manifest :: EndpointManifest where
  "example_manifest = [((''o'', ''r''), \<lparr>ep_OwnerScope = ''o'', ep_ReceiverID = ''r'', ep_Generation = 1,
     ep_URL = ''https://a.test:443/h'', ep_ActiveKeyReference = ''k'', ep_PredecessorKeyReference = ''''\<rparr>)]"

lemma nul_char: "char_of (0::nat) = CHR 0x00" by code_simp

lemma example_tokens:
  "validateToken n ''o'' = None" "validateToken n ''r'' = None" "validateToken n ''k'' = None"
  "validateToken n ''e'' = None" "validateToken n ''t'' = None"
  by (rule ascii_token_valid; simp add: between_def)+

lemma example_parses_url: "parseWebhookURL example_weblib ''https://a.test:443/h'' = Inr example_url"
  by (simp add: parseWebhookURL_def example_weblib_def) code_simp

lemma example_parse: "ParseEndpointManifest example_weblib ''{}'' = Inr example_manifest"
  using example_parses_url
  by (simp add: ParseEndpointManifest_def maxEndpointManifestBytes_def maxEndpointManifestEntries_def
      parse_endpoint_def example_tokens example_entry_def example_manifest_def Let_def example_weblib_def)

lemma example_weblib_laws: "weblib_laws example_weblib"
  by (auto simp: weblib_laws_def example_weblib_def nul_char split: if_splits)

lemma secret_signs_for_one_receiver_witness:
  "\<exists>m. ParseSecretManifest example_weblib ''{}'' = Inr m
     \<and> secret_resolve (Some m) ''o'' ''r'' ''k'' = Inr (replicate 32 (char_of (0::nat)))
     \<and> 32 \<le> length (replicate 32 (char_of (0::nat)))"
proof -
  let ?key = "replicate 32 (char_of (0::nat))"
  have key: "secret_Decode ''whsec_AAAAAAAAAAAAAAAAAAAAAAAAAAAAAAAAAAAAAAAAAAA='' = Some ?key" by code_simp
  have m: "ParseSecretManifest example_weblib ''{}'' = Inr [((''o'', ''r'', ''k''), ?key)]"
    using key by (simp add: ParseSecretManifest_def MaxManifestBytes_def MaxManifestEntries_def parse_secret_def
        example_tokens example_secret_def Let_def example_weblib_def secret_Bind_def)
  have r: "secret_resolve (Some [((''o'', ''r'', ''k''), ?key)]) ''o'' ''r'' ''k'' = Inr ?key"
    by (simp add: secret_resolve_def)
  from secret_signs_for_one_receiver [OF m r r] m r show ?thesis by blast
qed

definition example_endpoint :: endpoint where
  "example_endpoint = snd (hd example_manifest)"

lemma example_args_valid:
  "validate_args example_weblib (prepared_args example_webhook_event ''{}'' (hex_encode (sha256 x))
     (Some (deriveStableID ''whe_'' vs)) example_endpoint) = None"
proof -
  have "validateToken n (''whd_'' @ hex_encode (sha256 y)) = None" "validateToken n (''whe_'' @ hex_encode (sha256 y)) = None"
    "validateToken n (hex_encode (sha256 y)) = None" for n y
    using hex_token_valid [of "''whd_''" n y] hex_token_valid [of "''whe_''" n y] hex_token_valid [of "''''" n y]
    by (simp_all add: between_def)
  moreover have "json_Valid example_weblib ''{}''" by (simp add: example_weblib_def)
  ultimately show ?thesis
    using example_parses_url example_tokens
    by (simp add: validate_args_def prepared_args_def example_endpoint_def example_manifest_def
        example_webhook_event_def deriveDeliveryID_def deriveStableID_def Let_def)
qed

lemma example_prepare:
  assumes "map_of m (''o'', ''r'') = Some example_endpoint"
  shows "Prepare example_weblib m example_webhook_event [''r'']
    = Inr (deliveries_of example_webhook_event ''{}'' [example_endpoint])"
proof -
  have "json_Valid example_weblib ''{}''" "marshal_body example_weblib t ts d = Inr ''{}''" for t ts d
    by (simp_all add: example_weblib_def)
  moreover have "(0::int) \<noteq> zero_time" by (simp add: zero_time_def)
  moreover have "resolve_all m ''o'' [''r''] = Inr [example_endpoint]"
    using assms by (simp add: endpoint_resolve_def)
  ultimately show ?thesis
    using example_tokens example_args_valid
    by (simp add: Prepare_def validateWebhookEvent_def MaxReceivers_def MaxEventDataBytes_def deliveries_of_def
        example_webhook_event_def fingerprintFanout_def Let_def)
qed

lemma fanout_fingerprint_identifies_witness:
  "\<exists>ds ds'. Prepare example_weblib example_manifest example_webhook_event [''r''] = Inr ds
     \<and> Prepare example_weblib (example_manifest @ [((''o'', ''s''), example_endpoint)]) example_webhook_event [''r''] = Inr ds'
     \<and> (ds = ds' \<or> sha256_collision (fanout_stream example_weblib example_manifest example_webhook_event [''r''])
          (fanout_stream example_weblib (example_manifest @ [((''o'', ''s''), example_endpoint)]) example_webhook_event [''r'']))"
proof -
  let ?ds = "deliveries_of example_webhook_event ''{}'' [example_endpoint]"
  have "map_of example_manifest (''o'', ''r'') = Some example_endpoint"
    by (simp add: example_manifest_def example_endpoint_def)
  then have p: "Prepare example_weblib example_manifest example_webhook_event [''r''] = Inr ?ds"
    "Prepare example_weblib (example_manifest @ [((''o'', ''s''), example_endpoint)]) example_webhook_event [''r''] = Inr ?ds"
    by (simp_all add: example_prepare)
  have "hd ?ds \<in> set ?ds" by (simp add: deliveries_of_def Let_def)
  from fanout_fingerprint_identifies [OF example_weblib_laws p this this refl] p show ?thesis by blast
qed

lemma example_river_laws: "river_laws example_weblib example_insert map_of example_encode"
proof -
  have "map_option fan_key (unmarshal_args example_weblib (example_encode d)) = Some (fan_key d)"
    if "validate_args example_weblib d = None" for d
  proof -
    have "validate_tokens [(''acceptance_id'', da_AcceptanceID d), (''delivery_id'', da_DeliveryID d),
        (''owner_scope'', da_OwnerScope d), (''receiver_id'', da_ReceiverID d),
        (''active_key_reference'', da_ActiveKeyReference d), (''fanout_fingerprint'', da_FanoutFingerprint d)] = None"
      using that by (auto simp: validate_args_def split: option.splits)
    then have "no_nul (da_DeliveryID d)" "no_nul (da_FanoutFingerprint d)"
      unfolding validate_tokens_None by (auto dest!: validateToken_no_nul)
    then show ?thesis
      by (simp add: example_weblib_def example_decode_def example_encode_def split_on_append example_args_def fan_key_def)
  qed
  then show ?thesis
    by (auto simp: river_laws_def example_insert_def update_conv' split: option.splits)
qed

lemma stage_refines_spec_witness:
  "\<exists>ds tx'. Prepare example_weblib example_manifest example_webhook_event [''r''] = Inr ds
     \<and> Stage example_weblib (Some example_insert) ds [] = (Inr True, tx')
     \<and> stage_spec ds (fan_view example_weblib (map_of [])) = Some (True, fan_view example_weblib (map_of tx'))"
proof -
  let ?ds = "deliveries_of example_webhook_event ''{}'' [example_endpoint]"
  have p: "Prepare example_weblib example_manifest example_webhook_event [''r''] = Inr ?ds"
    by (rule example_prepare) (simp add: example_manifest_def example_endpoint_def)
  obtain d where d: "?ds = [d]" by (simp add: deliveries_of_def Let_def)
  then have s: "Stage example_weblib (Some example_insert) [d] [] = (Inr True, [(da_AcceptanceID d, example_encode d)])"
    by (simp add: Stage_def example_insert_def)
  from stage_refines_spec [OF example_weblib_laws example_parse p example_river_laws, of "[]"]
  show ?thesis unfolding p using s by (auto simp: d sha256_collision_def)
qed

end
