(* ===== verification/WebhookRetry.thy ===== *)
theory WebhookRetry
  imports WebhookDispatch
begin

text \<open>
  \<^verbatim>\<open>internal/infra/postgreswebhook/retry.go\<close>: when a failed delivery is attempted again. The
  delay doubles from five seconds up to a day, with a jitter of at most a tenth that depends
  only on the delivery and the attempt; a \<^verbatim>\<open>Retry-After\<close> answer can postpone the attempt;
  four days after its creation a delivery is over.

  The record \<open>retrylib\<close> stands for \<^verbatim>\<open>http.ParseTime\<close>, the JSON codecs of the job metadata and
  the call into the River queue that stores it.
\<close>

section \<open>Constants and data\<close>

definition webhookInitialBackoff :: duration where "webhookInitialBackoff = 5 * second"
definition webhookMaxBackoff :: duration where "webhookMaxBackoff = 24 * hour"
definition webhookMaxElapsed :: duration where "webhookMaxElapsed = 4 * 24 * hour"
definition retryAfterMetadataKey :: string where "retryAfterMetadataKey = ''webhook_retry_after_at''"

datatype sendCertainty = sendCertaintyUnspecified | sendCertaintyDefinitelyNotSent | sendCertaintyMayHaveSent

record transportEvidence =
  te_StatusCode :: int
  te_Certainty :: sendCertainty
  te_LocalPermanent :: bool

record wh_job =
  job_Args :: deliveryArgs
  job_Attempt :: int
  job_Metadata :: string
  job_CreatedAt :: instant

record retrylib =
  http_ParseTime :: "string \<Rightarrow> instant option"
  unmarshal_metadata :: "string \<Rightarrow> (string \<times> string) list option"
  unmarshal_time :: "string \<Rightarrow> instant option"
  marshal_time :: "instant \<Rightarrow> go_error + string"
  marshal_metadata :: "(string \<times> string) list \<Rightarrow> go_error + string"
  MetadataSet :: "string \<Rightarrow> instant \<Rightarrow> go_error option"

section \<open>The Retry-After header\<close>

text \<open>\<open>None\<close> is the result \<^verbatim>\<open>false\<close>.\<close>

definition parseRetryAfter :: "retrylib \<Rightarrow> string \<Rightarrow> string \<Rightarrow> instant \<Rightarrow> duration \<Rightarrow> duration option" where
  "parseRetryAfter rl raw0 date attemptedAt maxDelay =
     (if maxDelay \<le> 0 then None
      else let raw = trim_space raw0
           in if raw \<noteq> '''' \<and> list_all is_digit raw
              then (case parse_uint 63 raw of
                      None \<Rightarrow> Some maxDelay
                    | Some seconds \<Rightarrow>
                        if 9223372036 < seconds then Some maxDelay
                        else Some (min (wrap64 (int seconds * second)) maxDelay))
              else (case http_ParseTime rl raw of
                      None \<Rightarrow> None
                    | Some at \<Rightarrow>
                        let base = (case http_ParseTime rl date of Some parsedDate \<Rightarrow> parsedDate | None \<Rightarrow> attemptedAt)
                        in if \<not> base < at then None else Some (min (sat64 (at - base)) maxDelay)))"

definition mergeRetryAfterMetadata :: "retrylib \<Rightarrow> string \<Rightarrow> instant \<Rightarrow> go_error + string" where
  "mergeRetryAfterMetadata rl raw retryAt =
     (case (if raw = '''' then Some [] else unmarshal_metadata rl raw) of
        None \<Rightarrow> Inl (WrapFmt ''decode webhook job metadata'' (Fresh ''json''))
      | Some metadata \<Rightarrow>
          (case marshal_time rl retryAt of
             Inl err \<Rightarrow> Inl (WrapFmt ''encode webhook Retry-After'' err)
           | Inr encoded \<Rightarrow>
               (case marshal_metadata rl (AList.update retryAfterMetadataKey encoded metadata) of
                  Inl err \<Rightarrow> Inl (WrapFmt ''encode webhook job metadata'' err)
                | Inr merged \<Rightarrow> Inr merged)))"

definition rememberRetryAfter :: "retrylib \<Rightarrow> wh_job \<Rightarrow> instant \<Rightarrow> go_error option \<times> wh_job" where
  "rememberRetryAfter rl job retryAt =
     (if retryAt = zero_time then (Some (WrapFmt ''webhook retry job and time are required'' wh_ErrConfig), job)
      else case mergeRetryAfterMetadata rl (job_Metadata job) retryAt of
        Inl err \<Rightarrow> (Some err, job)
      | Inr metadata \<Rightarrow>
          (case MetadataSet rl retryAfterMetadataKey retryAt of
             Some err \<Rightarrow> (Some (WrapFmt ''record webhook Retry-After'' err), job)
           | None \<Rightarrow> (None, job\<lparr>job_Metadata := metadata\<rparr>)))"

section \<open>The schedule\<close>

function backoff_loop :: "int \<Rightarrow> int \<Rightarrow> duration \<Rightarrow> duration" where
  "backoff_loop current attempt delay =
     (if current < attempt \<and> delay < webhookMaxBackoff
      then backoff_loop (current + 1) attempt (min (wrap64 (2 * delay)) webhookMaxBackoff) else delay)"
  by pat_completeness auto
termination by (relation "measure (\<lambda>(current, attempt, delay). nat (attempt - current))") auto

declare backoff_loop.simps [simp del]

definition webhookBackoff :: "string \<Rightarrow> int \<Rightarrow> duration" where
  "webhookBackoff deliveryID attempt0 =
     (let attempt = max attempt0 1;
          delay = backoff_loop 1 attempt webhookInitialBackoff;
          jitterPermille = int (get_uint64 (sha256 (deliveryID @ put_uint64 (nat attempt))) mod 201) - 100;
          delay' = wrap64 (delay + quot (wrap64 (delay * jitterPermille)) 1000)
      in min delay' webhookMaxBackoff)"

definition webhookNextRetry :: "retrylib \<Rightarrow> wh_job \<Rightarrow> instant \<Rightarrow> instant" where
  "webhookNextRetry rl job now =
     (let due0 = now + webhookBackoff (da_DeliveryID (job_Args job)) (job_Attempt job);
          due = (case unmarshal_metadata rl (job_Metadata job) of
                   None \<Rightarrow> due0
                 | Some metadata \<Rightarrow>
                     (case map_of metadata retryAfterMetadataKey of
                        None \<Rightarrow> due0
                      | Some encoded \<Rightarrow>
                          (case unmarshal_time rl encoded of
                             None \<Rightarrow> due0
                           | Some retryAfterAt \<Rightarrow> if due0 < retryAfterAt then retryAfterAt else due0)))
      in if job_CreatedAt job \<noteq> zero_time
         then let deadline = job_CreatedAt job + webhookMaxElapsed
              in if \<not> now < deadline then now + second
                 else if deadline < due then deadline else due
         else due)"

definition webhookDeliveryExpired :: "wh_job \<Rightarrow> instant \<Rightarrow> bool" where
  "webhookDeliveryExpired job now =
     (job_CreatedAt job \<noteq> zero_time \<and> \<not> now < job_CreatedAt job + webhookMaxElapsed)"

section \<open>Bounds of the backoff\<close>

lemmas webhook_durations = webhookInitialBackoff_def webhookMaxBackoff_def webhookMaxElapsed_def dur_simps

text \<open>The delay of an attempt before its jitter.\<close>

definition base_backoff :: "int \<Rightarrow> duration" where
  "base_backoff attempt = min (webhookInitialBackoff * 2 ^ nat (attempt - 1)) webhookMaxBackoff"

lemma backoff_loop_min:
  assumes "0 < delay" "delay \<le> webhookMaxBackoff"
  shows "backoff_loop current attempt delay = min (delay * 2 ^ nat (attempt - current)) webhookMaxBackoff"
  using assms
proof (induction current attempt delay rule: backoff_loop.induct)
  case (1 current attempt delay)
  show ?case
  proof (cases "current < attempt \<and> delay < webhookMaxBackoff")
    case True
    have w: "wrap64 (2 * delay) = 2 * delay"
      using 1(2,3) by (intro wrap64_id) (simp_all add: webhook_durations)
    define d where "d = min (2 * delay) webhookMaxBackoff"
    have "backoff_loop (current + 1) attempt d = min (d * 2 ^ nat (attempt - (current + 1))) webhookMaxBackoff"
      using 1(1) [OF True] 1(2) True unfolding w d_def by (simp add: webhook_durations)
    moreover have "nat (attempt - current) = Suc (nat (attempt - (current + 1)))" using True by linarith
    moreover have "min (d * 2 ^ k) webhookMaxBackoff = min (delay * 2 ^ Suc k) webhookMaxBackoff" for k
    proof (cases "2 * delay \<le> webhookMaxBackoff")
      case False
      have "(1::int) \<le> 2 ^ k" by simp
      then have "webhookMaxBackoff * 1 \<le> webhookMaxBackoff * 2 ^ k" "webhookMaxBackoff * 1 \<le> (2 * delay) * 2 ^ k"
        using False 1(2) by (intro mult_mono; simp add: webhook_durations)+
      then show ?thesis using False by (simp add: d_def mult.commute mult.left_commute)
    qed (simp add: d_def)
    ultimately show ?thesis using True w by (subst backoff_loop.simps) (simp add: d_def)
  next
    case False
    then have stop: "backoff_loop current attempt delay = delay" by (subst backoff_loop.simps) auto
    show ?thesis
    proof (cases "current < attempt")
      case True
      then have "delay = webhookMaxBackoff" using False 1(3) by simp
      moreover have "delay * 1 \<le> delay * 2 ^ nat (attempt - current)"
        using 1(2) by (intro mult_left_mono) simp_all
      ultimately show ?thesis using stop by simp
    next
      case False
      then show ?thesis using stop 1(3) by simp
    qed
  qed
qed

lemma base_backoff_bounds: "webhookInitialBackoff \<le> base_backoff a" "base_backoff a \<le> webhookMaxBackoff"
proof -
  have "webhookInitialBackoff * 1 \<le> webhookInitialBackoff * 2 ^ nat (a - 1)"
    by (intro mult_left_mono) (simp_all add: webhook_durations)
  then show "webhookInitialBackoff \<le> base_backoff a" "base_backoff a \<le> webhookMaxBackoff"
    by (simp_all add: base_backoff_def webhook_durations)
qed

text \<open>No step overflows, and the jitter is at most a tenth of the base delay.\<close>

lemma webhookBackoff_value:
  "\<exists>q. 1000 * \<bar>q\<bar> \<le> 100 * base_backoff (max attempt 1)
     \<and> webhookBackoff deliveryID attempt = min (base_backoff (max attempt 1) + q) webhookMaxBackoff"
proof -
  define b where "b = base_backoff (max attempt 1)"
  define j where "j = int (get_uint64 (sha256 (deliveryID @ put_uint64 (nat (max attempt 1)))) mod 201) - 100"
  have j: "-100 \<le> j" "j \<le> 100" unfolding j_def by (simp_all add: zmod_int)
  have b: "5000000000 \<le> b" "b \<le> 86400000000000"
    using base_backoff_bounds [of "max attempt 1"] by (simp_all add: b_def webhook_durations)
  have loop: "backoff_loop 1 (max attempt 1) webhookInitialBackoff = b"
    unfolding b_def base_backoff_def by (rule backoff_loop_min) (simp_all add: webhook_durations)
  have bj: "\<bar>b * j\<bar> \<le> 100 * b"
    using j b by (simp add: abs_mult)
  define q where "q = quot (b * j) 1000"
  have q: "1000 * \<bar>q\<bar> \<le> 100 * b" using quot_abs_le [of 1000 "b * j"] bj by (simp add: q_def)
  have "wrap64 (b * j) = b * j" using bj b by (intro wrap64_small) linarith
  moreover have "wrap64 (b + q) = b + q" using q b by (intro wrap64_small) linarith
  ultimately have "webhookBackoff deliveryID attempt = min (b + q) webhookMaxBackoff"
    by (simp add: webhookBackoff_def Let_def loop j_def [symmetric] q_def)
  with q show ?thesis unfolding b_def by blast
qed

text \<open>The backoff of a delivery stays within a tenth of its doubling schedule: five seconds for the
  first attempt, twice as much for each further one, and a day from there on. It is never
  more than a day, never less than four and a half seconds, and no step of its computation
  overflows, for any delivery identifier and any attempt number.\<close>

theorem backoff_within_tenth:
  "900 * base_backoff (max attempt 1) \<le> 1000 * webhookBackoff deliveryID attempt
    \<and> 1000 * webhookBackoff deliveryID attempt \<le> 1100 * base_backoff (max attempt 1)
    \<and> 4500 * millisecond \<le> webhookBackoff deliveryID attempt \<and> webhookBackoff deliveryID attempt \<le> webhookMaxBackoff"
proof -
  obtain q where "1000 * \<bar>q\<bar> \<le> 100 * base_backoff (max attempt 1)"
      "webhookBackoff deliveryID attempt = min (base_backoff (max attempt 1) + q) webhookMaxBackoff"
    using webhookBackoff_value by blast
  then show ?thesis
    using base_backoff_bounds [of "max attempt 1"] unfolding webhook_durations by (intro conjI; linarith)
qed

section \<open>The schedule of a delivery\<close>

lemma backoff_lower:
  assumes "1 \<le> k"
  shows "900 * base_backoff k \<le> 1000 * webhookBackoff i k"
proof -
  obtain q where "1000 * \<bar>q\<bar> \<le> 100 * base_backoff k" "webhookBackoff i k = min (base_backoff k + q) webhookMaxBackoff"
    using webhookBackoff_value [of k i] assms by (auto simp: max_def)
  then show ?thesis using base_backoff_bounds [of k] by linarith
qed

text \<open>The time a \<^verbatim>\<open>Retry-After\<close> answer left in the metadata of the job.\<close>

definition hinted :: "retrylib \<Rightarrow> wh_job \<Rightarrow> instant option" where
  "hinted rl job = Option.bind (unmarshal_metadata rl (job_Metadata job))
     (\<lambda>m. Option.bind (map_of m retryAfterMetadataKey) (unmarshal_time rl))"

lemma webhookNextRetry_hinted:
  "webhookNextRetry rl job now =
     (let due0 = now + webhookBackoff (da_DeliveryID (job_Args job)) (job_Attempt job);
          due = (case hinted rl job of None \<Rightarrow> due0 | Some t \<Rightarrow> max due0 t);
          deadline = job_CreatedAt job + webhookMaxElapsed
      in if job_CreatedAt job = zero_time then due
         else if deadline \<le> now then now + second else min due deadline)"
  by (auto simp: webhookNextRetry_def hinted_def Let_def max_def min_def split: option.splits)

lemma next_retry_bounds:
  assumes "job_CreatedAt job \<noteq> zero_time" "1 \<le> job_Attempt job"
  shows "webhookDeliveryExpired job now \<Longrightarrow> webhookNextRetry rl job now = now + second"
    and "\<not> webhookDeliveryExpired job now \<Longrightarrow> now < webhookNextRetry rl job now
      \<and> webhookNextRetry rl job now \<le> job_CreatedAt job + webhookMaxElapsed
      \<and> (webhookNextRetry rl job now = job_CreatedAt job + webhookMaxElapsed
         \<or> 1000 * now + 900 * base_backoff (job_Attempt job) \<le> 1000 * webhookNextRetry rl job now)"
proof -
  define due where "due = (case hinted rl job of
      None \<Rightarrow> now + webhookBackoff (da_DeliveryID (job_Args job)) (job_Attempt job)
    | Some t \<Rightarrow> max (now + webhookBackoff (da_DeliveryID (job_Args job)) (job_Attempt job)) t)"
  have "webhookNextRetry rl job now = (if job_CreatedAt job + webhookMaxElapsed \<le> now then now + second
      else min due (job_CreatedAt job + webhookMaxElapsed))"
    using assms(1) by (simp add: webhookNextRetry_hinted due_def Let_def)
  moreover have "now + webhookBackoff (da_DeliveryID (job_Args job)) (job_Attempt job) \<le> due"
    by (auto simp: due_def split: option.split)
  then have "1000 * now + 900 * base_backoff (job_Attempt job) \<le> 1000 * due"
    using backoff_lower [OF assms(2), of "da_DeliveryID (job_Args job)"] by linarith
  moreover have "0 < base_backoff (job_Attempt job)"
    using base_backoff_bounds(1) [of "job_Attempt job"] by (simp add: webhook_durations)
  ultimately show "webhookDeliveryExpired job now \<Longrightarrow> webhookNextRetry rl job now = now + second"
    "\<not> webhookDeliveryExpired job now \<Longrightarrow> now < webhookNextRetry rl job now
      \<and> webhookNextRetry rl job now \<le> job_CreatedAt job + webhookMaxElapsed
      \<and> (webhookNextRetry rl job now = job_CreatedAt job + webhookMaxElapsed
         \<or> 1000 * now + 900 * base_backoff (job_Attempt job) \<le> 1000 * webhookNextRetry rl job now)"
    using assms(1) by (auto simp: webhookDeliveryExpired_def min_def)
qed

text \<open>A delivery that keeps failing: attempt \<open>k + 1\<close> runs at \<open>runs k\<close>, no earlier than the retry
  before it asked for; the metadata may change between attempts.\<close>

definition at_attempt :: "wh_job \<Rightarrow> (nat \<Rightarrow> string) \<Rightarrow> nat \<Rightarrow> wh_job" where
  "at_attempt job metadata k = job\<lparr>job_Attempt := int k + 1, job_Metadata := metadata k\<rparr>"

definition keeps_failing :: "retrylib \<Rightarrow> wh_job \<Rightarrow> (nat \<Rightarrow> string) \<Rightarrow> (nat \<Rightarrow> instant) \<Rightarrow> bool" where
  "keeps_failing rl job metadata runs =
     (job_CreatedAt job \<le> runs 0 \<and>
      (\<forall>k. webhookNextRetry rl (at_attempt job metadata k) (runs k) \<le> runs (Suc k)))"

lemma at_attempt_simps [simp]:
  "job_CreatedAt (at_attempt job metadata k) = job_CreatedAt job"
  "job_Attempt (at_attempt job metadata k) = int k + 1"
  "webhookDeliveryExpired (at_attempt job metadata k) now = webhookDeliveryExpired job now"
  by (simp_all add: at_attempt_def webhookDeliveryExpired_def)

lemma failing_progress:
  assumes "job_CreatedAt job \<noteq> zero_time" "keeps_failing rl job metadata runs"
  shows "webhookDeliveryExpired job (runs k)
    \<or> 1000 * job_CreatedAt job + (\<Sum>i<k. 900 * base_backoff (int i + 1)) \<le> 1000 * runs k"
proof (induction k)
  case 0
  then show ?case using assms(2) by (simp add: keeps_failing_def)
next
  case (Suc k)
  let ?job = "at_attempt job metadata k"
  have step: "webhookNextRetry rl ?job (runs k) \<le> runs (Suc k)"
    using assms(2) by (simp add: keeps_failing_def)
  note bounds = next_retry_bounds [of ?job "runs k" rl, simplified, OF assms(1)]
  show ?case
  proof (cases "webhookDeliveryExpired job (runs k)")
    case True
    then show ?thesis using bounds(1) step by (auto simp: webhookDeliveryExpired_def second_def)
  next
    case False
    then show ?thesis
      using bounds(2) step Suc assms(1) by (auto simp: webhookDeliveryExpired_def)
  qed
qed

lemma eighteen_delays:
  "1000 * webhookMaxElapsed \<le> (\<Sum>i<18. 900 * base_backoff (int i + 1))"
  by (simp add: base_backoff_def webhook_durations lessThan_nat_numeral nat_add_distrib)

text \<open>C29: a delivery that keeps failing comes to its end. If every attempt runs no earlier than the
  retry before it asked for, then by the nineteenth attempt four days have passed since
  the job was created, and the attempt finds the delivery expired. The queue allows twenty
  attempts, so the deadline, not the attempt limit, always ends a failing delivery.\<close>

theorem failing_delivery_expires:
  assumes "job_CreatedAt job \<noteq> zero_time" and "keeps_failing rl job metadata runs"
  shows "webhookDeliveryExpired (at_attempt job metadata 18) (runs 18)
    \<and> job_Attempt (at_attempt job metadata 18) < io_MaxAttempts deliveryInsertOpts"
  using failing_progress [OF assms, of 18] eighteen_delays assms(1)
  by (auto simp: webhookDeliveryExpired_def deliveryInsertOpts_def maxAttempts_def)

definition example_retrylib :: retrylib where
  "example_retrylib = \<lparr>http_ParseTime = (\<lambda>_. None), unmarshal_metadata = (\<lambda>_. None), unmarshal_time = (\<lambda>_. None),
     marshal_time = (\<lambda>_. Inr ''''), marshal_metadata = (\<lambda>_. Inr ''''), MetadataSet = (\<lambda>_ _. None)\<rparr>"

definition example_job :: wh_job where
  "example_job = \<lparr>job_Args = example_args ''d'' ''f'', job_Attempt = 1, job_Metadata = '''', job_CreatedAt = 0\<rparr>"

primrec example_runs :: "nat \<Rightarrow> instant" where
  "example_runs 0 = 1"
| "example_runs (Suc k) = webhookNextRetry example_retrylib (at_attempt example_job (\<lambda>_. '''') k) (example_runs k)"

lemma failing_delivery_expires_witness:
  "webhookDeliveryExpired (at_attempt example_job (\<lambda>_. '''') 18) (example_runs 18)"
proof -
  have "keeps_failing example_retrylib example_job (\<lambda>_. '''') example_runs"
    by (simp add: keeps_failing_def example_job_def)
  moreover have "job_CreatedAt example_job \<noteq> zero_time" by (simp add: example_job_def zero_time_def)
  ultimately show ?thesis using failing_delivery_expires by blast
qed

section \<open>Retry-After\<close>

text \<open>What the code relies on: an encoded time decodes to the time, and an encoded time that is a
  member of a metadata object is still that member after the object is encoded and decoded.
  A metadata object is a list of members read by \<open>map_of\<close>; nothing is said of the order in
  which they come back, which \<^verbatim>\<open>encoding/json\<close> sorts, nor of how it lays out the other members.\<close>

definition retry_laws :: "retrylib \<Rightarrow> bool" where
  "retry_laws rl =
     ((\<forall>m s k t v. marshal_metadata rl m = Inr s \<and> marshal_time rl t = Inr v \<and> map_of m k = Some v \<longrightarrow>
         (\<exists>m'. unmarshal_metadata rl s = Some m' \<and> map_of m' k = Some v)) \<and>
      (\<forall>t s. marshal_time rl t = Inr s \<longrightarrow> unmarshal_time rl s = Some t))"

lemma parseRetryAfter_bounds:
  assumes "parseRetryAfter rl raw date attemptedAt maxDelay = Some hint"
  shows "0 \<le> hint \<and> hint \<le> maxDelay"
proof -
  have "0 \<le> wrap64 (int n * second) " if "n \<le> 9223372036" for n
    using that by (subst wrap64_small) (simp_all add: second_def)
  moreover have "0 \<le> sat64 x" if "0 < x" for x using that by (simp add: sat64_def)
  ultimately show ?thesis
    using assms by (auto simp: parseRetryAfter_def Let_def not_less min_def split: if_splits option.splits)
qed

lemma remembered_hint:
  assumes "retry_laws rl" "rememberRetryAfter rl job at = (None, job')"
  shows "hinted rl job' = Some at" "job_CreatedAt job' = job_CreatedAt job"
proof -
  obtain metadata encoded merged where
      enc: "marshal_time rl at = Inr encoded"
      and mar: "marshal_metadata rl (AList.update retryAfterMetadataKey encoded metadata) = Inr merged"
      and job: "job' = job\<lparr>job_Metadata := merged\<rparr>"
    using assms(2)
    by (auto simp: rememberRetryAfter_def mergeRetryAfterMetadata_def simp del: AList.update.simps
        split: if_splits sum.splits option.splits)
  have "map_of (AList.update retryAfterMetadataKey encoded metadata) retryAfterMetadataKey = Some encoded"
    by (simp add: update_conv')
  then obtain m' where "unmarshal_metadata rl merged = Some m'" "map_of m' retryAfterMetadataKey = Some encoded"
    using assms(1) mar enc unfolding retry_laws_def by blast
  moreover have "unmarshal_time rl encoded = Some at" using assms(1) enc unfolding retry_laws_def by blast
  ultimately show "hinted rl job' = Some at" by (simp add: hinted_def job)
  show "job_CreatedAt job' = job_CreatedAt job" by (simp add: job)
qed

text \<open>C30: A receiver that answers with \<^verbatim>\<open>Retry-After\<close> is left alone for that long. The header asks for at
  most a day whatever it contains; once the hint is recorded, the next attempt is scheduled
  no earlier than the hint, except that the delivery's own deadline still ends it, and
  never earlier than its own backoff.\<close>

theorem retry_after_is_honoured:
  assumes "retry_laws rl"
    and "parseRetryAfter rl raw date attemptedAt webhookMaxBackoff = Some hint"
    and "rememberRetryAfter rl job (attemptedAt + hint) = (None, job')"
    and "job_CreatedAt job \<noteq> zero_time" and "now < job_CreatedAt job + webhookMaxElapsed"
  shows "0 \<le> hint \<and> hint \<le> 24 * hour
    \<and> webhookNextRetry rl job' now =
        min (max (now + webhookBackoff (da_DeliveryID (job_Args job')) (job_Attempt job')) (attemptedAt + hint))
          (job_CreatedAt job + webhookMaxElapsed)"
proof -
  note h = remembered_hint [OF assms(1,3)]
  have "\<not> job_CreatedAt job' + webhookMaxElapsed \<le> now" using h(2) assms(5) by simp
  then have "webhookNextRetry rl job' now =
        min (max (now + webhookBackoff (da_DeliveryID (job_Args job')) (job_Attempt job')) (attemptedAt + hint))
          (job_CreatedAt job' + webhookMaxElapsed)"
    using assms(4) h by (simp add: webhookNextRetry_hinted Let_def)
  moreover have "0 \<le> hint \<and> hint \<le> 24 * hour"
    using parseRetryAfter_bounds [OF assms(2)] by (simp add: webhookMaxBackoff_def)
  ultimately show ?thesis using h(2) by simp
qed

text \<open>A codec for one entry: a time in decimal, metadata as the value of its first entry.\<close>

definition example_codec :: retrylib where
  "example_codec = \<lparr>http_ParseTime = (\<lambda>_. None),
     unmarshal_metadata = (\<lambda>s. Some [(retryAfterMetadataKey, s)]), unmarshal_time = (\<lambda>s. map_option int (parse_uint 63 s)),
     marshal_time = (\<lambda>t. if 0 \<le> t \<and> t < 2 ^ 63 then Inr (decimal (nat t)) else Inl (Fresh ''range'')),
     marshal_metadata = (\<lambda>m. case m of [(k, v)] \<Rightarrow> if k = retryAfterMetadataKey then Inr v else Inl (Fresh ''key'')
                                | _ \<Rightarrow> Inl (Fresh ''shape'')),
     MetadataSet = (\<lambda>_ _. None)\<rparr>"

lemma example_codec_laws: "retry_laws example_codec"
proof -
  have "parse_uint 63 (decimal (nat t)) = Some (nat t)" if "0 \<le> t" "t < 2 ^ 63" for t
    using that by (simp add: parse_uint_decimal nat_less_iff)
  then show ?thesis
    by (auto simp: retry_laws_def example_codec_def split: list.splits prod.splits if_splits)
qed

lemma retry_after_is_honoured_witness:
  "\<exists>job'. parseRetryAfter example_codec ''7'' '''' 1 webhookMaxBackoff = Some (7 * second)
     \<and> rememberRetryAfter example_codec example_job (1 + 7 * second) = (None, job')
     \<and> 7 * second < webhookNextRetry example_codec job' 1"
proof -
  have h: "parseRetryAfter example_codec ''7'' '''' 1 webhookMaxBackoff = Some (7 * second)"
  proof -
    have t: "trim_space ''7'' = ''7''" "list_all is_digit ''7''" by (simp_all add: trim_ascii is_digit_def)
    then have "parse_uint 63 ''7'' = Some 7" by (simp add: parse_uint_def digits_value_def)
    moreover have "wrap64 (7 * second) = 7 * second" by (rule wrap64_small) (simp add: second_def)
    ultimately show ?thesis
      using t unfolding parseRetryAfter_def Let_def by (simp add: webhook_durations)
  qed
  have "1 + 7 * second \<noteq> zero_time" by (simp add: zero_time_def second_def)
  then obtain job' where r: "rememberRetryAfter example_codec example_job (1 + 7 * second) = (None, job')"
    by (simp add: rememberRetryAfter_def mergeRetryAfterMetadata_def example_job_def example_codec_def second_def)
  have c: "job_CreatedAt example_job \<noteq> zero_time" "1 < job_CreatedAt example_job + webhookMaxElapsed"
    by (simp_all add: example_job_def zero_time_def webhook_durations)
  have "7 * second < webhookNextRetry example_codec job' 1"
    using retry_after_is_honoured [OF example_codec_laws h r c]
    by (simp add: example_job_def webhook_durations)
  then show ?thesis using h r by blast
qed

end
