(* ===== verification/WebhookSend.thy ===== *)
theory WebhookSend
  imports WebhookRetry
begin

text \<open>
  \<^verbatim>\<open>internal/infra/postgreswebhook/{signing,transport,handler}.go\<close>: one attempt of a delivery, from
  the job to the answer the queue gets: resolve the host, admit only public addresses, sign,
  try the admitted addresses in order, and classify what came back.

  The record \<open>sendlib\<close> stands for the DNS resolver, the Standard Webhooks signer and the HTTP
  client; the client is given the transport the code builds, whose dial function is part of
  the model. \<open>Work\<close> also returns the trace of the addresses it tried, with the evidence each
  attempt left.
\<close>

section \<open>Data\<close>

record deliveryAttempt =
  at_DeliveryID :: string
  at_OwnerScope :: string
  at_ReceiverID :: string
  at_URL :: string
  at_Body :: string
  at_AttemptedAt :: instant
  at_Deadline :: instant
  at_ActiveKeyReference :: string
  at_PredecessorKeyReference :: string

record preparedSend =
  ps_Attempt :: deliveryAttempt
  ps_URL :: url
  ps_Addresses :: "addr list"
  ps_Signature :: string

record sendResult =
  sr_Evidence :: transportEvidence
  sr_RetryAfter :: string
  sr_ResponseDate :: string

record wh_ctx =
  cx_Deadline :: "instant option"
  cx_Err :: "go_error option"

text \<open>A request with its headers, and the part of the transport that decides where it connects.\<close>

record wh_request =
  rq_Method :: string
  rq_URL :: string
  rq_Body :: string
  rq_Header :: "(string \<times> string) list"

record attemptTransport =
  tr_ServerName :: string
  tr_Dial :: "go_error + string"
  tr_ResponseHeaderTimeout :: duration
  tr_TLSHandshakeTimeout :: duration
  tr_MaxResponseHeaderBytes :: int

text \<open>What \<^verbatim>\<open>client.Do\<close> reports: whether the trace saw the request written, and an error with the
  text it prints, or the status and the two headers of the response.\<close>

datatype doResult =
    DoFailed bool go_error string
  | DoResponse int string string

record sendlib =
  LookupNetIP :: "string \<Rightarrow> go_error + addr list"
  NewWebhookRaw :: "string \<Rightarrow> bool"
  webhook_Sign :: "string \<Rightarrow> string \<Rightarrow> instant \<Rightarrow> string \<Rightarrow> go_error + string"
  addr_String :: "addr \<Rightarrow> string"
  NewRequest_err :: "string \<Rightarrow> go_error option"
  client_Do :: "attemptTransport \<Rightarrow> wh_request \<Rightarrow> doResult"

section \<open>Signing\<close>

fun sign_all :: "sendlib \<Rightarrow> string \<Rightarrow> instant \<Rightarrow> string \<Rightarrow> string list \<Rightarrow> go_error + string list" where
  "sign_all sl deliveryID attemptedAt body [] = Inr []"
| "sign_all sl deliveryID attemptedAt body (key # keys) =
     (if \<not> ValidKey key then Inl (Fresh ''sign webhook: key must contain 32..64 bytes'')
      else if \<not> NewWebhookRaw sl key then Inl (Fresh ''sign webhook: initialize signer'')
      else case webhook_Sign sl key deliveryID attemptedAt body of
        Inl err \<Rightarrow> Inl (Fresh ''sign webhook: create signature'')
      | Inr signature \<Rightarrow>
          (case sign_all sl deliveryID attemptedAt body keys of
             Inl err \<Rightarrow> Inl err | Inr entries \<Rightarrow> Inr (signature # entries)))"

definition signV1 :: "sendlib \<Rightarrow> string \<Rightarrow> instant \<Rightarrow> string \<Rightarrow> string \<Rightarrow> string option \<Rightarrow> go_error + string" where
  "signV1 sl deliveryID attemptedAt body active predecessor =
     (if validateToken ''delivery_id'' deliveryID \<noteq> None \<or> CHR ''.'' \<in> set deliveryID then Inl wh_ErrConfig
      else case sign_all sl deliveryID attemptedAt body (active # (case predecessor of None \<Rightarrow> [] | Some k \<Rightarrow> [k])) of
        Inl err \<Rightarrow> Inl err
      | Inr entries \<Rightarrow> Inr (str_join '' '' entries))"

section \<open>Preparing a send\<close>

definition maxDNSAddresses :: nat where "maxDNSAddresses = 64"
definition webhookUserAgent :: string where "webhookUserAgent = ''go-service-template-webhook/1''"
definition responseHeaderTimeout :: duration where "responseHeaderTimeout = 15 * second"
definition tlsHandshakeTimeout :: duration where "tlsHandshakeTimeout = 15 * second"
definition maxResponseHeaderBytes :: int where "maxResponseHeaderBytes = 32768"

definition attemptContextBounded :: "wh_ctx \<Rightarrow> instant \<Rightarrow> bool" where
  "attemptContextBounded ctx attemptDeadline =
     (case cx_Deadline ctx of None \<Rightarrow> False
      | Some deadline \<Rightarrow> attemptDeadline \<noteq> zero_time \<and> \<not> attemptDeadline < deadline)"

fun AsSlice :: "addr \<Rightarrow> string" where
  "AsSlice InvalidAddr = ''''"
| "AsSlice (V4 w) = be_bytes 4 (unat w)"
| "AsSlice (V6 w z) = be_bytes 16 (unat w)"

definition admitDestinationAddresses :: "addr list \<Rightarrow> go_error + addr list" where
  "admitDestinationAddresses addresses =
     (if addresses = [] \<or> maxDNSAddresses < length addresses
      then Inl (WrapFmt ''destination returned an invalid address count'' errDestinationDenied)
      else let unmapped = map Unmap addresses
           in if list_ex (\<lambda>a. \<not> PublicAddress a) unmapped
              then Inl (WrapFmt ''destination answer contains a non-public address'' errDestinationDenied)
              else Inr (remdups_adj (sort_key AsSlice unmapped)))"

definition prepareSend ::
  "weblib \<Rightarrow> sendlib \<Rightarrow> wh_ctx \<Rightarrow> deliveryAttempt \<Rightarrow> SecretManifest \<Rightarrow> go_error + preparedSend" where
  "prepareSend lib sl ctx attempt manifest =
     (if \<not> attemptContextBounded ctx (at_Deadline attempt)
      then Inl (WrapFmt ''resolver, secret manifest, and bounded attempt deadline are required'' wh_ErrConfig)
      else case parseWebhookURL lib (at_URL attempt) of
        Inl err \<Rightarrow> Inl err
      | Inr parsed \<Rightarrow>
      case LookupNetIP sl (u_Hostname parsed) of
        Inl err \<Rightarrow> Inl (WrapFmt ''resolve webhook destination'' err)
      | Inr looked \<Rightarrow>
      case admitDestinationAddresses looked of
        Inl err \<Rightarrow> Inl err
      | Inr addresses \<Rightarrow>
      case secret_resolve (Some manifest) (at_OwnerScope attempt) (at_ReceiverID attempt) (at_ActiveKeyReference attempt) of
        Inl err \<Rightarrow> Inl err
      | Inr active \<Rightarrow>
      case (if at_PredecessorKeyReference attempt = '''' then Inr None
            else case secret_resolve (Some manifest) (at_OwnerScope attempt) (at_ReceiverID attempt)
                        (at_PredecessorKeyReference attempt) of Inl err \<Rightarrow> Inl err | Inr k \<Rightarrow> Inr (Some k)) of
        Inl err \<Rightarrow> Inl err
      | Inr predecessor \<Rightarrow>
      case signV1 sl (at_DeliveryID attempt) (at_AttemptedAt attempt) (at_Body attempt) active predecessor of
        Inl err \<Rightarrow> Inl err
      | Inr signature \<Rightarrow>
          Inr \<lparr>ps_Attempt = attempt, ps_URL = parsed, ps_Addresses = addresses, ps_Signature = signature\<rparr>)"

section \<open>Sending\<close>

definition certaintyForWrite :: "bool \<Rightarrow> sendCertainty" where
  "certaintyForWrite wrote = (if wrote then sendCertaintyMayHaveSent else sendCertaintyDefinitelyNotSent)"

definition permanentTLSValidationError :: "go_error \<Rightarrow> bool" where
  "permanentTLSValidationError err =
     (has_type ''*tls.CertificateVerificationError'' err \<or> has_type ''x509.UnknownAuthorityError'' err
      \<or> has_type ''x509.HostnameError'' err \<or> has_type ''x509.CertificateInvalidError'' err)"

definition webhookRequest :: "weblib \<Rightarrow> sendlib \<Rightarrow> preparedSend \<Rightarrow> go_error + wh_request" where
  "webhookRequest lib sl prepared =
     (let url = url_String lib (ps_URL prepared)
      in case NewRequest_err sl url of
           Some err \<Rightarrow> Inl (WrapFmt ''build webhook request'' err)
         | None \<Rightarrow>
             Inr \<lparr>rq_Method = ''POST'', rq_URL = url, rq_Body = at_Body (ps_Attempt prepared),
               rq_Header =
                 [(''Content-Type'', ''application/json''), (''Accept-Encoding'', ''identity''),
                  (''User-Agent'', webhookUserAgent), (''Webhook-Id'', at_DeliveryID (ps_Attempt prepared)),
                  (''Webhook-Timestamp'', decimal_int (at_AttemptedAt (ps_Attempt prepared) div second)),
                  (''Webhook-Signature'', ps_Signature prepared)]\<rparr>)"

definition newAttemptTransport :: "sendlib \<Rightarrow> string \<Rightarrow> addr \<Rightarrow> attemptTransport" where
  "newAttemptTransport sl serverName address =
     \<lparr>tr_ServerName = serverName,
      tr_Dial = (if \<not> PublicAddress address then Inl errDestinationDenied
                 else Inr (JoinHostPort (addr_String sl address) ''443'')),
      tr_ResponseHeaderTimeout = responseHeaderTimeout, tr_TLSHandshakeTimeout = tlsHandshakeTimeout,
      tr_MaxResponseHeaderBytes = maxResponseHeaderBytes\<rparr>"

definition not_sendable :: sendResult where
  "not_sendable = \<lparr>sr_Evidence = \<lparr>te_StatusCode = 0, te_Certainty = sendCertaintyDefinitelyNotSent, te_LocalPermanent = True\<rparr>,
     sr_RetryAfter = '''', sr_ResponseDate = ''''\<rparr>"

text \<open>\<^verbatim>\<open>net/http\<close> has no sentinel for oversized response headers, so the code looks for a text.\<close>

definition contains_text :: "string \<Rightarrow> string \<Rightarrow> bool" where
  "contains_text part s = list_ex (\<lambda>i. take (length part) (drop i s) = part) [0..<Suc (length s)]"

definition sendWithTransport ::
  "weblib \<Rightarrow> sendlib \<Rightarrow> preparedSend \<Rightarrow> attemptTransport \<Rightarrow> sendResult \<times> go_error option" where
  "sendWithTransport lib sl prepared transport =
     (case webhookRequest lib sl prepared of
        Inl err \<Rightarrow> (not_sendable, Some err)
      | Inr request \<Rightarrow>
          (case client_Do sl transport request of
             DoFailed wrote err0 printed \<Rightarrow>
               let err = (if errors_is err0 (Sentinel ''http.ErrLineTooLong'')
                             \<or> contains_text ''server response headers exceeded'' printed
                          then errResponseLimit else err0)
               in (\<lparr>sr_Evidence = \<lparr>te_StatusCode = 0, te_Certainty = certaintyForWrite wrote,
                      te_LocalPermanent = (\<not> wrote \<and> permanentTLSValidationError err)\<rparr>,
                    sr_RetryAfter = '''', sr_ResponseDate = ''''\<rparr>,
                   Some (WrapFmt ''send webhook request'' err))
           | DoResponse status retryAfter date \<Rightarrow>
               (\<lparr>sr_Evidence = \<lparr>te_StatusCode = status, te_Certainty = sendCertaintyMayHaveSent, te_LocalPermanent = False\<rparr>,
                 sr_RetryAfter = retryAfter, sr_ResponseDate = date\<rparr>, None)))"

definition send :: "weblib \<Rightarrow> sendlib \<Rightarrow> wh_ctx \<Rightarrow> preparedSend \<Rightarrow> addr \<Rightarrow> sendResult \<times> go_error option" where
  "send lib sl ctx prepared address =
     (if address = InvalidAddr \<or> \<not> attemptContextBounded ctx (at_Deadline (ps_Attempt prepared))
      then (not_sendable, Some (WrapFmt ''prepared send is invalid'' wh_ErrConfig))
      else sendWithTransport lib sl prepared (newAttemptTransport sl (u_Hostname (ps_URL prepared)) address))"

text \<open>The loop over the addresses, with the trace of what was tried.\<close>

type_synonym attempt_trace = "(addr \<times> transportEvidence) list"

fun try_loop ::
  "(addr \<Rightarrow> sendResult \<times> go_error option) \<Rightarrow> addr list \<Rightarrow> sendResult \<times> go_error option \<Rightarrow> attempt_trace \<Rightarrow>
   (sendResult \<times> go_error option) \<times> attempt_trace" where
  "try_loop snd' [] prev tr = (prev, tr)"
| "try_loop snd' (a # as) prev tr =
     (let (result, err) = snd' a; tr' = tr @ [(a, sr_Evidence result)]
      in if err = None \<or> te_Certainty (sr_Evidence result) \<noteq> sendCertaintyDefinitelyNotSent
         then ((result, err), tr') else try_loop snd' as (result, err) tr')"

definition zero_sendResult :: sendResult where
  "zero_sendResult = \<lparr>sr_Evidence = \<lparr>te_StatusCode = 0, te_Certainty = sendCertaintyUnspecified, te_LocalPermanent = False\<rparr>,
     sr_RetryAfter = '''', sr_ResponseDate = ''''\<rparr>"

definition tryPreparedAddresses ::
  "preparedSend \<Rightarrow> (addr \<Rightarrow> sendResult \<times> go_error option) \<Rightarrow> (sendResult \<times> go_error option) \<times> attempt_trace" where
  "tryPreparedAddresses prepared snd' =
     (if ps_Addresses prepared = [] then ((not_sendable, Some wh_ErrConfig), [])
      else try_loop snd' (ps_Addresses prepared) (zero_sendResult, None) [])"

section \<open>The worker\<close>

definition cancelJob :: "string \<Rightarrow> go_error" where
  "cancelJob reason = WrapFmt ''cancel webhook job'' (WrapTyped ''*rivertype.JobCancelError'' '''' (Fresh reason))"

definition deliveryFailure :: "string \<Rightarrow> go_error option \<Rightarrow> go_error" where
  "deliveryFailure message err = (case err of None \<Rightarrow> Fresh message | Some e \<Rightarrow> WrapFmt message e)"

definition retryableWebhookStatus :: "int \<Rightarrow> bool" where
  "retryableWebhookStatus status =
     (status = 408 \<or> status = 425 \<or> status = 429 \<or> (500 \<le> status \<and> status \<le> 599 \<and> status \<noteq> 501 \<and> status \<noteq> 505))"

definition prepareFailure :: "wh_ctx \<Rightarrow> go_error \<Rightarrow> go_error" where
  "prepareFailure ctx err =
     (if errors_is err errDestinationDenied then cancelJob ''webhook destination denied''
      else if errors_is err DeadlineExceeded \<or> errors_is_opt (cx_Err ctx) DeadlineExceeded then DeadlineExceeded
      else if errors_is err Canceled \<or> errors_is_opt (cx_Err ctx) Canceled then Canceled
      else WrapFmt ''prepare webhook delivery'' err)"

definition classifyDelivery :: "sendResult \<Rightarrow> go_error option \<Rightarrow> go_error option" where
  "classifyDelivery result err =
     (let evidence = sr_Evidence result; status = te_StatusCode evidence
      in if te_LocalPermanent evidence then Some (cancelJob ''webhook delivery cannot be sent'')
         else if 200 \<le> status \<and> status \<le> 299 then None
         else if retryableWebhookStatus status
         then Some (Fresh (''webhook delivery retryable: HTTP '' @ decimal_int status))
         else if 100 \<le> status
         then Some (cancelJob (''webhook receiver rejected delivery: HTTP '' @ decimal_int status))
         else if te_Certainty evidence = sendCertaintyMayHaveSent
         then Some (deliveryFailure ''webhook delivery outcome is ambiguous'' err)
         else if errors_is_opt err DeadlineExceeded then Some DeadlineExceeded
         else if errors_is_opt err Canceled then Some Canceled
         else Some (deliveryFailure ''webhook delivery failed'' err))"

definition handler_Timeout :: duration where "handler_Timeout = 30 * second"

definition handler_NextRetry :: "retrylib \<Rightarrow> wh_job \<Rightarrow> instant \<Rightarrow> instant" where
  "handler_NextRetry rl job now = webhookNextRetry rl job now"

record workResult =
  wr_err :: "go_error option"
  wr_job :: wh_job
  wr_trace :: attempt_trace

definition attempt_of :: "wh_job \<Rightarrow> instant \<Rightarrow> instant \<Rightarrow> deliveryAttempt" where
  "attempt_of job attemptedAt deadline =
     (let a = job_Args job
      in \<lparr>at_DeliveryID = da_DeliveryID a, at_OwnerScope = da_OwnerScope a, at_ReceiverID = da_ReceiverID a,
          at_URL = da_URL a, at_Body = da_Body a, at_AttemptedAt = attemptedAt, at_Deadline = deadline,
          at_ActiveKeyReference = da_ActiveKeyReference a, at_PredecessorKeyReference = da_PredecessorKeyReference a\<rparr>)"

text \<open>\<open>None\<close> for the secrets is a worker that was not configured: \<^verbatim>\<open>AddWorker\<close> gives every handler it
  registers a manifest and a resolver.\<close>

definition Work ::
  "weblib \<Rightarrow> sendlib \<Rightarrow> retrylib \<Rightarrow> SecretManifest option \<Rightarrow> wh_ctx \<Rightarrow> instant \<Rightarrow> wh_job \<Rightarrow> workResult" where
  "Work lib sl rl secrets ctx attemptedAt job =
     (case secrets of
        None \<Rightarrow> \<lparr>wr_err = Some (cancelJob ''webhook worker is not configured''), wr_job = job, wr_trace = []\<rparr>
      | Some manifest \<Rightarrow>
      if validate_args lib (job_Args job) \<noteq> None
      then \<lparr>wr_err = Some (cancelJob ''webhook job arguments are invalid''), wr_job = job, wr_trace = []\<rparr>
      else case cx_Deadline ctx of
        None \<Rightarrow> \<lparr>wr_err = Some (cancelJob ''webhook attempt deadline is required''), wr_job = job, wr_trace = []\<rparr>
      | Some deadline \<Rightarrow>
      if webhookDeliveryExpired job attemptedAt
      then \<lparr>wr_err = Some (cancelJob ''webhook delivery deadline exhausted''), wr_job = job, wr_trace = []\<rparr>
      else case prepareSend lib sl ctx (attempt_of job attemptedAt deadline) manifest of
        Inl err \<Rightarrow> \<lparr>wr_err = Some (prepareFailure ctx err), wr_job = job, wr_trace = []\<rparr>
      | Inr prepared \<Rightarrow>
      let ((result, sendErr), tr) = tryPreparedAddresses prepared (send lib sl ctx prepared);
          hint = (if retryableWebhookStatus (te_StatusCode (sr_Evidence result))
                  then parseRetryAfter rl (sr_RetryAfter result) (sr_ResponseDate result) attemptedAt webhookMaxBackoff
                  else None)
      in case hint of
           None \<Rightarrow> \<lparr>wr_err = classifyDelivery result sendErr, wr_job = job, wr_trace = tr\<rparr>
         | Some h \<Rightarrow>
             (case rememberRetryAfter rl job (attemptedAt + h) of
                (Some err, job') \<Rightarrow>
                  \<lparr>wr_err = Some (errors_join [Fresh ''webhook delivery retryable'', err]), wr_job = job', wr_trace = tr\<rparr>
              | (None, job') \<Rightarrow> \<lparr>wr_err = classifyDelivery result sendErr, wr_job = job', wr_trace = tr\<rparr>))"

section \<open>What one attempt does\<close>

lemma try_loop_trace:
  assumes "try_loop f as prev tr = ((result, err), tr')"
    and "list_all (\<lambda>(a, e). te_Certainty e = sendCertaintyDefinitelyNotSent) tr"
  shows "set (map fst tr') \<subseteq> set (map fst tr) \<union> set as
    \<and> list_all (\<lambda>(a, e). te_Certainty e = sendCertaintyDefinitelyNotSent) (butlast tr')
    \<and> (as \<noteq> [] \<longrightarrow> tr' \<noteq> [] \<and> snd (last tr') = sr_Evidence result \<and> (\<exists>a \<in> set as. f a = (result, err)))"
  using assms
proof (induction as arbitrary: prev tr)
  case Nil
  then show ?case by (auto simp: list_all_iff dest: in_set_butlastD)
next
  case (Cons a as)
  obtain r e where f: "f a = (r, e)" by (cases "f a")
  let ?tr = "tr @ [(a, sr_Evidence r)]"
  show ?case
  proof (cases "e = None \<or> te_Certainty (sr_Evidence r) \<noteq> sendCertaintyDefinitelyNotSent")
    case True
    then show ?thesis using Cons.prems f by (auto simp: Let_def)
  next
    case False
    then have loop: "try_loop f as (r, e) ?tr = ((result, err), tr')" using Cons.prems(1) f by (auto simp: Let_def)
    have "list_all (\<lambda>(a, e). te_Certainty e = sendCertaintyDefinitelyNotSent) ?tr" using Cons.prems(2) False by simp
    note ih = Cons.IH [OF loop this]
    show ?thesis
    proof (cases as)
      case Nil
      then show ?thesis using loop ih f by auto
    next
      case (Cons b bs)
      then show ?thesis using ih by auto
    qed
  qed
qed

lemma send_permanent:
  "send lib sl ctx prepared a = (result, err) \<Longrightarrow> te_LocalPermanent (sr_Evidence result) \<Longrightarrow>
   te_StatusCode (sr_Evidence result) = 0"
  by (auto simp: send_def sendWithTransport_def not_sendable_def Let_def split: if_splits sum.splits doResult.splits)

lemma admitted_public:
  assumes "admitDestinationAddresses looked = Inr addresses"
  shows "addresses \<noteq> [] \<and> (\<forall>a \<in> set addresses. PublicAddress a)"
proof -
  have "looked \<noteq> []" "\<forall>a \<in> set (map Unmap looked). PublicAddress a"
    and a: "addresses = remdups_adj (sort_key AsSlice (map Unmap looked))"
    using assms by (auto simp: admitDestinationAddresses_def Let_def list_ex_iff split: if_splits)
  moreover have "sort_key AsSlice (map Unmap looked) \<noteq> []"
    using \<open>looked \<noteq> []\<close> by (metis length_0_conv length_map length_sort)
  ultimately show ?thesis by simp
qed

lemma prepareSend_public:
  assumes "prepareSend lib sl ctx attempt secrets = Inr prepared"
  shows "ps_Addresses prepared \<noteq> [] \<and> (\<forall>a \<in> set (ps_Addresses prepared). PublicAddress a)"
  using assms admitted_public by (auto simp: prepareSend_def split: if_splits sum.splits)

text \<open>River ends a job when the error it gets is, or wraps, its \<^verbatim>\<open>JobCancelError\<close>.\<close>

definition cancelled :: "go_error option \<Rightarrow> bool" where
  "cancelled err = (case err of None \<Rightarrow> False | Some e \<Rightarrow> has_type ''*rivertype.JobCancelError'' e)"

text \<open>The documented table: a receiver's answer is final unless it is a success or one of these statuses.\<close>

definition final_status :: "int \<Rightarrow> bool" where
  "final_status status =
     (100 \<le> status \<and> status \<notin> {200..299} \<and> status \<notin> {408, 425, 429, 500, 502, 503, 504} \<and> status \<notin> {506..599})"

definition final_evidence :: "transportEvidence \<Rightarrow> bool" where
  "final_evidence e = (te_LocalPermanent e \<or> final_status (te_StatusCode e))"

text \<open>What the code relies on: the resolver, the HTTP client, the codec and River's metadata do not
  themselves return River's cancellation, and the resolver's errors are not this package's.\<close>

definition foreign :: "go_error \<Rightarrow> bool" where
  "foreign e = (\<not> has_type ''*rivertype.JobCancelError'' e)"

definition library_errors :: "sendlib \<Rightarrow> retrylib \<Rightarrow> bool" where
  "library_errors sl rl =
     ((\<forall>h e. LookupNetIP sl h = Inl e \<longrightarrow> foreign e \<and> \<not> errors_is e errDestinationDenied) \<and>
      (\<forall>u e. NewRequest_err sl u = Some e \<longrightarrow> foreign e) \<and>
      (\<forall>t r wrote e printed. client_Do sl t r = DoFailed wrote e printed \<longrightarrow> foreign e) \<and>
      (\<forall>t e. marshal_time rl t = Inl e \<longrightarrow> foreign e) \<and>
      (\<forall>m e. marshal_metadata rl m = Inl e \<longrightarrow> foreign e) \<and>
      (\<forall>k t e. MetadataSet rl k t = Some e \<longrightarrow> foreign e))"

lemma foreign_simps:
  "foreign (Sentinel n)" "foreign (Fresh m)" "foreign (WrapFmt m e) = foreign e"
  "foreign (errors_join [e, e']) = (foreign e \<and> foreign e')" "foreign DeadlineExceeded"
  "\<not> foreign (cancelJob reason)"
  by (simp_all add: foreign_def has_type_simps cancelJob_def)

lemma cancelled_simps:
  "\<not> cancelled None" "cancelled (Some e) = (\<not> foreign e)"
  by (simp_all add: cancelled_def foreign_def)

lemma send_foreign:
  assumes "library_errors sl rl" and "send lib sl ctx prepared a = (result, Some err)"
  shows "foreign err"
proof -
  have "foreign e" if "NewRequest_err sl u = Some e" for u e using assms(1) that by (simp add: library_errors_def)
  moreover have "foreign e" if "client_Do sl t r = DoFailed wrote e printed" for t r wrote e printed
    using assms(1) that unfolding library_errors_def by blast
  ultimately show ?thesis
    using assms(2)
    by (auto simp: send_def sendWithTransport_def webhookRequest_def foreign_simps Let_def
        split: if_splits sum.splits doResult.splits option.splits)
qed

lemma rememberRetryAfter_foreign:
  assumes "library_errors sl rl" and "rememberRetryAfter rl job at = (Some err, job')"
  shows "foreign err"
  using assms
  by (auto simp: library_errors_def rememberRetryAfter_def mergeRetryAfterMetadata_def foreign_simps
      simp del: AList.update.simps split: if_splits sum.splits option.splits)

lemma classifyDelivery_None:
  "classifyDelivery result err = None \<longleftrightarrow>
     \<not> te_LocalPermanent (sr_Evidence result) \<and> te_StatusCode (sr_Evidence result) \<in> {200..299}"
  by (simp add: classifyDelivery_def Let_def)

lemma retryable_not_final:
  "retryableWebhookStatus status \<longleftrightarrow> 100 \<le> status \<and> status \<notin> {200..299} \<and> \<not> final_status status"
  by (auto simp: retryableWebhookStatus_def final_status_def)

lemma classifyDelivery_cancelled:
  assumes "\<And>e. err = Some e \<Longrightarrow> foreign e"
  shows "cancelled (classifyDelivery result err) \<longleftrightarrow> final_evidence (sr_Evidence result)"
proof -
  have "foreign (deliveryFailure m err)" for m
    using assms by (cases err) (simp_all add: deliveryFailure_def foreign_simps)
  then show ?thesis
    by (auto simp: classifyDelivery_def Let_def cancelled_simps foreign_simps final_evidence_def final_status_def
        retryableWebhookStatus_def)
qed

text \<open>When the destination of a delivery is refused: the address list is empty, too long, or names
  an address that is not public.\<close>

definition denied_destination :: "weblib \<Rightarrow> sendlib \<Rightarrow> string \<Rightarrow> bool" where
  "denied_destination lib sl rawurl =
     (case parseWebhookURL lib rawurl of
        Inl _ \<Rightarrow> True
      | Inr u \<Rightarrow>
          (case LookupNetIP sl (u_Hostname u) of
             Inl _ \<Rightarrow> False
           | Inr looked \<Rightarrow> looked = [] \<or> 64 < length looked \<or> list_ex (\<lambda>a. \<not> PublicAddress (Unmap a)) looked))"

text \<open>Why an attempt that never reached an address ends the delivery.\<close>

definition refused_early ::
  "weblib \<Rightarrow> sendlib \<Rightarrow> SecretManifest option \<Rightarrow> wh_ctx \<Rightarrow> instant \<Rightarrow> wh_job \<Rightarrow> bool" where
  "refused_early lib sl secrets ctx attemptedAt job =
     (secrets = None \<or> validate_args lib (job_Args job) \<noteq> None \<or>
      (case cx_Deadline ctx of
         None \<Rightarrow> True
       | Some deadline \<Rightarrow> webhookDeliveryExpired job attemptedAt
           \<or> deadline \<noteq> zero_time \<and> denied_destination lib sl (da_URL (job_Args job))))"

lemma signV1_error:
  "signV1 sl i t body active predecessor = Inl err \<Longrightarrow> foreign err \<and> \<not> errors_is err errDestinationDenied"
proof -
  have "sign_all sl i t body keys = Inl err \<Longrightarrow> foreign err \<and> \<not> errors_is err errDestinationDenied" for keys
    by (induction keys) (auto simp: foreign_simps split: if_splits sum.splits)
  then show "signV1 sl i t body active predecessor = Inl err \<Longrightarrow> foreign err \<and> \<not> errors_is err errDestinationDenied"
    by (auto simp: signV1_def foreign_simps split: if_splits sum.splits)
qed

lemma prepareSend_error:
  assumes lib: "library_errors sl rl" and ctx: "cx_Deadline ctx = Some (at_Deadline attempt)"
    and p: "prepareSend lib sl ctx attempt secrets = Inl err"
  shows "foreign err \<and> (errors_is err errDestinationDenied \<longleftrightarrow>
    at_Deadline attempt \<noteq> zero_time \<and> denied_destination lib sl (at_URL attempt))"
proof -
  have url: "parseWebhookURL lib u = Inl e \<Longrightarrow> e = errDestinationURLDenied" for u e
    by (auto simp: parseWebhookURL_def split: if_splits option.splits)
  have resolve: "secret_resolve m a b c = Inl e \<Longrightarrow> foreign e \<and> \<not> errors_is e errDestinationDenied" for m a b c e
    by (auto simp: secret_resolve_def foreign_simps split: option.splits)
  have look: "LookupNetIP sl h = Inl e \<Longrightarrow> foreign e \<and> \<not> errors_is e errDestinationDenied" for h e
    using lib by (simp add: library_errors_def)
  have admit: "(\<exists>e. admitDestinationAddresses looked = Inl e \<and> foreign e \<and> errors_is e errDestinationDenied)
      \<and> (looked = [] \<or> 64 < length looked \<or> list_ex (\<lambda>a. \<not> PublicAddress (Unmap a)) looked)
    \<or> (\<exists>as. admitDestinationAddresses looked = Inr as)
      \<and> \<not> (looked = [] \<or> 64 < length looked \<or> list_ex (\<lambda>a. \<not> PublicAddress (Unmap a)) looked)" for looked
    by (auto simp: admitDestinationAddresses_def maxDNSAddresses_def foreign_simps list_ex_iff Let_def)
  show ?thesis
  proof (cases "at_Deadline attempt = zero_time")
    case True
    then have "err = WrapFmt ''resolver, secret manifest, and bounded attempt deadline are required'' wh_ErrConfig"
      using p ctx by (simp add: prepareSend_def attemptContextBounded_def)
    then show ?thesis using True by (simp add: foreign_simps)
  next
    case False
    then have "attemptContextBounded ctx (at_Deadline attempt)" using ctx by (simp add: attemptContextBounded_def)
    note p' = p [unfolded prepareSend_def, simplified this not_True_eq_False if_False]
    show ?thesis
    proof (cases "parseWebhookURL lib (at_URL attempt)")
      case (Inl e)
      then have "err = errDestinationURLDenied" using p' url [OF Inl] by simp
      then show ?thesis using False Inl
        by (simp add: errDestinationURLDenied_def denied_destination_def foreign_simps)
    next
      case parsed: (Inr u)
      show ?thesis
      proof (cases "LookupNetIP sl (u_Hostname u)")
        case (Inl e)
        then have "err = WrapFmt ''resolve webhook destination'' e" using p' parsed by simp
        then show ?thesis using parsed Inl look [OF Inl] by (simp add: denied_destination_def foreign_simps)
      next
        case looked: (Inr as)
        then have den: "denied_destination lib sl (at_URL attempt) \<longleftrightarrow>
            as = [] \<or> 64 < length as \<or> list_ex (\<lambda>a. \<not> PublicAddress (Unmap a)) as"
          using parsed by (simp add: denied_destination_def)
        show ?thesis
        proof (cases "admitDestinationAddresses as")
          case (Inl e)
          then show ?thesis using p' parsed looked admit [of as] False den by simp
        next
          case (Inr adm)
          then have "foreign err \<and> \<not> errors_is err errDestinationDenied"
            using p' parsed looked resolve signV1_error by (simp split: sum.splits if_splits)
          then show ?thesis using admit [of as] Inr den by simp
        qed
      qed
    qed
  qed
qed

lemma prepareFailure_cancelled:
  "foreign err \<Longrightarrow> cancelled (Some (prepareFailure ctx err)) \<longleftrightarrow> errors_is err errDestinationDenied"
  by (auto simp: prepareFailure_def cancelled_simps foreign_simps)

lemma Work_classified:
  assumes w: "w = Work lib sl rl secrets ctx attemptedAt job" and lib: "library_errors sl rl"
    and "validate_args lib (job_Args job) = None" and m: "secrets = Some manifest"
    and d: "cx_Deadline ctx = Some deadline" and x: "\<not> webhookDeliveryExpired job attemptedAt"
    and p: "prepareSend lib sl ctx (attempt_of job attemptedAt deadline) manifest = Inr prepared"
    and t: "tryPreparedAddresses prepared (send lib sl ctx prepared) = ((result, sendErr), tr)"
  shows "wr_trace w = tr \<and> (wr_err w = classifyDelivery result sendErr
      \<or> retryableWebhookStatus (te_StatusCode (sr_Evidence result))
        \<and> (\<exists>e. foreign e \<and> wr_err w = Some (errors_join [Fresh ''webhook delivery retryable'', e])))"
proof (cases "if retryableWebhookStatus (te_StatusCode (sr_Evidence result))
    then parseRetryAfter rl (sr_RetryAfter result) (sr_ResponseDate result) attemptedAt webhookMaxBackoff else None")
  case None
  then show ?thesis using assms by (simp add: Work_def Let_def)
next
  case (Some h)
  then have r: "retryableWebhookStatus (te_StatusCode (sr_Evidence result))" by (simp split: if_splits)
  obtain err job' where rem: "rememberRetryAfter rl job (attemptedAt + h) = (err, job')" by (metis surj_pair)
  show ?thesis
  proof (cases err)
    case None
    then show ?thesis using assms Some rem by (simp add: Work_def Let_def)
  next
    case e: (Some e)
    then have "wr_trace w = tr" "wr_err w = Some (errors_join [Fresh ''webhook delivery retryable'', e])"
      using assms Some rem by (simp_all add: Work_def Let_def)
    then show ?thesis using r rememberRetryAfter_foreign [OF lib] rem e by blast
  qed
qed

text \<open>The two ways an attempt ends: refused or failed before any address was tried, or classified by
  the evidence the last address left.\<close>

lemma Work_unsent_or_sent:
  assumes w: "w = Work lib sl rl secrets ctx attemptedAt job" and lib: "library_errors sl rl"
  shows "wr_trace w = [] \<and> wr_err w \<noteq> None \<and> (cancelled (wr_err w) \<longleftrightarrow> refused_early lib sl secrets ctx attemptedAt job)
    \<or> (\<exists>manifest deadline prepared result sendErr.
         secrets = Some manifest \<and> validate_args lib (job_Args job) = None \<and> cx_Deadline ctx = Some deadline
         \<and> \<not> webhookDeliveryExpired job attemptedAt
         \<and> prepareSend lib sl ctx (attempt_of job attemptedAt deadline) manifest = Inr prepared
         \<and> tryPreparedAddresses prepared (send lib sl ctx prepared) = ((result, sendErr), wr_trace w)
         \<and> (wr_err w = classifyDelivery result sendErr
            \<or> retryableWebhookStatus (te_StatusCode (sr_Evidence result))
              \<and> (\<exists>e. foreign e \<and> wr_err w = Some (errors_join [Fresh ''webhook delivery retryable'', e]))))"
proof (cases "secrets = None \<or> validate_args lib (job_Args job) \<noteq> None \<or> cx_Deadline ctx = None
    \<or> webhookDeliveryExpired job attemptedAt")
  case True
  then show ?thesis using w
    by (auto simp: Work_def refused_early_def cancelled_simps foreign_simps split: option.split)
next
  case False
  then obtain manifest deadline where m: "secrets = Some manifest" and d: "cx_Deadline ctx = Some deadline" by auto
  let ?at = "attempt_of job attemptedAt deadline"
  have at: "at_Deadline ?at = deadline" "at_URL ?at = da_URL (job_Args job)" by (simp_all add: attempt_of_def Let_def)
  show ?thesis
  proof (cases "prepareSend lib sl ctx ?at manifest")
    case (Inl err)
    have "foreign err" "errors_is err errDestinationDenied \<longleftrightarrow> refused_early lib sl secrets ctx attemptedAt job"
      using prepareSend_error [OF lib _ Inl] at d m False by (auto simp: refused_early_def)
    then show ?thesis using w False m d Inl prepareFailure_cancelled [of err ctx] by (simp add: Work_def)
  next
    case (Inr prepared)
    obtain result sendErr tr where t: "tryPreparedAddresses prepared (send lib sl ctx prepared) = ((result, sendErr), tr)"
      by (metis surj_pair)
    have "wr_trace w = tr \<and> (wr_err w = classifyDelivery result sendErr
            \<or> retryableWebhookStatus (te_StatusCode (sr_Evidence result))
              \<and> (\<exists>e. foreign e \<and> wr_err w = Some (errors_join [Fresh ''webhook delivery retryable'', e])))"
      using Work_classified [OF w lib _ m d _ Inr t] False by simp
    moreover have "validate_args lib (job_Args job) = None" "\<not> webhookDeliveryExpired job attemptedAt"
      using False by simp_all
    ultimately show ?thesis using m d Inr t by metis
  qed
qed

lemma Work_sent:
  assumes prep: "prepareSend lib sl ctx attempt manifest = Inr prepared"
    and t: "tryPreparedAddresses prepared (send lib sl ctx prepared) = ((result, sendErr), tr)"
    and lib: "library_errors sl rl"
  shows "(\<forall>x \<in> set tr. PublicAddress (fst x)) \<and> tr \<noteq> [] \<and> snd (last tr) = sr_Evidence result
    \<and> (\<forall>x \<in> set (butlast tr). te_Certainty (snd x) = sendCertaintyDefinitelyNotSent)
    \<and> (te_LocalPermanent (sr_Evidence result) \<longrightarrow> te_StatusCode (sr_Evidence result) = 0)
    \<and> (\<forall>e. sendErr = Some e \<longrightarrow> foreign e)"
proof -
  note pub = prepareSend_public [OF prep]
  have "try_loop (send lib sl ctx prepared) (ps_Addresses prepared) (zero_sendResult, None) [] = ((result, sendErr), tr)"
    using t pub by (simp add: tryPreparedAddresses_def)
  note tr = try_loop_trace [OF this, simplified]
  then obtain a where a: "send lib sl ctx prepared a = (result, sendErr)" using pub by blast
  have "\<forall>x \<in> set tr. PublicAddress (fst x)" using tr pub by auto
  moreover have "\<forall>x \<in> set (butlast tr). te_Certainty (snd x) = sendCertaintyDefinitelyNotSent"
    using tr by (auto simp: list_all_iff)
  moreover have "tr \<noteq> []" "snd (last tr) = sr_Evidence result" using tr pub by blast+
  ultimately show ?thesis using send_permanent [OF a] send_foreign [OF lib] a by auto
qed

lemma prepared_not_refused:
  assumes "prepareSend lib sl ctx (attempt_of job attemptedAt deadline) manifest = Inr prepared"
    and "secrets = Some manifest" "validate_args lib (job_Args job) = None" "cx_Deadline ctx = Some deadline"
    and "\<not> webhookDeliveryExpired job attemptedAt"
  shows "\<not> refused_early lib sl secrets ctx attemptedAt job"
  using assms
  by (auto simp: prepareSend_def refused_early_def denied_destination_def attempt_of_def Let_def
      admitDestinationAddresses_def maxDNSAddresses_def list_ex_iff split: if_splits sum.splits)

text \<open>C27: one attempt of a delivery is safe, and its answer to the queue is right. It only ever
  contacts public addresses; it goes on to the next address only after an attempt that
  certainly sent nothing, so at most the last address it tried may have received the
  request. It reports success exactly when a receiver answered with a 2xx status. It gives the
  queue River's cancellation exactly when a retry cannot help: the job was refused before
  anything was sent (no configured worker, invalid arguments, no deadline, expired, a denied
  destination), or the last attempt's answer is final. In every other case it returns an
  error that is not a cancellation, and the queue retries.\<close>

theorem delivery_attempt_outcome:
  assumes "w = Work lib sl rl secrets ctx attemptedAt job" and "library_errors sl rl"
  shows "(\<forall>x \<in> set (wr_trace w). PublicAddress (fst x))
    \<and> (\<forall>x \<in> set (butlast (wr_trace w)). te_Certainty (snd x) = sendCertaintyDefinitelyNotSent)
    \<and> (wr_err w = None \<longleftrightarrow> wr_trace w \<noteq> [] \<and> te_StatusCode (snd (last (wr_trace w))) \<in> {200..299})
    \<and> (cancelled (wr_err w) \<longleftrightarrow> refused_early lib sl secrets ctx attemptedAt job
         \<or> wr_trace w \<noteq> [] \<and> final_evidence (snd (last (wr_trace w))))
    \<and> (refused_early lib sl secrets ctx attemptedAt job \<longrightarrow> wr_trace w = [])"
  using Work_unsent_or_sent [OF assms]
proof (elim disjE exE)
  assume "wr_trace w = [] \<and> wr_err w \<noteq> None \<and> (cancelled (wr_err w) \<longleftrightarrow> refused_early lib sl secrets ctx attemptedAt job)"
  then show ?thesis by simp
next
  fix manifest deadline prepared result sendErr
  let ?tr = "wr_trace w"
  assume a: "secrets = Some manifest \<and> validate_args lib (job_Args job) = None \<and> cx_Deadline ctx = Some deadline
         \<and> \<not> webhookDeliveryExpired job attemptedAt
         \<and> prepareSend lib sl ctx (attempt_of job attemptedAt deadline) manifest = Inr prepared
         \<and> tryPreparedAddresses prepared (send lib sl ctx prepared) = ((result, sendErr), ?tr)
         \<and> (wr_err w = classifyDelivery result sendErr
            \<or> retryableWebhookStatus (te_StatusCode (sr_Evidence result))
              \<and> (\<exists>e. foreign e \<and> wr_err w = Some (errors_join [Fresh ''webhook delivery retryable'', e])))"
  then have not: "\<not> refused_early lib sl secrets ctx attemptedAt job" using prepared_not_refused by blast
  have s: "(\<forall>x \<in> set ?tr. PublicAddress (fst x)) \<and> ?tr \<noteq> [] \<and> snd (last ?tr) = sr_Evidence result
    \<and> (\<forall>x \<in> set (butlast ?tr). te_Certainty (snd x) = sendCertaintyDefinitelyNotSent)
    \<and> (te_LocalPermanent (sr_Evidence result) \<longrightarrow> te_StatusCode (sr_Evidence result) = 0)
    \<and> (\<forall>e. sendErr = Some e \<longrightarrow> foreign e)"
    using Work_sent a assms(2) by blast
  let ?st = "te_StatusCode (sr_Evidence result)"
  have "(wr_err w = None \<longleftrightarrow> ?st \<in> {200..299}) \<and> (cancelled (wr_err w) \<longleftrightarrow> final_evidence (sr_Evidence result))"
  proof (cases "wr_err w = classifyDelivery result sendErr")
    case True
    then show ?thesis using s classifyDelivery_None [of result sendErr] classifyDelivery_cancelled [of sendErr result] by auto
  next
    case False
    then obtain e where "retryableWebhookStatus ?st" "foreign e"
        "wr_err w = Some (errors_join [Fresh ''webhook delivery retryable'', e])" using a by blast
    then show ?thesis using s
      by (auto simp: retryable_not_final final_evidence_def cancelled_simps foreign_simps)
  qed
  then show ?thesis using s not by simp
qed

definition example_sendlib :: sendlib where
  "example_sendlib = \<lparr>LookupNetIP = (\<lambda>_. Inr [V4 0x01010101]), NewWebhookRaw = (\<lambda>_. True),
     webhook_Sign = (\<lambda>_ _ _ _. Inr ''v1,s''), addr_String = (\<lambda>_. ''1.1.1.1''), NewRequest_err = (\<lambda>_. None),
     client_Do = (\<lambda>_ _. DoResponse 204 '''' '''')\<rparr>"

definition example_sent_job :: wh_job where
  "example_sent_job = example_job\<lparr>job_Args := prepared_args example_webhook_event ''{}'' (hex_encode (sha256 ''x''))
     (Some (deriveStableID ''whe_'' [])) example_endpoint\<rparr>"

definition example_secrets :: SecretManifest where
  "example_secrets = [((''o'', ''r'', ''k''), replicate 32 (char_of (0::nat)))]"

definition example_ctx :: wh_ctx where
  "example_ctx = \<lparr>cx_Deadline = Some 100, cx_Err = None\<rparr>"

lemma example_public: "PublicAddress (V4 0x01010101)"
  by (simp add: PublicAddress_V4 range_defs within_def)

lemma example_delivery_id:
  "validateToken n (deriveDeliveryID a b c g) = None" "CHR ''.'' \<notin> set (deriveDeliveryID a b c g)"
proof -
  show "validateToken n (deriveDeliveryID a b c g) = None"
    unfolding deriveDeliveryID_def deriveStableID_def by (rule hex_token_valid) (simp_all add: between_def)
  have "CHR ''.'' \<notin> set (hex_encode s)" for s
    using hex_chars [of s] by (auto simp: list_all_iff between_def)
  then show "CHR ''.'' \<notin> set (deriveDeliveryID a b c g)"
    unfolding deriveDeliveryID_def deriveStableID_def by auto
qed

lemma example_prepared:
  "\<exists>prepared. prepareSend example_weblib example_sendlib example_ctx (attempt_of example_sent_job 1 100) example_secrets = Inr prepared
     \<and> ps_Addresses prepared = [V4 0x01010101]
     \<and> send example_weblib example_sendlib example_ctx prepared (V4 0x01010101) =
        (\<lparr>sr_Evidence = \<lparr>te_StatusCode = 204, te_Certainty = sendCertaintyMayHaveSent, te_LocalPermanent = False\<rparr>,
           sr_RetryAfter = '''', sr_ResponseDate = ''''\<rparr>, None)"
proof -
  have ctx: "attemptContextBounded example_ctx 100"
    by (simp add: attemptContextBounded_def example_ctx_def zero_time_def)
  have admit: "admitDestinationAddresses [V4 0x01010101] = Inr [V4 0x01010101]"
    using example_public by (simp add: admitDestinationAddresses_def maxDNSAddresses_def)
  have key: "ValidKey (replicate 32 (char_of (0::nat)))"
    by (simp add: ValidKey_def minKeyBytes_def maxKeyBytes_def)
  have sign: "signV1 example_sendlib (deriveDeliveryID a b c g) t body (replicate 32 (char_of (0::nat))) None = Inr ''v1,s''" for a b c g t body
    using key example_delivery_id by (simp add: signV1_def example_sendlib_def)
  show ?thesis
    using example_parses_url admit sign ctx
    by (simp add: prepareSend_def attempt_of_def example_sent_job_def prepared_args_def example_endpoint_def
        example_manifest_def example_webhook_event_def secret_resolve_def example_secrets_def example_sendlib_def
        send_def sendWithTransport_def webhookRequest_def Let_def)
qed

lemma delivery_attempt_outcome_witness:
  "let w = Work example_weblib example_sendlib example_retrylib (Some example_secrets) example_ctx 1 example_sent_job
   in wr_err w = None \<and> map fst (wr_trace w) = [V4 0x01010101] \<and> PublicAddress (V4 0x01010101)
      \<and> \<not> cancelled (wr_err w) \<and> \<not> refused_early example_weblib example_sendlib (Some example_secrets) example_ctx 1 example_sent_job"
proof -
  obtain prepared where p: "prepareSend example_weblib example_sendlib example_ctx (attempt_of example_sent_job 1 100) example_secrets = Inr prepared"
      "ps_Addresses prepared = [V4 0x01010101]"
      "send example_weblib example_sendlib example_ctx prepared (V4 0x01010101) =
        (\<lparr>sr_Evidence = \<lparr>te_StatusCode = 204, te_Certainty = sendCertaintyMayHaveSent, te_LocalPermanent = False\<rparr>,
           sr_RetryAfter = '''', sr_ResponseDate = ''''\<rparr>, None)"
    using example_prepared by blast
  have "validate_args example_weblib (job_Args example_sent_job) = None"
    using example_args_valid [of "''x''" "[]"] by (simp add: example_sent_job_def)
  moreover have "\<not> webhookDeliveryExpired example_sent_job 1"
    by (simp add: webhookDeliveryExpired_def example_sent_job_def example_job_def webhook_durations)
  moreover have "cx_Deadline example_ctx = Some 100" by (simp add: example_ctx_def)
  ultimately have w: "wr_err (Work example_weblib example_sendlib example_retrylib (Some example_secrets) example_ctx 1 example_sent_job) = None"
    "map fst (wr_trace (Work example_weblib example_sendlib example_retrylib (Some example_secrets) example_ctx 1 example_sent_job)) = [V4 0x01010101]"
    using p by (simp_all add: Work_def tryPreparedAddresses_def classifyDelivery_def retryableWebhookStatus_def Let_def)
  have "library_errors example_sendlib example_retrylib"
    by (simp add: library_errors_def example_sendlib_def example_retrylib_def)
  note out = delivery_attempt_outcome [OF refl this, of example_weblib "Some example_secrets" example_ctx 1 example_sent_job]
  have "wr_trace (Work example_weblib example_sendlib example_retrylib (Some example_secrets) example_ctx 1 example_sent_job) \<noteq> []"
    using w(2) by (metis list.distinct(1) list.map_disc_iff)
  then have "\<not> refused_early example_weblib example_sendlib (Some example_secrets) example_ctx 1 example_sent_job"
    using out by blast
  moreover have "\<not> cancelled None" by (simp add: cancelled_def)
  ultimately show ?thesis using w example_public unfolding Let_def w(1) by blast
qed

end
