(* ===== verification/InboundManifest.thy ===== *)
theory InboundManifest
  imports GoText WebhookSecret
begin

text \<open>
  The trust configuration of inbound webhooks: the endpoint document of
  \<^verbatim>\<open>internal/inboundwebhook/manifest/endpoint.go\<close>, the secret document and the join of the two
  in \<^verbatim>\<open>internal/infra/postgresinboundwebhook/manifest.go\<close>.

  The JSON decoder into the document's entries is an argument; \<open>None\<close> is its error. A Go map is
  an association list here. Go iterates a map in any order; \<open>bind_secrets_total\<close> describes
  the result of \<open>BindSecrets\<close> by lookups alone, so the order makes no difference.

  Well-formedness of the three values is carried through the parsers (\<open>endpoints_ok\<close>,
  \<open>secrets_ok\<close>), with \<open>keys\<close>, the contract of \<open>WebhookSecret\<close>, for the ownership of keys.
\<close>

section \<open>Endpoints\<close>

definition maxDocumentBytes :: nat where "maxDocumentBytes = 1048576"
definition maxEntries :: nat where "maxEntries = 4096"
definition maxTokenBytes :: nat where "maxTokenBytes = 64"

record inbound_Endpoint =
  ie_ID :: string
  ie_ActiveKeyReference :: string
  ie_PredecessorKeyReference :: string

type_synonym Endpoints = "(string \<times> inbound_Endpoint) list"

record inbound_entry =
  en_EndpointID :: string
  en_ActiveKeyReference :: string
  en_PredecessorKeyReference :: string

definition endpoint_char :: "char \<Rightarrow> bool" where
  "endpoint_char c =
     (let n = (of_char c :: nat)
      in c = CHR ''_'' \<or> c = CHR ''-'' \<or> between 65 90 n \<or> between 97 122 n \<or> between 48 57 n)"

definition ValidEndpointID :: "string \<Rightarrow> bool" where
  "ValidEndpointID v = (v \<noteq> '''' \<and> length v \<le> maxTokenBytes \<and> list_all endpoint_char v)"

definition ValidKeyReference :: "string \<Rightarrow> bool" where
  "ValidKeyReference v =
     (v \<noteq> '''' \<and> length v \<le> maxTokenBytes \<and> valid_utf8 v \<and> \<not> contains_rune (\<lambda>r. is_control r \<or> is_space r) v)"

definition inbound_parse_entry :: "inbound_entry \<Rightarrow> Endpoints \<Rightarrow> go_error + Endpoints" where
  "inbound_parse_entry e m =
     (if \<not> ValidEndpointID (en_EndpointID e) \<or> \<not> ValidKeyReference (en_ActiveKeyReference e)
      then Inl (Fresh ''parse inbound webhook endpoints: invalid identifier'')
      else if en_PredecessorKeyReference e \<noteq> '''' \<and> \<not> ValidKeyReference (en_PredecessorKeyReference e)
      then Inl (Fresh ''parse inbound webhook endpoints: invalid predecessor key'')
      else if en_PredecessorKeyReference e \<noteq> '''' \<and> en_PredecessorKeyReference e = en_ActiveKeyReference e
      then Inl (Fresh ''parse inbound webhook endpoints: predecessor key must differ from active key'')
      else if map_of m (en_EndpointID e) \<noteq> None
      then Inl (Fresh ''parse inbound webhook endpoints: duplicate endpoint'')
      else Inr (AList.update (en_EndpointID e)
             \<lparr>ie_ID = en_EndpointID e, ie_ActiveKeyReference = en_ActiveKeyReference e,
              ie_PredecessorKeyReference = en_PredecessorKeyReference e\<rparr> m))"

fun inbound_parse_entries :: "inbound_entry list \<Rightarrow> Endpoints \<Rightarrow> go_error + Endpoints" where
  "inbound_parse_entries [] m = Inr m"
| "inbound_parse_entries (e # es) m =
     (case inbound_parse_entry e m of Inl err \<Rightarrow> Inl err | Inr m' \<Rightarrow> inbound_parse_entries es m')"

definition ParseEndpoints :: "(string \<Rightarrow> inbound_entry list option) \<Rightarrow> string \<Rightarrow> go_error + Endpoints" where
  "ParseEndpoints unmarshal raw =
     (if raw = '''' then Inr []
      else if maxDocumentBytes < length raw
      then Inl (Fresh ''parse inbound webhook endpoints: document size is invalid'')
      else case unmarshal raw of
             None \<Rightarrow> Inl (Fresh ''parse inbound webhook endpoints: invalid JSON'')
           | Some parsed \<Rightarrow>
               if parsed = [] \<or> maxEntries < length parsed
               then Inl (Fresh ''parse inbound webhook endpoints: entries are required'')
               else inbound_parse_entries parsed [])"

definition endpoints_Lookup :: "Endpoints option \<Rightarrow> string \<Rightarrow> inbound_Endpoint option" where
  "endpoints_Lookup e endpointID = (case e of None \<Rightarrow> None | Some m \<Rightarrow> map_of m endpointID)"

definition zero_Endpoint :: inbound_Endpoint where
  "zero_Endpoint = \<lparr>ie_ID = '''', ie_ActiveKeyReference = '''', ie_PredecessorKeyReference = ''''\<rparr>"

definition endpoints_IDs :: "Endpoints option \<Rightarrow> string list" where
  "endpoints_IDs e = (case e of None \<Rightarrow> [] | Some m \<Rightarrow> map fst m)"

section \<open>Secrets\<close>

type_synonym keyring = "(string \<times> string) list"
type_synonym inbound_SecretManifest = "(string \<times> keyring) list"

record inbound_secretEntry =
  is_EndpointID :: string
  is_KeyReference :: string
  is_Secret :: string

text \<open>\<^verbatim>\<open>manifest.secrets[endpointID][reference]\<close>: reading an absent inner map finds nothing.\<close>

definition keyring_of :: "inbound_SecretManifest \<Rightarrow> string \<Rightarrow> keyring" where
  "keyring_of m endpointID = (case map_of m endpointID of None \<Rightarrow> [] | Some ring \<Rightarrow> ring)"

definition inbound_key :: "inbound_SecretManifest \<Rightarrow> string \<times> string \<Rightarrow> string option" where
  "inbound_key m k = map_of (keyring_of m (fst k)) (snd k)"

definition inbound_parse_secret ::
  "inbound_secretEntry \<Rightarrow> inbound_SecretManifest \<times> string bindings
   \<Rightarrow> go_error + inbound_SecretManifest \<times> string bindings" where
  "inbound_parse_secret e s =
     (case s of (m, b) \<Rightarrow>
        if \<not> ValidEndpointID (is_EndpointID e)
        then Inl (Fresh ''parse inbound webhook secrets: invalid identifier'')
        else if \<not> ValidKeyReference (is_KeyReference e)
        then Inl (Fresh ''parse inbound webhook secrets: invalid identifier'')
        else case secret_Decode (is_Secret e) of
               None \<Rightarrow> Inl (Fresh ''parse inbound webhook secrets: secret encoding is invalid'')
             | Some secret \<Rightarrow>
                 if inbound_key m (is_EndpointID e, is_KeyReference e) \<noteq> None
                 then Inl (Fresh ''parse inbound webhook secrets: duplicate binding'')
                 else case secret_Bind secret (is_EndpointID e) b of
                        None \<Rightarrow> Inl (Fresh ''parse inbound webhook secrets: key is cross-bound'')
                      | Some b' \<Rightarrow>
                          Inr (AList.update (is_EndpointID e)
                                 (AList.update (is_KeyReference e) secret (keyring_of m (is_EndpointID e))) m, b'))"

fun inbound_parse_secrets ::
  "inbound_secretEntry list \<Rightarrow> inbound_SecretManifest \<times> string bindings
   \<Rightarrow> go_error + inbound_SecretManifest \<times> string bindings" where
  "inbound_parse_secrets [] s = Inr s"
| "inbound_parse_secrets (e # es) s =
     (case inbound_parse_secret e s of Inl err \<Rightarrow> Inl err | Inr s' \<Rightarrow> inbound_parse_secrets es s')"

definition inbound_ParseSecretManifest ::
  "(string \<Rightarrow> inbound_secretEntry list option) \<Rightarrow> string \<Rightarrow> go_error + inbound_SecretManifest" where
  "inbound_ParseSecretManifest unmarshal raw =
     (if raw = '''' then Inr []
      else if MaxManifestBytes < length raw
      then Inl (Fresh ''parse inbound webhook secrets: document size is invalid'')
      else case unmarshal raw of
             None \<Rightarrow> Inl (Fresh ''parse inbound webhook secrets: invalid JSON'')
           | Some entries \<Rightarrow>
               if entries = [] \<or> MaxManifestEntries < length entries
               then Inl (Fresh ''parse inbound webhook secrets: entries are required'')
               else (case inbound_parse_secrets entries ([], []) of Inl err \<Rightarrow> Inl err | Inr (m, b) \<Rightarrow> Inr m))"

section \<open>Trust\<close>

record endpointSecrets =
  es_active :: string
  es_predecessor :: "string option"

record endpointBinding =
  eb_endpoint :: inbound_Endpoint
  eb_secrets :: endpointSecrets

type_synonym TrustManifest = "(string \<times> endpointBinding) list"

definition missing_key :: go_error where
  "missing_key = Fresh ''parse inbound webhook secrets: missing referenced key''"
definition unused_key :: go_error where
  "unused_key = Fresh ''parse inbound webhook secrets: unused key''"

definition bind_endpoint ::
  "inbound_SecretManifest \<Rightarrow> string \<Rightarrow> inbound_Endpoint \<Rightarrow> go_error + endpointBinding" where
  "bind_endpoint secrets i ep =
     (case map_of secrets i of
        None \<Rightarrow> Inl missing_key
      | Some ring \<Rightarrow>
          (case map_of ring (ie_ActiveKeyReference ep) of
             None \<Rightarrow> Inl missing_key
           | Some active \<Rightarrow>
               if ie_PredecessorKeyReference ep = ''''
               then Inr \<lparr>eb_endpoint = ep, eb_secrets = \<lparr>es_active = active, es_predecessor = None\<rparr>\<rparr>
               else case map_of ring (ie_PredecessorKeyReference ep) of
                      None \<Rightarrow> Inl missing_key
                    | Some previous \<Rightarrow>
                        Inr \<lparr>eb_endpoint = ep, eb_secrets = \<lparr>es_active = active, es_predecessor = Some previous\<rparr>\<rparr>))"

fun bind_all ::
  "Endpoints \<Rightarrow> inbound_SecretManifest \<Rightarrow> string list \<Rightarrow> TrustManifest \<Rightarrow> go_error + TrustManifest" where
  "bind_all endpoints secrets [] trust = Inr trust"
| "bind_all endpoints secrets (i # ids) trust =
     (let ep = (case endpoints_Lookup (Some endpoints) i of None \<Rightarrow> zero_Endpoint | Some ep \<Rightarrow> ep)
      in case bind_endpoint secrets i ep of
           Inl err \<Rightarrow> Inl err
         | Inr b \<Rightarrow> bind_all endpoints secrets ids (AList.update i b trust))"

definition ring_used :: "TrustManifest \<Rightarrow> string \<times> keyring \<Rightarrow> bool" where
  "ring_used trust entry =
     (case map_of trust (fst entry) of
        None \<Rightarrow> False
      | Some b \<Rightarrow> list_all (\<lambda>(ref, _). ref = ie_ActiveKeyReference (eb_endpoint b)
                              \<or> ref = ie_PredecessorKeyReference (eb_endpoint b)) (snd entry))"

definition BindSecrets :: "Endpoints option \<Rightarrow> inbound_SecretManifest option \<Rightarrow> go_error + TrustManifest" where
  "BindSecrets endpoints secrets =
     (case (endpoints, secrets) of
        (Some eps, Some ss) \<Rightarrow>
          (case bind_all eps ss (endpoints_IDs endpoints) [] of
             Inl err \<Rightarrow> Inl err
           | Inr trust \<Rightarrow> if list_all (ring_used trust) ss then Inr trust else Inl unused_key)
      | _ \<Rightarrow> Inl (Fresh ''inbound webhook manifests are required''))"

definition trust_Lookup :: "TrustManifest option \<Rightarrow> string \<Rightarrow> inbound_Endpoint option" where
  "trust_Lookup m endpointID =
     (case m of None \<Rightarrow> None | Some t \<Rightarrow> map_option eb_endpoint (map_of t endpointID))"

definition secretsFor :: "TrustManifest option \<Rightarrow> string \<Rightarrow> endpointSecrets option" where
  "secretsFor m endpointID =
     (case m of None \<Rightarrow> None | Some t \<Rightarrow> map_option eb_secrets (map_of t endpointID))"

definition validDeliveryID :: "string \<Rightarrow> bool" where
  "validDeliveryID v =
     (v \<noteq> '''' \<and> length v \<le> 256 \<and> valid_utf8 v \<and> \<not> contains_rune (\<lambda>r. is_control r \<or> is_space r) v)"

section \<open>Well-formed manifests\<close>

definition endpoint_ok :: "string \<Rightarrow> inbound_Endpoint \<Rightarrow> bool" where
  "endpoint_ok i ep =
     (ValidEndpointID i \<and> ie_ID ep = i \<and> ValidKeyReference (ie_ActiveKeyReference ep)
      \<and> (ie_PredecessorKeyReference ep \<noteq> '''' \<longrightarrow>
           ValidKeyReference (ie_PredecessorKeyReference ep)
           \<and> ie_PredecessorKeyReference ep \<noteq> ie_ActiveKeyReference ep))"

definition endpoints_ok :: "Endpoints \<Rightarrow> bool" where
  "endpoints_ok m = (\<forall>i ep. map_of m i = Some ep \<longrightarrow> endpoint_ok i ep)"

lemma parse_entry_ok:
  assumes "inbound_parse_entry e m = Inr m'" "endpoints_ok m"
  shows "endpoints_ok m'"
proof -
  let ?ep = "\<lparr>ie_ID = en_EndpointID e, ie_ActiveKeyReference = en_ActiveKeyReference e,
              ie_PredecessorKeyReference = en_PredecessorKeyReference e\<rparr>"
  have "endpoint_ok (en_EndpointID e) ?ep" and "m' = AList.update (en_EndpointID e) ?ep m"
    using assms(1) by (auto simp: inbound_parse_entry_def endpoint_ok_def split: if_splits)
  then show ?thesis using assms(2) by (simp add: endpoints_ok_def update_conv')
qed

lemma parse_entries_ok: "inbound_parse_entries es m = Inr m' \<Longrightarrow> endpoints_ok m \<Longrightarrow> endpoints_ok m'"
  by (induction es arbitrary: m) (auto split: sum.splits dest: parse_entry_ok)

lemma ParseEndpoints_ok: "ParseEndpoints unmarshal raw = Inr m \<Longrightarrow> endpoints_ok m"
  by (auto simp: ParseEndpoints_def endpoints_ok_def [of "[]"] split: if_splits option.splits
      dest: parse_entries_ok)

definition secrets_ok :: "inbound_SecretManifest \<times> string bindings \<Rightarrow> bool" where
  "secrets_ok s =
     (\<forall>k key. inbound_key (fst s) k = Some key \<longrightarrow>
        ValidKey key \<and> ValidKeyReference (snd k) \<and> holder (snd s) key = Some (fst k))"

lemma inbound_key_update:
  "inbound_key (AList.update i (AList.update ref v (keyring_of m i)) m) = (inbound_key m)((i, ref) \<mapsto> v)"
  by (rule ext) (auto simp: inbound_key_def keyring_of_def update_conv' split: option.splits prod.splits)

lemma parse_secret_ok:
  assumes "inbound_parse_secret e s = Inr s'" "secrets_ok s"
  shows "secrets_ok s'"
proof -
  obtain m b where s: "s = (m, b)" by (cases s)
  obtain key b' where ref: "ValidKeyReference (is_KeyReference e)"
    and key: "secret_Decode (is_Secret e) = Some key" and bind: "secret_Bind key (is_EndpointID e) b = Some b'"
    and s': "s' = (AList.update (is_EndpointID e)
        (AList.update (is_KeyReference e) key (keyring_of m (is_EndpointID e))) m, b')"
    using assms(1) by (auto simp: inbound_parse_secret_def s split: if_splits option.splits)
  have held: "\<And>t u. inbound_key m t = Some u \<Longrightarrow> holder b u = Some (fst t)"
    using assms(2) by (auto simp: secrets_ok_def s)
  show ?thesis
    unfolding secrets_ok_def
  proof (intro allI impI)
    fix k u
    assume "inbound_key (fst s') k = Some u"
    then have look: "((inbound_key m)((is_EndpointID e, is_KeyReference e) \<mapsto> key)) k = Some u"
      by (simp add: s' inbound_key_update)
    have "holder b' u = Some (fst k)"
      by (rule keys.bound_update [OF bind held _ look]) simp_all
    moreover have "inbound_key m k = Some u \<Longrightarrow> ValidKey u \<and> ValidKeyReference (snd k)"
      using assms(2) unfolding secrets_ok_def s by (cases k) force
    ultimately show "ValidKey u \<and> ValidKeyReference (snd k) \<and> holder (snd s') u = Some (fst k)"
      using look ref secret_Decode_valid [OF key] by (auto simp: s' split: if_splits)
  qed
qed

lemma parse_secrets_ok: "inbound_parse_secrets es s = Inr s' \<Longrightarrow> secrets_ok s \<Longrightarrow> secrets_ok s'"
  by (induction es arbitrary: s) (auto split: sum.splits dest: parse_secret_ok)

lemma ParseSecretManifest_ok:
  "inbound_ParseSecretManifest unmarshal raw = Inr m \<Longrightarrow> \<exists>b. secrets_ok (m, b)"
proof -
  have empty: "secrets_ok ([], [])" by (simp add: secrets_ok_def inbound_key_def keyring_of_def)
  show "inbound_ParseSecretManifest unmarshal raw = Inr m \<Longrightarrow> \<exists>b. secrets_ok (m, b)"
    using parse_secrets_ok [OF _ empty]
    by (auto simp: inbound_ParseSecretManifest_def split: if_splits option.splits sum.splits intro: exI [of _ "[]"] empty)
qed

section \<open>The join\<close>

text \<open>What binding one endpoint gives, and what a finished loop over distinct identifiers gives.\<close>

definition key_list :: "endpointSecrets \<Rightarrow> string list" where
  "key_list s = es_active s # (case es_predecessor s of None \<Rightarrow> [] | Some p \<Rightarrow> [p])"

definition bound_to :: "inbound_SecretManifest \<Rightarrow> string \<Rightarrow> inbound_Endpoint \<Rightarrow> endpointSecrets \<Rightarrow> bool" where
  "bound_to secrets i ep s =
     (inbound_key secrets (i, ie_ActiveKeyReference ep) = Some (es_active s)
      \<and> (case es_predecessor s of
           None \<Rightarrow> ie_PredecessorKeyReference ep = ''''
         | Some p \<Rightarrow> ie_PredecessorKeyReference ep \<noteq> ''''
                     \<and> inbound_key secrets (i, ie_PredecessorKeyReference ep) = Some p))"

lemma bind_endpoint_bound:
  "bind_endpoint secrets i ep = Inr b \<Longrightarrow> eb_endpoint b = ep \<and> bound_to secrets i ep (eb_secrets b)"
  by (auto simp: bind_endpoint_def bound_to_def inbound_key_def keyring_of_def split: option.splits if_splits)

lemma bind_all_bound:
  assumes "bind_all endpoints secrets ids trust = Inr trust'"
  shows "map_of trust' i =
     (if i \<in> set ids
      then Some (projr (bind_endpoint secrets i (case map_of endpoints i of None \<Rightarrow> zero_Endpoint | Some ep \<Rightarrow> ep)))
      else map_of trust i)
    \<and> (i \<in> set ids \<longrightarrow>
        \<not> isl (bind_endpoint secrets i (case map_of endpoints i of None \<Rightarrow> zero_Endpoint | Some ep \<Rightarrow> ep)))"
  using assms
proof (induction ids arbitrary: trust)
  case (Cons j ids)
  let ?b = "\<lambda>i. bind_endpoint secrets i (case map_of endpoints i of None \<Rightarrow> zero_Endpoint | Some ep \<Rightarrow> ep)"
  obtain b where b: "?b j = Inr b" and rest: "bind_all endpoints secrets ids (AList.update j b trust) = Inr trust'"
    using Cons.prems by (auto simp: endpoints_Lookup_def split: sum.splits)
  show ?case using Cons.IH [OF rest] b by (auto simp: update_conv')
qed simp

lemma bind_secrets_total:
  assumes "BindSecrets (Some eps) (Some ss) = Inr trust"
  shows "trust_Lookup (Some trust) i = map_of eps i"
    and "map_of eps i = Some ep \<Longrightarrow> \<exists>s. secretsFor (Some trust) i = Some s \<and> bound_to ss i ep s"
    and "entry \<in> set ss \<Longrightarrow> ring_used trust entry"
proof -
  have all: "bind_all eps ss (map fst eps) [] = Inr trust" and used: "list_all (ring_used trust) ss"
    using assms by (auto simp: BindSecrets_def endpoints_IDs_def split: sum.splits if_splits)
  have mem: "i \<in> fst ` set eps \<longleftrightarrow> map_of eps i \<noteq> None"
    using map_of_eq_None_iff [of eps i] by simp
  have bound: "\<exists>b. map_of trust i = Some b \<and> eb_endpoint b = ep \<and> bound_to ss i ep (eb_secrets b)"
    if "map_of eps i = Some ep" for ep
  proof -
    have "i \<in> set (map fst eps)" using mem that by simp
    then have trust: "map_of trust i = Some (projr (bind_endpoint ss i ep))" and ok: "\<not> isl (bind_endpoint ss i ep)"
      using bind_all_bound [OF all, of i] that by simp_all
    from ok obtain b where "bind_endpoint ss i ep = Inr b" by (cases "bind_endpoint ss i ep") auto
    then show ?thesis using trust bind_endpoint_bound [of ss i ep b] by simp
  qed
  show "trust_Lookup (Some trust) i = map_of eps i"
    using bound bind_all_bound [OF all, of i] mem by (cases "map_of eps i") (auto simp: trust_Lookup_def)
  show "map_of eps i = Some ep \<Longrightarrow> \<exists>s. secretsFor (Some trust) i = Some s \<and> bound_to ss i ep s"
    using bound by (auto simp: secretsFor_def)
  show "entry \<in> set ss \<Longrightarrow> ring_used trust entry"
    using used by (auto simp: list_all_iff)
qed

lemma secrets_owned:
  assumes "BindSecrets (Some eps) (Some ss) = Inr trust" "secretsFor (Some trust) i = Some s"
  shows "\<exists>ep. map_of eps i = Some ep \<and> bound_to ss i ep s"
proof -
  obtain eb where "map_of trust i = Some eb" using assms(2) by (auto simp: secretsFor_def)
  then have "map_of eps i = Some (eb_endpoint eb)"
    using bind_secrets_total(1) [OF assms(1), of i] by (simp add: trust_Lookup_def)
  then show ?thesis using bind_secrets_total(2) [OF assms(1)] assms(2) by fastforce
qed

lemma no_unused_key:
  assumes "BindSecrets (Some eps) (Some ss) = Inr trust" "inbound_key ss (i, ref) = Some u" "ref \<noteq> ''''"
  shows "\<exists>s. secretsFor (Some trust) i = Some s \<and> u \<in> set (key_list s)"
proof -
  obtain ring where ring: "map_of ss i = Some ring" "map_of ring ref = Some u"
    using assms(2) by (auto simp: inbound_key_def keyring_of_def split: option.splits)
  obtain eb where eb: "map_of trust i = Some eb"
    "ref = ie_ActiveKeyReference (eb_endpoint eb) \<or> ref = ie_PredecessorKeyReference (eb_endpoint eb)"
    using bind_secrets_total(3) [OF assms(1) map_of_SomeD [OF ring(1)]] map_of_SomeD [OF ring(2)]
    by (auto simp: ring_used_def list_all_iff split: option.splits)
  have "map_of eps i = Some (eb_endpoint eb)"
    using bind_secrets_total(1) [OF assms(1), of i] eb(1) by (simp add: trust_Lookup_def)
  from bind_secrets_total(2) [OF assms(1) this]
  obtain s where s: "secretsFor (Some trust) i = Some s" "bound_to ss i (eb_endpoint eb) s" by blast
  have "u \<in> set (key_list s)"
    using s(2) eb(2) assms(2,3) by (auto simp: bound_to_def key_list_def split: option.splits)
  then show ?thesis using s(1) by blast
qed

lemma bound_key: "bound_to ss i ep s \<Longrightarrow> u \<in> set (key_list s) \<Longrightarrow> \<exists>ref. inbound_key ss (i, ref) = Some u"
  by (auto simp: bound_to_def key_list_def split: option.splits)

text \<open>The trust manifest that two parsed documents give is well formed: it has exactly the configured
  endpoints; each has a valid identifier, the active key its document refers to and, exactly
  when it names one, the predecessor key, each of 32 to 64 bytes; no key serves two
  endpoints, and no configured secret is left unused.\<close>

theorem trust_manifest_well_formed:
  assumes "ParseEndpoints unmarshal rawE = Inr eps" and "inbound_ParseSecretManifest unmarshalS rawS = Inr ss"
    and "BindSecrets (Some eps) (Some ss) = Inr trust"
  shows "(\<forall>i. trust_Lookup (Some trust) i = endpoints_Lookup (Some eps) i)
    \<and> (\<forall>i ep. trust_Lookup (Some trust) i = Some ep \<longrightarrow>
         ValidEndpointID i \<and> ie_ID ep = i
         \<and> (\<exists>s. secretsFor (Some trust) i = Some s \<and> bound_to ss i ep s \<and> list_all ValidKey (key_list s)))
    \<and> (\<forall>i j s t key. secretsFor (Some trust) i = Some s \<longrightarrow> secretsFor (Some trust) j = Some t \<longrightarrow>
         key \<in> set (key_list s) \<longrightarrow> key \<in> set (key_list t) \<longrightarrow> i = j)
    \<and> (\<forall>i ref key. inbound_key ss (i, ref) = Some key \<longrightarrow>
         (\<exists>s. secretsFor (Some trust) i = Some s \<and> key \<in> set (key_list s)))"
proof -
  obtain b where ok: "secrets_ok (ss, b)" using ParseSecretManifest_ok [OF assms(2)] by blast
  have eps: "endpoints_ok eps" by (rule ParseEndpoints_ok [OF assms(1)])
  note look = bind_secrets_total(1) [OF assms(3)] and bound = bind_secrets_total(2) [OF assms(3)]
  have key: "ValidKey u \<and> ref \<noteq> '''' \<and> holder b u = Some i" if "inbound_key ss (i, ref) = Some u" for i ref u
    using ok that unfolding secrets_ok_def ValidKeyReference_def by force
  have valid: "list_all ValidKey (key_list s)" if "bound_to ss i ep s" for i ep s
    unfolding list_all_iff using bound_key [OF that] key by blast
  have "ValidEndpointID i \<and> ie_ID ep = i
      \<and> (\<exists>s. secretsFor (Some trust) i = Some s \<and> bound_to ss i ep s \<and> list_all ValidKey (key_list s))"
    if "map_of eps i = Some ep" for i ep
    using bound [OF that] valid eps that unfolding endpoints_ok_def endpoint_ok_def by blast
  moreover have "i = j" if "secretsFor (Some trust) i = Some s" "secretsFor (Some trust) j = Some t"
      "u \<in> set (key_list s)" "u \<in> set (key_list t)" for i j s t u
    using secrets_owned [OF assms(3) that(1)] secrets_owned [OF assms(3) that(2)] bound_key that(3,4) key
    by (metis option.inject)
  moreover have "\<exists>s. secretsFor (Some trust) i = Some s \<and> u \<in> set (key_list s)"
    if "inbound_key ss (i, ref) = Some u" for i ref u
    using no_unused_key [OF assms(3) that] key [OF that] by blast
  ultimately show ?thesis
    using look by (simp add: endpoints_Lookup_def)
qed

definition example_inbound_entries :: "inbound_entry list" where
  "example_inbound_entries =
     [\<lparr>en_EndpointID = ''billing'', en_ActiveKeyReference = ''k2'', en_PredecessorKeyReference = ''k1''\<rparr>]"

definition example_key_text :: "char \<Rightarrow> string" where
  "example_key_text c = ''whsec_'' @ replicate 43 c @ ''=''"

definition example_inbound_secrets :: "inbound_secretEntry list" where
  "example_inbound_secrets =
     [\<lparr>is_EndpointID = ''billing'', is_KeyReference = ''k1'', is_Secret = example_key_text (CHR ''A'')\<rparr>,
      \<lparr>is_EndpointID = ''billing'', is_KeyReference = ''k2'', is_Secret = example_key_text (CHR ''B'')\<rparr>]"

lemma trust_manifest_well_formed_witness:
  "\<exists>eps ss trust. ParseEndpoints (\<lambda>_. Some example_inbound_entries) ''{}'' = Inr eps
     \<and> inbound_ParseSecretManifest (\<lambda>_. Some example_inbound_secrets) ''{}'' = Inr ss
     \<and> BindSecrets (Some eps) (Some ss) = Inr trust
     \<and> (\<exists>s. secretsFor (Some trust) ''billing'' = Some s \<and> list_all ValidKey (key_list s) \<and> length (key_list s) = 2)"
proof -
  let ?ep = "\<lparr>ie_ID = ''billing'', ie_ActiveKeyReference = ''k2'', ie_PredecessorKeyReference = ''k1''\<rparr>"
  have names: "ValidEndpointID ''billing''" "ValidKeyReference ''k1''" "ValidKeyReference ''k2''"
    by (simp_all add: ValidEndpointID_def ValidKeyReference_def maxTokenBytes_def endpoint_char_def between_def
        contains_rune_def runes_ascii valid_utf8_ascii is_control_def is_space_def)
  have eps: "ParseEndpoints (\<lambda>_. Some example_inbound_entries) ''{}'' = Inr [(''billing'', ?ep)]"
    using names by (simp add: ParseEndpoints_def example_inbound_entries_def maxDocumentBytes_def maxEntries_def
        inbound_parse_entry_def)
  obtain k1 k2 where "secret_Decode (example_key_text (CHR ''A'')) = Some k1"
    and "secret_Decode (example_key_text (CHR ''B'')) = Some k2"
  proof -
    have "isl (case secret_Decode (example_key_text c) of None \<Rightarrow> Inr () | Some k \<Rightarrow> Inl ())"
      if "c = CHR ''A'' \<or> c = CHR ''B''" for c
      using that by (elim disjE; hypsubst; code_simp)
    from this [of "CHR ''A''"] this [of "CHR ''B''"] show ?thesis using that by (auto split: option.splits)
  qed
  then have ss: "inbound_ParseSecretManifest (\<lambda>_. Some example_inbound_secrets) ''{}'' =
      Inr [(''billing'', [(''k1'', k1), (''k2'', k2)])]"
    using names
    by (simp add: inbound_ParseSecretManifest_def example_inbound_secrets_def MaxManifestBytes_def
        MaxManifestEntries_def inbound_parse_secret_def inbound_key_def keyring_of_def secret_Bind_def Let_def)
  let ?trust = "[(''billing'', \<lparr>eb_endpoint = ?ep, eb_secrets = \<lparr>es_active = k2, es_predecessor = Some k1\<rparr>\<rparr>)]"
  have trust: "BindSecrets (Some [(''billing'', ?ep)]) (Some [(''billing'', [(''k1'', k1), (''k2'', k2)])]) = Inr ?trust"
    by (simp add: BindSecrets_def endpoints_IDs_def endpoints_Lookup_def bind_endpoint_def ring_used_def)
  have "trust_Lookup (Some ?trust) ''billing'' = Some ?ep" by (simp add: trust_Lookup_def)
  then obtain s where s: "secretsFor (Some ?trust) ''billing'' = Some s" "list_all ValidKey (key_list s)"
    using trust_manifest_well_formed [OF eps ss trust] by blast
  then have "length (key_list s) = 2" by (auto simp: secretsFor_def key_list_def)
  with eps ss trust s show ?thesis by blast
qed

end
