(* ===== verification/InboundReceipt.thy ===== *)
theory InboundReceipt
  imports InboundManifest Transaction
begin

text \<open>
  Accepting an inbound webhook: \<^verbatim>\<open>internal/inboundwebhook/receiver.go\<close> (the port), the receiver and
  its store in \<^verbatim>\<open>internal/infra/postgresinboundwebhook/receiver.go\<close>, and the queries of
  \<^verbatim>\<open>sqlcgen/postgres_inbound_webhooks.sql.go\<close> over the table of migration
  \<^verbatim>\<open>000010\<close>.

  The database is the receipts table, a list of rows, and River's job table, of any type \<open>'j\<close>.
  River's \<^verbatim>\<open>InsertTx\<close> is an argument, with \<open>job_laws\<close> for what it documents. A statement may fail and
  reads the clock (the record \<open>fault\<close>); the transaction around the statements is \<open>InTx\<close> of
  \<open>Transaction\<close>. The signature check of the Standard Webhooks library is the argument
  \<open>sw\<close>.

  The abstract view of the store is a ledger from delivery identities to body digests,
  \<open>ledger_accept\<close>; the store refines it.
\<close>

section \<open>The port\<close>

abbreviation inbound_ErrUnavailable :: go_error where
  "inbound_ErrUnavailable \<equiv> Sentinel ''inboundwebhook.ErrUnavailable''"

type_synonym outcome = string

definition OutcomeAccepted :: outcome where "OutcomeAccepted = ''accepted''"
definition OutcomeDuplicate :: outcome where "OutcomeDuplicate = ''duplicate''"
definition OutcomeUnknownEndpoint :: outcome where "OutcomeUnknownEndpoint = ''unknown_endpoint''"
definition OutcomeRejected :: outcome where "OutcomeRejected = ''rejected''"
definition OutcomeConflict :: outcome where "OutcomeConflict = ''conflict''"

lemmas outcome_defs = OutcomeAccepted_def OutcomeDuplicate_def OutcomeUnknownEndpoint_def
  OutcomeRejected_def OutcomeConflict_def

record Delivery =
  dl_EndpointID :: string
  dl_DeliveryID :: string
  dl_Timestamp :: string
  dl_Signature :: string
  dl_Body :: string

text \<open>\<^verbatim>\<open>UnknownEndpointReceiver\<close>, the receiver of a service with no endpoints.\<close>

definition UnknownEndpointReceiver :: "Delivery \<Rightarrow> go_error + outcome" where
  "UnknownEndpointReceiver d = Inr OutcomeUnknownEndpoint"

section \<open>The receipts table\<close>

definition receiptPending :: string where "receiptPending = ''pending''"
definition receiptHandled :: string where "receiptHandled = ''handled''"
definition receiptQuarantined :: string where "receiptQuarantined = ''quarantined''"
definition receiptFailed :: string where "receiptFailed = ''failed''"

lemmas receipt_states = receiptPending_def receiptHandled_def receiptQuarantined_def receiptFailed_def

record receipt =
  r_ReceiptID :: string
  r_EndpointID :: string
  r_DeliveryID :: string
  r_BodySha256 :: string
  r_SignedAt :: instant
  r_ReceivedAt :: instant
  r_Payload :: "string option"
  r_Outcome :: string
  r_TerminalReason :: "string option"
  r_TerminalAt :: "instant option"

record 'j inbound_db =
  ib_receipts :: "receipt list"
  ib_jobs :: 'j

record fault =
  ft_error :: "go_error option"
  ft_now :: instant

text \<open>The check constraints of the table.\<close>

definition state_check :: "receipt \<Rightarrow> bool" where
  "state_check r =
     (r_Outcome r = receiptPending \<and> r_Payload r \<noteq> None \<and> r_TerminalReason r = None \<and> r_TerminalAt r = None
      \<or> r_Outcome r = receiptHandled \<and> r_Payload r = None \<and> r_TerminalReason r = None \<and> r_TerminalAt r \<noteq> None
      \<or> r_Outcome r = receiptQuarantined \<and> r_Payload r \<noteq> None
        \<and> (case r_TerminalReason r of None \<Rightarrow> False | Some reason \<Rightarrow> 1 \<le> length reason \<and> length reason \<le> 64)
        \<and> r_TerminalAt r \<noteq> None
      \<or> r_Outcome r = receiptFailed \<and> r_Payload r \<noteq> None \<and> r_TerminalReason r = Some ''attempts_exhausted''
        \<and> r_TerminalAt r \<noteq> None)"

definition row_check :: "receipt \<Rightarrow> bool" where
  "row_check r =
     (1 \<le> length (r_ReceiptID r) \<and> length (r_ReceiptID r) \<le> 128
      \<and> 1 \<le> length (r_EndpointID r) \<and> length (r_EndpointID r) \<le> 64
      \<and> 1 \<le> length (r_DeliveryID r) \<and> length (r_DeliveryID r) \<le> 256
      \<and> length (r_BodySha256 r) = 32 \<and> state_check r)"

definition same_identity :: "string \<Rightarrow> string \<Rightarrow> receipt \<Rightarrow> bool" where
  "same_identity endpointID deliveryID r = (r_EndpointID r = endpointID \<and> r_DeliveryID r = deliveryID)"

record receiptRecord =
  rr_ReceiptID :: string
  rr_EndpointID :: string
  rr_DeliveryID :: string
  rr_BodySHA256 :: string
  rr_SignedAt :: instant
  rr_Payload :: string

definition new_receipt :: "instant \<Rightarrow> receiptRecord \<Rightarrow> receipt" where
  "new_receipt now a =
     \<lparr>r_ReceiptID = rr_ReceiptID a, r_EndpointID = rr_EndpointID a, r_DeliveryID = rr_DeliveryID a,
      r_BodySha256 = rr_BodySHA256 a, r_SignedAt = rr_SignedAt a, r_ReceivedAt = now,
      r_Payload = Some (rr_Payload a), r_Outcome = receiptPending, r_TerminalReason = None, r_TerminalAt = None\<rparr>"

text \<open>\<^verbatim>\<open>INSERT ... ON CONFLICT (endpoint_id, delivery_id) DO NOTHING\<close>: a violated check and a
  second use of a receipt identifier are errors, a known identity inserts nothing.\<close>

definition ClaimInboundWebhookReceipt ::
  "fault \<Rightarrow> receiptRecord \<Rightarrow> receipt list \<Rightarrow> (go_error + nat) \<times> receipt list" where
  "ClaimInboundWebhookReceipt ft a rows =
     (case ft_error ft of
        Some err \<Rightarrow> (Inl err, rows)
      | None \<Rightarrow>
          let r = new_receipt (ft_now ft) a
          in if \<not> row_check r then (Inl (PgError ''23514''), rows)
             else if list_ex (same_identity (rr_EndpointID a) (rr_DeliveryID a)) rows then (Inr 0, rows)
             else if list_ex (\<lambda>x. r_ReceiptID x = rr_ReceiptID a) rows then (Inl (PgError ''23505''), rows)
             else (Inr 1, rows @ [r]))"

definition GetInboundWebhookReceiptByIdentity ::
  "fault \<Rightarrow> string \<Rightarrow> string \<Rightarrow> receipt list \<Rightarrow> go_error + receipt" where
  "GetInboundWebhookReceiptByIdentity ft endpointID deliveryID rows =
     (case ft_error ft of
        Some err \<Rightarrow> Inl err
      | None \<Rightarrow> (case find (same_identity endpointID deliveryID) rows of None \<Rightarrow> Inl ErrNoRows | Some r \<Rightarrow> Inr r))"

definition GetInboundWebhookReceiptByID :: "fault \<Rightarrow> string \<Rightarrow> receipt list \<Rightarrow> go_error + receipt" where
  "GetInboundWebhookReceiptByID ft receiptID rows =
     (case ft_error ft of
        Some err \<Rightarrow> Inl err
      | None \<Rightarrow> (case find (\<lambda>r. r_ReceiptID r = receiptID) rows of None \<Rightarrow> Inl ErrNoRows | Some r \<Rightarrow> Inr r))"

text \<open>The three updates: the rows with the identifier that are still pending.\<close>

definition due :: "string \<Rightarrow> receipt \<Rightarrow> bool" where
  "due receiptID r = (r_ReceiptID r = receiptID \<and> r_Outcome r = receiptPending)"

definition update_due ::
  "fault \<Rightarrow> string \<Rightarrow> (receipt \<Rightarrow> receipt) \<Rightarrow> receipt list \<Rightarrow> (go_error + nat) \<times> receipt list" where
  "update_due ft receiptID f rows =
     (case ft_error ft of
        Some err \<Rightarrow> (Inl err, rows)
      | None \<Rightarrow> (Inr (length (filter (due receiptID) rows)), map (\<lambda>r. if due receiptID r then f r else r) rows))"

definition handled_row :: "instant \<Rightarrow> receipt \<Rightarrow> receipt" where
  "handled_row now r =
     r\<lparr>r_Outcome := receiptHandled, r_Payload := None, r_TerminalReason := None, r_TerminalAt := Some now\<rparr>"

definition quarantined_row :: "instant \<Rightarrow> string \<Rightarrow> receipt \<Rightarrow> receipt" where
  "quarantined_row now reason r =
     r\<lparr>r_Outcome := receiptQuarantined, r_TerminalReason := Some reason, r_TerminalAt := Some now\<rparr>"

definition failed_row :: "instant \<Rightarrow> receipt \<Rightarrow> receipt" where
  "failed_row now r =
     r\<lparr>r_Outcome := receiptFailed, r_TerminalReason := Some ''attempts_exhausted'', r_TerminalAt := Some now\<rparr>"

definition MarkInboundWebhookHandled :: "fault \<Rightarrow> string \<Rightarrow> receipt list \<Rightarrow> (go_error + nat) \<times> receipt list" where
  "MarkInboundWebhookHandled ft receiptID rows = update_due ft receiptID (handled_row (ft_now ft)) rows"

definition MarkInboundWebhookQuarantined ::
  "fault \<Rightarrow> string \<Rightarrow> string \<Rightarrow> receipt list \<Rightarrow> (go_error + nat) \<times> receipt list" where
  "MarkInboundWebhookQuarantined ft reason receiptID rows =
     update_due ft receiptID (quarantined_row (ft_now ft) reason) rows"

definition MarkInboundWebhookFailed :: "fault \<Rightarrow> string \<Rightarrow> receipt list \<Rightarrow> (go_error + nat) \<times> receipt list" where
  "MarkInboundWebhookFailed ft receiptID rows = update_due ft receiptID (failed_row (ft_now ft)) rows"

section \<open>The store\<close>

definition inboundJobKind :: string where "inboundJobKind = ''inbound_webhook_receipt''"
definition inboundJobMaxAttempts :: nat where "inboundJobMaxAttempts = 25"
definition signatureTolerance :: duration where "signatureTolerance = 5 * minute"

record receiptJobArgs =
  ja_ReceiptID :: string

definition receiptJobArgs_Kind :: "receiptJobArgs \<Rightarrow> string" where
  "receiptJobArgs_Kind a = inboundJobKind"

text \<open>River's \<^verbatim>\<open>InsertTx\<close>: the kind and arguments of the job and its attempt limit.\<close>

type_synonym 'j job_insert = "string \<Rightarrow> receiptJobArgs \<Rightarrow> nat \<Rightarrow> 'j \<Rightarrow> go_error option \<times> 'j"

record accept_env =
  ae_tx :: tx_env
  ae_claim :: fault
  ae_read :: fault

definition accept_tx ::
  "accept_env \<Rightarrow> 'j job_insert \<Rightarrow> receiptRecord \<Rightarrow> 'j inbound_db \<Rightarrow> (go_error + outcome) \<times> 'j inbound_db" where
  "accept_tx env insertTx a s =
     (case ClaimInboundWebhookReceipt (ae_claim env) a (ib_receipts s) of
        (Inl err, _) \<Rightarrow> (Inl (WrapFmt ''claim inbound webhook receipt'' err), s)
      | (Inr inserted, rows) \<Rightarrow>
          if inserted = 1
          then (case insertTx (receiptJobArgs_Kind \<lparr>ja_ReceiptID = rr_ReceiptID a\<rparr>) \<lparr>ja_ReceiptID = rr_ReceiptID a\<rparr>
                       inboundJobMaxAttempts (ib_jobs s) of
                  (Some err, j) \<Rightarrow> (Inl (WrapFmt ''insertTx inbound webhook job'' err), s\<lparr>ib_receipts := rows, ib_jobs := j\<rparr>)
                | (None, j) \<Rightarrow> (Inr OutcomeAccepted, s\<lparr>ib_receipts := rows, ib_jobs := j\<rparr>))
          else (case GetInboundWebhookReceiptByIdentity (ae_read env) (rr_EndpointID a) (rr_DeliveryID a) rows of
                  Inl err \<Rightarrow> (Inl (WrapFmt ''read inbound webhook receipt'' err), s\<lparr>ib_receipts := rows\<rparr>)
                | Inr existing \<Rightarrow>
                    (Inr (if r_BodySha256 existing = rr_BodySHA256 a then OutcomeDuplicate else OutcomeConflict),
                     s\<lparr>ib_receipts := rows\<rparr>)))"

definition Accept ::
  "pg \<Rightarrow> accept_env \<Rightarrow> 'j job_insert \<Rightarrow> receiptRecord \<Rightarrow> 'j inbound_db \<Rightarrow> (go_error + outcome) \<times> 'j inbound_db" where
  "Accept p env insertTx a s =
     (case InTx p (ae_tx env) (accept_tx env insertTx a) s of
        (Some err, _, s') \<Rightarrow> (Inl (WrapFmt ''accept inbound webhook receipt'' err), s')
      | (None, captured, s') \<Rightarrow> (Inr (case captured of None \<Rightarrow> '''' | Some outcome \<Rightarrow> outcome), s'))"

section \<open>The receiver\<close>

record sw_headers =
  sw_id :: string
  sw_timestamp :: string
  sw_signature :: string

text \<open>The Standard Webhooks library: a verifier for a raw key and its check of a body.\<close>

record sw =
  NewWebhookRaw :: "string \<Rightarrow> go_error option"
  VerifyIgnoringTimestamp :: "string \<Rightarrow> string \<Rightarrow> sw_headers \<Rightarrow> go_error option"

definition verifyWith :: "sw \<Rightarrow> string \<Rightarrow> string \<Rightarrow> sw_headers \<Rightarrow> bool" where
  "verifyWith lb key body headers =
     (NewWebhookRaw lb key = None \<and> VerifyIgnoringTimestamp lb key body headers = None)"

definition delivery_headers :: "Delivery \<Rightarrow> sw_headers" where
  "delivery_headers d = \<lparr>sw_id = dl_DeliveryID d, sw_timestamp = dl_Timestamp d, sw_signature = dl_Signature d\<rparr>"

definition signatureOK :: "sw \<Rightarrow> TrustManifest option \<Rightarrow> Delivery \<Rightarrow> bool" where
  "signatureOK lb trust d =
     (case secretsFor trust (dl_EndpointID d) of
        None \<Rightarrow> False
      | Some secrets \<Rightarrow>
          verifyWith lb (es_active secrets) (dl_Body d) (delivery_headers d)
          \<or> (case es_predecessor secrets of
               None \<Rightarrow> False
             | Some p \<Rightarrow> 0 < length p \<and> verifyWith lb p (dl_Body d) (delivery_headers d)))"

text \<open>\<^verbatim>\<open>time.Unix\<close> keeps the seconds since year 1 in an \<^verbatim>\<open>int64\<close>, whose sum wraps around.\<close>

definition unixToInternal :: int where "unixToInternal = 62135596800"

definition time_Unix :: "int \<Rightarrow> instant" where
  "time_Unix seconds = (wrap64 (seconds + unixToInternal) - unixToInternal) * second"

definition parseSignedTimestamp :: "string \<Rightarrow> instant option" where
  "parseSignedTimestamp raw = map_option time_Unix (parse_int 64 (trim_space raw))"

text \<open>\<^verbatim>\<open>now.Sub(signedAt)\<close> is saturated at the ends of \<^verbatim>\<open>time.Duration\<close>.\<close>

definition timestampInTolerance :: "instant \<Rightarrow> instant \<Rightarrow> bool" where
  "timestampInTolerance signedAt now =
     (let delta = sat64 (now - signedAt) in delta \<le> signatureTolerance \<and> - signatureTolerance \<le> delta)"

definition verify :: "sw \<Rightarrow> TrustManifest option \<Rightarrow> instant \<Rightarrow> Delivery \<Rightarrow> instant option" where
  "verify lb trust now d =
     (if \<not> validDeliveryID (dl_DeliveryID d) then None
      else case parseSignedTimestamp (dl_Timestamp d) of
             None \<Rightarrow> None
           | Some signedAt \<Rightarrow>
               if \<not> timestampInTolerance signedAt now then None
               else if \<not> signatureOK lb trust d then None
               else Some signedAt)"

definition ingressUnavailable :: string where "ingressUnavailable = ''unavailable''"

text \<open>\<^verbatim>\<open>Receive\<close>: the answer, the ingress labels that were counted, and the database. \<open>receiptID\<close> is
  what \<^verbatim>\<open>rand.Text\<close> gave; a nil manifest is \<open>None\<close>.\<close>

definition received_record :: "string \<Rightarrow> instant \<Rightarrow> Delivery \<Rightarrow> receiptRecord" where
  "received_record receiptID signedAt d =
     \<lparr>rr_ReceiptID = receiptID, rr_EndpointID = dl_EndpointID d, rr_DeliveryID = dl_DeliveryID d,
      rr_BodySHA256 = sha256 (dl_Body d), rr_SignedAt = signedAt, rr_Payload = dl_Body d\<rparr>"

definition Receive ::
  "pg \<Rightarrow> accept_env \<Rightarrow> 'j job_insert \<Rightarrow> sw \<Rightarrow> TrustManifest option \<Rightarrow> instant \<Rightarrow> string \<Rightarrow> Delivery \<Rightarrow> 'j inbound_db
   \<Rightarrow> (go_error + outcome) \<times> string list \<times> 'j inbound_db" where
  "Receive p env insertTx lb trust now receiptID d s =
     (if trust = None then (Inl inbound_ErrUnavailable, [], s)
      else if trust_Lookup trust (dl_EndpointID d) = None then (Inr OutcomeUnknownEndpoint, [], s)
      else case verify lb trust now d of
             None \<Rightarrow> (Inr OutcomeRejected, [OutcomeRejected], s)
           | Some signedAt \<Rightarrow>
               (case Accept p env insertTx (received_record receiptID signedAt d) s of
                  (Inl err, s') \<Rightarrow>
                    if (errors_is err DeadlineExceeded \<or> errors_is err Canceled) \<and> \<not> errors_is err ErrCommitUnknown
                    then (Inl (WrapFmt ''accept inbound webhook receipt'' err), [], s')
                    else (Inl inbound_ErrUnavailable, [ingressUnavailable], s')
                | (Inr outcome, s') \<Rightarrow> (Inr outcome, [outcome], s')))"

section \<open>The ledger\<close>

text \<open>The specification: which body was accepted for a delivery identity.\<close>

type_synonym ledger = "string \<times> string \<Rightarrow> string option"

definition ledger_accept :: "string \<times> string \<Rightarrow> string \<Rightarrow> ledger \<Rightarrow> outcome \<times> ledger" where
  "ledger_accept i digest l =
     (case l i of
        None \<Rightarrow> (OutcomeAccepted, l(i \<mapsto> digest))
      | Some d \<Rightarrow> (if d = digest then OutcomeDuplicate else OutcomeConflict, l))"

definition ledger_of :: "receipt list \<Rightarrow> ledger" where
  "ledger_of rows i = map_option r_BodySha256 (find (same_identity (fst i) (snd i)) rows)"

text \<open>What River documents of an insertTx: without an error, one more job for those arguments.\<close>

definition job_laws :: "'j job_insert \<Rightarrow> ('j \<Rightarrow> string list) \<Rightarrow> bool" where
  "job_laws insertTx queued =
     (\<forall>kind a n j j'. insertTx kind a n j = (None, j') \<longrightarrow>
        queued j' = queued j @ (if kind = inboundJobKind then [ja_ReceiptID a] else []))"

text \<open>The invariant of the table: constraints of the migration, both unique keys, and one
  job for every receipt, in the order of acceptance.\<close>

definition receipts_ok :: "receipt list \<Rightarrow> bool" where
  "receipts_ok rows =
     (list_all row_check rows \<and> distinct (map r_ReceiptID rows)
      \<and> distinct (map (\<lambda>r. (r_EndpointID r, r_DeliveryID r)) rows))"

definition db_ok :: "('j \<Rightarrow> string list) \<Rightarrow> 'j inbound_db \<Rightarrow> bool" where
  "db_ok queued s = (receipts_ok (ib_receipts s) \<and> queued (ib_jobs s) = map r_ReceiptID (ib_receipts s))"

lemma ledger_of_append: "\<not> list_ex (same_identity (r_EndpointID r) (r_DeliveryID r)) rows \<Longrightarrow>
    ledger_of (rows @ [r]) = (ledger_of rows)((r_EndpointID r, r_DeliveryID r) \<mapsto> r_BodySha256 r)"
proof (rule ext)
  fix i
  assume fresh: "\<not> list_ex (same_identity (r_EndpointID r) (r_DeliveryID r)) rows"
  have "find P (rows @ [r]) = (case find P rows of None \<Rightarrow> if P r then Some r else None | Some x \<Rightarrow> Some x)" for P
    by (induction rows) auto
  moreover have "find (same_identity (r_EndpointID r) (r_DeliveryID r)) rows = None"
    using fresh by (auto simp: find_None_iff list_ex_iff)
  ultimately show "ledger_of (rows @ [r]) i = ((ledger_of rows)((r_EndpointID r, r_DeliveryID r) \<mapsto> r_BodySha256 r)) i"
    by (cases i) (auto simp: ledger_of_def same_identity_def split: option.splits)
qed

lemma new_receipt_simps [simp]:
  "r_ReceiptID (new_receipt now a) = rr_ReceiptID a" "r_EndpointID (new_receipt now a) = rr_EndpointID a"
  "r_DeliveryID (new_receipt now a) = rr_DeliveryID a" "r_BodySha256 (new_receipt now a) = rr_BodySHA256 a"
  "r_Outcome (new_receipt now a) = receiptPending" "r_Payload (new_receipt now a) = Some (rr_Payload a)"
  by (simp_all add: new_receipt_def)

lemma receipt_claim_cases:
  assumes "ClaimInboundWebhookReceipt ft a rows = (Inr n, rows')"
  obtains (new) "n = 1" "rows' = rows @ [new_receipt (ft_now ft) a]" "row_check (new_receipt (ft_now ft) a)"
      "\<not> list_ex (same_identity (rr_EndpointID a) (rr_DeliveryID a)) rows" "\<forall>x \<in> set rows. r_ReceiptID x \<noteq> rr_ReceiptID a"
    | (known) "n = 0" "rows' = rows" "list_ex (same_identity (rr_EndpointID a) (rr_DeliveryID a)) rows"
  using assms
  by (auto simp: ClaimInboundWebhookReceipt_def Let_def list_ex_iff split: option.splits if_splits)

lemma receipts_ok_append:
  assumes "receipts_ok rows" "row_check r" "\<not> list_ex (same_identity (r_EndpointID r) (r_DeliveryID r)) rows"
    and "\<forall>x \<in> set rows. r_ReceiptID x \<noteq> r_ReceiptID r"
  shows "receipts_ok (rows @ [r])"
  using assms by (auto simp: receipts_ok_def list_ex_iff same_identity_def)

lemma find_same: "list_ex P rows \<Longrightarrow> \<exists>r. find P rows = Some r"
  by (induction rows) auto

lemma accept_tx_refines:
  assumes laws: "job_laws insertTx queued" and ok: "db_ok queued s" and run: "accept_tx env insertTx a s = (Inr outcome, s')"
  shows "db_ok queued s'
    \<and> (outcome, ledger_of (ib_receipts s')) =
        ledger_accept (rr_EndpointID a, rr_DeliveryID a) (rr_BodySHA256 a) (ledger_of (ib_receipts s))
    \<and> (if outcome = OutcomeAccepted
       then ib_receipts s' = ib_receipts s @ [new_receipt (ft_now (ae_claim env)) a] else s' = s)"
proof -
  obtain n rows where claim: "ClaimInboundWebhookReceipt (ae_claim env) a (ib_receipts s) = (Inr n, rows)"
    using run by (auto simp: accept_tx_def split: prod.splits sum.splits)
  show ?thesis
    using claim
  proof (cases rule: receipt_claim_cases)
    case new
    let ?r = "new_receipt (ft_now (ae_claim env)) a"
    obtain j where j: "insertTx inboundJobKind \<lparr>ja_ReceiptID = rr_ReceiptID a\<rparr> inboundJobMaxAttempts (ib_jobs s) = (None, j)"
      and s': "s' = s\<lparr>ib_receipts := rows, ib_jobs := j\<rparr>" and outcome: "outcome = OutcomeAccepted"
      using run claim new(1) by (auto simp: accept_tx_def receiptJobArgs_Kind_def split: prod.splits option.splits)
    have "queued j = queued (ib_jobs s) @ [rr_ReceiptID a]" using laws j by (auto simp: job_laws_def)
    moreover have "receipts_ok (ib_receipts s @ [?r])"
      using ok new by (intro receipts_ok_append) (auto simp: db_ok_def)
    moreover have "ledger_of (ib_receipts s) (rr_EndpointID a, rr_DeliveryID a) = None"
      using new(4) by (auto simp: ledger_of_def find_None_iff list_ex_iff)
    ultimately show ?thesis
      using ok new s' outcome ledger_of_append [of ?r "ib_receipts s"] by (simp add: db_ok_def ledger_accept_def)
  next
    case known
    obtain r where r: "find (same_identity (rr_EndpointID a) (rr_DeliveryID a)) (ib_receipts s) = Some r"
      using find_same [OF known(3)] by blast
    then have "s' = s" "outcome = (if r_BodySha256 r = rr_BodySHA256 a then OutcomeDuplicate else OutcomeConflict)"
      using run claim known by (auto simp: accept_tx_def GetInboundWebhookReceiptByIdentity_def split: option.splits)
    then show ?thesis using ok r by (auto simp: ledger_accept_def ledger_of_def outcome_defs)
  qed
qed

lemma Accept_cases:
  assumes "honest p (ae_tx env)" "Accept p env insertTx a s = (res, s')"
  obtains (confirmed) outcome where "res = Inr outcome" "accept_tx env insertTx a s = (Inr outcome, s')"
    | (failed) err where "res = Inl err" "s' = s"
    | (unknown) err outcome where "res = Inl err" "errors_is err ErrCommitUnknown"
        "accept_tx env insertTx a s = (Inr outcome, s')"
proof -
  obtain err x where run: "InTx p (ae_tx env) (accept_tx env insertTx a) s = (err, x, s')"
    using assms(2) by (auto simp: Accept_def split: prod.splits option.splits)
  note out = InTx_outcome [OF assms(1) run]
  show ?thesis
  proof (cases err)
    case None
    then obtain y where "x = Some y" "accept_tx env insertTx a s = (Inr y, s')" using out(2) by blast
    then show ?thesis using confirmed [of y] assms(2) run None by (simp add: Accept_def)
  next
    case (Some e)
    then have res: "res = Inl (WrapFmt ''accept inbound webhook receipt'' e)"
      using assms(2) run by (simp add: Accept_def)
    show ?thesis
    proof (cases "s' = s")
      case True
      then show ?thesis using failed res by blast
    next
      case False
      then obtain y where "accept_tx env insertTx a s = (Inr y, s')" and "errors_is e ErrCommitUnknown"
        using out(1,3) Some by blast
      then show ?thesis using unknown [OF res] by simp
    qed
  qed
qed

text \<open>Accepting a receipt refines a ledger that remembers one body digest per delivery identity:
  with no error the outcome and the new ledger are those of the specification, and a job is
  queued exactly when the receipt is new; with an error nothing changed, unless the error
  matches \<^verbatim>\<open>ErrCommitUnknown\<close>, when the specification's step may have been taken. The table keeps its
  constraints and has one job per receipt throughout.\<close>

theorem accept_refines_ledger:
  assumes "honest p (ae_tx env)" and "job_laws insertTx queued" and "db_ok queued s"
    and "Accept p env insertTx a s = (res, s')"
  shows "db_ok queued s'
    \<and> (case res of
         Inr outcome \<Rightarrow>
           (outcome, ledger_of (ib_receipts s')) =
             ledger_accept (rr_EndpointID a, rr_DeliveryID a) (rr_BodySHA256 a) (ledger_of (ib_receipts s))
           \<and> queued (ib_jobs s') = queued (ib_jobs s) @ (if outcome = OutcomeAccepted then [rr_ReceiptID a] else [])
       | Inl err \<Rightarrow>
           s' = s \<or> errors_is err ErrCommitUnknown
             \<and> ledger_of (ib_receipts s') =
                 snd (ledger_accept (rr_EndpointID a, rr_DeliveryID a) (rr_BodySHA256 a) (ledger_of (ib_receipts s))))"
  using assms(1,4)
proof (cases rule: Accept_cases)
  case (confirmed outcome)
  with accept_tx_refines [OF assms(2,3) confirmed(2)] assms(3) show ?thesis
    by (auto simp: db_ok_def split: if_splits)
next
  case (failed err)
  then show ?thesis using assms(3) by simp
next
  case (unknown err outcome)
  from accept_tx_refines [OF assms(2,3) unknown(3)] unknown(1,2) show ?thesis
    by (auto simp: snd_def split: prod.splits)
qed

text \<open>The ways \<open>Receive\<close> can answer and what the database is then.\<close>

lemma Receive_cases:
  assumes "Receive p env insertTx lb trust now receiptID d s = (res, labels, s')"
  obtains (refused) "s' = s" "res \<noteq> Inr OutcomeAccepted" "res \<noteq> Inr OutcomeDuplicate" "res \<noteq> Inr OutcomeConflict"
    | (stored) signedAt outcome where "verify lb trust now d = Some signedAt" "res = Inr outcome"
        "Accept p env insertTx (received_record receiptID signedAt d) s = (Inr outcome, s')"
    | (unconfirmed) signedAt err err' where "verify lb trust now d = Some signedAt" "res = Inl err"
        "Accept p env insertTx (received_record receiptID signedAt d) s = (Inl err', s')"
  using assms
  by (auto simp: Receive_def outcome_defs split: if_splits option.splits prod.splits sum.splits)

lemma verify_meaning:
  assumes "verify lb trust now d = Some signedAt"
  shows "validDeliveryID (dl_DeliveryID d) \<and> parseSignedTimestamp (dl_Timestamp d) = Some signedAt
    \<and> \<bar>now - signedAt\<bar> \<le> signatureTolerance
    \<and> (\<exists>secrets key. secretsFor trust (dl_EndpointID d) = Some secrets \<and> key \<in> set (key_list secrets)
         \<and> verifyWith lb key (dl_Body d) (delivery_headers d))"
proof -
  have "validDeliveryID (dl_DeliveryID d)" "parseSignedTimestamp (dl_Timestamp d) = Some signedAt"
    and tol: "timestampInTolerance signedAt now" and sig: "signatureOK lb trust d"
    using assms by (auto simp: verify_def split: if_splits option.splits)
  moreover have "\<bar>now - signedAt\<bar> \<le> signatureTolerance"
    using tol by (auto simp: timestampInTolerance_def Let_def signatureTolerance_def sat64_def dur_simps abs_le_iff)
  moreover have "\<exists>secrets key. secretsFor trust (dl_EndpointID d) = Some secrets \<and> key \<in> set (key_list secrets)
         \<and> verifyWith lb key (dl_Body d) (delivery_headers d)"
    using sig by (auto simp: signatureOK_def key_list_def split: option.splits)
  ultimately show ?thesis by blast
qed

definition example_trust :: TrustManifest where
  "example_trust =
     [(''shop'', \<lparr>eb_endpoint = \<lparr>ie_ID = ''shop'', ie_ActiveKeyReference = ''k'', ie_PredecessorKeyReference = ''''\<rparr>,
                eb_secrets = \<lparr>es_active = replicate 32 (CHR ''k''), es_predecessor = None\<rparr>\<rparr>)]"

definition example_sw :: sw where
  "example_sw = \<lparr>NewWebhookRaw = (\<lambda>_. None), VerifyIgnoringTimestamp = (\<lambda>key body h. if sw_signature h = ''good'' then None else Some (Fresh ''no''))\<rparr>"

definition example_delivery :: Delivery where
  "example_delivery = \<lparr>dl_EndpointID = ''shop'', dl_DeliveryID = ''d1'', dl_Timestamp = ''0'', dl_Signature = ''good'', dl_Body = ''{}''\<rparr>"

definition example_insertTx :: "string list job_insert" where
  "example_insertTx kind a n j = (None, j @ (if kind = inboundJobKind then [ja_ReceiptID a] else []))"

definition committed_tx :: tx_env where
  "committed_tx = \<lparr>te_pool = True, te_fn = True, te_acquire = None, te_begin = None, te_commit = None, te_applied = True,
     te_rollback = Some ErrTxClosed, te_canceled = None\<rparr>"

definition example_accept_env :: accept_env where
  "example_accept_env = \<lparr>ae_tx = committed_tx, ae_claim = \<lparr>ft_error = None, ft_now = 7\<rparr>, ae_read = \<lparr>ft_error = None, ft_now = 8\<rparr>\<rparr>"

lemma example_laws: "honest example_pg committed_tx" "job_laws example_insertTx (\<lambda>j. j)"
  by (auto simp: honest_def pg_laws_def example_pg_def committed_tx_def job_laws_def example_insertTx_def)

lemma example_verified: "verify example_sw (Some example_trust) 0 example_delivery = Some 0"
proof -
  have "validDeliveryID ''d1''"
    by (simp add: validDeliveryID_def between_def contains_rune_def runes_ascii valid_utf8_ascii is_control_def is_space_def)
  moreover have "trim_space ''0'' = ''0''" by (simp add: trim_ascii)
  then have "parseSignedTimestamp ''0'' = Some 0"
    by (simp add: parseSignedTimestamp_def parse_int_def is_digit_def between_def digits_value_def Let_def time_Unix_def
        wrap64_small unixToInternal_def)
  ultimately show ?thesis
    by (simp add: verify_def example_delivery_def timestampInTolerance_def sat64_def signatureTolerance_def dur_simps
        signatureOK_def secretsFor_def example_trust_def verifyWith_def example_sw_def delivery_headers_def)
qed

definition example_receipt :: receipt where
  "example_receipt = new_receipt 7 (received_record ''r1'' 0 example_delivery)"

lemma example_row_check: "row_check example_receipt"
  by (simp add: example_receipt_def row_check_def state_check_def new_receipt_def received_record_def example_delivery_def)

lemma example_accepted:
  "Accept q example_accept_env example_insertTx (received_record ''r1'' 0 example_delivery) \<lparr>ib_receipts = [], ib_jobs = []\<rparr>
     = (Inr OutcomeAccepted, \<lparr>ib_receipts = [example_receipt], ib_jobs = [''r1'']\<rparr>)"
  using example_row_check
  by (simp add: Accept_def InTx_def runInTx_def example_accept_env_def committed_tx_def accept_tx_def
      ClaimInboundWebhookReceipt_def Let_def example_insertTx_def receiptJobArgs_Kind_def example_receipt_def
      classifyCommitError_def commitTx_def deferred_rollback_def received_record_def)

lemma example_received:
  "Receive q example_accept_env example_insertTx example_sw (Some example_trust) 0 ''r1'' example_delivery
     \<lparr>ib_receipts = [], ib_jobs = []\<rparr> = (Inr OutcomeAccepted, [OutcomeAccepted], \<lparr>ib_receipts = [example_receipt], ib_jobs = [''r1'']\<rparr>)"
proof -
  have "trust_Lookup (Some example_trust) ''shop'' \<noteq> None" by (simp add: trust_Lookup_def example_trust_def)
  moreover have "dl_EndpointID example_delivery = ''shop''" by (simp add: example_delivery_def)
  ultimately show ?thesis using example_verified example_accepted [of q] by (simp add: Receive_def)
qed

lemma accept_refines_ledger_witness:
  "Accept example_pg example_accept_env example_insertTx (received_record ''r1'' 0 example_delivery)
     \<lparr>ib_receipts = [], ib_jobs = []\<rparr> = (Inr OutcomeAccepted, \<lparr>ib_receipts = [example_receipt], ib_jobs = [''r1'']\<rparr>)
   \<and> ledger_of [example_receipt] =
       snd (ledger_accept (''shop'', ''d1'') (sha256 ''{}'') (\<lambda>_. None))"
proof -
  have "db_ok (\<lambda>j. j) \<lparr>ib_receipts = [], ib_jobs = []\<rparr>" by (simp add: db_ok_def receipts_ok_def)
  moreover have "honest example_pg (ae_tx example_accept_env)" by (simp add: example_accept_env_def example_laws)
  moreover have "ledger_of [] = (\<lambda>_. None)" by (auto simp: ledger_of_def)
  ultimately show ?thesis
    using accept_refines_ledger [OF _ example_laws(2) _ example_accepted [of example_pg]] example_accepted [of example_pg]
    by (auto simp: received_record_def example_delivery_def snd_def split: prod.splits)
qed

end
