(* ===== verification/InboundWorker.thy ===== *)
theory InboundWorker
  imports InboundReceipt
begin

text \<open>
  Processing accepted receipts: the registry of typed handlers in
  \<^verbatim>\<open>internal/inboundwebhook/processor.go\<close> and the River worker of
  \<^verbatim>\<open>internal/infra/postgresinboundwebhook/worker.go\<close>.

  A decoder or handler may return or panic (\<open>inbound_invocation\<close>). The worker is not transactional: it reads
  the receipt, runs the handler, and then issues one conditional update, and anything may
  happen to the table between the two statements, in particular another worker holding the
  same receipt. \<open>Work\<close> is therefore the composition of \<open>work_load\<close>, \<open>work_dispatch\<close> and
  \<open>work_settle\<close>, and \<open>inbound_step\<close> interleaves these with each other and with new deliveries.

  The invariant of all reachable states says that a terminal receipt stays as it is, that one is
  handled only after its handler returned without error, and that no job is finished while
  its receipt is pending.
\<close>

section \<open>processor.go\<close>

abbreviation ErrInvalidBinding :: go_error where "ErrInvalidBinding \<equiv> Sentinel ''inboundwebhook.ErrInvalidBinding''"
abbreviation ErrDuplicateBinding :: go_error where "ErrDuplicateBinding \<equiv> Sentinel ''inboundwebhook.ErrDuplicateBinding''"
abbreviation ErrUnknownBinding :: go_error where "ErrUnknownBinding \<equiv> Sentinel ''inboundwebhook.ErrUnknownBinding''"
abbreviation ErrDecodeRejected :: go_error where "ErrDecodeRejected \<equiv> Sentinel ''inboundwebhook.ErrDecodeRejected''"

record VerifiedDelivery =
  vd_EndpointID :: string
  vd_DeliveryID :: string
  vd_SignedAt :: instant
  vd_Body :: string
  vd_ReceivedAt :: instant

datatype inbound_invocation = Returned "go_error option" | Panicked

datatype 'a decoded = DecodedValue 'a | DecodeFailed go_error | DecodePanicked

type_synonym dispatchHandle = "VerifiedDelivery \<Rightarrow> inbound_invocation"
type_synonym inbound_Registry = "(string \<times> dispatchHandle) list"

definition inbound_NewRegistry :: inbound_Registry where "inbound_NewRegistry = []"

definition decodeError :: "go_error \<Rightarrow> go_error" where
  "decodeError err = WrapTyped ''inboundwebhook.decodeError'' '''' err"

definition IsDecodeError :: "go_error \<Rightarrow> bool" where
  "IsDecodeError err = has_type ''inboundwebhook.decodeError'' err"

text \<open>The closure \<^verbatim>\<open>Bind\<close> stores, and the map it stores it in.\<close>

definition binding_handle ::
  "(string \<Rightarrow> 'a decoded) \<Rightarrow> (VerifiedDelivery \<Rightarrow> 'a \<Rightarrow> inbound_invocation) \<Rightarrow> dispatchHandle" where
  "binding_handle decode handle delivery =
     (case decode (vd_Body delivery) of
        DecodePanicked \<Rightarrow> Panicked
      | DecodeFailed err \<Rightarrow> Returned (Some (decodeError err))
      | DecodedValue v \<Rightarrow> handle delivery v)"

definition add_binding :: "string \<Rightarrow> dispatchHandle \<Rightarrow> inbound_Registry \<Rightarrow> go_error + inbound_Registry" where
  "add_binding endpointID h r =
     (if map_of r endpointID \<noteq> None then Inl ErrDuplicateBinding else Inr (AList.update endpointID h r))"

definition inbound_Bind ::
  "inbound_Registry option \<Rightarrow> string \<Rightarrow> (string \<Rightarrow> 'a decoded) option
   \<Rightarrow> (VerifiedDelivery \<Rightarrow> 'a \<Rightarrow> inbound_invocation) option \<Rightarrow> go_error + inbound_Registry" where
  "inbound_Bind r endpointID decode handle =
     (case (r, decode, handle) of
        (Some reg, Some dec, Some hnd) \<Rightarrow>
          if endpointID = '''' then Inl ErrInvalidBinding
          else add_binding endpointID (binding_handle dec hnd) reg
      | _ \<Rightarrow> Inl ErrInvalidBinding)"

definition HasBinding :: "inbound_Registry option \<Rightarrow> string \<Rightarrow> bool" where
  "HasBinding r endpointID = (case r of None \<Rightarrow> False | Some reg \<Rightarrow> map_of reg endpointID \<noteq> None)"

fun require_configured :: "inbound_Registry \<Rightarrow> string list \<Rightarrow> string list \<Rightarrow> go_error option" where
  "require_configured reg seen [] = None"
| "require_configured reg seen (i # ids) =
     (if i \<in> set seen then Some (WrapFmt ''endpoint is configured twice'' ErrInvalidBinding)
      else if map_of reg i = None then Some (WrapFmt ''configured endpoint has no binding'' ErrInvalidBinding)
      else require_configured reg (i # seen) ids)"

text \<open>The second loop of \<^verbatim>\<open>RequireExact\<close> runs over the sorted keys and reports the first that is not
  configured; which one it is shows only in the message.\<close>

definition RequireExact :: "inbound_Registry option \<Rightarrow> string list \<Rightarrow> go_error option" where
  "RequireExact r configured =
     (case r of
        None \<Rightarrow> Some (WrapFmt ''registry is nil'' ErrInvalidBinding)
      | Some reg \<Rightarrow>
          (case require_configured reg [] configured of
             Some err \<Rightarrow> Some err
           | None \<Rightarrow>
               if list_all (\<lambda>i. i \<in> set configured) (map fst reg) then None
               else Some (WrapFmt ''bound endpoint is not configured'' ErrInvalidBinding)))"

definition inbound_Dispatch :: "inbound_Registry option \<Rightarrow> VerifiedDelivery \<Rightarrow> inbound_invocation" where
  "inbound_Dispatch r delivery =
     (case r of
        None \<Rightarrow> Returned (Some ErrUnknownBinding)
      | Some reg \<Rightarrow>
          (case map_of reg (vd_EndpointID delivery) of
             None \<Rightarrow> Returned (Some ErrUnknownBinding)
           | Some binding \<Rightarrow> binding delivery))"

section \<open>errors.go and telemetry.go\<close>

abbreviation errDecoderFailed :: go_error where "errDecoderFailed \<equiv> Sentinel ''postgresinboundwebhook.errDecoderFailed''"
abbreviation errHandlerFailed :: go_error where "errHandlerFailed \<equiv> Sentinel ''postgresinboundwebhook.errHandlerFailed''"
abbreviation errStorageUnavailable :: go_error where
  "errStorageUnavailable \<equiv> Sentinel ''postgresinboundwebhook.errStorageUnavailable''"
abbreviation errPanicRecovered :: go_error where "errPanicRecovered \<equiv> Sentinel ''postgresinboundwebhook.errPanicRecovered''"

definition logClassDecoderInternal :: string where "logClassDecoderInternal = ''decoder_internal''"
definition logClassHandlerRetryable :: string where "logClassHandlerRetryable = ''handler_retryable''"
definition logClassStorageRetryable :: string where "logClassStorageRetryable = ''storage_retryable''"
definition logClassBindingUnavailable :: string where "logClassBindingUnavailable = ''binding_unavailable''"
definition logClassPanicRecovered :: string where "logClassPanicRecovered = ''panic_recovered''"
definition logClassTerminalizationRetryable :: string where
  "logClassTerminalizationRetryable = ''terminalization_retryable''"

definition processingRetrying :: string where "processingRetrying = ''retrying''"

text \<open>What the worker reports: a counted processing outcome, or a warning with its failure class.\<close>

datatype report = Counted string | Warned string string

definition recordProcessing :: "string \<Rightarrow> report list" where
  "recordProcessing outcome = [Counted outcome]"

definition logFailure :: "string \<Rightarrow> string \<Rightarrow> report list" where
  "logFailure receiptID cls = [Warned receiptID cls]"

definition recordRetryingFailure :: "string \<Rightarrow> string \<Rightarrow> report list" where
  "recordRetryingFailure receiptID cls = logFailure receiptID cls @ recordProcessing processingRetrying"

section \<open>worker.go\<close>

definition quarantineReasonInvalidJSON :: string where "quarantineReasonInvalidJSON = ''invalid_json''"
definition quarantineReasonRejected :: string where "quarantineReasonRejected = ''schema_rejected''"
definition resnoozeDelay :: duration where "resnoozeDelay = second"
definition worker_Timeout :: duration where "worker_Timeout = 30 * second"

record storedReceipt =
  sr_ReceiptID :: string
  sr_EndpointID :: string
  sr_DeliveryID :: string
  sr_SignedAt :: instant
  sr_ReceivedAt :: instant
  sr_Payload :: string
  sr_State :: string

text \<open>A null payload is read as an empty one.\<close>

definition stored_receipt :: "receipt \<Rightarrow> storedReceipt" where
  "stored_receipt r =
     \<lparr>sr_ReceiptID = r_ReceiptID r, sr_EndpointID = r_EndpointID r, sr_DeliveryID = r_DeliveryID r,
      sr_SignedAt = r_SignedAt r, sr_ReceivedAt = r_ReceivedAt r,
      sr_Payload = (case r_Payload r of None \<Rightarrow> '''' | Some b \<Rightarrow> b), sr_State = r_Outcome r\<rparr>"

definition loadByID :: "fault \<Rightarrow> string \<Rightarrow> receipt list \<Rightarrow> go_error + storedReceipt" where
  "loadByID ft receiptID rows =
     (case GetInboundWebhookReceiptByID ft receiptID rows of
        Inl err \<Rightarrow> Inl (WrapFmt ''load inbound webhook receipt'' err)
      | Inr r \<Rightarrow> Inr (stored_receipt r))"

definition marked :: "string \<Rightarrow> (go_error + nat) \<times> receipt list \<Rightarrow> (go_error + bool) \<times> receipt list" where
  "marked m x = (case x of (Inl err, rows) \<Rightarrow> (Inl (WrapFmt m err), rows) | (Inr n, rows) \<Rightarrow> (Inr (n = 1), rows))"

definition MarkHandled :: "fault \<Rightarrow> string \<Rightarrow> receipt list \<Rightarrow> (go_error + bool) \<times> receipt list" where
  "MarkHandled ft receiptID rows =
     marked ''mark inbound webhook handled'' (MarkInboundWebhookHandled ft receiptID rows)"

definition MarkQuarantined :: "fault \<Rightarrow> string \<Rightarrow> string \<Rightarrow> receipt list \<Rightarrow> (go_error + bool) \<times> receipt list" where
  "MarkQuarantined ft receiptID reason rows =
     marked ''mark inbound webhook quarantined'' (MarkInboundWebhookQuarantined ft reason receiptID rows)"

definition MarkFailed :: "fault \<Rightarrow> string \<Rightarrow> receipt list \<Rightarrow> (go_error + bool) \<times> receipt list" where
  "MarkFailed ft receiptID rows =
     marked ''mark inbound webhook failed'' (MarkInboundWebhookFailed ft receiptID rows)"

text \<open>River's \<^verbatim>\<open>JobSnooze\<close>: an error that runs the job again later without using up an attempt.\<close>

definition JobSnooze :: "duration \<Rightarrow> go_error" where
  "JobSnooze d = Typed ''*rivertype.JobSnoozeError'' (decimal_int d)"

record inbound_job =
  ij_ReceiptID :: string
  ij_Attempt :: int
  ij_MaxAttempts :: int

text \<open>The result of \<^verbatim>\<open>Work\<close> with its reports.\<close>

type_synonym work_result = "go_error option \<times> report list"

definition finalize :: "fault \<Rightarrow> string \<Rightarrow> receipt list \<Rightarrow> work_result \<times> receipt list" where
  "finalize ft receiptID rows =
     (case MarkFailed ft receiptID rows of
        (Inl err, rows') \<Rightarrow> ((Some (JobSnooze resnoozeDelay), logFailure receiptID logClassTerminalizationRetryable), rows')
      | (Inr updated, rows') \<Rightarrow> ((None, if updated then recordProcessing receiptFailed else []), rows'))"

datatype work_phase = Ended work_result | Finalizing | Dispatching storedReceipt

definition work_load :: "inbound_Registry option \<Rightarrow> fault \<Rightarrow> inbound_job \<Rightarrow> receipt list \<Rightarrow> work_phase" where
  "work_load reg ft job rows =
     (let receiptID = ij_ReceiptID job
      in if reg = None \<or> receiptID = '''' then Ended (Some errStorageUnavailable, [])
         else case loadByID ft receiptID rows of
                Inl err \<Rightarrow>
                  Ended (Some (if ij_MaxAttempts job \<le> ij_Attempt job then JobSnooze resnoozeDelay else errStorageUnavailable),
                         recordRetryingFailure receiptID logClassStorageRetryable)
              | Inr receipt \<Rightarrow>
                  if sr_State receipt \<noteq> receiptPending then Ended (None, [])
                  else if \<not> HasBinding reg (sr_EndpointID receipt)
                  then Ended (Some (JobSnooze resnoozeDelay), recordRetryingFailure receiptID logClassBindingUnavailable)
                  else if ij_MaxAttempts job \<le> ij_Attempt job then Finalizing
                  else Dispatching receipt)"

definition work_dispatch :: "inbound_Registry option \<Rightarrow> storedReceipt \<Rightarrow> inbound_invocation" where
  "work_dispatch reg receipt =
     inbound_Dispatch reg
       \<lparr>vd_EndpointID = sr_EndpointID receipt, vd_DeliveryID = sr_DeliveryID receipt,
        vd_SignedAt = sr_SignedAt receipt, vd_Body = sr_Payload receipt, vd_ReceivedAt = sr_ReceivedAt receipt\<rparr>"

text \<open>The answer to the update that makes a receipt terminal.\<close>

definition settle_result :: "string \<Rightarrow> string \<Rightarrow> (go_error + bool) \<times> receipt list \<Rightarrow> work_result \<times> receipt list" where
  "settle_result receiptID state x =
     (case x of
        (Inl err, rows) \<Rightarrow> ((Some errStorageUnavailable, recordRetryingFailure receiptID logClassStorageRetryable), rows)
      | (Inr updated, rows) \<Rightarrow> ((None, if updated then recordProcessing state else []), rows))"

definition work_settle ::
  "(string \<Rightarrow> bool) \<Rightarrow> fault \<Rightarrow> string \<Rightarrow> storedReceipt \<Rightarrow> inbound_invocation \<Rightarrow> receipt list \<Rightarrow> work_result \<times> receipt list" where
  "work_settle json_Valid ft receiptID receipt called rows =
     (case called of
        Panicked \<Rightarrow> ((Some errPanicRecovered, recordRetryingFailure receiptID logClassPanicRecovered), rows)
      | Returned None \<Rightarrow> settle_result receiptID receiptHandled (MarkHandled ft receiptID rows)
      | Returned (Some dispatchErr) \<Rightarrow>
          if IsDecodeError dispatchErr \<and> errors_is dispatchErr ErrDecodeRejected
          then let reason = (if \<not> json_Valid (sr_Payload receipt) then quarantineReasonInvalidJSON
                             else quarantineReasonRejected)
               in settle_result receiptID receiptQuarantined (MarkQuarantined ft receiptID reason rows)
          else if IsDecodeError dispatchErr
          then ((Some errDecoderFailed, recordRetryingFailure receiptID logClassDecoderInternal), rows)
          else ((Some errHandlerFailed, recordRetryingFailure receiptID logClassHandlerRetryable), rows))"

text \<open>\<^verbatim>\<open>Work\<close>: \<open>others\<close> is what happens to the table while the handler runs, \<open>ft_load\<close> and
  \<open>ft_mark\<close> are the two statements.\<close>

definition inbound_Work ::
  "(string \<Rightarrow> bool) \<Rightarrow> inbound_Registry option \<Rightarrow> fault \<Rightarrow> fault \<Rightarrow> (receipt list \<Rightarrow> receipt list) \<Rightarrow> inbound_job
   \<Rightarrow> receipt list \<Rightarrow> work_result \<times> receipt list" where
  "inbound_Work json_Valid reg ft_load ft_mark others job rows =
     (case work_load reg ft_load job rows of
        Ended res \<Rightarrow> (res, rows)
      | Finalizing \<Rightarrow> finalize ft_mark (ij_ReceiptID job) (others rows)
      | Dispatching receipt \<Rightarrow>
          work_settle json_Valid ft_mark (ij_ReceiptID job) receipt (work_dispatch reg receipt) (others rows))"

interpretation bindings: keyed_registry map_of add_binding
  by unfold_locales (auto simp: add_binding_def update_conv' split: if_splits)

section \<open>One run of the worker\<close>

text \<open>What every update that makes a receipt terminal does: it succeeds and then the receipt is no
  longer pending, or it fails and changes nothing.\<close>

definition still_pending :: "receipt list \<Rightarrow> string \<Rightarrow> bool" where
  "still_pending rows receiptID = list_ex (due receiptID) rows"

definition settles :: "(receipt \<Rightarrow> receipt) \<Rightarrow> bool" where
  "settles f = (\<forall>r. r_Outcome (f r) \<noteq> receiptPending \<and> r_ReceiptID (f r) = r_ReceiptID r)"

lemma rows_settle:
  "settles (handled_row now)" "settles (quarantined_row now reason)" "settles (failed_row now)"
  by (simp_all add: settles_def handled_row_def quarantined_row_def failed_row_def receipt_states)

lemma update_due_settles:
  assumes "update_due ft receiptID f rows = (res, rows')" "settles f"
  shows "(isl res \<and> rows' = rows) \<or> (\<not> isl res \<and> rows' = map (\<lambda>r. if due receiptID r then f r else r) rows
           \<and> \<not> still_pending rows' receiptID)"
proof -
  have "\<not> due receiptID (if due receiptID r then f r else r)" for r
    using assms(2) by (simp add: settles_def due_def)
  then have "\<not> still_pending (map (\<lambda>r. if due receiptID r then f r else r) rows) receiptID"
    unfolding still_pending_def by (induction rows) auto
  then show ?thesis using assms(1) by (auto simp: update_due_def split: option.splits)
qed

lemmas mark_defs = MarkHandled_def MarkQuarantined_def MarkFailed_def MarkInboundWebhookHandled_def
  MarkInboundWebhookQuarantined_def MarkInboundWebhookFailed_def

text \<open>The three ways the last statement of a run can leave the table.\<close>

definition terminal_row :: "instant \<Rightarrow> string \<Rightarrow> (receipt \<Rightarrow> receipt) \<Rightarrow> bool" where
  "terminal_row now state f =
     (state = receiptHandled \<and> f = handled_row now
      \<or> state = receiptQuarantined \<and> (\<exists>reason. (reason = quarantineReasonInvalidJSON \<or> reason = quarantineReasonRejected)
          \<and> f = quarantined_row now reason)
      \<or> state = receiptFailed \<and> f = failed_row now)"

lemma terminal_row_settles: "terminal_row now state f \<Longrightarrow> settles f"
  by (auto simp: terminal_row_def rows_settle)

lemma settle_result_cases:
  assumes "settle_result receiptID state (marked m (update_due ft receiptID f rows)) = (res, rows')" "settles f"
  shows "(fst res \<noteq> None \<and> rows' = rows)
    \<or> (fst res = None \<and> rows' = map (\<lambda>r. if due receiptID r then f r else r) rows \<and> \<not> still_pending rows' receiptID)"
proof -
  obtain x rows1 where u: "update_due ft receiptID f rows = (x, rows1)" by fastforce
  show ?thesis
    using assms(1) update_due_settles [OF u assms(2)] u
    by (cases x) (auto simp: settle_result_def marked_def)
qed

lemma finalize_cases:
  assumes "finalize ft receiptID rows = (res, rows')"
  shows "(fst res \<noteq> None \<and> rows' = rows)
    \<or> (fst res = None \<and> rows' = map (\<lambda>r. if due receiptID r then failed_row (ft_now ft) r else r) rows
       \<and> \<not> still_pending rows' receiptID)"
proof -
  obtain x rows1 where u: "update_due ft receiptID (failed_row (ft_now ft)) rows = (x, rows1)" by fastforce
  show ?thesis
    using assms update_due_settles [OF u rows_settle(3)] u
    by (cases x) (auto simp: finalize_def mark_defs marked_def)
qed

text \<open>Which terminal state the result of the handler asks for.\<close>

definition rejects :: "inbound_invocation \<Rightarrow> bool" where
  "rejects called = (\<exists>e. called = Returned (Some e) \<and> IsDecodeError e \<and> errors_is e ErrDecodeRejected)"

lemma work_settle_cases:
  assumes "work_settle json_Valid ft receiptID receipt called rows = (res, rows')"
  shows "(fst res \<noteq> None \<and> rows' = rows)
    \<or> (\<exists>f. fst res = None \<and> rows' = map (\<lambda>r. if due receiptID r then f r else r) rows \<and> \<not> still_pending rows' receiptID
         \<and> (called = Returned None \<and> terminal_row (ft_now ft) receiptHandled f
            \<or> rejects called \<and> terminal_row (ft_now ft) receiptQuarantined f))"
proof -
  consider (ok) "called = Returned None" | (rejected) "rejects called"
    | (other) "fst res \<noteq> None" "rows' = rows"
    using assms by (auto simp: work_settle_def rejects_def Let_def split: inbound_invocation.splits option.splits if_splits)
  then show ?thesis
  proof cases
    case ok
    then have "settle_result receiptID receiptHandled (marked ''mark inbound webhook handled''
        (update_due ft receiptID (handled_row (ft_now ft)) rows)) = (res, rows')"
      using assms by (simp add: work_settle_def mark_defs)
    from settle_result_cases [OF this rows_settle(1)] ok show ?thesis
      by (auto simp: terminal_row_def)
  next
    case rejected
    define reason where "reason = (if \<not> json_Valid (sr_Payload receipt) then quarantineReasonInvalidJSON else quarantineReasonRejected)"
    have "settle_result receiptID receiptQuarantined (marked ''mark inbound webhook quarantined''
        (update_due ft receiptID (quarantined_row (ft_now ft) reason) rows)) = (res, rows')"
      using assms rejected by (auto simp: work_settle_def mark_defs rejects_def reason_def Let_def)
    moreover have "terminal_row (ft_now ft) receiptQuarantined (quarantined_row (ft_now ft) reason)"
      by (auto simp: terminal_row_def reason_def)
    ultimately show ?thesis using settle_result_cases rows_settle(2) rejected by blast
  qed blast
qed

section \<open>Deliveries and workers together\<close>

text \<open>A worker holding a job: it has read the receipt, its handler has run, or it is about to give the
  receipt up. The last three fields of the state only remember what happened: receipts whose
  handler returned without error, receipts whose decoder rejected them, and jobs whose run
  returned without error, which River then never runs again.\<close>

datatype worker_pc = Idle | Loaded inbound_job storedReceipt | Ran inbound_job storedReceipt inbound_invocation
  | GivingUp inbound_job

record 'j inbound_state =
  is_db :: "'j inbound_db"
  is_worker :: "nat \<Rightarrow> worker_pc"
  is_succeeded :: "string set"
  is_rejected :: "string set"
  is_finished :: "string set"

definition inbound_start :: "('j \<Rightarrow> string list) \<Rightarrow> 'j inbound_state \<Rightarrow> bool" where
  "inbound_start queued s =
     (ib_receipts (is_db s) = [] \<and> queued (ib_jobs (is_db s)) = [] \<and> is_worker s = (\<lambda>_. Idle)
      \<and> is_succeeded s = {} \<and> is_rejected s = {} \<and> is_finished s = {})"

definition finish :: "work_result \<Rightarrow> inbound_job \<Rightarrow> string set \<Rightarrow> string set" where
  "finish res job ids = (if fst res = None then insert (ij_ReceiptID job) ids else ids)"

definition with_rows :: "receipt list \<Rightarrow> 'j inbound_db \<Rightarrow> 'j inbound_db" where
  "with_rows rows db = db\<lparr>ib_receipts := rows\<rparr>"

text \<open>The steps. Registries, faults, clocks and transactions may differ from step to step.\<close>

inductive inbound_step :: "('j \<Rightarrow> string list) \<Rightarrow> 'j inbound_state \<Rightarrow> 'j inbound_state \<Rightarrow> bool"
  for queued where
  receive: "honest p (ae_tx env) \<Longrightarrow> job_laws insertTx queued \<Longrightarrow>
    Receive p env insertTx lb trust now receiptID d (is_db s) = (res, labels, db') \<Longrightarrow>
    inbound_step queued s (s\<lparr>is_db := db'\<rparr>)"
| load: "is_worker s w = Idle \<Longrightarrow> ij_ReceiptID job \<in> set (queued (ib_jobs (is_db s))) \<Longrightarrow>
    work_load reg ft job (ib_receipts (is_db s)) = Dispatching receipt \<Longrightarrow>
    inbound_step queued s (s\<lparr>is_worker := (is_worker s)(w := Loaded job receipt)\<rparr>)"
| load_ends: "is_worker s w = Idle \<Longrightarrow> ij_ReceiptID job \<in> set (queued (ib_jobs (is_db s))) \<Longrightarrow>
    work_load reg ft job (ib_receipts (is_db s)) = Ended res \<Longrightarrow>
    inbound_step queued s (s\<lparr>is_finished := finish res job (is_finished s)\<rparr>)"
| load_last: "is_worker s w = Idle \<Longrightarrow> ij_ReceiptID job \<in> set (queued (ib_jobs (is_db s))) \<Longrightarrow>
    work_load reg ft job (ib_receipts (is_db s)) = Finalizing \<Longrightarrow>
    inbound_step queued s (s\<lparr>is_worker := (is_worker s)(w := GivingUp job)\<rparr>)"
| run: "is_worker s w = Loaded job receipt \<Longrightarrow> called = work_dispatch reg receipt \<Longrightarrow>
    inbound_step queued s
      (s\<lparr>is_worker := (is_worker s)(w := Ran job receipt called),
         is_succeeded := (if called = Returned None then insert (ij_ReceiptID job) (is_succeeded s) else is_succeeded s),
         is_rejected := (if rejects called then insert (ij_ReceiptID job) (is_rejected s) else is_rejected s)\<rparr>)"
| settle: "is_worker s w = Ran job receipt called \<Longrightarrow>
    work_settle json_Valid ft (ij_ReceiptID job) receipt called (ib_receipts (is_db s)) = (res, rows) \<Longrightarrow>
    inbound_step queued s
      (s\<lparr>is_db := with_rows rows (is_db s), is_worker := (is_worker s)(w := Idle),
         is_finished := finish res job (is_finished s)\<rparr>)"
| give_up: "is_worker s w = GivingUp job \<Longrightarrow>
    finalize ft (ij_ReceiptID job) (ib_receipts (is_db s)) = (res, rows) \<Longrightarrow>
    inbound_step queued s
      (s\<lparr>is_db := with_rows rows (is_db s), is_worker := (is_worker s)(w := Idle),
         is_finished := finish res job (is_finished s)\<rparr>)"
| crash: "inbound_step queued s (s\<lparr>is_worker := (is_worker s)(w := Idle)\<rparr>)"

definition pc_ok :: "'j inbound_state \<Rightarrow> worker_pc \<Rightarrow> bool" where
  "pc_ok s pc =
     (case pc of
        Idle \<Rightarrow> True
      | Loaded job receipt \<Rightarrow> ij_ReceiptID job \<in> r_ReceiptID ` set (ib_receipts (is_db s))
      | Ran job receipt called \<Rightarrow>
          ij_ReceiptID job \<in> r_ReceiptID ` set (ib_receipts (is_db s))
          \<and> (called = Returned None \<longrightarrow> ij_ReceiptID job \<in> is_succeeded s)
          \<and> (rejects called \<longrightarrow> ij_ReceiptID job \<in> is_rejected s)
      | GivingUp job \<Rightarrow> ij_ReceiptID job \<in> r_ReceiptID ` set (ib_receipts (is_db s)))"

definition inbound_inv :: "('j \<Rightarrow> string list) \<Rightarrow> 'j inbound_state \<Rightarrow> bool" where
  "inbound_inv queued s =
     (db_ok queued (is_db s)
      \<and> (\<forall>w. pc_ok s (is_worker s w))
      \<and> (\<forall>r \<in> set (ib_receipts (is_db s)).
           (r_Outcome r = receiptHandled \<longrightarrow> r_ReceiptID r \<in> is_succeeded s)
           \<and> (r_Outcome r = receiptQuarantined \<longrightarrow> r_ReceiptID r \<in> is_rejected s))
      \<and> (\<forall>i \<in> is_finished s. i \<in> r_ReceiptID ` set (ib_receipts (is_db s)) \<and> \<not> still_pending (ib_receipts (is_db s)) i))"

text \<open>Receiving keeps the table or appends one pending receipt with a new identifier.\<close>

definition grown :: "receipt list \<Rightarrow> receipt list \<Rightarrow> bool" where
  "grown rows rows' =
     (rows' = rows \<or> (\<exists>r. rows' = rows @ [r] \<and> r_Outcome r = receiptPending
        \<and> r_ReceiptID r \<notin> r_ReceiptID ` set rows))"

lemma grown_refl [simp]: "grown rows rows"
  by (simp add: grown_def)

lemma accept_tx_grows:
  assumes "accept_tx env insertTx a s = (Inr outcome, s')" "job_laws insertTx queued" "db_ok queued s"
  shows "db_ok queued s' \<and> grown (ib_receipts s) (ib_receipts s')"
proof -
  note refines = accept_tx_refines [OF assms(2,3,1)]
  show ?thesis
  proof (cases "outcome = OutcomeAccepted")
    case True
    then have rows: "ib_receipts s' = ib_receipts s @ [new_receipt (ft_now (ae_claim env)) a]" using refines by simp
    moreover have "distinct (map r_ReceiptID (ib_receipts s'))" using refines by (simp add: db_ok_def receipts_ok_def)
    ultimately show ?thesis using refines by (auto simp: grown_def)
  qed (use refines assms(3) in \<open>auto simp: grown_def\<close>)
qed

lemma Receive_grows:
  assumes "honest p (ae_tx env)" "job_laws insertTx queued" "db_ok queued s"
    and "Receive p env insertTx lb trust now receiptID d s = (res, labels, s')"
  shows "db_ok queued s' \<and> grown (ib_receipts s) (ib_receipts s')"
  using assms(4)
proof (cases rule: Receive_cases)
  case refused
  then show ?thesis using assms(3) by (simp add: grown_def)
next
  case (stored signedAt outcome)
  from assms(1) stored(3) show ?thesis
    by (cases rule: Accept_cases) (auto dest: accept_tx_grows [OF _ assms(2,3)])
next
  case (unconfirmed signedAt err err')
  from assms(1) unconfirmed(3) show ?thesis
    by (cases rule: Accept_cases) (use assms(3) in \<open>auto dest: accept_tx_grows [OF _ assms(2,3)]\<close>)
qed

lemma grown_ids: "grown rows rows' \<Longrightarrow> r_ReceiptID ` set rows \<subseteq> r_ReceiptID ` set rows'"
  by (auto simp: grown_def)

lemma grown_pending:
  "grown rows rows' \<Longrightarrow> i \<in> r_ReceiptID ` set rows \<Longrightarrow> \<not> still_pending rows i \<Longrightarrow> \<not> still_pending rows' i"
  by (auto simp: grown_def still_pending_def due_def)

lemma receive_inv:
  assumes inv: "inbound_inv queued s" and db: "db_ok queued db'" and grow: "grown (ib_receipts (is_db s)) (ib_receipts db')"
  shows "inbound_inv queued (s\<lparr>is_db := db'\<rparr>)"
proof -
  have "pc_ok s pc \<Longrightarrow> pc_ok (s\<lparr>is_db := db'\<rparr>) pc" for pc
    using grown_ids [OF grow] by (auto simp: pc_ok_def split: worker_pc.splits)
  moreover have "r \<in> set (ib_receipts (is_db s))" if "r \<in> set (ib_receipts db')" "r_Outcome r \<noteq> receiptPending" for r
    using that grow by (auto simp: grown_def)
  ultimately show ?thesis
    using inv db grown_ids [OF grow] grown_pending [OF grow]
    unfolding inbound_inv_def by (fastforce simp: receipt_states)
qed

text \<open>Settling a receipt.\<close>

definition settle_rows :: "string \<Rightarrow> (receipt \<Rightarrow> receipt) \<Rightarrow> receipt list \<Rightarrow> receipt list" where
  "settle_rows i f rows = map (\<lambda>r. if due i r then f r else r) rows"

lemma terminal_row_facts:
  assumes "terminal_row now state f"
  shows "r_ReceiptID (f r) = r_ReceiptID r" "r_EndpointID (f r) = r_EndpointID r" "r_DeliveryID (f r) = r_DeliveryID r"
    "r_BodySha256 (f r) = r_BodySha256 r" "r_Outcome (f r) = state"
  using assms by (auto simp: terminal_row_def handled_row_def quarantined_row_def failed_row_def)

lemma terminal_row_check:
  assumes "terminal_row now state f" "row_check r" "r_Outcome r = receiptPending"
  shows "row_check (f r)"
proof -
  have "r_Payload r \<noteq> None" using assms(2,3) by (simp add: row_check_def state_check_def receipt_states)
  moreover have "state_check (quarantined_row now reason r)"
    if "r_Payload r \<noteq> None" "reason = quarantineReasonInvalidJSON \<or> reason = quarantineReasonRejected" for reason
    using that by (elim disjE)
      (simp_all add: state_check_def quarantined_row_def receipt_states quarantineReasonInvalidJSON_def quarantineReasonRejected_def)
  moreover have "state_check (handled_row now r)"
    by (simp add: state_check_def handled_row_def receipt_states)
  moreover have "r_Payload r \<noteq> None \<Longrightarrow> state_check (failed_row now r)"
    by (simp add: state_check_def failed_row_def receipt_states)
  ultimately have "state_check (f r)" using assms(1) unfolding terminal_row_def by blast
  then show ?thesis using assms(2) terminal_row_facts [OF assms(1)] by (simp add: row_check_def)
qed

lemma settle_rows_ids:
  assumes "terminal_row now state f"
  shows "map r_ReceiptID (settle_rows i f rows) = map r_ReceiptID rows"
    and "map (\<lambda>r. (r_EndpointID r, r_DeliveryID r)) (settle_rows i f rows) = map (\<lambda>r. (r_EndpointID r, r_DeliveryID r)) rows"
  using terminal_row_facts [OF assms] by (simp_all add: settle_rows_def)

lemma settle_rows_ok: "terminal_row now state f \<Longrightarrow> receipts_ok rows \<Longrightarrow> receipts_ok (settle_rows i f rows)"
  unfolding receipts_ok_def settle_rows_ids
  by (auto simp: settle_rows_def list_all_iff due_def dest: terminal_row_check)

lemma settle_rows_pending: "terminal_row now state f \<Longrightarrow> state \<noteq> receiptPending \<Longrightarrow>
    still_pending (settle_rows i f rows) k \<Longrightarrow> still_pending rows k"
  by (auto simp: still_pending_def list_ex_iff settle_rows_def due_def terminal_row_facts split: if_splits)

lemma terminal_row_state: "terminal_row now state f \<Longrightarrow> state \<noteq> receiptPending"
  by (auto simp: terminal_row_def receipt_states)

lemma settle_rows_outcome:
  assumes "terminal_row now state f" "r \<in> set (settle_rows i f rows)"
  shows "r \<in> set rows \<or> r_ReceiptID r = i \<and> r_Outcome r = state"
  using assms(2) terminal_row_facts [OF assms(1)] by (auto simp: settle_rows_def due_def split: if_splits)

lemma settle_inv:
  assumes inv: "inbound_inv queued s" and f: "terminal_row now state f"
    and i: "i \<in> r_ReceiptID ` set (ib_receipts (is_db s))"
    and ghost: "state = receiptHandled \<longrightarrow> i \<in> is_succeeded s" "state = receiptQuarantined \<longrightarrow> i \<in> is_rejected s"
    and gone: "\<not> still_pending (settle_rows i f (ib_receipts (is_db s))) i"
  shows "inbound_inv queued (s\<lparr>is_db := with_rows (settle_rows i f (ib_receipts (is_db s))) (is_db s),
      is_worker := (is_worker s)(w := Idle), is_finished := insert i (is_finished s)\<rparr>)" (is "inbound_inv queued ?s")
proof -
  have ids: "r_ReceiptID ` set (settle_rows i f rows) = r_ReceiptID ` set rows" for rows
    using arg_cong [OF settle_rows_ids(1) [OF f, of i rows], of set] by simp
  have "db_ok queued (is_db ?s)"
    using inv settle_rows_ok [OF f] settle_rows_ids(1) [OF f] by (simp add: inbound_inv_def db_ok_def with_rows_def)
  moreover have "pc_ok ?s (is_worker ?s v)" for v
  proof -
    have "pc_ok s pc \<Longrightarrow> pc_ok ?s pc" for pc by (auto simp: pc_ok_def with_rows_def ids split: worker_pc.splits)
    moreover have "pc_ok ?s Idle" by (simp add: pc_ok_def)
    ultimately show ?thesis using inv by (simp add: inbound_inv_def)
  qed
  moreover have "(r_Outcome r = receiptHandled \<longrightarrow> r_ReceiptID r \<in> is_succeeded s)
      \<and> (r_Outcome r = receiptQuarantined \<longrightarrow> r_ReceiptID r \<in> is_rejected s)"
    if "r \<in> set (settle_rows i f (ib_receipts (is_db s)))" for r
    using settle_rows_outcome [OF f that] inv ghost unfolding inbound_inv_def by blast
  moreover have "k \<in> r_ReceiptID ` set (ib_receipts (is_db s)) \<and> \<not> still_pending (settle_rows i f (ib_receipts (is_db s))) k"
    if "k = i \<or> k \<in> is_finished s" for k
    using that i gone inv settle_rows_pending [OF f terminal_row_state [OF f]] unfolding inbound_inv_def by blast
  ultimately show ?thesis by (simp add: inbound_inv_def with_rows_def ids)
qed

lemma with_rows_same [simp]: "with_rows (ib_receipts db) db = db"
  by (simp add: with_rows_def)

lemma inv_worker:
  assumes "inbound_inv queued s" "pc_ok s pc"
  shows "inbound_inv queued (s\<lparr>is_worker := (is_worker s)(w := pc)\<rparr>)"
proof -
  have "pc_ok (s\<lparr>is_worker := g\<rparr>) pc' = pc_ok s pc'" for g pc' by (simp add: pc_ok_def split: worker_pc.splits)
  then show ?thesis using assms by (simp add: inbound_inv_def)
qed

lemma load_finds:
  assumes "work_load reg ft job rows = Dispatching receipt \<or> work_load reg ft job rows = Finalizing
    \<or> work_load reg ft job rows = Ended res \<and> fst res = None"
  shows "\<exists>r \<in> set rows. r_ReceiptID r = ij_ReceiptID job
    \<and> (work_load reg ft job rows = Ended res \<longrightarrow> r_Outcome r \<noteq> receiptPending)"
proof -
  obtain r where r: "find (\<lambda>r. r_ReceiptID r = ij_ReceiptID job) rows = Some r"
    using assms by (auto simp: work_load_def Let_def loadByID_def GetInboundWebhookReceiptByID_def
        split: if_splits sum.splits option.splits)
  moreover have "work_load reg ft job rows = Ended res \<Longrightarrow> r_Outcome r \<noteq> receiptPending"
    using assms r by (auto simp: work_load_def Let_def loadByID_def GetInboundWebhookReceiptByID_def stored_receipt_def
        split: if_splits sum.splits option.splits)
  ultimately show ?thesis by (auto simp: find_Some_iff)
qed

lemma load_member:
  "work_load reg ft job rows = Dispatching receipt \<or> work_load reg ft job rows = Finalizing \<Longrightarrow>
   ij_ReceiptID job \<in> r_ReceiptID ` set rows"
  using load_finds [of reg ft job rows receipt] by (metis image_eqI)

lemma not_pending_unique:
  assumes "receipts_ok rows" "r \<in> set rows" "r_ReceiptID r = i" "r_Outcome r \<noteq> receiptPending"
  shows "\<not> still_pending rows i"
proof
  assume "still_pending rows i"
  then obtain q where q: "q \<in> set rows" "r_ReceiptID q = i" "r_Outcome q = receiptPending"
    by (auto simp: still_pending_def list_ex_iff due_def)
  then have "q = r" using assms(1-3) unfolding receipts_ok_def by (metis distinct_map inj_onD)
  then show False using q assms(4) by simp
qed

lemma settle_result_inv:
  assumes inv: "inbound_inv queued s" and i: "ij_ReceiptID job \<in> r_ReceiptID ` set (ib_receipts (is_db s))"
    and cases: "(fst res \<noteq> None \<and> rows = ib_receipts (is_db s))
      \<or> (\<exists>now state f. fst res = None \<and> terminal_row now state f
           \<and> rows = settle_rows (ij_ReceiptID job) f (ib_receipts (is_db s)) \<and> \<not> still_pending rows (ij_ReceiptID job)
           \<and> (state = receiptHandled \<longrightarrow> ij_ReceiptID job \<in> is_succeeded s)
           \<and> (state = receiptQuarantined \<longrightarrow> ij_ReceiptID job \<in> is_rejected s))"
  shows "inbound_inv queued (s\<lparr>is_db := with_rows rows (is_db s), is_worker := (is_worker s)(w := Idle),
      is_finished := finish res job (is_finished s)\<rparr>)"
  using cases
proof (elim disjE exE conjE)
  assume "fst res \<noteq> None" "rows = ib_receipts (is_db s)"
  then have "finish res job (is_finished s) = is_finished s" "with_rows rows (is_db s) = is_db s"
    by (auto simp: finish_def)
  then show ?thesis using inv_worker [OF inv, of Idle w] by (simp add: pc_ok_def)
next
  fix now state f
  assume f: "fst res = None" "terminal_row now state f" "rows = settle_rows (ij_ReceiptID job) f (ib_receipts (is_db s))"
    "\<not> still_pending rows (ij_ReceiptID job)" "state = receiptHandled \<longrightarrow> ij_ReceiptID job \<in> is_succeeded s"
    "state = receiptQuarantined \<longrightarrow> ij_ReceiptID job \<in> is_rejected s"
  from settle_inv [OF inv f(2) i f(5,6) f(4) [unfolded f(3)], of w] f(1,3) show ?thesis
    by (simp add: finish_def)
qed

lemma load_ends_inv:
  assumes inv: "inbound_inv queued s" and ends: "work_load reg ft job (ib_receipts (is_db s)) = Ended res"
  shows "inbound_inv queued (s\<lparr>is_finished := finish res job (is_finished s)\<rparr>)"
proof -
  have "ij_ReceiptID job \<in> r_ReceiptID ` set (ib_receipts (is_db s)) \<and> \<not> still_pending (ib_receipts (is_db s)) (ij_ReceiptID job)"
    if none: "fst res = None"
  proof -
    obtain r where "r \<in> set (ib_receipts (is_db s))" "r_ReceiptID r = ij_ReceiptID job" "r_Outcome r \<noteq> receiptPending"
      using load_finds [of reg ft job "ib_receipts (is_db s)" _ res] ends none by blast
    moreover have "receipts_ok (ib_receipts (is_db s))" using inv by (simp add: inbound_inv_def db_ok_def)
    ultimately show ?thesis using not_pending_unique by (metis image_eqI)
  qed
  moreover have "pc_ok (s\<lparr>is_finished := g\<rparr>) pc = pc_ok s pc" for g pc by (simp add: pc_ok_def split: worker_pc.splits)
  ultimately show ?thesis using inv by (simp add: inbound_inv_def finish_def)
qed

lemma worker_run_inv:
  assumes "is_worker s w = Loaded job receipt" and inv: "inbound_inv queued s"
  shows "inbound_inv queued (s\<lparr>is_worker := (is_worker s)(w := Ran job receipt called),
         is_succeeded := (if called = Returned None then insert (ij_ReceiptID job) (is_succeeded s) else is_succeeded s),
         is_rejected := (if rejects called then insert (ij_ReceiptID job) (is_rejected s) else is_rejected s)\<rparr>)"
    (is "inbound_inv queued ?s")
proof -
  have loaded: "pc_ok s (Loaded job receipt)" using assms by (metis inbound_inv_def)
  have "pc_ok s pc \<Longrightarrow> pc_ok ?s pc" for pc by (auto simp: pc_ok_def split: worker_pc.splits)
  moreover have "pc_ok ?s (Ran job receipt called)" using loaded by (simp add: pc_ok_def)
  ultimately have "pc_ok ?s (is_worker ?s v)" for v using inv by (simp add: inbound_inv_def)
  then show ?thesis using inv by (auto simp: inbound_inv_def)
qed

lemma step_keeps_inv:
  assumes "inbound_inv queued s" "inbound_step queued s t"
  shows "inbound_inv queued t"
  using assms(2,1)
proof (induction rule: inbound_step.induct)
  case (receive p env insertTx lb trust now receiptID d s res labels db')
  then have "db_ok queued (is_db s)" by (simp add: inbound_inv_def)
  from Receive_grows [OF receive(1,2) this receive(3)] receive_inv [OF receive(4)] show ?case by blast
next
  case (load s w job reg ft receipt)
  then show ?case using load_member [of reg ft job] by (intro inv_worker) (auto simp: pc_ok_def)
next
  case (load_ends s w job reg ft res)
  then show ?case by (intro load_ends_inv)
next
  case (load_last s w job reg ft)
  then show ?case using load_member [of reg ft job] by (intro inv_worker) (auto simp: pc_ok_def)
next
  case (run s w job receipt called reg)
  then show ?case by (intro worker_run_inv)
next
  case (settle s w job receipt called json_Valid ft res rows)
  have pc: "pc_ok s (Ran job receipt called)" using settle(1,3) by (metis inbound_inv_def)
  show ?case
    using work_settle_cases [OF settle(2)] pc unfolding settle_rows_def [symmetric]
    by (intro settle_result_inv [OF settle(3)]) (auto simp: pc_ok_def receipt_states)
next
  case (give_up s w job ft res rows)
  have pc: "pc_ok s (GivingUp job)" using give_up(1,3) by (metis inbound_inv_def)
  have "terminal_row (ft_now ft) receiptFailed (failed_row (ft_now ft))" by (simp add: terminal_row_def)
  then show ?case
    using finalize_cases [OF give_up(2)] pc unfolding settle_rows_def [symmetric]
    by (intro settle_result_inv [OF give_up(3)]) (auto simp: pc_ok_def receipt_states)
next
  case (crash s w)
  then show ?case by (intro inv_worker) (auto simp: pc_ok_def)
qed

interpretation inbound: transition_system "inbound_start queued" "inbound_step queued" "inbound_inv queued"
proof unfold_locales
  fix s
  assume "inbound_start queued s"
  then show "inbound_inv queued s"
    by (simp add: inbound_start_def inbound_inv_def db_ok_def receipts_ok_def pc_ok_def)
qed (rule step_keeps_inv)

text \<open>How a table may change: no receipt disappears or changes its identity or digest, and a terminal one
  does not change at all.\<close>

definition kept :: "receipt list \<Rightarrow> receipt list \<Rightarrow> bool" where
  "kept rows rows' =
     (\<forall>r \<in> set rows. \<exists>r' \<in> set rows'.
        r_ReceiptID r' = r_ReceiptID r \<and> r_EndpointID r' = r_EndpointID r \<and> r_DeliveryID r' = r_DeliveryID r
        \<and> r_BodySha256 r' = r_BodySha256 r \<and> (r_Outcome r \<noteq> receiptPending \<longrightarrow> r' = r))"

lemma kept_refl [simp]: "kept rows rows"
  unfolding kept_def by blast

lemma kept_trans: "kept a b \<Longrightarrow> kept b c \<Longrightarrow> kept a c"
  unfolding kept_def by metis

lemma kept_grown: "grown rows rows' \<Longrightarrow> kept rows rows'"
  by (auto simp: grown_def kept_def)

lemma kept_settle: "terminal_row now state f \<Longrightarrow> kept rows (settle_rows i f rows)"
  unfolding kept_def
proof
  fix r
  assume f: "terminal_row now state f" and r: "r \<in> set rows"
  then have "(if due i r then f r else r) \<in> set (settle_rows i f rows)" by (simp add: settle_rows_def)
  moreover have "r_Outcome r \<noteq> receiptPending \<longrightarrow> \<not> due i r" by (simp add: due_def)
  ultimately show "\<exists>r' \<in> set (settle_rows i f rows).
      r_ReceiptID r' = r_ReceiptID r \<and> r_EndpointID r' = r_EndpointID r \<and> r_DeliveryID r' = r_DeliveryID r
      \<and> r_BodySha256 r' = r_BodySha256 r \<and> (r_Outcome r \<noteq> receiptPending \<longrightarrow> r' = r)"
    using terminal_row_facts [OF f] by (intro bexI [of _ "if due i r then f r else r"]) auto
qed

lemma step_kept:
  assumes "inbound_inv queued s" "inbound_step queued s t"
  shows "kept (ib_receipts (is_db s)) (ib_receipts (is_db t))"
  using assms(2,1)
proof (induction rule: inbound_step.induct)
  case (receive p env insertTx lb trust now receiptID d s res labels db')
  then show ?case using Receive_grows [OF receive(1,2) _ receive(3)] by (simp add: inbound_inv_def kept_grown)
next
  case (settle s w job receipt called json_Valid ft res rows)
  then show ?case
    using work_settle_cases [OF settle(2)] kept_settle unfolding settle_rows_def [symmetric]
    by (auto simp: with_rows_def)
next
  case (give_up s w job ft res rows)
  have "terminal_row (ft_now ft) receiptFailed (failed_row (ft_now ft))" by (simp add: terminal_row_def)
  then show ?case
    using finalize_cases [OF give_up(2)] kept_settle unfolding settle_rows_def [symmetric]
    by (auto simp: with_rows_def)
qed simp_all

lemma steps_kept:
  assumes "(inbound_step queued)\<^sup>*\<^sup>* s t" "inbound_inv queued s"
  shows "kept (ib_receipts (is_db s)) (ib_receipts (is_db t))"
  using assms
proof (induction rule: rtranclp_induct)
  case (step t u)
  then show ?case using step_kept inbound.steps_inv kept_trans by blast
qed simp

text \<open>C39: the life cycle of a receipt in every interleaving of deliveries and of any number of workers,
  with any faults, crashes and panics: a receipt never disappears or changes its identity or
  body digest, and once it is handled, quarantined or failed it never changes again; it is
  handled only after its handler returned without error and quarantined only after its decoder
  rejected it; a job that is finished for good belongs to a receipt that is no longer
  pending; and there is exactly one job per receipt.\<close>

theorem receipt_life_cycle:
  assumes "inbound_start queued s" and "(inbound_step queued)\<^sup>*\<^sup>* s t" and "(inbound_step queued)\<^sup>*\<^sup>* t u"
  shows "kept (ib_receipts (is_db t)) (ib_receipts (is_db u))
    \<and> receipts_ok (ib_receipts (is_db t))
    \<and> queued (ib_jobs (is_db t)) = map r_ReceiptID (ib_receipts (is_db t))
    \<and> (\<forall>r \<in> set (ib_receipts (is_db t)).
         (r_Outcome r = receiptHandled \<longrightarrow> r_ReceiptID r \<in> is_succeeded t)
         \<and> (r_Outcome r = receiptQuarantined \<longrightarrow> r_ReceiptID r \<in> is_rejected t)
         \<and> (r_Outcome r = receiptPending \<longrightarrow> r_ReceiptID r \<notin> is_finished t))"
proof -
  have inv: "inbound_inv queued t" by (rule inbound.run_inv [OF assms(1,2)])
  then have "r_ReceiptID r \<notin> is_finished t"
    if "r \<in> set (ib_receipts (is_db t))" "r_Outcome r = receiptPending" for r
    using that by (auto simp: inbound_inv_def still_pending_def list_ex_iff due_def)
  then show ?thesis using inv steps_kept [OF assms(3) inv] by (simp add: inbound_inv_def db_ok_def)
qed

definition example_registry :: inbound_Registry where
  "example_registry = [(''shop'', binding_handle (\<lambda>body. DecodedValue body) (\<lambda>_ _. Returned None))]"

definition example_inbound_job :: inbound_job where
  "example_inbound_job = \<lparr>ij_ReceiptID = ''r1'', ij_Attempt = 1, ij_MaxAttempts = 25\<rparr>"

definition no_fault :: fault where "no_fault = \<lparr>ft_error = None, ft_now = 9\<rparr>"

definition example_inbound_state :: "receipt list \<Rightarrow> string list \<Rightarrow> worker_pc \<Rightarrow> string set \<Rightarrow> string set \<Rightarrow> string list inbound_state" where
  "example_inbound_state rows jobs pc ok fin =
     \<lparr>is_db = \<lparr>ib_receipts = rows, ib_jobs = jobs\<rparr>, is_worker = (\<lambda>_. Idle)(0 := pc), is_succeeded = ok, is_rejected = {},
      is_finished = fin\<rparr>"

lemma example_load:
  "work_load (Some example_registry) no_fault example_inbound_job [example_receipt] = Dispatching (stored_receipt example_receipt)"
  by (simp add: work_load_def example_inbound_job_def loadByID_def GetInboundWebhookReceiptByID_def no_fault_def
      HasBinding_def example_registry_def example_receipt_def stored_receipt_def new_receipt_def received_record_def
      example_delivery_def)

lemma example_runs: "work_dispatch (Some example_registry) (stored_receipt example_receipt) = Returned None"
  by (simp add: work_dispatch_def inbound_Dispatch_def example_registry_def binding_handle_def stored_receipt_def
      example_receipt_def new_receipt_def received_record_def example_delivery_def)

lemma example_settles:
  "work_settle (\<lambda>_. True) no_fault ''r1'' (stored_receipt example_receipt) (Returned None) [example_receipt] =
     ((None, [Counted receiptHandled]), [handled_row 9 example_receipt])"
  by (simp add: work_settle_def settle_result_def mark_defs marked_def update_due_def no_fault_def due_def example_receipt_def
      received_record_def recordProcessing_def)

lemma receipt_life_cycle_witness:
  "\<exists>t. (inbound_step (\<lambda>j. j))\<^sup>*\<^sup>* (example_inbound_state [] [] Idle {} {}) t
     \<and> ib_receipts (is_db t) = [handled_row 9 example_receipt] \<and> ''r1'' \<in> is_succeeded t \<and> ''r1'' \<in> is_finished t"
proof -
  let ?st = example_inbound_state and ?job = example_inbound_job and ?rc = "stored_receipt example_receipt"
  have id: "ij_ReceiptID ?job = ''r1''" by (simp add: example_inbound_job_def)
  have start: "inbound_start (\<lambda>j. j) (?st [] [] Idle {} {})"
    by (auto simp: inbound_start_def example_inbound_state_def)
  have "inbound_step (\<lambda>j. j) (?st [] [] Idle {} {}) (?st [example_receipt] [''r1''] Idle {} {})"
    using inbound_step.receive [OF _ example_laws(2), of example_pg example_accept_env example_sw "Some example_trust" 0 "''r1''"
        example_delivery "?st [] [] Idle {} {}"] example_received [of example_pg]
    by (simp add: example_laws example_accept_env_def example_inbound_state_def)
  moreover have "inbound_step (\<lambda>j. j) (?st [example_receipt] [''r1''] Idle {} {}) (?st [example_receipt] [''r1''] (Loaded ?job ?rc) {} {})"
    using inbound_step.load [of "?st [example_receipt] [''r1''] Idle {} {}" 0 ?job "\<lambda>j. j" "Some example_registry" no_fault ?rc]
    by (simp add: example_inbound_state_def example_load id)
  moreover have "inbound_step (\<lambda>j. j) (?st [example_receipt] [''r1''] (Loaded ?job ?rc) {} {})
      (?st [example_receipt] [''r1''] (Ran ?job ?rc (Returned None)) {''r1''} {})"
    using inbound_step.run [of "?st [example_receipt] [''r1''] (Loaded ?job ?rc) {} {}" 0 ?job ?rc _ "Some example_registry" "\<lambda>j. j"]
    by (simp add: example_inbound_state_def example_runs id rejects_def)
  moreover have "inbound_step (\<lambda>j. j) (?st [example_receipt] [''r1''] (Ran ?job ?rc (Returned None)) {''r1''} {})
      (?st [handled_row 9 example_receipt] [''r1''] Idle {''r1''} {''r1''})"
    using inbound_step.settle [of "?st [example_receipt] [''r1''] (Ran ?job ?rc (Returned None)) {''r1''} {}" 0 ?job ?rc
        "Returned None" "\<lambda>_. True" no_fault "(None, [Counted receiptHandled])" "[handled_row 9 example_receipt]" "\<lambda>j. j"]
    by (simp add: example_inbound_state_def id example_settles finish_def with_rows_def)
  ultimately have run: "(inbound_step (\<lambda>j. j))\<^sup>*\<^sup>* (?st [] [] Idle {} {}) (?st [handled_row 9 example_receipt] [''r1''] Idle {''r1''} {''r1''})"
    by (meson converse_rtranclp_into_rtranclp rtranclp.rtrancl_refl)
  from receipt_life_cycle [OF start run rtranclp.rtrancl_refl] run show ?thesis
    by (intro exI [of _ "?st [handled_row 9 example_receipt] [''r1''] Idle {''r1''} {''r1''}"])
      (simp add: example_inbound_state_def)
qed

lemma kept_not_pending:
  assumes "kept rows rows'" "receipts_ok rows'" "r \<in> set rows" "r_ReceiptID r = i" "r_Outcome r \<noteq> receiptPending"
  shows "\<not> still_pending rows' i"
proof -
  have "r \<in> set rows'" using assms(1,3,5) unfolding kept_def by blast
  then show ?thesis using not_pending_unique [OF assms(2) _ assms(4,5)] by blast
qed

text \<open>No receipt is left behind by its job. Whatever happens to the table while a handler runs, a run of
  the worker that returns no error leaves its receipt settled, and one that returns an error
  has changed nothing. On the last attempt a worker with a registry and a named receipt
  returns no error or a snooze, never an ordinary error or a panic, after which River would
  discard the job; and if then the receipt is bound and pending and the database answers, the
  receipt is failed and the job ends.\<close>

theorem job_ends_with_settled_receipt:
  assumes "inbound_Work json_Valid (Some reg) ft_load ft_mark others job rows = (res, rows')"
    and "receipts_ok (others rows)" and "kept rows (others rows)" and "ij_ReceiptID job \<noteq> ''''"
    and "receipts_ok rows"
  shows "(fst res = None \<longrightarrow> \<not> still_pending rows' (ij_ReceiptID job))
    \<and> (fst res \<noteq> None \<longrightarrow> rows' = rows \<or> rows' = others rows)
    \<and> (ij_MaxAttempts job \<le> ij_Attempt job \<longrightarrow> fst res = None \<or> fst res = Some (JobSnooze resnoozeDelay))
    \<and> (ij_MaxAttempts job \<le> ij_Attempt job \<longrightarrow> work_load (Some reg) ft_load job rows = Finalizing \<longrightarrow>
         ft_error ft_mark = None \<longrightarrow>
         fst res = None \<and> rows' = settle_rows (ij_ReceiptID job) (failed_row (ft_now ft_mark)) (others rows))"
proof (cases "work_load (Some reg) ft_load job rows")
  case (Ended res')
  then have eq: "res' = res" "rows' = rows" using assms(1) by (simp_all add: inbound_Work_def)
  moreover have "\<not> still_pending rows (ij_ReceiptID job)" if "fst res = None"
    using load_finds [of "Some reg" ft_load job rows _ res] Ended eq(1) that not_pending_unique [OF assms(5)] by blast
  moreover have "ij_MaxAttempts job \<le> ij_Attempt job \<Longrightarrow> fst res = None \<or> fst res = Some (JobSnooze resnoozeDelay)"
    using Ended eq(1) assms(4) by (auto simp: work_load_def Let_def split: if_splits sum.splits)
  ultimately show ?thesis using Ended by auto
next
  case Finalizing
  then have fin: "finalize ft_mark (ij_ReceiptID job) (others rows) = (res, rows')"
    using assms(1) by (simp add: inbound_Work_def)
  have "fst res = None \<or> fst res = Some (JobSnooze resnoozeDelay)" and "ft_error ft_mark = None \<Longrightarrow> fst res = None"
    using fin by (auto simp: finalize_def mark_defs marked_def update_due_def split: option.splits)
  then show ?thesis using finalize_cases [OF fin] by (auto simp: settle_rows_def)
next
  case (Dispatching receipt)
  then have run: "work_settle json_Valid ft_mark (ij_ReceiptID job) receipt (work_dispatch (Some reg) receipt) (others rows) = (res, rows')"
    using assms(1) by (simp add: inbound_Work_def)
  have "\<not> ij_MaxAttempts job \<le> ij_Attempt job"
    using Dispatching by (auto simp: work_load_def Let_def split: if_splits sum.splits)
  then show ?thesis using work_settle_cases [OF run] by auto
qed

lemma job_ends_with_settled_receipt_witness:
  "\<exists>res. inbound_Work (\<lambda>_. True) (Some example_registry) no_fault no_fault (\<lambda>rows. rows)
      (example_inbound_job\<lparr>ij_Attempt := 25\<rparr>) [example_receipt] = (res, [failed_row 9 example_receipt])
     \<and> fst res = None"
proof -
  let ?job = "example_inbound_job\<lparr>ij_Attempt := 25\<rparr>"
  have load: "work_load (Some example_registry) no_fault ?job [example_receipt] = Finalizing"
    by (simp add: work_load_def example_inbound_job_def loadByID_def GetInboundWebhookReceiptByID_def no_fault_def
        HasBinding_def example_registry_def example_receipt_def stored_receipt_def new_receipt_def received_record_def
        example_delivery_def)
  have ok: "receipts_ok [example_receipt]" by (simp add: receipts_ok_def example_row_check)
  obtain res rows' where run: "inbound_Work (\<lambda>_. True) (Some example_registry) no_fault no_fault (\<lambda>rows. rows) ?job [example_receipt] = (res, rows')"
    by fastforce
  have name: "ij_ReceiptID ?job \<noteq> ''''" and last_try: "ij_MaxAttempts ?job \<le> ij_Attempt ?job" "ft_error no_fault = None"
    by (simp_all add: example_inbound_job_def no_fault_def)
  have "fst res = None \<and> rows' = settle_rows (ij_ReceiptID ?job) (failed_row (ft_now no_fault)) [example_receipt]"
    using job_ends_with_settled_receipt [OF run ok kept_refl name ok] load last_try by blast
  moreover have "settle_rows ''r1'' (failed_row 9) [example_receipt] = [failed_row 9 example_receipt]"
    by (simp add: settle_rows_def due_def example_receipt_def received_record_def)
  ultimately show ?thesis using run by (simp add: example_inbound_job_def no_fault_def)
qed

end
