(* ===== verification/InboundHttp.thy ===== *)
theory InboundHttp
  imports InboundWorker HttpProblem
begin

text \<open>
  \<^verbatim>\<open>internal/infra/http/inbound_webhook.go\<close>: the raw handler that hands a signed request to the
  receiver and turns its outcome into a response. A receiver is a function on the state it keeps;
  reading the body is an argument because the limit reader of \<^verbatim>\<open>net/http\<close> decides about it.

  The property spans the whole acceptance path: HTTP, verification, the store and its
  transaction.
\<close>

definition inboundUnavailableRetryAfter :: duration where "inboundUnavailableRetryAfter = second"

abbreviation errInboundWebhookStrictFallback :: go_error where
  "errInboundWebhookStrictFallback \<equiv> Sentinel ''httpx.errInboundWebhookStrictFallback''"

text \<open>The strict handler, which the raw one overrides.\<close>

definition strict_ReceiveWebhook :: "'r \<Rightarrow> go_error + 'o" where
  "strict_ReceiveWebhook request_object = Inl errInboundWebhookStrictFallback"

definition inboundFailureProblem :: problemResponse where
  "inboundFailureProblem = problem_response CodeInternalError ''inbound webhook request failed''"

definition writeInboundUnavailable ::
  "(openapi_Problem \<Rightarrow> string option) \<Rightarrow> string \<Rightarrow> responseWriter \<times> request option \<Rightarrow> responseWriter \<times> request option" where
  "writeInboundUnavailable encode detail =
     writeProblem encode ((problem_response CodeServiceUnavailable detail)\<lparr>pr_retryAfter := inboundUnavailableRetryAfter\<rparr>)"

record webhookParams =
  wp_WebhookId :: string
  wp_WebhookTimestamp :: string
  wp_WebhookSignature :: string

definition inbound_delivery :: "string \<Rightarrow> webhookParams \<Rightarrow> string \<Rightarrow> Delivery" where
  "inbound_delivery endpointID params body =
     \<lparr>dl_EndpointID = endpointID, dl_DeliveryID = wp_WebhookId params, dl_Timestamp = wp_WebhookTimestamp params,
      dl_Signature = wp_WebhookSignature params, dl_Body = body\<rparr>"

definition ReceiveWebhook ::
  "(openapi_Problem \<Rightarrow> string option) \<Rightarrow> (Delivery \<Rightarrow> 's \<Rightarrow> (go_error + outcome) \<times> 's) option \<Rightarrow> go_error + string
   \<Rightarrow> string \<Rightarrow> webhookParams \<Rightarrow> (responseWriter \<times> request option) \<Rightarrow> 's \<Rightarrow> (responseWriter \<times> request option) \<times> 's" where
  "ReceiveWebhook encode receiver readAll endpointID params wr s =
     (case receiver of
        None \<Rightarrow> (writeInboundUnavailable encode ''inbound webhook receiver is unavailable'' wr, s)
      | Some receive \<Rightarrow>
          (case readAll of
             Inl err \<Rightarrow>
               ((case contextFailureProblem (Some err) of
                   Some response \<Rightarrow> writeProblem encode response wr
                 | None \<Rightarrow>
                     if has_type ''*http.MaxBytesError'' err then writeProblem encode requestEntityTooLargeProblem wr
                     else writeProblem encode inboundFailureProblem wr), s)
           | Inr body \<Rightarrow>
               (case receive (inbound_delivery endpointID params body) s of
                  (Inl receiveErr, s') \<Rightarrow>
                    ((case contextFailureProblem (Some receiveErr) of
                        Some response \<Rightarrow> writeProblem encode response wr
                      | None \<Rightarrow>
                          if errors_is receiveErr inbound_ErrUnavailable
                          then writeInboundUnavailable encode ''inbound webhook storage is unavailable'' wr
                          else writeProblem encode inboundFailureProblem wr), s')
                | (Inr outcome, s') \<Rightarrow>
                    (if outcome = OutcomeAccepted \<or> outcome = OutcomeDuplicate
                     then (WriteHeader 204 (fst wr), snd wr)
                     else if outcome = OutcomeUnknownEndpoint
                     then writeProblem encode (problem_response CodeNotFound ''inbound webhook endpoint is unknown'') wr
                     else if outcome = OutcomeRejected
                     then writeProblem encode (problem_response CodeBadRequest malformedRequestProblemDetail) wr
                     else if outcome = OutcomeConflict
                     then writeProblem encode (problem_response CodeConflict ''inbound webhook delivery conflicts'') wr
                     else writeProblem encode inboundFailureProblem wr, s'))))"

text \<open>The receiver of the PostgreSQL adapter as the handler sees it.\<close>

definition postgres_receiver ::
  "pg \<Rightarrow> accept_env \<Rightarrow> 'j job_insert \<Rightarrow> sw \<Rightarrow> TrustManifest option \<Rightarrow> instant \<Rightarrow> string \<Rightarrow> Delivery \<Rightarrow> 'j inbound_db
   \<Rightarrow> (go_error + outcome) \<times> 'j inbound_db" where
  "postgres_receiver p env insertTx lb trust now receiptID d s =
     (case Receive p env insertTx lb trust now receiptID d s of (res, labels, s') \<Rightarrow> (res, s'))"

lemma catalog_status: "100 \<le> def_Status (ForCodeOrInternal c) \<and> 400 \<le> def_Status (ForCodeOrInternal c)"
  using ForCodeOrInternal_in_catalog [of c] by (auto simp: catalog_def entry_def)

lemma problem_not_204: "rw_status w = None \<Longrightarrow> rw_status (fst (writeProblem encode p (w, r))) \<noteq> Some 204"
  using catalog_status [of "pr_code p"] by (simp add: writeProblem_status)

lemma acknowledged:
  assumes "rw_status w = None" "ReceiveWebhook encode (Some receive) readAll endpointID params (w, r) s = ((w', r'), s')"
    and "rw_status w' = Some 204"
  obtains body outcome where "readAll = Inr body" "outcome = OutcomeAccepted \<or> outcome = OutcomeDuplicate"
    "receive (inbound_delivery endpointID params body) s = (Inr outcome, s')"
proof -
  have no: "writeProblem encode p (w, r) \<noteq> (w', r')" for p
    using problem_not_204 [OF assms(1), of encode p r] assms(3) by (metis fst_conv)
  then have "writeInboundUnavailable encode x (w, r) \<noteq> (w', r')" for x
    by (simp add: writeInboundUnavailable_def)
  then show ?thesis
    using assms(2) no that
    by (auto simp: ReceiveWebhook_def split: sum.splits option.splits prod.splits if_splits)
qed

text \<open>A confirmed outcome of the store, in terms of the ledger.\<close>

lemma confirmed_ledger:
  assumes "honest p (ae_tx env)" "job_laws insertTx queued" "db_ok queued s"
    and "Accept p env insertTx a s = (Inr outcome, s')" "outcome = OutcomeAccepted \<or> outcome = OutcomeDuplicate"
  shows "ledger_of (ib_receipts s') (rr_EndpointID a, rr_DeliveryID a) = Some (rr_BodySHA256 a) \<and> db_ok queued s'"
proof -
  have "accept_tx env insertTx a s = (Inr outcome, s')"
    using assms(1,4) by (cases rule: Accept_cases) auto
  from accept_tx_refines [OF assms(2,3) this] assms(5) show ?thesis
    by (auto simp: ledger_accept_def outcome_defs split: option.splits if_splits)
qed

lemma ledger_row:
  assumes "ledger_of rows (e, d) = Some digest"
  shows "\<exists>r \<in> set rows. r_EndpointID r = e \<and> r_DeliveryID r = d \<and> r_BodySha256 r = digest"
  using assms by (auto simp: ledger_of_def find_Some_iff same_identity_def)

text \<open>What a 204 stands for: an admitted request, and a receipt with its job.\<close>

definition admitted :: "sw \<Rightarrow> TrustManifest option \<Rightarrow> instant \<Rightarrow> Delivery \<Rightarrow> bool" where
  "admitted lb trust now d =
     (validDeliveryID (dl_DeliveryID d)
      \<and> (\<exists>signedAt. parseSignedTimestamp (dl_Timestamp d) = Some signedAt \<and> \<bar>now - signedAt\<bar> \<le> signatureTolerance)
      \<and> (\<exists>secrets key. secretsFor trust (dl_EndpointID d) = Some secrets \<and> key \<in> set (key_list secrets)
           \<and> verifyWith lb key (dl_Body d) (delivery_headers d)))"

definition durable :: "('j \<Rightarrow> string list) \<Rightarrow> Delivery \<Rightarrow> 'j inbound_db \<Rightarrow> bool" where
  "durable queued d s =
     (\<exists>rc \<in> set (ib_receipts s). r_EndpointID rc = dl_EndpointID d \<and> r_DeliveryID rc = dl_DeliveryID d
        \<and> r_BodySha256 rc = sha256 (dl_Body d) \<and> r_ReceiptID rc \<in> set (queued (ib_jobs s)))"

lemma confirmed_receive:
  assumes "honest p (ae_tx env)" "job_laws insertTx queued" "db_ok queued s"
    and "Receive p env insertTx lb trust now receiptID d s = (Inr outcome, labels, s')"
    and "outcome = OutcomeAccepted \<or> outcome = OutcomeDuplicate"
  shows "admitted lb trust now d \<and> durable queued d s'"
proof -
  obtain signedAt where verified: "verify lb trust now d = Some signedAt"
    and accept: "Accept p env insertTx (received_record receiptID signedAt d) s = (Inr outcome, s')"
    using assms(4) by (cases rule: Receive_cases) (use assms(5) in auto)
  note ledger = confirmed_ledger [OF assms(1-3) accept assms(5)]
  then obtain rc where "rc \<in> set (ib_receipts s')" "r_EndpointID rc = dl_EndpointID d" "r_DeliveryID rc = dl_DeliveryID d"
      "r_BodySha256 rc = sha256 (dl_Body d)"
    using ledger_row by (force simp: received_record_def)
  moreover from this(1) ledger have "r_ReceiptID rc \<in> set (queued (ib_jobs s'))" by (simp add: db_ok_def)
  ultimately show ?thesis using verify_meaning [OF verified] unfolding admitted_def durable_def by blast
qed

text \<open>What changes the database: an acceptance, or an error that says the outcome is not known.\<close>

lemma changed_receive:
  assumes "honest p (ae_tx env)" "job_laws insertTx queued" "db_ok queued s"
    and "Receive p env insertTx lb trust now receiptID d s = (res, labels, s')" "s' \<noteq> s"
  shows "res = Inr OutcomeAccepted \<or> res = Inl inbound_ErrUnavailable"
proof (cases "verify lb trust now d")
  case None
  then show ?thesis using assms(4,5) by (auto simp: Receive_def split: if_splits)
next
  case (Some signedAt)
  obtain res1 where accept: "Accept p env insertTx (received_record receiptID signedAt d) s = (res1, s')"
    using assms(4,5) Some by (auto simp: Receive_def split: if_splits prod.splits sum.splits)
  from assms(1) accept show ?thesis
  proof (cases rule: Accept_cases)
    case (confirmed outcome)
    then have "outcome = OutcomeAccepted" using accept_tx_refines [OF assms(2,3) confirmed(2)] assms(5) by metis
    then show ?thesis using assms(4,5) Some accept confirmed(1) by (auto simp: Receive_def split: if_splits)
  next
    case (unknown err outcome)
    then show ?thesis using assms(4,5) Some accept by (auto simp: Receive_def split: if_splits)
  qed (use assms(5) in simp)
qed

text \<open>C38: a sender is acknowledged only for what is durable. When the handler answers 204, the body was read,
  the request was verified under a key of its endpoint with a timestamp at most five minutes
  away, and the database holds a receipt for this endpoint, delivery identifier and body
  digest together with the job that will process it. Any other answer that leaves the database
  changed is 503, which tells the sender to retry.\<close>

theorem acknowledged_webhook_is_durable:
  assumes "rw_status w = None" and "honest p (ae_tx env)" and "job_laws insertTx queued" and "db_ok queued s"
    and "ReceiveWebhook encode (Some (postgres_receiver p env insertTx lb trust now receiptID)) readAll endpointID params (w, r) s
           = ((w', r'), s')"
  shows "(rw_status w' = Some 204 \<longrightarrow>
       (\<exists>body. readAll = Inr body \<and> admitted lb trust now (inbound_delivery endpointID params body)
          \<and> durable queued (inbound_delivery endpointID params body) s'))
    \<and> (s' \<noteq> s \<longrightarrow> rw_status w' = Some 204 \<or> rw_status w' = Some 503)"
proof (intro conjI impI)
  assume "rw_status w' = Some 204"
  with assms(1,5) show "\<exists>body. readAll = Inr body \<and> admitted lb trust now (inbound_delivery endpointID params body)
      \<and> durable queued (inbound_delivery endpointID params body) s'"
    by (rule acknowledged)
      (use confirmed_receive [OF assms(2-4)] in \<open>auto simp: postgres_receiver_def split: prod.splits\<close>)
next
  assume changed: "s' \<noteq> s"
  then obtain body res where body: "readAll = Inr body"
    and received: "postgres_receiver p env insertTx lb trust now receiptID (inbound_delivery endpointID params body) s = (res, s')"
    using assms(5) by (auto simp: ReceiveWebhook_def split: sum.splits prod.splits)
  then obtain labels where "Receive p env insertTx lb trust now receiptID (inbound_delivery endpointID params body) s = (res, labels, s')"
    by (auto simp: postgres_receiver_def split: prod.splits)
  from changed_receive [OF assms(2-4) this changed] show "rw_status w' = Some 204 \<or> rw_status w' = Some 503"
  proof
    assume "res = Inr OutcomeAccepted"
    then show ?thesis using assms(1,5) body received by (auto simp: ReceiveWebhook_def WriteHeader_def)
  next
    assume "res = Inl inbound_ErrUnavailable"
    then have "w' = fst (writeInboundUnavailable encode ''inbound webhook storage is unavailable'' (w, r))"
      using assms(5) body received by (simp add: ReceiveWebhook_def contextFailureProblem_def errors_is_opt_def)
    then show ?thesis using assms(1) by (simp add: writeInboundUnavailable_def writeProblem_status problem_response_def)
  qed
qed

lemma acknowledged_webhook_is_durable_witness:
  "\<exists>w' r' s'. ReceiveWebhook (\<lambda>_. None)
       (Some (postgres_receiver example_pg example_accept_env example_insertTx example_sw (Some example_trust) 0 ''r1''))
       (Inr ''{}'') ''shop'' \<lparr>wp_WebhookId = ''d1'', wp_WebhookTimestamp = ''0'', wp_WebhookSignature = ''good''\<rparr>
       (empty_writer, None) \<lparr>ib_receipts = [], ib_jobs = []\<rparr> = ((w', r'), s')
     \<and> rw_status w' = Some 204 \<and> durable (\<lambda>j. j) example_delivery s'"
proof -
  let ?params = "\<lparr>wp_WebhookId = ''d1'', wp_WebhookTimestamp = ''0'', wp_WebhookSignature = ''good''\<rparr>"
  let ?recv = "postgres_receiver example_pg example_accept_env example_insertTx example_sw (Some example_trust) 0 ''r1''"
  let ?s = "\<lparr>ib_receipts = [], ib_jobs = []\<rparr> :: string list inbound_db"
  have d: "inbound_delivery ''shop'' ?params ''{}'' = example_delivery"
    by (simp add: inbound_delivery_def example_delivery_def)
  have "?recv example_delivery ?s = (Inr OutcomeAccepted, \<lparr>ib_receipts = [example_receipt], ib_jobs = [''r1'']\<rparr>)"
    by (simp add: postgres_receiver_def example_received)
  then have run: "ReceiveWebhook (\<lambda>_. None) (Some ?recv) (Inr ''{}'') ''shop'' ?params (empty_writer, None) ?s =
      ((WriteHeader 204 empty_writer, None), \<lparr>ib_receipts = [example_receipt], ib_jobs = [''r1'']\<rparr>)"
    by (simp add: ReceiveWebhook_def d)
  have st: "rw_status (WriteHeader 204 empty_writer) = Some 204" "rw_status empty_writer = None"
    by (simp_all add: WriteHeader_def empty_writer_def)
  have ok: "db_ok (\<lambda>j. j) ?s" by (simp add: db_ok_def receipts_ok_def)
  have "honest example_pg (ae_tx example_accept_env)" by (simp add: example_accept_env_def example_laws)
  from acknowledged_webhook_is_durable [OF st(2) this example_laws(2) ok run] run st d show ?thesis by auto
qed

end
