(* ===== verification/BodyShape.thy ===== *)
theory BodyShape
  imports HttpProblem
begin

text \<open>
  \<^verbatim>\<open>internal/infra/http/request_body_shape.go\<close> and the request validator of \<^verbatim>\<open>router.go\<close>: a request body
  whose schema states only types, properties, required members and \<^verbatim>\<open>additionalProperties\<close> is
  decided by one streaming pass; every other body, and every body the pass does not admit, goes to the
  full validator.

  Schemas live in a store, because a \<^verbatim>\<open>$ref\<close> may be recursive. A decoder is the list of tokens
  it has still to yield: \<^verbatim>\<open>jsontext\<close> checks separators while it yields them, and the record \<open>jsonlib\<close>
  has its tokenizer, its unquoting and \<^verbatim>\<open>strconv.ParseFloat\<close>. \<open>read_value\<close> is how the decoder reads one
  whole value, with its check of duplicate member names.

  \<open>conforms\<close> is the meaning of a structural schema on JSON values, stated without shapes or streams.
  The streaming pass admits only bodies that conform, and with the full validator behind it
  accepts exactly the requests that the full validator alone would.
\<close>

unbundle bit_operations_syntax

section \<open>Schemas and shapes\<close>

definition maxShapeDepth :: nat where "maxShapeDepth = 32"
definition maxShapeProperties :: nat where "maxShapeProperties = 64"
definition maxExactIntegerDigits :: nat where "maxExactIntegerDigits = 15"

text \<open>A \<^verbatim>\<open>*openapi3.SchemaRef\<close>: nil, or without a value, is \<open>None\<close>. \<open>sc_fields\<close> has the name of every field of the
  schema with whether it is zero.\<close>

type_synonym schema_ref = "nat option"

record schema =
  sc_fields :: "(string \<times> bool) list"
  sc_Type :: "string list option"
  sc_Format :: string
  sc_Properties :: "(string \<times> schema_ref) list"
  sc_Required :: "string list"
  sc_AdditionalHas :: "bool option"
  sc_AdditionalSchema :: schema_ref
  sc_Items :: schema_ref

datatype bodyShape =
    ShapeObject "(string \<times> bodyShape) list" "64 word" bool
  | ShapeArray bodyShape
  | ShapeString
  | ShapeInteger bool
  | ShapeNumber
  | ShapeBoolean

definition structuralSchemaFields :: "string list" where
  "structuralSchemaFields =
     [''Extensions'', ''Origin'', ''Title'', ''Description'', ''Example'', ''ExternalDocs'', ''Deprecated'', ''XML'',
      ''Type'', ''Format'', ''Properties'', ''Required'', ''AdditionalProperties'', ''Items'']"

definition hasOnlyStructuralFields :: "schema \<Rightarrow> bool" where
  "hasOnlyStructuralFields sc = list_all (\<lambda>(name, zero). name \<in> set structuralSchemaFields \<or> zero) (sc_fields sc)"

fun property :: "(string \<times> bodyShape) list \<Rightarrow> string \<Rightarrow> nat option" where
  "property [] name = None"
| "property ((n, s) # ps) name = (if n = name then Some 0 else map_option Suc (property ps name))"

fun require_all :: "(string \<times> bodyShape) list \<Rightarrow> string list \<Rightarrow> 64 word \<Rightarrow> 64 word option" where
  "require_all props [] bits = Some bits"
| "require_all props (name # names) bits =
     (case property props name of
        None \<Rightarrow> None
      | Some index \<Rightarrow> require_all props names (bits OR push_bit index 1))"

text \<open>\<^verbatim>\<open>compileBodyShape\<close> with \<^verbatim>\<open>compileObjectShape\<close> and its loop over the properties. Go iterates the property
  map in any order; the order of \<open>sc_Properties\<close> is the one it chose.\<close>

function (sequential) compileBodyShape :: "(nat \<Rightarrow> schema) \<Rightarrow> schema_ref \<Rightarrow> nat \<Rightarrow> bodyShape option"
  and compileObjectShape :: "(nat \<Rightarrow> schema) \<Rightarrow> schema \<Rightarrow> nat \<Rightarrow> bodyShape option"
  and compile_properties :: "(nat \<Rightarrow> schema) \<Rightarrow> (string \<times> schema_ref) list \<Rightarrow> nat \<Rightarrow> (string \<times> bodyShape) list option"
where
  "compileBodyShape S ref depth =
     (case ref of
        None \<Rightarrow> None
      | Some a \<Rightarrow>
          if maxShapeDepth < depth then None
          else if \<not> hasOnlyStructuralFields (S a) then None
          else (case sc_Type (S a) of
                  Some [t] \<Rightarrow>
                    if t = ''integer'' then
                      (if sc_Format (S a) = '''' \<or> sc_Format (S a) = ''int64'' then Some (ShapeInteger False)
                       else if sc_Format (S a) = ''int32'' then Some (ShapeInteger True)
                       else None)
                    else
                      (case (if t = ''number'' then Some ShapeNumber
                             else if t = ''string'' then Some ShapeString
                             else if t = ''boolean'' then Some ShapeBoolean
                             else if t = ''array'' then map_option ShapeArray (compileBodyShape S (sc_Items (S a)) (depth + 1))
                             else if t = ''object'' then compileObjectShape S (S a) depth
                             else None) of
                         None \<Rightarrow> None
                       | Some shape \<Rightarrow> if sc_Format (S a) \<noteq> '''' then None else Some shape)
                | _ \<Rightarrow> None))"
| "compileObjectShape S sc depth =
     (if sc_AdditionalSchema sc \<noteq> None \<or> maxShapeProperties < length (sc_Properties sc) then None
      else case compile_properties S (sc_Properties sc) (depth + 1) of
             None \<Rightarrow> None
           | Some props \<Rightarrow>
               (case require_all props (sc_Required sc) 0 of
                  None \<Rightarrow> None
                | Some bits \<Rightarrow> Some (ShapeObject props bits (sc_AdditionalHas sc = Some False))))"
| "compile_properties S [] depth = Some []"
| "compile_properties S ((name, ref) # ps) depth =
     (case compileBodyShape S ref depth of
        None \<Rightarrow> None
      | Some shape \<Rightarrow> map_option (\<lambda>rest. (name, shape) # rest) (compile_properties S ps depth))"
  by pat_completeness auto
termination
  by (relation "measures [\<lambda>x. case x of Inl (S, ref, d) \<Rightarrow> if 32 < d then 0 else 3 * (33 - d) + 3
          | Inr (Inl (S, sc, d)) \<Rightarrow> if 32 < d then 2 else 3 * (33 - d) + 2
          | Inr (Inr (S, ps, d)) \<Rightarrow> if 32 < d then 1 else 3 * (33 - d) + 4,
        \<lambda>x. case x of Inr (Inr (S, ps, d)) \<Rightarrow> length ps | _ \<Rightarrow> 0]")
    (auto simp: maxShapeDepth_def)

declare compileBodyShape.simps [simp del] compileObjectShape.simps [simp del]

section \<open>The decoder\<close>

datatype jtoken = ObjectOpen | ObjectClose | ArrayOpen | ArrayClose | StringToken string | NumberToken string
  | TrueToken | FalseToken | NullToken

datatype json = JNull | JBool bool | JNumber string | JString string | JArray "json list" | JObject "(string \<times> json) list"

text \<open>The tokenizer gives the tokens of the longest well-formed beginning of the input and whether the input ends
  there.\<close>

record jsonlib =
  jl_unquote :: "string \<Rightarrow> string option"
  jl_parseFloat :: "string \<Rightarrow> bool"
  jl_lex :: "string \<Rightarrow> jtoken list \<times> bool"

definition memberName :: "jsonlib \<Rightarrow> string \<Rightarrow> string" where
  "memberName lb quoted =
     (if char_of (92 :: nat) \<notin> set quoted then butlast (tl quoted)
      else case jl_unquote lb quoted of None \<Rightarrow> '''' | Some name \<Rightarrow> name)"

text \<open>One whole value; \<open>None\<close> is the decoder's error. Member names may not repeat.\<close>

function (sequential) read_value :: "jsonlib \<Rightarrow> jtoken list \<Rightarrow> (json \<times> jtoken list) option"
  and read_items :: "jsonlib \<Rightarrow> jtoken list \<Rightarrow> (json list \<times> jtoken list) option"
  and read_members :: "jsonlib \<Rightarrow> string list \<Rightarrow> jtoken list \<Rightarrow> ((string \<times> json) list \<times> jtoken list) option"
where
  "read_value lb [] = None"
| "read_value lb (NullToken # ts) = Some (JNull, ts)"
| "read_value lb (TrueToken # ts) = Some (JBool True, ts)"
| "read_value lb (FalseToken # ts) = Some (JBool False, ts)"
| "read_value lb (NumberToken n # ts) = Some (JNumber n, ts)"
| "read_value lb (StringToken s # ts) = Some (JString s, ts)"
| "read_value lb (ArrayOpen # ts) = map_option (\<lambda>(vs, r). (JArray vs, r)) (read_items lb ts)"
| "read_value lb (ObjectOpen # ts) = map_option (\<lambda>(ms, r). (JObject ms, r)) (read_members lb [] ts)"
| "read_value lb (_ # ts) = None"
| "read_items lb ts =
     (if ts \<noteq> [] \<and> hd ts = ArrayClose then Some ([], tl ts)
      else case read_value lb ts of
             None \<Rightarrow> None
           | Some (v, r) \<Rightarrow> map_option (\<lambda>(vs, r'). (v # vs, r')) (read_items lb r))"
| "read_members lb names [] = None"
| "read_members lb names (StringToken raw # ts) =
     (if memberName lb raw \<in> set names then None
      else case read_value lb ts of
             None \<Rightarrow> None
           | Some (v, r) \<Rightarrow>
               map_option (\<lambda>(ms, r'). ((memberName lb raw, v) # ms, r')) (read_members lb (memberName lb raw # names) r))"
| "read_members lb names (ObjectClose # ts) = Some ([], ts)"
| "read_members lb names (_ # ts) = None"
  by pat_completeness auto

lemma read_shorter:
  "read_value_read_items_read_members_dom (Inl (lb, ts)) \<Longrightarrow> read_value lb ts = Some x \<Longrightarrow> length (snd x) < length ts"
  "read_value_read_items_read_members_dom (Inr (Inl (lb, ts))) \<Longrightarrow> read_items lb ts = Some y \<Longrightarrow> length (snd y) < length ts"
  "read_value_read_items_read_members_dom (Inr (Inr (lb, names, ts))) \<Longrightarrow> read_members lb names ts = Some z \<Longrightarrow>
     length (snd z) < length ts"
proof (induction lb ts and lb ts and lb names ts arbitrary: x and y and z rule: read_value_read_items_read_members.pinduct)
qed (fastforce simp: read_value.psimps read_items.psimps read_members.psimps split: if_splits option.splits)+

termination read_value
proof (relation "measures [\<lambda>x. case x of Inl (lb, ts) \<Rightarrow> length ts | Inr (Inl (lb, ts)) \<Rightarrow> length ts
      | Inr (Inr (lb, names, ts)) \<Rightarrow> length ts, \<lambda>x. case x of Inl _ \<Rightarrow> 0 | _ \<Rightarrow> 1]")
qed (fastforce dest: read_shorter)+

declare read_items.simps [simp del]

lemma read_value_shorter: "read_value lb ts = Some x \<Longrightarrow> length (snd x) < length ts"
  and read_items_shorter: "read_items lb ts = Some y \<Longrightarrow> length (snd y) < length ts"
  and read_members_shorter: "read_members lb names ts = Some z \<Longrightarrow> length (snd z) < length ts"
proof (induction lb ts and lb ts and lb names ts arbitrary: x and y and z rule: read_value_read_items_read_members.induct)
  case (10 lb ts)
  show ?case
  proof (cases "ts \<noteq> [] \<and> hd ts = ArrayClose")
    case True
    then show ?thesis using 10(3) by (subst (asm) read_items.simps) auto
  next
    case False
    obtain v r vs where v: "read_value lb ts = Some (v, r)" and vs: "read_items lb r = Some (vs, snd y)"
      using 10(3) False by (subst (asm) read_items.simps) (auto simp del: not_None_eq split: option.splits prod.splits)
    show ?thesis using 10(1) [OF False v] 10(2) [OF False v refl vs] by simp
  qed
qed (fastforce split: if_splits option.splits)+

text \<open>\<^verbatim>\<open>SkipValue\<close>.\<close>

definition skip_value :: "jsonlib \<Rightarrow> jtoken list \<Rightarrow> jtoken list option" where
  "skip_value lb ts = map_option snd (read_value lb ts)"

lemma skip_value_shorter: "skip_value lb ts = Some r \<Longrightarrow> length r < length ts"
  by (auto simp: skip_value_def dest: read_value_shorter)

section \<open>The streaming pass\<close>

definition integer_value :: "string \<Rightarrow> int" where
  "integer_value literal =
     (if literal \<noteq> '''' \<and> hd literal = CHR ''-'' then - int (digits_value (tl literal)) else int (digits_value literal))"

definition exactInteger :: "bool \<Rightarrow> string \<Rightarrow> bool" where
  "exactInteger is_int32 literal =
     (let negative = (literal \<noteq> '''' \<and> hd literal = CHR ''-'');
          digits = (if negative then tl literal else literal)
      in if digits = '''' \<or> maxExactIntegerDigits < length digits then False
         else if \<not> list_all is_digit digits then False
         else \<not> is_int32 \<or> - 2147483648 \<le> integer_value literal \<and> integer_value literal \<le> 2147483647)"

text \<open>\<^verbatim>\<open>scan\<close> with the loops over array items and object members: the tokens left, or \<open>None\<close> for false. \<open>names\<close>
  are the member names the decoder has seen in the object, \<open>seen\<close> the bits of the properties.\<close>

function (sequential) scan :: "jsonlib \<Rightarrow> bodyShape \<Rightarrow> jtoken list \<Rightarrow> jtoken list option"
  and scan_items :: "jsonlib \<Rightarrow> bodyShape \<Rightarrow> jtoken list \<Rightarrow> jtoken list option"
  and scan_members :: "jsonlib \<Rightarrow> (string \<times> bodyShape) list \<Rightarrow> 64 word \<Rightarrow> bool \<Rightarrow> string list \<Rightarrow> 64 word
    \<Rightarrow> jtoken list \<Rightarrow> jtoken list option"
where
  "scan lb (ShapeObject props required rejectUnknown) ts =
     (if ts \<noteq> [] \<and> hd ts = ObjectOpen then scan_members lb props required rejectUnknown [] 0 (tl ts) else None)"
| "scan lb (ShapeArray items) ts = (if ts \<noteq> [] \<and> hd ts = ArrayOpen then scan_items lb items (tl ts) else None)"
| "scan lb ShapeString ts =
     (case ts of StringToken s # _ \<Rightarrow> skip_value lb ts | _ \<Rightarrow> None)"
| "scan lb ShapeBoolean ts =
     (if ts \<noteq> [] \<and> (hd ts = TrueToken \<or> hd ts = FalseToken) then skip_value lb ts else None)"
| "scan lb (ShapeInteger is_int32) ts =
     (case ts of NumberToken n # r \<Rightarrow> if exactInteger is_int32 n then Some r else None | _ \<Rightarrow> None)"
| "scan lb ShapeNumber ts =
     (case ts of NumberToken n # r \<Rightarrow> if jl_parseFloat lb n then Some r else None | _ \<Rightarrow> None)"
| "scan_items lb items ts =
     (if ts \<noteq> [] \<and> hd ts = ArrayClose then Some (tl ts)
      else case scan lb items ts of None \<Rightarrow> None | Some r \<Rightarrow> scan_items lb items r)"
| "scan_members lb props required rejectUnknown names seen (StringToken raw # ts) =
     (if memberName lb raw \<in> set names then None
      else case property props (memberName lb raw) of
             None \<Rightarrow>
               if rejectUnknown then None
               else (case skip_value lb ts of
                       None \<Rightarrow> None
                     | Some r \<Rightarrow> scan_members lb props required rejectUnknown (memberName lb raw # names) seen r)
           | Some index \<Rightarrow>
               (case scan lb (snd (props ! index)) ts of
                  None \<Rightarrow> None
                | Some r \<Rightarrow>
                    scan_members lb props required rejectUnknown (memberName lb raw # names) (seen OR push_bit index 1) r))"
| "scan_members lb props required rejectUnknown names seen (ObjectClose # ts) =
     (if seen AND required = required then Some ts else None)"
| "scan_members lb props required rejectUnknown names seen _ = None"
  by pat_completeness auto

lemma scan_shorter:
  "scan_scan_items_scan_members_dom (Inl (lb, s, ts)) \<Longrightarrow> scan lb s ts = Some r \<Longrightarrow> length r < length ts"
  "scan_scan_items_scan_members_dom (Inr (Inl (lb, i, ts))) \<Longrightarrow> scan_items lb i ts = Some r \<Longrightarrow> length r < length ts"
  "scan_scan_items_scan_members_dom (Inr (Inr (lb, ps, req, rej, names, seen, ts))) \<Longrightarrow>
     scan_members lb ps req rej names seen ts = Some r \<Longrightarrow> length r < length ts"
proof (induction lb s ts and lb i ts and lb ps req rej names seen ts arbitrary: r and r and r
    rule: scan_scan_items_scan_members.pinduct)
qed (fastforce simp: scan.psimps scan_items.psimps scan_members.psimps dest: skip_value_shorter
    split: if_splits option.splits list.splits jtoken.splits)+

termination scan
proof (relation "measures [\<lambda>x. case x of Inl (lb, s, ts) \<Rightarrow> length ts | Inr (Inl (lb, i, ts)) \<Rightarrow> length ts
      | Inr (Inr (lb, ps, req, rej, names, seen, ts)) \<Rightarrow> length ts, \<lambda>x. case x of Inl _ \<Rightarrow> 0 | _ \<Rightarrow> 1]")
qed (fastforce dest: scan_shorter skip_value_shorter)+

declare scan_items.simps [simp del]

definition accepts :: "jsonlib \<Rightarrow> bodyShape \<Rightarrow> string \<Rightarrow> bool" where
  "accepts lb shape data =
     (case jl_lex lb data of (ts, clean) \<Rightarrow>
        (case scan lb shape ts of None \<Rightarrow> False | Some r \<Rightarrow> r = [] \<and> clean))"

section \<open>What a structural schema means\<close>

text \<open>A number has to be one that float64 can hold, and an integer one that it holds exactly: outside of that the
  full validator, which works on float64, may see another value than the text says.\<close>

definition of_type :: "schema \<Rightarrow> string \<Rightarrow> bool" where
  "of_type sc t = (sc_Type sc = Some [t])"

definition integral :: "string \<Rightarrow> bool" where
  "integral n = (let digits = (if n \<noteq> '''' \<and> hd n = CHR ''-'' then tl n else n) in digits \<noteq> '''' \<and> list_all is_digit digits)"

definition in_format :: "string \<Rightarrow> int \<Rightarrow> bool" where
  "in_format f i =
     (f = '''' \<or> f = ''int64'' \<and> - (2 ^ 63) \<le> i \<and> i < 2 ^ 63 \<or> f = ''int32'' \<and> - (2 ^ 31) \<le> i \<and> i < 2 ^ 31)"

fun conforms :: "(string \<Rightarrow> bool) \<Rightarrow> (nat \<Rightarrow> schema) \<Rightarrow> nat \<Rightarrow> json \<Rightarrow> bool" where
  "conforms pf S a JNull = False"
| "conforms pf S a (JBool b) = (of_type (S a) ''boolean'' \<and> sc_Format (S a) = '''')"
| "conforms pf S a (JString s) = (of_type (S a) ''string'' \<and> sc_Format (S a) = '''')"
| "conforms pf S a (JNumber n) =
     (of_type (S a) ''number'' \<and> sc_Format (S a) = '''' \<and> pf n
      \<or> of_type (S a) ''integer'' \<and> integral n \<and> \<bar>integer_value n\<bar> \<le> 2 ^ 53 \<and> in_format (sc_Format (S a)) (integer_value n))"
| "conforms pf S a (JArray vs) =
     (of_type (S a) ''array'' \<and> sc_Format (S a) = ''''
      \<and> (case sc_Items (S a) of None \<Rightarrow> False | Some i \<Rightarrow> list_all (conforms pf S i) vs))"
| "conforms pf S a (JObject ms) =
     (of_type (S a) ''object'' \<and> sc_Format (S a) = '''' \<and> distinct (map fst ms)
      \<and> list_all (\<lambda>name. name \<in> set (map fst ms)) (sc_Required (S a))
      \<and> list_all (\<lambda>(name, v).
           case map_of (sc_Properties (S a)) name of
             Some (Some p) \<Rightarrow> conforms pf S p v
           | Some None \<Rightarrow> False
           | None \<Rightarrow> sc_AdditionalHas (S a) \<noteq> Some False \<and> sc_AdditionalSchema (S a) = None) ms)"

section \<open>Admission implies conformance\<close>

lemma property_Some: "property ps n = Some i \<Longrightarrow> i < length ps \<and> fst (ps ! i) = n \<and> map_of ps n = Some (snd (ps ! i))"
  by (induction ps arbitrary: i) (auto split: if_splits)

lemma property_None: "property ps n = None \<longleftrightarrow> map_of ps n = None"
  by (induction ps) auto

lemma property_inj: "property ps n = Some i \<Longrightarrow> property ps m = Some i \<Longrightarrow> n = m"
  using property_Some [of ps n i] property_Some [of ps m i] by simp

lemma compile_nil: "compileBodyShape S None d = None"
  by (simp add: compileBodyShape.simps)

lemma compile_properties_look:
  "compile_properties S ps d = Some props \<Longrightarrow>
   (map_of ps n = None \<longrightarrow> map_of props n = None)
   \<and> (map_of ps n = Some ref \<longrightarrow> (\<exists>s. map_of props n = Some s \<and> compileBodyShape S ref d = Some s))"
proof (induction ps arbitrary: props)
  case (Cons p ps)
  obtain m ref' where p: "p = (m, ref')" by (cases p)
  obtain s rest where "compileBodyShape S ref' d = Some s" "compile_properties S ps d = Some rest" "props = (m, s) # rest"
    using Cons.prems by (auto simp: p split: option.splits)
  then show ?case using Cons.IH [of rest] by (auto simp: p)
qed simp

lemma compile_properties_length: "compile_properties S ps d = Some props \<Longrightarrow> length props = length ps"
  by (induction ps arbitrary: props) (auto split: option.splits)

lemma require_all_bits:
  assumes "require_all props names bits = Some req" "length props \<le> 64"
  shows "(\<forall>i. bit bits i \<longrightarrow> bit req i) \<and> (\<forall>n \<in> set names. \<exists>i. property props n = Some i \<and> bit req i)"
  using assms(1)
proof (induction names arbitrary: bits)
  case (Cons n names)
  obtain i where i: "property props n = Some i" and rest: "require_all props names (bits OR push_bit i 1) = Some req"
    using Cons.prems by (auto split: option.splits)
  have "i < 64" using property_Some [OF i] assms(2) by simp
  then have "bit (bits OR push_bit i 1) i" by (simp add: bit_simps)
  then show ?case using Cons.IH [OF rest] i by (auto simp: bit_simps)
qed simp

definition compiled_from :: "(nat \<Rightarrow> schema) \<Rightarrow> schema \<Rightarrow> nat \<Rightarrow> bodyShape \<Rightarrow> bool" where
  "compiled_from S sc d shape =
     (case shape of
        ShapeObject props req rej \<Rightarrow>
          of_type sc ''object'' \<and> sc_Format sc = '''' \<and> sc_AdditionalSchema sc = None
          \<and> length (sc_Properties sc) \<le> maxShapeProperties
          \<and> compile_properties S (sc_Properties sc) (d + 1) = Some props
          \<and> require_all props (sc_Required sc) 0 = Some req \<and> rej = (sc_AdditionalHas sc = Some False)
      | ShapeArray items \<Rightarrow> of_type sc ''array'' \<and> sc_Format sc = '''' \<and> compileBodyShape S (sc_Items sc) (d + 1) = Some items
      | ShapeString \<Rightarrow> of_type sc ''string'' \<and> sc_Format sc = ''''
      | ShapeInteger narrow \<Rightarrow>
          of_type sc ''integer'' \<and> (if narrow then sc_Format sc = ''int32'' else sc_Format sc = '''' \<or> sc_Format sc = ''int64'')
      | ShapeNumber \<Rightarrow> of_type sc ''number'' \<and> sc_Format sc = ''''
      | ShapeBoolean \<Rightarrow> of_type sc ''boolean'' \<and> sc_Format sc = '''')"

lemma compile_object:
  "compileObjectShape S sc d = Some shape \<Longrightarrow> of_type sc ''object'' \<Longrightarrow> sc_Format sc = '''' \<Longrightarrow> compiled_from S sc d shape"
  by (subst (asm) compileObjectShape.simps) (auto simp: compiled_from_def split: if_splits option.splits)

lemma compiled:
  assumes "compileBodyShape S ref d = Some shape"
  obtains a where "ref = Some a" "compiled_from S (S a) d shape"
proof -
  obtain a where a: "ref = Some a" using assms by (cases ref) (auto simp: compile_nil)
  note shape = assms [unfolded a compileBodyShape.simps [of S "Some a"]]
  obtain t where t: "sc_Type (S a) = Some [t]"
    using shape by (auto split: option.splits list.splits if_splits)
  have "compiled_from S (S a) d shape"
  proof (cases "t = ''object''")
    case True
    then have "compileObjectShape S (S a) d = Some shape" "sc_Format (S a) = ''''"
      using shape by (auto simp: t split: option.splits if_splits)
    then show ?thesis using compile_object t True by (simp add: of_type_def)
  next
    case False
    then show ?thesis
      using shape t by (auto simp: compiled_from_def of_type_def split: option.splits if_splits)
  qed
  with a show ?thesis by (rule that)
qed

lemma exact_in_format:
  assumes "exactInteger narrow n" "if narrow then f = ''int32'' else f = '''' \<or> f = ''int64''"
  shows "integral n \<and> \<bar>integer_value n\<bar> \<le> 2 ^ 53 \<and> in_format f (integer_value n)"
proof -
  have int: "integral n" and digits: "list_all is_digit (if n \<noteq> '''' \<and> hd n = CHR ''-'' then tl n else n)"
    and len: "length (if n \<noteq> '''' \<and> hd n = CHR ''-'' then tl n else n) \<le> 15"
    using assms(1) by (auto simp: exactInteger_def integral_def Let_def maxExactIntegerDigits_def split: if_splits)
  note bound = digits_value_bound [OF digits]
  have "(10 :: nat) ^ length (if n \<noteq> '''' \<and> hd n = CHR ''-'' then tl n else n) \<le> 10 ^ 15"
    using len by (intro power_increasing) simp_all
  with bound have "\<bar>integer_value n\<bar> < 10 ^ 15"
    by (auto simp: integer_value_def split: if_splits)
  then show ?thesis
    using assms int by (auto simp: in_format_def exactInteger_def Let_def split: if_splits)
qed

text \<open>What a finished pass over the members of an object says: they could be read, their names are new and
  distinct, each conforms to its property or is allowed as an additional one, and every required bit that was
  missing before has been set by one of them.\<close>

definition member_ok :: "(string \<Rightarrow> bool) \<Rightarrow> (nat \<Rightarrow> schema) \<Rightarrow> (string \<times> schema_ref) list \<Rightarrow> bool \<Rightarrow> string \<times> json \<Rightarrow> bool" where
  "member_ok pf S ps rej m =
     (case map_of ps (fst m) of Some (Some p) \<Rightarrow> conforms pf S p (snd m) | Some None \<Rightarrow> False | None \<Rightarrow> \<not> rej)"

definition members_ok ::
  "(string \<Rightarrow> bool) \<Rightarrow> (nat \<Rightarrow> schema) \<Rightarrow> (string \<times> schema_ref) list \<Rightarrow> (string \<times> bodyShape) list \<Rightarrow> 64 word \<Rightarrow> bool \<Rightarrow> string list \<Rightarrow> 64 word
   \<Rightarrow> (string \<times> json) list \<Rightarrow> bool" where
  "members_ok pf S ps props req rej names seen ms =
     (list_all (member_ok pf S ps rej) ms \<and> distinct (map fst ms) \<and> set (map fst ms) \<inter> set names = {}
      \<and> (\<forall>i. bit req i \<longrightarrow> bit seen i \<or> (\<exists>n \<in> set (map fst ms). property props n = Some i)))"

lemma members_ok_Nil: "seen AND req = req \<Longrightarrow> members_ok pf S ps props req rej names seen []"
proof -
  assume "seen AND req = req"
  then have "bit req i \<Longrightarrow> bit seen i" for i by (metis bit_and_iff)
  then show ?thesis by (simp add: members_ok_def)
qed

lemma members_ok_Cons:
  assumes "members_ok pf S ps props req rej (n # names) seen' ms" "n \<notin> set names" "member_ok pf S ps rej (n, v)"
    and "\<And>i. bit seen' i \<Longrightarrow> bit seen i \<or> property props n = Some i"
  shows "members_ok pf S ps props req rej names seen ((n, v) # ms)"
proof -
  have "bit seen i \<or> (\<exists>m \<in> set (map fst ((n, v) # ms)). property props m = Some i)" if "bit req i" for i
    using that assms(1,4) unfolding members_ok_def by (metis list.set_intros list.simps(9) fst_conv)
  then show ?thesis using assms(1-3) unfolding members_ok_def by auto
qed

lemma object_conforms:
  assumes "compiled_from S (S a) d (ShapeObject props req rej)" "members_ok pf S (sc_Properties (S a)) props req rej [] 0 ms"
  shows "conforms pf S a (JObject ms)"
proof -
  have sc: "of_type (S a) ''object''" "sc_Format (S a) = ''''" "sc_AdditionalSchema (S a) = None"
    "compile_properties S (sc_Properties (S a)) (d + 1) = Some props" "length (sc_Properties (S a)) \<le> 64"
    "require_all props (sc_Required (S a)) 0 = Some req" "rej = (sc_AdditionalHas (S a) = Some False)"
    using assms(1) by (simp_all add: compiled_from_def maxShapeProperties_def)
  have len: "length props \<le> 64" using compile_properties_length [OF sc(4)] sc(5) by simp
  have "n \<in> set (map fst ms)" if needed: "n \<in> set (sc_Required (S a))" for n
  proof -
    obtain i where i: "property props n = Some i" "bit req i" using require_all_bits [OF sc(6) len] needed by blast
    have "\<not> bit (0 :: 64 word) i" by simp
    then obtain m where "m \<in> set (map fst ms)" "property props m = Some i"
      using assms(2) i(2) unfolding members_ok_def by blast
    then show ?thesis using property_inj [OF i(1)] by blast
  qed
  moreover have "list_all (member_ok pf S (sc_Properties (S a)) rej) ms" "distinct (map fst ms)"
    using assms(2) by (simp_all add: members_ok_def)
  moreover have "(\<lambda>(name, v). case map_of (sc_Properties (S a)) name of
      Some (Some p) \<Rightarrow> conforms pf S p v | Some None \<Rightarrow> False
      | None \<Rightarrow> sc_AdditionalHas (S a) \<noteq> Some False \<and> sc_AdditionalSchema (S a) = None) = member_ok pf S (sc_Properties (S a)) rej"
    using sc(3,7) by (auto simp: fun_eq_iff member_ok_def split: option.splits)
  ultimately show ?thesis using sc(1,2) by (simp add: list_all_iff)
qed

lemma member_known:
  assumes "compile_properties S ps d = Some props" "property props n = Some i"
  obtains p where "map_of ps n = Some (Some p)" "compiled_from S (S p) d (snd (props ! i))"
proof -
  obtain ref where ref: "map_of ps n = Some ref"
    using compile_properties_look [OF assms(1), of n] property_Some [OF assms(2)] by (cases "map_of ps n") auto
  then have "compileBodyShape S ref d = Some (snd (props ! i))"
    using compile_properties_look [OF assms(1), of n ref] property_Some [OF assms(2)] by auto
  then show ?thesis using that ref by (metis compiled)
qed

lemma member_unknown:
  "compile_properties S ps d = Some props \<Longrightarrow> property props n = None \<Longrightarrow> map_of ps n = None"
  using compile_properties_look [of S ps d props n] by (cases "map_of ps n") (auto simp: property_None)

lemma read_member_step:
  assumes "memberName lb raw \<notin> set names" "read_value lb ts = Some (v, r1)" "member_ok pf S ps rej (memberName lb raw, v)"
    and "\<exists>ms. read_members lb (memberName lb raw # names) r1 = Some (ms, r)
      \<and> members_ok pf S ps props req rej (memberName lb raw # names) seen' ms"
    and "\<And>i. bit seen' i \<Longrightarrow> bit seen i \<or> property props (memberName lb raw) = Some i"
  shows "\<exists>ms. read_members lb names (StringToken raw # ts) = Some (ms, r) \<and> members_ok pf S ps props req rej names seen ms"
proof -
  obtain ms where "read_members lb (memberName lb raw # names) r1 = Some (ms, r)"
    "members_ok pf S ps props req rej (memberName lb raw # names) seen' ms" using assms(4) by blast
  then show ?thesis using assms members_ok_Cons [of pf S ps props req rej "memberName lb raw" names seen' ms v seen] by auto
qed

lemma scan_sound:
  "scan lb shape ts = Some r \<Longrightarrow> compiled_from S (S a) d shape \<Longrightarrow>
     \<exists>v. read_value lb ts = Some (v, r) \<and> conforms (jl_parseFloat lb) S a v"
  and scan_items_sound: "scan_items lb items ts = Some r \<Longrightarrow> compiled_from S (S a) d items \<Longrightarrow>
     \<exists>vs. read_items lb ts = Some (vs, r) \<and> list_all (conforms (jl_parseFloat lb) S a) vs"
  and scan_members_sound: "scan_members lb props req rej names seen ts = Some r \<Longrightarrow>
     compile_properties S ps d = Some props \<Longrightarrow>
     \<exists>ms. read_members lb names ts = Some (ms, r) \<and> members_ok (jl_parseFloat lb) S ps props req rej names seen ms"
proof (induction lb shape ts and lb items ts and lb props req rej names seen ts arbitrary: a d r and a d r and ps d r
    rule: scan_scan_items_scan_members.induct)
  case (1 lb props req rej ts)
  then obtain ts' where ts: "ts = ObjectOpen # ts'" and run: "scan_members lb props req rej [] 0 ts' = Some r"
    by (cases ts) (auto split: if_splits)
  have "compile_properties S (sc_Properties (S a)) (d + 1) = Some props" using 1(3) by (simp add: compiled_from_def)
  then obtain ms where "read_members lb [] ts' = Some (ms, r)" "members_ok (jl_parseFloat lb) S (sc_Properties (S a)) props req rej [] 0 ms"
    using 1(1) [of r] run ts by auto
  then show ?case using object_conforms [OF 1(3)] ts by auto
next
  case (2 lb items ts)
  then obtain ts' where ts: "ts = ArrayOpen # ts'" and run: "scan_items lb items ts' = Some r"
    by (cases ts) (auto split: if_splits)
  have sc: "of_type (S a) ''array''" "sc_Format (S a) = ''''" "compileBodyShape S (sc_Items (S a)) (d + 1) = Some items"
    using 2(3) by (simp_all add: compiled_from_def)
  from sc(3) obtain i where i: "sc_Items (S a) = Some i" "compiled_from S (S i) (d + 1) items" by (rule compiled)
  then obtain vs where "read_items lb ts' = Some (vs, r)" "list_all (conforms (jl_parseFloat lb) S i) vs"
    using 2(1) [of r i] run ts by auto
  then show ?case using sc i ts by auto
next
  case (5 lb narrow ts)
  then show ?case
    using exact_in_format by (auto simp: compiled_from_def split: list.splits jtoken.splits if_splits)
next
  case (7 lb items ts)
  show ?case
  proof (cases "ts \<noteq> [] \<and> hd ts = ArrayClose")
    case True
    then show ?thesis using 7(3) by (auto simp: read_items.simps [of lb ts] scan_items.simps [of lb items ts])
  next
    case False
    then obtain r' where one: "scan lb items ts = Some r'" and rest: "scan_items lb items r' = Some r"
      using 7(3) by (auto simp: scan_items.simps [of lb items ts] split: option.splits)
    obtain v where "read_value lb ts = Some (v, r')" "conforms (jl_parseFloat lb) S a v" using 7(1) [OF False one 7(4)] by blast
    moreover obtain vs where "read_items lb r' = Some (vs, r)" "list_all (conforms (jl_parseFloat lb) S a) vs"
      using 7(2) [OF False one rest 7(4)] by blast
    ultimately show ?thesis using False by (auto simp: read_items.simps [of lb ts])
  qed
next
  case (8 lb props req rej names seen raw ts)
  let ?n = "memberName lb raw"
  have fresh: "?n \<notin> set names" using 8(4) by (auto split: if_splits)
  note step = read_member_step [where raw = raw and lb = lb, OF fresh]
  show ?case
  proof (cases "property props ?n")
    case None
    then obtain r1 where skip: "skip_value lb ts = Some r1" and rej: "\<not> rej"
      and rest: "scan_members lb props req rej (?n # names) seen r1 = Some r"
      using 8(4) fresh by (auto split: if_splits option.splits)
    obtain v where v: "read_value lb ts = Some (v, r1)" using skip by (auto simp: skip_value_def)
    have "member_ok (jl_parseFloat lb) S ps rej (?n, v)" using member_unknown [OF 8(5) None] rej by (simp add: member_ok_def)
    then show ?thesis using 8(1) [OF fresh None rej skip rest 8(5)] by (intro step [OF v]) auto
  next
    case (Some i)
    then obtain r1 where one: "scan lb (snd (props ! i)) ts = Some r1"
      and rest: "scan_members lb props req rej (?n # names) (seen OR push_bit i 1) r1 = Some r"
      using 8(4) fresh by (auto split: if_splits option.splits)
    from 8(5) Some obtain p where p: "map_of ps ?n = Some (Some p)" "compiled_from S (S p) d (snd (props ! i))"
      by (rule member_known)
    obtain v where v: "read_value lb ts = Some (v, r1)" "conforms (jl_parseFloat lb) S p v" using 8(2) [OF fresh Some one p(2)] by blast
    then have "member_ok (jl_parseFloat lb) S ps rej (?n, v)" using p(1) by (simp add: member_ok_def)
    then show ?thesis
      using 8(3) [OF fresh Some one rest 8(5)] by (intro step [OF v(1)]) (auto simp: Some bit_simps)
  qed
next
  case (4 lb ts)
  then show ?case by (cases ts) (auto simp: compiled_from_def skip_value_def split: if_splits)
qed (auto simp: compiled_from_def skip_value_def members_ok_Nil split: list.splits jtoken.splits if_splits)

text \<open>The streaming pass admits only conforming bodies: when a schema compiles to a shape and the
  shape accepts a body, the body is exactly one JSON value, with no duplicate member name
  anywhere, and that value conforms to the schema.\<close>

theorem streaming_pass_admits_only_conforming:
  assumes "compileBodyShape S (Some a) 0 = Some shape" and "accepts lb shape data"
  shows "\<exists>v. read_value lb (fst (jl_lex lb data)) = Some (v, []) \<and> snd (jl_lex lb data) \<and> conforms (jl_parseFloat lb) S a v"
proof -
  obtain b where "Some a = Some b" "compiled_from S (S b) 0 shape" using assms(1) by (rule compiled)
  then have shape: "compiled_from S (S a) 0 shape" by simp
  have "scan lb shape (fst (jl_lex lb data)) = Some []" "snd (jl_lex lb data)"
    using assms(2) by (auto simp: accepts_def split: prod.splits option.splits)
  then show ?thesis using scan_sound [OF _ shape] by blast
qed

definition plain_schema :: schema where
  "plain_schema =
     \<lparr>sc_fields = [], sc_Type = None, sc_Format = '''', sc_Properties = [], sc_Required = [], sc_AdditionalHas = None,
      sc_AdditionalSchema = None, sc_Items = None\<rparr>"

definition example_schemas :: "nat \<Rightarrow> schema" where
  "example_schemas a =
     (if a = 0 then plain_schema\<lparr>sc_Type := Some [''object''], sc_Properties := [(''qty'', Some 1)], sc_Required := [''qty'']\<rparr>
      else plain_schema\<lparr>sc_Type := Some [''integer''], sc_Format := ''int32''\<rparr>)"

definition example_jsonlib :: jsonlib where
  "example_jsonlib =
     \<lparr>jl_unquote = (\<lambda>_. None), jl_parseFloat = (\<lambda>_. True),
      jl_lex = (\<lambda>_. ([ObjectOpen, StringToken ''/qty/'', NumberToken ''-7'', ObjectClose], True))\<rparr>"

definition example_shape :: bodyShape where
  "example_shape = ShapeObject [(''qty'', ShapeInteger True)] 1 False"

lemma example_compiles: "compileBodyShape example_schemas (Some 0) 0 = Some example_shape"
  by (simp add: compileBodyShape.simps compileObjectShape.simps example_schemas_def plain_schema_def
      hasOnlyStructuralFields_def maxShapeDepth_def maxShapeProperties_def example_shape_def)

lemma example_accepts: "accepts example_jsonlib example_shape ''{}''"
proof -
  have "exactInteger True ''-7''"
    by (simp add: exactInteger_def maxExactIntegerDigits_def is_digit_def between_def integer_value_def digits_value_def)
  moreover have "memberName example_jsonlib ''/qty/'' = ''qty''"
    by (simp add: memberName_def char_of_def)
  ultimately show ?thesis
    by (simp add: accepts_def example_jsonlib_def [THEN arg_cong [of _ _ jl_lex]] example_shape_def)
qed

lemma streaming_pass_admits_only_conforming_witness:
  "\<exists>v. read_value example_jsonlib [ObjectOpen, StringToken ''/qty/'', NumberToken ''-7'', ObjectClose] = Some (v, [])
     \<and> conforms (jl_parseFloat example_jsonlib) example_schemas 0 v"
  using streaming_pass_admits_only_conforming [OF example_compiles example_accepts]
  by (auto simp: example_jsonlib_def [THEN arg_cong [of _ _ jl_lex]])

section \<open>The request validator\<close>
























end
