(* ===== verification/KeyedLimiter.thy ===== *)
theory KeyedLimiter
  imports HttpProblem
begin

text \<open>
  \<^verbatim>\<open>internal/infra/http/ratelimit_keyed.go\<close>: one token bucket per caller, in two bounded generations.
  The buckets are the limiters of \<^verbatim>\<open>golang.org/x/time/rate\<close>; the record \<open>rate_lib\<close> has the operations the code
  calls, on a bucket of any type. Limiters are pointers, so a bucket lives in a heap and both
  generations map keys to addresses. The mutex makes \<^verbatim>\<open>Allow\<close> one step.

  The two theorems: at most two generations of keys are ever tracked, and as long as no more than
  \<^verbatim>\<open>maxKeys\<close> other callers come between two of its requests a caller is answered as if it
  had a bucket of its own.
\<close>

section \<open>The limiter\<close>

text \<open>A float64: a mantissa and a binary exponent, an infinity with its sign, or not a number.\<close>

datatype float64 = Float int int | Inf bool | NaN

definition positive :: "float64 \<Rightarrow> bool" where
  "positive x = (case x of Float mantissa e \<Rightarrow> 0 < mantissa | Inf pos \<Rightarrow> pos | NaN \<Rightarrow> False)"

text \<open>A reservation is whether it is OK, its delay at the moment it was made, and what \<^verbatim>\<open>Cancel\<close> needs.\<close>

record ('b, 'r) rate_lib =
  rl_NewLimiter :: "float64 \<Rightarrow> int \<Rightarrow> 'b"
  rl_Reserve :: "instant \<Rightarrow> 'b \<Rightarrow> 'r \<times> 'b"
  rl_OK :: "'r \<Rightarrow> bool"
  rl_Delay :: "instant \<Rightarrow> 'r \<Rightarrow> duration"
  rl_Cancel :: "instant \<Rightarrow> 'r \<Rightarrow> 'b \<Rightarrow> 'b"

type_synonym generation = "(string \<times> nat) list"

record 'b KeyedRateLimiter =
  kl_limit :: float64
  kl_burst :: int
  kl_maxKeys :: nat
  kl_current :: generation
  kl_previous :: generation
  kl_heap :: "nat \<Rightarrow> 'b"
  kl_next :: nat

definition defaultRateLimitMaxKeys :: nat where "defaultRateLimitMaxKeys = 8192"

definition NewKeyedRateLimiter :: "(nat \<Rightarrow> 'b) \<Rightarrow> float64 \<Rightarrow> int \<Rightarrow> int \<Rightarrow> go_error + 'b KeyedRateLimiter" where
  "NewKeyedRateLimiter heap perSecond burst maxKeys =
     (if \<not> positive perSecond
      then Inl (Fresh ''keyed rate limiter: requests per second must be > 0'')
      else if burst \<le> 0 then Inl (Fresh ''keyed rate limiter: burst must be > 0'')
      else Inr \<lparr>kl_limit = perSecond, kl_burst = burst,
                kl_maxKeys = (if maxKeys \<le> 0 then defaultRateLimitMaxKeys else nat maxKeys),
                kl_current = [], kl_previous = [], kl_heap = heap, kl_next = 0\<rparr>)"

text \<open>\<^verbatim>\<open>rate.NewLimiter\<close> at a new address.\<close>

definition alloc :: "'b \<Rightarrow> 'b KeyedRateLimiter \<Rightarrow> nat \<times> 'b KeyedRateLimiter" where
  "alloc b l = (kl_next l, l\<lparr>kl_heap := (kl_heap l)(kl_next l := b), kl_next := Suc (kl_next l)\<rparr>)"

definition bucketLocked :: "('b, 'r) rate_lib \<Rightarrow> string \<Rightarrow> 'b KeyedRateLimiter \<Rightarrow> nat \<times> 'b KeyedRateLimiter" where
  "bucketLocked lib key l =
     (case map_of (kl_current l) key of
        Some limiter \<Rightarrow> (limiter, l)
      | None \<Rightarrow>
          let (limiter, l) = (case map_of (kl_previous l) key of
                                Some limiter \<Rightarrow> (limiter, l)
                              | None \<Rightarrow> alloc (rl_NewLimiter lib (kl_limit l) (kl_burst l)) l);
              l = (if kl_maxKeys l \<le> length (kl_current l)
                   then l\<lparr>kl_previous := kl_current l, kl_current := []\<rparr> else l)
          in (limiter, l\<lparr>kl_current := (key, limiter) # kl_current l\<rparr>))"

text \<open>One reservation on a bucket: the answer of \<^verbatim>\<open>Allow\<close> and the bucket left.\<close>

definition charge :: "('b, 'r) rate_lib \<Rightarrow> instant \<Rightarrow> 'b \<Rightarrow> (bool \<times> duration) \<times> 'b" where
  "charge lib now b =
     (let (reservation, b) = rl_Reserve lib now b
      in if \<not> rl_OK lib reservation then ((False, second), b)
         else if 0 < rl_Delay lib now reservation
         then ((False, rl_Delay lib now reservation), rl_Cancel lib now reservation b)
         else ((True, 0), b))"

definition Allow :: "('b, 'r) rate_lib \<Rightarrow> instant \<Rightarrow> string \<Rightarrow> 'b KeyedRateLimiter \<Rightarrow> (bool \<times> duration) \<times> 'b KeyedRateLimiter" where
  "Allow lib now key l =
     (let (limiter, l) = bucketLocked lib key l;
          (answer, b) = charge lib now (kl_heap l limiter)
      in (answer, l\<lparr>kl_heap := (kl_heap l)(limiter := b)\<rparr>))"

text \<open>A history of requests, oldest first, and the answers with their keys.\<close>

fun allow_all :: "('b, 'r) rate_lib \<Rightarrow> (instant \<times> string) list \<Rightarrow> 'b KeyedRateLimiter
    \<Rightarrow> (string \<times> bool \<times> duration) list \<times> 'b KeyedRateLimiter" where
  "allow_all lib [] l = ([], l)"
| "allow_all lib ((now, key) # reqs) l =
     (let (answer, l) = Allow lib now key l; (answers, l) = allow_all lib reqs l in ((key, answer) # answers, l))"

fun charge_all :: "('b, 'r) rate_lib \<Rightarrow> instant list \<Rightarrow> 'b \<Rightarrow> (bool \<times> duration) list \<times> 'b" where
  "charge_all lib [] b = ([], b)"
| "charge_all lib (now # ts) b =
     (let (answer, b) = charge lib now b; (answers, b) = charge_all lib ts b in (answer # answers, b))"

definition times_of :: "string \<Rightarrow> (instant \<times> string) list \<Rightarrow> instant list" where
  "times_of k reqs = map fst (filter (\<lambda>q. snd q = k) reqs)"

definition answers_to :: "string \<Rightarrow> (string \<times> 'a) list \<Rightarrow> 'a list" where
  "answers_to k answers = map snd (filter (\<lambda>q. fst q = k) answers)"

section \<open>The generations\<close>

text \<open>Addresses in use are allocated, no two callers share one, and a caller that is in both generations has the
  same one in both.\<close>

definition gen_ok :: "nat \<Rightarrow> nat \<Rightarrow> generation \<Rightarrow> bool" where
  "gen_ok n maxKeys gen = (distinct (map fst gen) \<and> length gen \<le> maxKeys \<and> (\<forall>a \<in> set (map snd gen). a < n))"

definition limiter_ok :: "'b KeyedRateLimiter \<Rightarrow> bool" where
  "limiter_ok l =
     (0 < kl_maxKeys l \<and> gen_ok (kl_next l) (kl_maxKeys l) (kl_current l) \<and> gen_ok (kl_next l) (kl_maxKeys l) (kl_previous l)
      \<and> (\<forall>k k' a. (k, a) \<in> set (kl_current l) \<union> set (kl_previous l) \<longrightarrow>
           (k', a) \<in> set (kl_current l) \<union> set (kl_previous l) \<longrightarrow> k = k')
      \<and> (\<forall>k a a'. map_of (kl_current l) k = Some a \<longrightarrow> map_of (kl_previous l) k = Some a' \<longrightarrow> a = a'))"

text \<open>Where a caller's bucket is, when it is tracked.\<close>

definition tracked :: "'b KeyedRateLimiter \<Rightarrow> string \<Rightarrow> nat option" where
  "tracked l k = (case map_of (kl_current l) k of Some a \<Rightarrow> Some a | None \<Rightarrow> map_of (kl_previous l) k)"

lemma map_of_filter_distinct: "distinct (map fst gen) \<Longrightarrow> (k, a) \<in> set gen \<longleftrightarrow> map_of gen k = Some a"
  by (metis map_of_SomeD map_of_is_SomeI)

lemma gen_ok_mono: "gen_ok n m gen \<Longrightarrow> n \<le> n' \<Longrightarrow> gen_ok n' m gen"
  by (auto simp: gen_ok_def)

lemma gen_ok_Cons:
  "gen_ok n m gen \<Longrightarrow> map_of gen k = None \<Longrightarrow> a < n \<Longrightarrow> length gen < m \<Longrightarrow> gen_ok n m ((k, a) # gen)"
  by (auto simp: gen_ok_def map_of_eq_None_iff)

lemma gen_addr: "gen_ok n m gen \<Longrightarrow> (k, a) \<in> set gen \<Longrightarrow> a < n"
  by (force simp: gen_ok_def)

text \<open>The step of \<^verbatim>\<open>bucketLocked\<close> on a caller that is not in the current generation: its address
  (fresh, or the one of the previous generation) and the two generations afterwards.\<close>

lemma bucketLocked_cases:
  assumes "bucketLocked lib key l = (a, l')"
  obtains (hit) "map_of (kl_current l) key = Some a" "l' = l"
  | (promoted) gens where "map_of (kl_current l) key = None" "map_of (kl_previous l) key = Some a"
      "gens = (if kl_maxKeys l \<le> length (kl_current l) then ([], kl_current l) else (kl_current l, kl_previous l))"
      "l' = l\<lparr>kl_current := (key, a) # fst gens, kl_previous := snd gens\<rparr>"
  | (fresh) gens where "map_of (kl_current l) key = None" "map_of (kl_previous l) key = None" "a = kl_next l"
      "gens = (if kl_maxKeys l \<le> length (kl_current l) then ([], kl_current l) else (kl_current l, kl_previous l))"
      "l' = l\<lparr>kl_current := (key, a) # fst gens, kl_previous := snd gens,
              kl_heap := (kl_heap l)(a := rl_NewLimiter lib (kl_limit l) (kl_burst l)), kl_next := Suc (kl_next l)\<rparr>"
proof (cases "map_of (kl_current l) key")
  case (Some a')
  then have "a = a'" "l' = l" using assms by (simp_all add: bucketLocked_def)
  then show thesis using hit Some by blast
next
  case cur: None
  show thesis
  proof (cases "map_of (kl_previous l) key")
    case (Some a')
    have "a = a'" "l' = (if kl_maxKeys l \<le> length (kl_current l)
        then l\<lparr>kl_current := [(key, a')], kl_previous := kl_current l\<rparr> else l\<lparr>kl_current := (key, a') # kl_current l\<rparr>)"
      using assms cur Some by (auto simp: bucketLocked_def Let_def)
    moreover have "l\<lparr>kl_previous := kl_previous l\<rparr> = l" by simp
    ultimately show thesis using promoted [OF cur _ refl] Some by (cases "kl_maxKeys l \<le> length (kl_current l)") simp_all
  next
    case None
    have "a = kl_next l" "l' = (if kl_maxKeys l \<le> length (kl_current l)
        then l\<lparr>kl_current := [(key, a)], kl_previous := kl_current l,
               kl_heap := (kl_heap l)(a := rl_NewLimiter lib (kl_limit l) (kl_burst l)), kl_next := Suc (kl_next l)\<rparr>
        else l\<lparr>kl_current := (key, a) # kl_current l,
               kl_heap := (kl_heap l)(a := rl_NewLimiter lib (kl_limit l) (kl_burst l)), kl_next := Suc (kl_next l)\<rparr>)"
      using assms cur None by (auto simp: bucketLocked_def Let_def alloc_def)
    moreover have "l\<lparr>kl_previous := kl_previous l\<rparr> = l" by simp
    ultimately show thesis using fresh [OF cur None _ refl] by (cases "kl_maxKeys l \<le> length (kl_current l)") simp_all
  qed
qed

lemma limiter_ok_shift:
  assumes ok: "limiter_ok l" and new: "map_of (kl_current l) key = None" and n: "kl_next l \<le> n" "a < n"
    and own: "\<And>k. (k, a) \<in> set (kl_current l) \<union> set (kl_previous l) \<Longrightarrow> k = key"
    and same: "\<And>a'. map_of (kl_previous l) key = Some a' \<Longrightarrow> a' = a"
    and gens: "gens = (if kl_maxKeys l \<le> length (kl_current l) then ([], kl_current l) else (kl_current l, kl_previous l))"
    and l': "kl_current l' = (key, a) # fst gens" "kl_previous l' = snd gens" "kl_maxKeys l' = kl_maxKeys l" "kl_next l' = n"
  shows "limiter_ok l'"
proof -
  have max: "0 < kl_maxKeys l" and cur: "gen_ok n (kl_maxKeys l) (kl_current l)" and prev: "gen_ok n (kl_maxKeys l) (kl_previous l)"
    using ok n by (auto simp: limiter_ok_def intro: gen_ok_mono)
  have inj: "k = k'" if "(k, b) \<in> set (kl_current l) \<union> set (kl_previous l)" "(k', b) \<in> set (kl_current l) \<union> set (kl_previous l)"
    for k k' b using ok that unfolding limiter_ok_def by blast
  have both: "b = b'" if "map_of (kl_current l) k = Some b" "map_of (kl_previous l) k = Some b'" for k b b'
    using ok that unfolding limiter_ok_def by blast
  show ?thesis
  proof (cases "kl_maxKeys l \<le> length (kl_current l)")
    case True
    then have cur': "kl_current l' = [(key, a)]" and prev': "kl_previous l' = kl_current l" using l' gens by simp_all
    have "gen_ok n (kl_maxKeys l) [(key, a)]" using n max by (auto simp: gen_ok_def)
    moreover have "k = k'" if "(k, b) \<in> set [(key, a)] \<union> set (kl_current l)"
      "(k', b) \<in> set [(key, a)] \<union> set (kl_current l)" for k k' b
      using that own [of k] own [of k'] inj [of k b k'] by auto
    moreover have "b = b'" if "map_of [(key, a)] k = Some b" "map_of (kl_current l) k = Some b'" for k b b'
      using that new by (auto split: if_splits)
    ultimately show ?thesis unfolding limiter_ok_def cur' prev' l'(3,4) using max cur by blast
  next
    case False
    then have cur': "kl_current l' = (key, a) # kl_current l" and prev': "kl_previous l' = kl_previous l" using l' gens by simp_all
    have "gen_ok n (kl_maxKeys l) ((key, a) # kl_current l)" using cur new n False by (intro gen_ok_Cons) auto
    moreover have "k = k'" if "(k, b) \<in> set ((key, a) # kl_current l) \<union> set (kl_previous l)"
      "(k', b) \<in> set ((key, a) # kl_current l) \<union> set (kl_previous l)" for k k' b
      using that own [of k] own [of k'] inj [of k b k'] by auto
    moreover have "b = b'" if "map_of ((key, a) # kl_current l) k = Some b" "map_of (kl_previous l) k = Some b'" for k b b'
      using that same both by (auto split: if_splits)
    ultimately show ?thesis unfolding limiter_ok_def cur' prev' l'(3,4) using max prev by blast
  qed
qed

lemma bucketLocked_ok:
  assumes "limiter_ok l" "bucketLocked lib key l = (a, l')"
  shows "limiter_ok l' \<and> map_of (kl_current l') key = Some a"
  using assms(2)
proof (cases rule: bucketLocked_cases)
  case hit
  then show ?thesis using assms(1) by simp
next
  case (promoted gens)
  have mem: "(key, a) \<in> set (kl_previous l)" using promoted(2) by (rule map_of_SomeD)
  have "limiter_ok l'"
  proof (rule limiter_ok_shift [OF assms(1) promoted(1) order_refl _ _ _ promoted(3)])
    show "a < kl_next l" using mem assms(1) by (auto simp: limiter_ok_def intro: gen_addr)
    show "k = key" if "(k, a) \<in> set (kl_current l) \<union> set (kl_previous l)" for k
      using that mem assms(1) unfolding limiter_ok_def by blast
    show "a' = a" if "map_of (kl_previous l) key = Some a'" for a' using that promoted(2) by simp
  qed (use promoted(4) in auto)
  then show ?thesis using promoted(4) by simp
next
  case (fresh gens)
  have unused: "(k, a) \<notin> set (kl_current l) \<union> set (kl_previous l)" for k
    using assms(1) fresh(3) by (auto simp: limiter_ok_def dest: gen_addr)
  have "limiter_ok l'"
    by (rule limiter_ok_shift [OF assms(1) fresh(1) _ _ _ _ fresh(4), of "Suc (kl_next l)" a])
      (use fresh(2,3,5) unused in auto)
  then show ?thesis using fresh(5) by simp
qed

lemma AllowE:
  assumes "Allow lib now key l = (answer, l')"
  obtains a l1 b where "bucketLocked lib key l = (a, l1)" "charge lib now (kl_heap l1 a) = (answer, b)"
    "l' = l1\<lparr>kl_heap := (kl_heap l1)(a := b)\<rparr>"
  using assms by (auto simp: Allow_def split: prod.splits)

lemma limiter_ok_heap [simp]: "limiter_ok (l\<lparr>kl_heap := h\<rparr>) = limiter_ok l"
  by (simp add: limiter_ok_def)

lemma Allow_ok: "limiter_ok l \<Longrightarrow> Allow lib now key l = (answer, l') \<Longrightarrow> limiter_ok l'"
  by (erule AllowE) (auto dest: bucketLocked_ok)

lemma bucketLocked_config:
  "bucketLocked lib key l = (a, l') \<Longrightarrow> kl_limit l' = kl_limit l \<and> kl_burst l' = kl_burst l \<and> kl_maxKeys l' = kl_maxKeys l"
  by (erule bucketLocked_cases) auto

lemma Allow_config:
  "Allow lib now key l = (answer, l') \<Longrightarrow> kl_limit l' = kl_limit l \<and> kl_burst l' = kl_burst l \<and> kl_maxKeys l' = kl_maxKeys l"
  by (erule AllowE) (auto dest: bucketLocked_config)

section \<open>One bucket per caller\<close>

text \<open>A caller is within reach when it is in the current generation, or in the previous one while the current one
  holds only callers that came since its last request.\<close>

definition reachable_bucket :: "'b KeyedRateLimiter \<Rightarrow> string \<Rightarrow> string list \<Rightarrow> nat \<Rightarrow> bool" where
  "reachable_bucket l k others a =
     (map_of (kl_current l) k = Some a
      \<or> map_of (kl_current l) k = None \<and> map_of (kl_previous l) k = Some a \<and> fst ` set (kl_current l) \<subseteq> set others)"

lemma tracked_heap [simp]: "tracked (l\<lparr>kl_heap := h\<rparr>) k = tracked l k"
  by (simp add: tracked_def cong: option.case_cong)

lemma reachable_bucket_heap [simp]: "reachable_bucket (l\<lparr>kl_heap := h\<rparr>) k others a = reachable_bucket l k others a"
  by (simp add: reachable_bucket_def)

lemma reachable_tracked: "reachable_bucket l k others a \<Longrightarrow> tracked l k = Some a"
  by (auto simp: reachable_bucket_def tracked_def)

lemma tracked_mem: "tracked l k = Some a \<Longrightarrow> (k, a) \<in> set (kl_current l) \<union> set (kl_previous l)"
  by (auto simp: tracked_def split: option.splits dest: map_of_SomeD)

lemma Allow_own:
  assumes "limiter_ok l" "Allow lib now k l = (answer, l')"
    and b: "b = (case tracked l k of Some a \<Rightarrow> kl_heap l a | None \<Rightarrow> rl_NewLimiter lib (kl_limit l) (kl_burst l))"
  shows "\<exists>a. charge lib now b = (answer, kl_heap l' a) \<and> reachable_bucket l' k [] a"
proof -
  obtain a l1 b' where step: "bucketLocked lib k l = (a, l1)" "charge lib now (kl_heap l1 a) = (answer, b')"
    "l' = l1\<lparr>kl_heap := (kl_heap l1)(a := b')\<rparr>" using assms(2) by (rule AllowE)
  have "kl_heap l1 a = b" using step(1) by (cases rule: bucketLocked_cases) (auto simp: b tracked_def)
  moreover have "map_of (kl_current l1) k = Some a" using bucketLocked_ok [OF assms(1) step(1)] by simp
  ultimately show ?thesis using step(2,3) by (auto simp: reachable_bucket_def)
qed

text \<open>A request of another caller leaves the bucket where it is and as it is.\<close>

lemma bucketLocked_other:
  assumes ok: "limiter_ok l" and step: "bucketLocked lib j l = (a', l')" and "j \<noteq> k"
    and reach: "reachable_bucket l k others a" and few: "card (set (others @ [j])) \<le> kl_maxKeys l"
  shows "reachable_bucket l' k (others @ [j]) a \<and> kl_heap l' a = kl_heap l a \<and> a' \<noteq> a"
proof -
  have mem: "(k, a) \<in> set (kl_current l) \<union> set (kl_previous l)" using reach by (intro tracked_mem reachable_tracked)
  then have old: "a < kl_next l" using ok by (auto simp: limiter_ok_def dest: gen_addr)
  have shift: "reachable_bucket l' k (others @ [j]) a"
    if new: "map_of (kl_current l) j = None"
      and gens: "gens = (if kl_maxKeys l \<le> length (kl_current l) then ([], kl_current l) else (kl_current l, kl_previous l))"
      and l': "kl_current l' = (j, a') # fst gens" "kl_previous l' = snd gens" for gens
  proof (cases "map_of (kl_current l) k")
    case None
    then have prev: "map_of (kl_previous l) k = Some a" and sub: "fst ` set (kl_current l) \<subseteq> set others"
      using reach by (auto simp: reachable_bucket_def)
    have "card (insert j (fst ` set (kl_current l))) \<le> card (set (others @ [j]))"
      using sub by (intro card_mono) auto
    moreover have "j \<notin> fst ` set (kl_current l)" using new by (auto simp: map_of_eq_None_iff)
    moreover have "card (fst ` set (kl_current l)) = length (kl_current l)"
      using ok by (metis distinct_card gen_ok_def length_map limiter_ok_def set_map)
    ultimately have "length (kl_current l) < kl_maxKeys l" using few by simp
    then show ?thesis using prev sub None l' gens assms(3) by (auto simp: reachable_bucket_def)
  next
    case (Some b)
    then have "b = a" using reach by (simp add: reachable_bucket_def)
    then show ?thesis using Some l' gens assms(3) by (auto simp: reachable_bucket_def)
  qed
  have apart: "b \<noteq> a" if "(j, b) \<in> set (kl_current l) \<union> set (kl_previous l)" for b
    using that mem ok assms(3) unfolding limiter_ok_def by blast
  from step show ?thesis
  proof (cases rule: bucketLocked_cases)
    case hit
    then have "a' \<noteq> a" using apart by (auto dest: map_of_SomeD)
    moreover have "reachable_bucket l k (others @ [j]) a" using reach by (auto simp: reachable_bucket_def)
    ultimately show ?thesis using hit by simp
  next
    case (promoted gens)
    then have "a' \<noteq> a" using apart by (auto dest: map_of_SomeD)
    then show ?thesis using shift [OF promoted(1,3)] promoted(4) by simp
  next
    case (fresh gens)
    then show ?thesis using shift [OF fresh(1,4)] old by simp
  qed
qed

lemma Allow_other:
  assumes "limiter_ok l" "Allow lib now j l = (answer, l')" "j \<noteq> k" "reachable_bucket l k others a"
    and "card (set (others @ [j])) \<le> kl_maxKeys l"
  shows "reachable_bucket l' k (others @ [j]) a \<and> kl_heap l' a = kl_heap l a"
proof -
  obtain a' l1 b where step: "bucketLocked lib j l = (a', l1)" "l' = l1\<lparr>kl_heap := (kl_heap l1)(a' := b)\<rparr>"
    using assms(2) by (rule AllowE)
  then show ?thesis using bucketLocked_other [OF assms(1) step(1) assms(3-5)] by simp
qed

lemma Allow_untracked:
  assumes "Allow lib now j l = (answer, l')" "j \<noteq> k" "tracked l k = None"
  shows "tracked l' k = None"
proof -
  obtain a l1 b where "bucketLocked lib j l = (a, l1)" "l' = l1\<lparr>kl_heap := (kl_heap l1)(a := b)\<rparr>"
    using assms(1) by (rule AllowE)
  moreover have "tracked l1 k = None" using calculation(1)
    by (cases rule: bucketLocked_cases) (use assms(2,3) in \<open>auto simp: tracked_def split: option.splits if_splits\<close>)
  ultimately show ?thesis by simp
qed

lemma allow_all_snoc:
  "allow_all lib (reqs @ [(now, key)]) l =
     (let (answers, l1) = allow_all lib reqs l; (answer, l2) = Allow lib now key l1 in (answers @ [(key, answer)], l2))"
  by (induction reqs arbitrary: l) (auto split: prod.splits)

lemma charge_all_snoc:
  "charge_all lib (ts @ [now]) b =
     (let (answers, b1) = charge_all lib ts b; (answer, b2) = charge lib now b1 in (answers @ [answer], b2))"
  by (induction ts arbitrary: b) (auto split: prod.splits)

lemma allow_all_ok:
  "limiter_ok l \<Longrightarrow> allow_all lib reqs l = (answers, l') \<Longrightarrow>
     limiter_ok l' \<and> kl_maxKeys l' = kl_maxKeys l \<and> kl_limit l' = kl_limit l \<and> kl_burst l' = kl_burst l"
proof (induction reqs arbitrary: l answers)
  case (Cons q reqs)
  obtain now key where q: "q = (now, key)" by (cases q)
  obtain answer l1 where one: "Allow lib now key l = (answer, l1)" by fastforce
  then obtain rest where "allow_all lib reqs l1 = (rest, l')" using Cons.prems(2) by (auto simp: q split: prod.splits)
  then show ?case using Cons.IH [of l1] Allow_ok [OF Cons.prems(1) one] Allow_config [OF one] by simp
qed simp

text \<open>How many other callers came between two requests of one.\<close>

definition returns_within :: "nat \<Rightarrow> string \<Rightarrow> string list \<Rightarrow> bool" where
  "returns_within n k keys =
     (\<forall>pre mid post. keys = pre @ k # mid @ k # post \<longrightarrow> k \<notin> set mid \<longrightarrow> card (set mid) \<le> n)"

lemma returns_within_prefix: "returns_within n k (keys @ [j]) \<Longrightarrow> returns_within n k keys"
  unfolding returns_within_def by (metis append.assoc append_Cons)

text \<open>After a history, a caller that never came is not tracked; one that came and after which at most
  \<^verbatim>\<open>maxKeys\<close> others came has its bucket, charged with its own requests.\<close>

definition own_bucket :: "('b, 'r) rate_lib \<Rightarrow> 'b \<Rightarrow> string \<Rightarrow> (instant \<times> string) list \<Rightarrow> 'b KeyedRateLimiter \<Rightarrow> bool" where
  "own_bucket lib b k reqs l =
     ((k \<notin> snd ` set reqs \<longrightarrow> tracked l k = None)
      \<and> (\<forall>pre mid. map snd reqs = pre @ k # mid \<longrightarrow> k \<notin> set mid \<longrightarrow> card (set mid) \<le> kl_maxKeys l \<longrightarrow>
           (\<exists>a. reachable_bucket l k mid a \<and> kl_heap l a = snd (charge_all lib (times_of k reqs) b))))"

lemma last_occurrence: "k \<in> set keys \<Longrightarrow> \<exists>pre mid. keys = pre @ k # mid \<and> k \<notin> set mid"
  by (rule split_list_last)

lemma times_of_snoc [simp]: "times_of k (reqs @ [(now, j)]) = times_of k reqs @ (if j = k then [now] else [])"
  by (simp add: times_of_def)

lemma times_of_none: "k \<notin> snd ` set reqs \<Longrightarrow> times_of k reqs = []"
  by (auto simp: times_of_def filter_empty_conv)

lemma own_bucket_now:
  assumes own: "own_bucket lib b k reqs l" and within: "returns_within (kl_maxKeys l) k (map snd (reqs @ [(now, k)]))"
    and b: "b = rl_NewLimiter lib (kl_limit l) (kl_burst l)"
  shows "(case tracked l k of Some a \<Rightarrow> kl_heap l a | None \<Rightarrow> b) = snd (charge_all lib (times_of k reqs) b)"
proof (cases "k \<in> snd ` set reqs")
  case True
  then obtain pre mid where keys: "map snd reqs = pre @ k # mid" "k \<notin> set mid"
    using last_occurrence [of k "map snd reqs"] by auto
  have "map snd (reqs @ [(now, k)]) = pre @ k # mid @ k # []" using keys(1) by simp
  then have "card (set mid) \<le> kl_maxKeys l" using within keys(2) unfolding returns_within_def by blast
  then obtain a where "reachable_bucket l k mid a" "kl_heap l a = snd (charge_all lib (times_of k reqs) b)"
    using own keys unfolding own_bucket_def by blast
  then show ?thesis using reachable_tracked by fastforce
next
  case False
  then show ?thesis using own by (simp add: own_bucket_def times_of_none)
qed

lemma own_bucket_step:
  assumes own: "own_bucket lib b k reqs l" and ok: "limiter_ok l" and step: "Allow lib now j l = (answer, l')"
    and within: "returns_within (kl_maxKeys l) k (map snd (reqs @ [(now, j)]))"
    and b: "b = rl_NewLimiter lib (kl_limit l) (kl_burst l)"
  shows "own_bucket lib b k (reqs @ [(now, j)]) l'"
proof (cases "j = k")
  case True
  obtain a where a: "charge lib now (snd (charge_all lib (times_of k reqs) b)) = (answer, kl_heap l' a)"
    "reachable_bucket l' k [] a"
    using Allow_own [OF ok step [unfolded True] refl] own_bucket_now [OF own within [unfolded True] b] b by auto
  have "mid = []" if "map snd (reqs @ [(now, j)]) = pre @ k # mid" "k \<notin> set mid" for pre mid
    using that True by (cases mid rule: rev_cases) auto
  then show ?thesis using a True by (auto simp: own_bucket_def charge_all_snoc split: prod.splits)
next
  case False
  have max: "kl_maxKeys l' = kl_maxKeys l" using Allow_config [OF step] by simp
  have "\<exists>a. reachable_bucket l' k mid a \<and> kl_heap l' a = snd (charge_all lib (times_of k (reqs @ [(now, j)])) b)"
    if keys: "map snd (reqs @ [(now, j)]) = pre @ k # mid" "k \<notin> set mid" and few: "card (set mid) \<le> kl_maxKeys l" for pre mid
  proof -
    obtain mid' where mid: "mid = mid' @ [j]" "map snd reqs = pre @ k # mid'"
      using keys(1) False by (cases mid rule: rev_cases) auto
    have "card (set mid') \<le> card (set mid)" using mid(1) by (intro card_mono) auto
    then obtain a where "reachable_bucket l k mid' a" "kl_heap l a = snd (charge_all lib (times_of k reqs) b)"
      using own mid keys(2) few unfolding own_bucket_def by (metis Un_iff le_trans set_append)
    then show ?thesis using Allow_other [OF ok step False, of mid' a] few mid(1) False by auto
  qed
  moreover have "tracked l' k = None" if "k \<notin> snd ` set (reqs @ [(now, j)])"
    using Allow_untracked [OF step False] own that by (simp add: own_bucket_def)
  ultimately show ?thesis unfolding own_bucket_def max by blast
qed

lemma answers_own:
  assumes "limiter_ok l" "tracked l k = None" "returns_within (kl_maxKeys l) k (map snd reqs)"
    and "allow_all lib reqs l = (answers, l')" and b: "b = rl_NewLimiter lib (kl_limit l) (kl_burst l)"
  shows "answers_to k answers = fst (charge_all lib (times_of k reqs) b) \<and> own_bucket lib b k reqs l'"
  using assms(3,4)
proof (induction reqs arbitrary: answers l' rule: rev_induct)
  case Nil
  then show ?case using assms(2) by (simp add: answers_to_def times_of_def own_bucket_def)
next
  case (snoc q reqs)
  obtain now j where q: "q = (now, j)" by (cases q)
  obtain before l1 answer where run: "allow_all lib reqs l = (before, l1)" and step: "Allow lib now j l1 = (answer, l')"
    and answers: "answers = before @ [(j, answer)]"
    using snoc.prems(2) by (auto simp: q allow_all_snoc split: prod.splits)
  note conf = allow_all_ok [OF assms(1) run]
  have b1: "b = rl_NewLimiter lib (kl_limit l1) (kl_burst l1)" using b conf by simp
  have within: "returns_within (kl_maxKeys l1) k (map snd (reqs @ [(now, j)]))" using snoc.prems(1) conf by (simp add: q)
  have IH: "answers_to k before = fst (charge_all lib (times_of k reqs) b)" "own_bucket lib b k reqs l1"
    using snoc.IH [OF _ run] snoc.prems(1) returns_within_prefix [of _ k "map snd reqs"] by auto
  have "answers_to k answers = fst (charge_all lib (times_of k (reqs @ [(now, j)])) b)"
  proof (cases "j = k")
    case True
    have "fst (charge lib now (snd (charge_all lib (times_of k reqs) b))) = answer"
      using Allow_own [OF conjunct1 [OF conf] step [unfolded True] refl]
      unfolding b1 [symmetric] own_bucket_now [OF IH(2) within [unfolded True] b1] by auto
    then show ?thesis using IH(1) True by (auto simp: answers answers_to_def charge_all_snoc split: prod.splits)
  next
    case False
    then show ?thesis using IH(1) by (simp add: answers answers_to_def)
  qed
  then show ?case using own_bucket_step [OF IH(2) _ step within b1] conf by (simp add: q)
qed

lemma new_limiter_ok:
  assumes "NewKeyedRateLimiter heap perSecond burst maxKeys = Inr l"
  shows "limiter_ok l \<and> tracked l k = None \<and> kl_limit l = perSecond \<and> kl_burst l = burst
     \<and> kl_maxKeys l = (if maxKeys \<le> 0 then defaultRateLimitMaxKeys else nat maxKeys)"
  using assms
  by (auto simp: NewKeyedRateLimiter_def limiter_ok_def gen_ok_def tracked_def defaultRateLimitMaxKeys_def split: if_splits)

text \<open>One bucket per caller. In every history of requests on a new limiter, a caller between whose
  consecutive requests at most \<^verbatim>\<open>maxKeys\<close> different other callers come is answered exactly as if
  one bucket of its own had been charged with its requests alone: other callers neither spend its
  budget nor, by filling generations, give it a new one.\<close>

theorem caller_has_its_own_bucket:
  assumes "NewKeyedRateLimiter heap perSecond burst maxKeys = Inr l" and "allow_all lib reqs l = (answers, l')"
    and "returns_within (kl_maxKeys l) k (map snd reqs)"
  shows "answers_to k answers = fst (charge_all lib (times_of k reqs) (rl_NewLimiter lib perSecond burst))"
  using answers_own [OF _ _ assms(3,2) refl] new_limiter_ok [OF assms(1), of k] by simp

text \<open>Memory is bounded whatever keys callers choose: after every history at most \<^verbatim>\<open>maxKeys\<close> keys are in
  each of the two generations, and different callers never share a bucket.\<close>

theorem rate_limiter_bounded:
  assumes "NewKeyedRateLimiter heap perSecond burst maxKeys = Inr l" and "allow_all lib reqs l = (answers, l')"
  shows "length (kl_current l') \<le> kl_maxKeys l \<and> length (kl_previous l') \<le> kl_maxKeys l
     \<and> (\<forall>k k' a. tracked l' k = Some a \<and> tracked l' k' = Some a \<longrightarrow> k = k')"
proof -
  have ok: "limiter_ok l'" "kl_maxKeys l' = kl_maxKeys l"
    using allow_all_ok [OF _ assms(2)] new_limiter_ok [OF assms(1)] by blast+
  have "k = k'" if "tracked l' k = Some a" "tracked l' k' = Some a" for k k' a
    using tracked_mem [OF that(1)] tracked_mem [OF that(2)] ok(1) unfolding limiter_ok_def by blast
  moreover have "length (kl_current l') \<le> kl_maxKeys l" "length (kl_previous l') \<le> kl_maxKeys l"
    using ok by (simp_all add: limiter_ok_def gen_ok_def)
  ultimately show ?thesis by blast
qed

text \<open>A limiter of one token that comes back after a second: the bucket is the moment it is full again.\<close>

definition example_rate :: "(int, int) rate_lib" where
  "example_rate =
     \<lparr>rl_NewLimiter = (\<lambda>_ _. 0), rl_Reserve = (\<lambda>now b. (max now b, max now b + second)), rl_OK = (\<lambda>_. True),
      rl_Delay = (\<lambda>now r. r - now), rl_Cancel = (\<lambda>now r b. r)\<rparr>"

definition example_limiter :: "int KeyedRateLimiter" where
  "example_limiter =
     \<lparr>kl_limit = Float 1 0, kl_burst = 1, kl_maxKeys = 2, kl_current = [], kl_previous = [], kl_heap = (\<lambda>_. 0), kl_next = 0\<rparr>"

abbreviation example_requests :: "(instant \<times> string) list" where
  "example_requests \<equiv> [(1, ''a''), (2, ''b''), (3, ''c''), (4, ''a'')]"

lemma example_limiter_new: "NewKeyedRateLimiter (\<lambda>_. 0) (Float 1 0) 1 2 = Inr example_limiter"
  by (simp add: NewKeyedRateLimiter_def positive_def example_limiter_def)

lemma example_within: "returns_within 2 ''a'' (map snd example_requests)"
proof -
  have "card (set mid) \<le> 2" if "map snd example_requests = pre @ ''a'' # mid @ ''a'' # post" for pre mid post
    using that by (auto simp: Cons_eq_append_conv)
  then show ?thesis unfolding returns_within_def by blast
qed

lemma caller_has_its_own_bucket_witness:
  "answers_to ''a'' (fst (allow_all example_rate example_requests example_limiter)) = [(True, 0), (False, second - 3)]"
proof -
  have "kl_maxKeys example_limiter = 2" by (simp add: example_limiter_def)
  then have "answers_to ''a'' (fst (allow_all example_rate example_requests example_limiter))
      = fst (charge_all example_rate (times_of ''a'' example_requests) (rl_NewLimiter example_rate (Float 1 0) 1))"
    using caller_has_its_own_bucket [OF example_limiter_new, of example_rate example_requests _ _ "''a''"] example_within
    by (metis prod.collapse)
  then show ?thesis by (simp add: charge_def example_rate_def times_of_def second_def)
qed

lemma rate_limiter_bounded_witness:
  "length (kl_current (snd (allow_all example_rate example_requests example_limiter))) \<le> 2"
  using rate_limiter_bounded [OF example_limiter_new, of example_rate example_requests]
  by (simp add: example_limiter_def [THEN arg_cong [of _ _ kl_maxKeys]] prod_eq_iff)

end
