(* ===== verification/HttpChain.thy ===== *)
theory HttpChain
  imports KeyedLimiter ReqCtx
begin

text \<open>
  The hardened middleware chain of \<^verbatim>\<open>internal/infra/http\<close>: \<^verbatim>\<open>harden.go\<close> with \<^verbatim>\<open>middleware_correlation.go\<close>,
  \<^verbatim>\<open>middleware_guards.go\<close>, \<^verbatim>\<open>middleware_access_log.go\<close>, \<^verbatim>\<open>middleware_timeout.go\<close>, \<^verbatim>\<open>middleware_inflight.go\<close>,
  \<^verbatim>\<open>middleware_ratelimit.go\<close>, \<^verbatim>\<open>middleware_recover.go\<close>, \<^verbatim>\<open>response_commit.go\<close>, \<^verbatim>\<open>router_policy.go\<close>,
  \<^verbatim>\<open>route_template.go\<close>, \<^verbatim>\<open>health_probe_routes.go\<close> and \<^verbatim>\<open>observability/logctx/panic.go\<close>.

  A handler is a function: given the request and the state the process keeps, it says which
  operations it performed on its response writer, how it ended (it may panic), what it
  logged, the request as it left it, what \<^verbatim>\<open>ctx.Err()\<close> reports at that moment, and the state. A
  middleware is a function on handlers. Third-party code is a parameter: the OpenTelemetry middleware, the
  router's match, the weighted semaphore, and what \<^verbatim>\<open>httpsnoop\<close> captures for the access log.
\<close>

section \<open>Response writers\<close>

datatype write_op = SetHeader string string | DelHeader string | WriteStatus nat | WriteBody string | FlushBody
  | ReadFrom string

text \<open>\<^verbatim>\<open>net/http\<close>: headers count until the status is written, an informational status is not the final one, and a body
  or a flush without a status means 200.\<close>

definition implicit_ok :: "responseWriter \<Rightarrow> responseWriter" where
  "implicit_ok w = (if rw_status w = None then w\<lparr>rw_status := Some 200\<rparr> else w)"

fun apply_op :: "write_op \<Rightarrow> responseWriter \<Rightarrow> responseWriter" where
  "apply_op (SetHeader k v) w = (if rw_status w = None then set_header k v w else w)"
| "apply_op (DelHeader k) w = (if rw_status w = None then w\<lparr>rw_header := (rw_header w)(k := None)\<rparr> else w)"
| "apply_op (WriteStatus c) w = (if c \<noteq> 101 \<and> c < 200 then w else WriteHeader c w)"
| "apply_op (WriteBody b) w = (let w1 = implicit_ok w in w1\<lparr>rw_body := rw_body w1 @ b\<rparr>)"
| "apply_op FlushBody w = implicit_ok w"
| "apply_op (ReadFrom b) w = (let w1 = implicit_ok w in w1\<lparr>rw_body := rw_body w1 @ b\<rparr>)"

definition response :: "write_op list \<Rightarrow> responseWriter" where
  "response ops = fold apply_op ops empty_writer"

text \<open>The hooks of \<^verbatim>\<open>trackResponseCommit\<close>: which operations set its flag.\<close>

fun commits :: "write_op \<Rightarrow> bool" where
  "commits (SetHeader k v) = False"
| "commits (DelHeader k) = False"
| "commits (WriteStatus c) = (c = 101 \<or> 200 \<le> c)"
| "commits (WriteBody b) = True"
| "commits FlushBody = True"
| "commits (ReadFrom b) = True"

definition committed :: "write_op list \<Rightarrow> bool" where
  "committed ops = list_ex commits ops"

section \<open>Handlers\<close>

datatype panic_value = PanicError bool go_error | PanicString string | PanicValue string

datatype completion = Returned | Panicked panic_value

abbreviation ErrAbortHandler :: go_error where "ErrAbortHandler \<equiv> Sentinel ''http.ErrAbortHandler''"

text \<open>\<open>hr_core\<close> has the id, the problem record and the route; the pattern chi and \<^verbatim>\<open>net/http\<close> matched are set by routing.\<close>

record http_request =
  hr_core :: request
  hr_path :: string
  hr_header :: "string \<Rightarrow> string"
  hr_ContentLength :: int
  hr_hasBody :: bool
  hr_bodyLimit :: "int option"
  hr_timeout :: "duration option"
  hr_routePattern :: "string option"
  hr_Pattern :: string

text \<open>The state: the semaphore, the two instruments of \<^verbatim>\<open>ServerLoad\<close>, the rate limiter and the rest of the process.\<close>

record ('m, 'l, 'x) server =
  sv_sem :: 'm
  sv_active :: int
  sv_shed :: nat
  sv_limiter :: 'l
  sv_rest :: 'x

record 's served =
  out_ops :: "write_op list"
  out_end :: completion
  out_logs :: "log_record list"
  out_request :: http_request
  out_ctxErr :: "go_error option"
  out_state :: 's

type_synonym 's handler = "http_request \<Rightarrow> 's \<Rightarrow> 's served"
type_synonym encoder = "openapi_Problem \<Rightarrow> string option"

text \<open>\<^verbatim>\<open>writeProblem\<close> on the real writer, as the operations it performs, and with its record of the code in the request.\<close>

definition problem_ops :: "encoder \<Rightarrow> problemResponse \<Rightarrow> http_request \<Rightarrow> write_op list" where
  "problem_ops encode p r =
     (let w = fst (writeProblem encode p (empty_writer, Some (hr_core r)));
          header = (\<lambda>k. case rw_header w k of None \<Rightarrow> [] | Some v \<Rightarrow> [SetHeader k v])
      in header ''Retry-After'' @ header ''Content-Type'' @ [WriteStatus (the (rw_status w))]
         @ (if rw_body w = '''' then [] else [WriteBody (rw_body w)]))"

definition problem_request :: "problemResponse \<Rightarrow> http_request \<Rightarrow> http_request" where
  "problem_request p r = r\<lparr>hr_core := recordProblemCode (def_Code (ForCodeOrInternal (pr_code p))) (hr_core r)\<rparr>"

definition answer_problem :: "encoder \<Rightarrow> problemResponse \<Rightarrow> http_request \<Rightarrow> 's \<Rightarrow> 's served" where
  "answer_problem encode p r s =
     \<lparr>out_ops = problem_ops encode p r, out_end = Returned, out_logs = [], out_request = problem_request p r,
      out_ctxErr = None, out_state = s\<rparr>"

section \<open>Route names and probes\<close>

definition normalizeRoutePathTemplate :: "string \<Rightarrow> string \<Rightarrow> string" where
  "normalizeRoutePathTemplate method pattern =
     (let pattern = trim_space pattern;
          method = trim_space method;
          pattern = (if method \<noteq> '''' \<and> take (length method + 1) pattern = method @ '' ''
                     then trim_space (drop (length method + 1) pattern) else pattern)
      in if pattern = ''/'' \<or> pattern = ''/*'' then '''' else pattern)"

definition routePathTemplateForRequest :: "http_request option \<Rightarrow> string" where
  "routePathTemplateForRequest req =
     (case req of
        None \<Rightarrow> ''''
      | Some r \<Rightarrow>
          let fromChi = (case hr_routePattern r of
                           None \<Rightarrow> '''' | Some pattern \<Rightarrow> normalizeRoutePathTemplate (rq_method (hr_core r)) pattern)
          in if fromChi \<noteq> '''' then fromChi else normalizeRoutePathTemplate (rq_method (hr_core r)) (hr_Pattern r))"

definition healthProbeRoutePaths :: "string list" where
  "healthProbeRoutePaths = [''/health/live'', ''/health/ready'']"

definition isHealthProbeRequest :: "http_request option \<Rightarrow> bool" where
  "isHealthProbeRequest req =
     (case req of
        None \<Rightarrow> False
      | Some r \<Rightarrow> rq_method (hr_core r) = ''GET'' \<and> hr_path r \<in> set healthProbeRoutePaths)"

section \<open>The middlewares\<close>

definition requestIDHeader :: string where "requestIDHeader = ''X-Request-ID''"

text \<open>The inner request is a copy: what happens to it does not show on the caller's.\<close>

definition RequestCorrelation :: "string \<Rightarrow> 's handler \<Rightarrow> 's handler" where
  "RequestCorrelation generated next r s =
     (let (ctx, requestID) = ContextWithAcceptedRequestID generated (hr_header r requestIDHeader)
                               \<lparr>ctx_principal = None, ctx_requestID = None\<rparr>;
          inner = r\<lparr>hr_core := contextWithProblemRecord ((hr_core r)\<lparr>rq_id := RequestID ctx\<rparr>)\<rparr>;
          out = next inner s
      in out\<lparr>out_ops := SetHeader requestIDHeader requestID # out_ops out, out_request := r\<rparr>)"

definition contentTypeOptionsHeader :: string where "contentTypeOptionsHeader = ''X-Content-Type-Options''"

definition SecurityHeaders :: "'s handler \<Rightarrow> 's handler" where
  "SecurityHeaders next r s =
     (let out = next r s in out\<lparr>out_ops := SetHeader contentTypeOptionsHeader ''nosniff'' # out_ops out\<rparr>)"

definition RequestBodyLimit :: "encoder \<Rightarrow> int \<Rightarrow> 's handler \<Rightarrow> 's handler" where
  "RequestBodyLimit encode maxBytes next r s =
     (if maxBytes \<le> 0 then next r s
      else if maxBytes < hr_ContentLength r then answer_problem encode requestEntityTooLargeProblem r s
      else next (if hr_hasBody r then r\<lparr>hr_bodyLimit := Some maxBytes\<rparr> else r) s)"

text \<open>A panic of the handler passes; the check of the budget is not deferred.\<close>

definition RequestTimeout :: "encoder \<Rightarrow> duration \<Rightarrow> 's handler \<Rightarrow> 's handler" where
  "RequestTimeout encode timeout next r s =
     (if timeout \<le> 0 then next r s
      else let out = next (r\<lparr>hr_timeout := Some timeout\<rparr>) s
           in if out_end out \<noteq> Returned then out
              else if committed (out_ops out) \<or> \<not> errors_is_opt (out_ctxErr out) DeadlineExceeded then out
              else out\<lparr>out_ops := out_ops out @ problem_ops encode timeBudgetExceededProblem (out_request out),
                       out_request := problem_request timeBudgetExceededProblem (out_request out)\<rparr>)"

definition shedRetryAfter :: duration where "shedRetryAfter = second"

definition shed_problem :: problemResponse where
  "shed_problem = (problem_response CodeServiceUnavailable AtCapacityDetail)\<lparr>pr_retryAfter := shedRetryAfter\<rparr>"

record 'm sem_lib =
  sem_NewWeighted :: "int \<Rightarrow> 'm"
  sem_TryAcquire :: "int \<Rightarrow> 'm \<Rightarrow> bool \<times> 'm"
  sem_Release :: "int \<Rightarrow> 'm \<Rightarrow> 'm"

definition Admitted :: "('m, 'l, 'x) server \<Rightarrow> ('m, 'l, 'x) server" where
  "Admitted s = s\<lparr>sv_active := sv_active s + 1\<rparr>"
definition Admitted_done :: "('m, 'l, 'x) server \<Rightarrow> ('m, 'l, 'x) server" where
  "Admitted_done s = s\<lparr>sv_active := sv_active s - 1\<rparr>"
definition Shed :: "('m, 'l, 'x) server \<Rightarrow> ('m, 'l, 'x) server" where
  "Shed s = s\<lparr>sv_shed := sv_shed s + 1\<rparr>"

text \<open>The two ends of an admitted request; the second runs when the handler panics too.\<close>

definition inflight_enter :: "'m sem_lib \<Rightarrow> ('m, 'l, 'x) server \<Rightarrow> bool \<times> ('m, 'l, 'x) server" where
  "inflight_enter sem s =
     (case sem_TryAcquire sem 1 (sv_sem s) of
        (True, m) \<Rightarrow> (True, Admitted (s\<lparr>sv_sem := m\<rparr>))
      | (False, m) \<Rightarrow> (False, Shed (s\<lparr>sv_sem := m\<rparr>)))"

definition inflight_leave :: "'m sem_lib \<Rightarrow> ('m, 'l, 'x) server \<Rightarrow> ('m, 'l, 'x) server" where
  "inflight_leave sem s = (let s = Admitted_done s in s\<lparr>sv_sem := sem_Release sem 1 (sv_sem s)\<rparr>)"

definition MaxInFlight :: "encoder \<Rightarrow> 'm sem_lib \<Rightarrow> int \<Rightarrow> ('m, 'l, 'x) server handler \<Rightarrow> ('m, 'l, 'x) server handler" where
  "MaxInFlight encode sem limit next r s =
     (if limit \<le> 0 then next r s
      else if isHealthProbeRequest (Some r) then next r s
      else case inflight_enter sem s of
             (False, s') \<Rightarrow> answer_problem encode shed_problem r s'
           | (True, s') \<Rightarrow> let out = next r s' in out\<lparr>out_state := inflight_leave sem (out_state out)\<rparr>)"

definition HeaderRateLimitKey :: "string \<Rightarrow> http_request option \<Rightarrow> string" where
  "HeaderRateLimitKey name req =
     (case req of
        None \<Rightarrow> ''''
      | Some r \<Rightarrow>
          let value = trim_space (hr_header r name)
          in if value = '''' then '''' else hex_encode (sha256 value))"

definition limited_problem :: "duration \<Rightarrow> problemResponse" where
  "limited_problem retryAfter =
     (problem_response CodeTooManyRequests ''too many requests for this caller'')\<lparr>pr_retryAfter := max retryAfter 1\<rparr>"

text \<open>\<open>allow\<close> is the \<^verbatim>\<open>RateLimiter\<close> interface on the limiter state; \<open>None\<close> is a nil limiter or key. A limiter without a
  key panics when the middleware is built: that is \<open>None\<close>.\<close>

type_synonym 'l rate_limiter = "string \<Rightarrow> 'l \<Rightarrow> (bool \<times> duration) \<times> 'l"

definition RateLimit_serve :: "encoder \<Rightarrow> 'l rate_limiter \<Rightarrow> (http_request option \<Rightarrow> string) \<Rightarrow> ('m, 'l, 'x) server handler
    \<Rightarrow> ('m, 'l, 'x) server handler" where
  "RateLimit_serve encode allow keyFor next r s =
     (if isHealthProbeRequest (Some r) then next r s
      else let key = keyFor (Some r)
           in if key = '''' then next r s
              else case allow key (sv_limiter s) of
                     ((allowed, retryAfter), l) \<Rightarrow>
                       if allowed then next r (s\<lparr>sv_limiter := l\<rparr>)
                       else answer_problem encode (limited_problem retryAfter) r (s\<lparr>sv_limiter := l\<rparr>))"

definition RateLimit :: "encoder \<Rightarrow> 'l rate_limiter option \<Rightarrow> (http_request option \<Rightarrow> string) option
    \<Rightarrow> ('m, 'l, 'x) server handler \<Rightarrow> ('m, 'l, 'x) server handler option" where
  "RateLimit encode limiter keyFor next =
     (case limiter of
        None \<Rightarrow> Some next
      | Some allow \<Rightarrow> (case keyFor of None \<Rightarrow> None | Some key \<Rightarrow> Some (RateLimit_serve encode allow key next)))"

text \<open>\<^verbatim>\<open>logctx/panic.go\<close>. The stack is what \<^verbatim>\<open>debug.Stack\<close> returns.\<close>

definition PanicClass :: "panic_value option \<Rightarrow> string" where
  "PanicClass recovered =
     (case recovered of
        None \<Rightarrow> ''none''
      | Some (PanicError runtime e) \<Rightarrow> if runtime then ''runtime_error'' else ''error''
      | Some (PanicString s) \<Rightarrow> ''string''
      | Some (PanicValue t) \<Rightarrow> ''value'')"

definition panic_type :: "panic_value \<Rightarrow> string" where
  "panic_type recovered = (case recovered of PanicError _ e \<Rightarrow> go_type e | PanicString s \<Rightarrow> ''string'' | PanicValue t \<Rightarrow> t)"

definition PanicArgs :: "panic_value \<Rightarrow> string \<Rightarrow> (string \<times> string list) list" where
  "PanicArgs recovered stack =
     [(''panic.class'', [PanicClass (Some recovered)]), (''panic.type'', [panic_type recovered]), (''stack'', [stack])]"

definition is_abort :: "panic_value \<Rightarrow> bool" where
  "is_abort rec = (case rec of PanicError _ e \<Rightarrow> errors_is e ErrAbortHandler | _ \<Rightarrow> False)"

definition recovered_problem :: problemResponse where
  "recovered_problem = problem_response CodeInternalError SanitizedDetail"

definition Recover :: "encoder \<Rightarrow> string \<Rightarrow> 's handler \<Rightarrow> 's handler" where
  "Recover encode stack next r s =
     (let out = next r s
      in case out_end out of
           Returned \<Rightarrow> out
         | Panicked rec \<Rightarrow>
             if is_abort rec then out\<lparr>out_end := Panicked (PanicError False ErrAbortHandler)\<rparr>
             else
               let route = routeLabel (rq_method (hr_core (out_request out))) (routePathTemplateForRequest (Some (out_request out)));
                   logged = out\<lparr>out_end := Returned, out_logs := out_logs out @
                     [\<lparr>lr_level = ''ERROR'', lr_event = ''http_panic_recovered'',
                       lr_attrs = [(''method'', [rq_method (hr_core (out_request out))]), (''route'', [route])]
                         @ PanicArgs rec stack\<rparr>]\<rparr>
               in if committed (out_ops out) then logged
                  else logged\<lparr>out_ops := out_ops out @ problem_ops encode recovered_problem (out_request out),
                              out_request := problem_request recovered_problem (out_request out)\<rparr>)"

text \<open>\<open>snoop\<close> is the status and the duration \<^verbatim>\<open>httpsnoop\<close> captured. The span attribute of \<^verbatim>\<open>recordSpanRoute\<close> is telemetry;
  it returns the template.\<close>

definition recordSpanRoute :: "http_request \<Rightarrow> string" where
  "recordSpanRoute r = routePathTemplateForRequest (Some r)"

definition skipHealthProbeLog :: "http_request option \<Rightarrow> string \<Rightarrow> bool \<Rightarrow> bool" where
  "skipHealthProbeLog req template logHealthProbes =
     (if logHealthProbes then False
      else case req of
             None \<Rightarrow> False
           | Some r \<Rightarrow> if rq_method (hr_core r) \<noteq> ''GET'' then False else template \<in> set healthProbeRoutePaths)"

definition access_record :: "nat \<Rightarrow> int \<Rightarrow> http_request \<Rightarrow> log_record" where
  "access_record status ms r =
     \<lparr>lr_level = ''INFO'', lr_event = ''http_request'',
      lr_attrs = [(''method'', [rq_method (hr_core r)]),
                  (''route'', [routeLabel (rq_method (hr_core r)) (recordSpanRoute r)]),
                  (''status'', [decimal status]), (''duration_ms'', [decimal_int ms])]
        @ (let code = problemCodeForRequest (Some (hr_core r)) in if code \<noteq> '''' then [(''problem_code'', [code])] else [])\<rparr>"

definition AccessLog :: "(write_op list \<Rightarrow> nat \<times> int) \<Rightarrow> bool \<Rightarrow> bool \<Rightarrow> 's handler \<Rightarrow> 's handler" where
  "AccessLog snoop enabled logHealthProbes next r s =
     (let out = next r s
      in if \<not> enabled \<or> out_end out \<noteq> Returned then out
         else if skipHealthProbeLog (Some (out_request out)) (recordSpanRoute (out_request out)) logHealthProbes then out
         else case snoop (out_ops out) of
                (status, ms) \<Rightarrow> out\<lparr>out_logs := out_logs out @ [access_record status ms (out_request out)]\<rparr>)"

section \<open>Routing fallback\<close>

definition boundedHTTPMethods :: "string list" where
  "boundedHTTPMethods = [''GET'', ''HEAD'', ''DELETE'', ''OPTIONS'', ''PATCH'', ''POST'', ''PUT'']"

definition allowedMethodsForPath :: "(string \<Rightarrow> string \<Rightarrow> bool) \<Rightarrow> string \<Rightarrow> string list" where
  "allowedMethodsForPath matches path =
     (let path = cmp_Or [path, ''/''] in filter (\<lambda>method. matches method path) boundedHTTPMethods)"

definition setAllowHeader :: "string list \<Rightarrow> write_op list" where
  "setAllowHeader methods = DelHeader ''Allow'' # (if methods \<noteq> [] then [SetHeader ''Allow'' (str_join '', '' methods)] else [])"

definition fallback_NotFound :: "encoder \<Rightarrow> 's handler" where
  "fallback_NotFound encode r s = answer_problem encode notFoundProblem r s"

definition fallback_MethodNotAllowed :: "encoder \<Rightarrow> (string \<Rightarrow> string \<Rightarrow> bool) \<Rightarrow> 's handler" where
  "fallback_MethodNotAllowed encode matches r s =
     (let allowMethods = allowedMethodsForPath matches (hr_path r)
      in if allowMethods = [] then answer_problem encode notFoundProblem r s
         else
           let allowMethods = (if ''OPTIONS'' \<notin> set allowMethods then allowMethods @ [''OPTIONS''] else allowMethods);
               ops = setAllowHeader allowMethods;
               denied = (\<lambda>detail.
                 let out = answer_problem encode (problem_response CodeMethodNotAllowed detail) r s
                 in out\<lparr>out_ops := ops @ out_ops out\<rparr>)
           in if rq_method (hr_core r) = ''OPTIONS'' then
                if hr_header r ''Origin'' \<noteq> '''' \<and> hr_header r ''Access-Control-Request-Method'' \<noteq> ''''
                then denied ''cors preflight is not enabled''
                else \<lparr>out_ops = ops @ [WriteStatus 204], out_end = Returned, out_logs = [], out_request = r,
                      out_ctxErr = None, out_state = s\<rparr>
              else denied ''method is not allowed for this resource'')"

text \<open>chi: what the router finds for a request.\<close>

datatype chi_match = Matched | NotFound | MethodNotAllowed

definition newRootRouter :: "encoder \<Rightarrow> (http_request \<Rightarrow> chi_match) \<Rightarrow> (string \<Rightarrow> string \<Rightarrow> bool) \<Rightarrow> 's handler
    \<Rightarrow> ('s handler \<Rightarrow> 's handler) list \<Rightarrow> 's handler" where
  "newRootRouter encode chi_find matches apiSubrouter middlewares =
     foldr (\<lambda>middleware next. middleware next) middlewares
       (\<lambda>r s. case chi_find r of
                Matched \<Rightarrow> apiSubrouter r s
              | NotFound \<Rightarrow> fallback_NotFound encode r s
              | MethodNotAllowed \<Rightarrow> fallback_MethodNotAllowed encode matches r s)"

section \<open>The chain\<close>

record 'l HardenConfig =
  hc_MaxBodyBytes :: int
  hc_RequestTimeout :: duration
  hc_MaxInFlight :: int
  hc_OTelServerName :: string
  hc_TraceRequest :: "(http_request option \<Rightarrow> bool) option"
  hc_LogHealthProbes :: bool
  hc_RateLimiter :: "'l rate_limiter option"
  hc_RateLimitKey :: "(http_request option \<Rightarrow> string) option"

text \<open>What the chain is given besides its configuration: the encoder, the id \<^verbatim>\<open>rand.Text\<close> returns, whether the logger is
  enabled at info level, the captured metrics, the stack, and the third-party code. \<open>en_otel\<close> is the middleware built with a
  server name and a filter.\<close>

record ('m, 'l, 'x) chain_env =
  en_encode :: encoder
  en_generated :: string
  en_logEnabled :: bool
  en_snoop :: "write_op list \<Rightarrow> nat \<times> int"
  en_stack :: string
  en_sem :: "'m sem_lib"
  en_otel :: "string \<Rightarrow> (http_request option \<Rightarrow> bool) \<Rightarrow> ('m, 'l, 'x) server handler \<Rightarrow> ('m, 'l, 'x) server handler"
  en_route :: "http_request \<Rightarrow> chi_match"
  en_matches :: "string \<Rightarrow> string \<Rightarrow> bool"

definition traceNonWebhookRequest :: "http_request option \<Rightarrow> bool" where
  "traceNonWebhookRequest req =
     (case req of None \<Rightarrow> True | Some r \<Rightarrow> take (length ''/webhooks/'') (hr_path r) \<noteq> ''/webhooks/'')"

text \<open>\<^verbatim>\<open>net.JoinHostPort\<close> brackets a host with a colon in it.\<close>

definition otelServerName :: "string \<Rightarrow> string" where
  "otelServerName configured =
     (let serverName = cmp_Or [trim_space configured, ''service'']
      in if CHR '':'' \<in> set serverName then ''['' @ serverName @ '']:0'' else serverName @ '':0'')"

definition hardened :: "('m, 'l, 'x) chain_env \<Rightarrow> 'l HardenConfig \<Rightarrow> ('m, 'l, 'x) server handler \<Rightarrow> ('m, 'l, 'x) server handler" where
  "hardened env cfg apiSubrouter =
     (let encode = en_encode env;
          traceRequest = (case hc_TraceRequest cfg of None \<Rightarrow> traceNonWebhookRequest | Some trace \<Rightarrow> trace)
      in RequestCorrelation (en_generated env)
           (newRootRouter encode (en_route env) (en_matches env) apiSubrouter
              [en_otel env (otelServerName (hc_OTelServerName cfg)) traceRequest,
               SecurityHeaders,
               AccessLog (en_snoop env) (en_logEnabled env) (hc_LogHealthProbes cfg),
               RequestBodyLimit encode (hc_MaxBodyBytes cfg),
               RequestTimeout encode (hc_RequestTimeout cfg),
               MaxInFlight encode (en_sem env) (hc_MaxInFlight cfg),
               \<lambda>next. (case RateLimit encode (hc_RateLimiter cfg) (hc_RateLimitKey cfg) next of
                         None \<Rightarrow> next | Some handler \<Rightarrow> handler),
               Recover encode (en_stack env)]))"

definition Harden :: "('m, 'l, 'x) chain_env \<Rightarrow> bool \<Rightarrow> bool \<Rightarrow> 'l HardenConfig \<Rightarrow> ('m, 'l, 'x) server handler option
    \<Rightarrow> go_error + ('m, 'l, 'x) server handler" where
  "Harden env hasLog hasMetrics cfg apiSubrouter =
     (if \<not> hasLog then Inl (Fresh ''http router: logger is required'')
      else if \<not> hasMetrics then Inl (Fresh ''http router: metrics is required'')
      else case apiSubrouter of
             None \<Rightarrow> Inl (Fresh ''http router: api subrouter is required'')
           | Some api \<Rightarrow>
               if hc_MaxBodyBytes cfg \<le> 0 then Inl (Fresh ''http router: max body bytes must be > 0'')
               else if hc_RequestTimeout cfg \<le> 0 then Inl (Fresh ''http router: request timeout must be > 0'')
               else if hc_MaxInFlight cfg < 0 then Inl (Fresh ''http router: max in flight must be >= 0'')
               else if hc_RateLimiter cfg \<noteq> None \<and> hc_RateLimitKey cfg = None
               then Inl (Fresh ''http router: rate limit key is required when a rate limiter is configured'')
               else Inr (hardened env cfg api))"

section \<open>Commitment\<close>

lemma apply_op_committed: "rw_status (apply_op x w) = None \<longleftrightarrow> \<not> commits x \<and> rw_status w = None"
  by (cases x) (auto simp: implicit_ok_def WriteHeader_def set_header_def Let_def)

lemma committed_append [simp]: "committed (xs @ ys) = (committed xs \<or> committed ys)"
  by (simp add: committed_def)

lemma committed_Cons [simp]: "committed (x # xs) = (commits x \<or> committed xs)"
  by (simp add: committed_def)

lemma committed_Nil [simp]: "\<not> committed []"
  by (simp add: committed_def)

lemma fold_committed: "rw_status (fold apply_op ops w) = None \<longleftrightarrow> \<not> committed ops \<and> rw_status w = None"
  by (induction ops arbitrary: w) (auto simp: apply_op_committed)

lemma apply_op_started: "rw_status w = Some c \<Longrightarrow> rw_status (apply_op x w) = Some c \<and> rw_header (apply_op x w) = rw_header w"
  by (cases x) (auto simp: implicit_ok_def WriteHeader_def Let_def)

lemma fold_started: "rw_status w = Some c \<Longrightarrow> rw_status (fold apply_op ops w) = Some c \<and> rw_header (fold apply_op ops w) = rw_header w"
proof (induction ops arbitrary: w)
  case (Cons x ops)
  then show ?case using apply_op_started [OF Cons.prems, of x] by simp
qed simp

text \<open>A problem written to a response that has not started is what \<open>writeProblem\<close> leaves, and it commits the
  response.\<close>

lemma catalog_code_final: "200 \<le> def_Status (ForCodeOrInternal c)"
  using ForCodeOrInternal_in_catalog [of c] by (auto simp: catalog_def entry_def)

definition problem_write :: "problemResponse \<Rightarrow> string option \<Rightarrow> responseWriter \<Rightarrow> responseWriter" where
  "problem_write p body w =
     (let w1 = (if 0 < pr_retryAfter p
                then set_header ''Retry-After'' (decimal_int (retryAfterSeconds (pr_retryAfter p))) w else w);
          status = def_Status (ForCodeOrInternal (pr_code p))
      in case body of
           None \<Rightarrow> WriteHeader status w1
         | Some b \<Rightarrow> (let w2 = WriteHeader status (set_header ''Content-Type'' problemJSONContentType w1)
                      in w2\<lparr>rw_body := rw_body w2 @ b\<rparr>))"

lemma writeProblem_write: obtains body where "\<And>w. fst (writeProblem encode p (w, r)) = problem_write p body w"
proof (rule that)
  fix w
  show "fst (writeProblem encode p (w, r)) = problem_write p
     (encode \<lparr>p_Code = def_Code (ForCodeOrInternal (pr_code p)), p_Detail = EmptyableToPtr (pr_detail p),
        p_InvalidParams = optionalInvalidParams (pr_invalidParams p),
        p_RequestId = (case r of None \<Rightarrow> None | Some rq \<Rightarrow> EmptyableToPtr (rq_id rq)),
        p_Status = def_Status (ForCodeOrInternal (pr_code p)), p_Title = def_Title (ForCodeOrInternal (pr_code p)),
        p_Type = def_TypeURI (ForCodeOrInternal (pr_code p))\<rparr>) w"
    unfolding writeProblem_def problem_write_def Let_def by (simp split: option.splits)
qed

lemma problem_written:
  assumes "rw_status w = None"
  shows "fold apply_op (problem_ops encode p r) w = fst (writeProblem encode p (w, Some (hr_core r)))"
proof -
  obtain body where body: "\<And>w. fst (writeProblem encode p (w, Some (hr_core r))) = problem_write p body w"
    using writeProblem_write by blast
  have final: "\<not> def_Status (ForCodeOrInternal (pr_code p)) < 200" using catalog_code_final [of "pr_code p"] by simp
  show ?thesis
    unfolding problem_ops_def body Let_def
    by (cases "0 < pr_retryAfter p"; cases body)
      (use assms final in \<open>simp_all add: problem_write_def Let_def empty_writer_def set_header_def WriteHeader_def implicit_ok_def\<close>)
qed

lemma problem_ops_commit: "committed (problem_ops encode p r)"
proof -
  have "rw_status (fst (writeProblem encode p (empty_writer, Some (hr_core r)))) \<noteq> None"
    by (simp add: writeProblem_def Let_def WriteHeader_def empty_writer_def set_header_def split: option.splits)
  moreover have "rw_status empty_writer = None" by (simp add: empty_writer_def)
  ultimately show ?thesis using problem_written [of empty_writer encode p r] fold_committed [of "problem_ops encode p r" empty_writer]
    by (metis (full_types))
qed

lemma problem_status:
  assumes "\<not> committed before"
  shows "rw_status (response (before @ problem_ops encode p r)) = Some (def_Status (ForCodeOrInternal (pr_code p)))"
proof -
  have "rw_status (fold apply_op before empty_writer) = None" using assms by (simp add: fold_committed empty_writer_def)
  then show ?thesis by (simp add: response_def problem_written writeProblem_status)
qed

section \<open>The chain as one decision\<close>

text \<open>Who answers a correlated request: the chain itself with a problem, or the routed handler.\<close>

datatype ('m, 'l, 'x) admission = Refused problemResponse | Run http_request "('m, 'l, 'x) server"

definition rate_decision :: "'l HardenConfig \<Rightarrow> http_request \<Rightarrow> ('m, 'l, 'x) server \<Rightarrow> ('m, 'l, 'x) admission" where
  "rate_decision cfg r s =
     (case (hc_RateLimiter cfg, hc_RateLimitKey cfg) of
        (Some allow, Some keyFor) \<Rightarrow>
          if isHealthProbeRequest (Some r) \<or> keyFor (Some r) = '''' then Run r s
          else (case allow (keyFor (Some r)) (sv_limiter s) of
                  ((allowed, retryAfter), l) \<Rightarrow>
                    if allowed then Run r (s\<lparr>sv_limiter := l\<rparr>) else Refused (limited_problem retryAfter))
      | _ \<Rightarrow> Run r s)"

definition admission :: "('m, 'l, 'x) chain_env \<Rightarrow> 'l HardenConfig \<Rightarrow> http_request \<Rightarrow> ('m, 'l, 'x) server
    \<Rightarrow> ('m, 'l, 'x) admission" where
  "admission env cfg r s =
     (if hc_MaxBodyBytes cfg < hr_ContentLength r then Refused requestEntityTooLargeProblem
      else
        let r = (if hr_hasBody r then r\<lparr>hr_bodyLimit := Some (hc_MaxBodyBytes cfg)\<rparr> else r)\<lparr>hr_timeout := Some (hc_RequestTimeout cfg)\<rparr>
        in if hc_MaxInFlight cfg = 0 \<or> isHealthProbeRequest (Some r) then rate_decision cfg r s
           else case inflight_enter (en_sem env) s of
                  (False, _) \<Rightarrow> Refused shed_problem
                | (True, s') \<Rightarrow> rate_decision cfg r s')"

text \<open>What recovery and the time budget make of a handler's run.\<close>

definition contain :: "encoder \<Rightarrow> 's served \<Rightarrow> write_op list \<times> completion" where
  "contain encode a =
     (case out_end a of
        Returned \<Rightarrow>
          (out_ops a @ (if \<not> committed (out_ops a) \<and> errors_is_opt (out_ctxErr a) DeadlineExceeded
                        then problem_ops encode timeBudgetExceededProblem (out_request a) else []), Returned)
      | Panicked rec \<Rightarrow>
          if is_abort rec then (out_ops a, Panicked (PanicError False ErrAbortHandler))
          else (out_ops a @ (if committed (out_ops a) then [] else problem_ops encode recovered_problem (out_request a)), Returned))"

definition routed :: "('m, 'l, 'x) chain_env \<Rightarrow> ('m, 'l, 'x) server handler \<Rightarrow> ('m, 'l, 'x) server handler" where
  "routed env api r s =
     (case en_route env r of
        Matched \<Rightarrow> api r s
      | NotFound \<Rightarrow> fallback_NotFound (en_encode env) r s
      | MethodNotAllowed \<Rightarrow> fallback_MethodNotAllowed (en_encode env) (en_matches env) r s)"

definition correlated :: "string \<Rightarrow> http_request \<Rightarrow> http_request" where
  "correlated generated r =
     r\<lparr>hr_core := contextWithProblemRecord ((hr_core r)\<lparr>rq_id :=
        snd (ContextWithAcceptedRequestID generated (hr_header r requestIDHeader) \<lparr>ctx_principal = None, ctx_requestID = None\<rparr>)\<rparr>)\<rparr>"

text \<open>The OpenTelemetry middleware observes: it neither answers nor changes what is served.\<close>

definition otel_observes :: "('m, 'l, 'x) chain_env \<Rightarrow> bool" where
  "otel_observes env = (\<forall>name filter next r s. en_otel env name filter next r s = next r s)"

abbreviation answer :: "'s served \<Rightarrow> write_op list \<times> completion" where
  "answer out \<equiv> (out_ops out, out_end out)"

definition budget :: "encoder \<Rightarrow> 's served \<Rightarrow> write_op list \<times> completion" where
  "budget encode out =
     (if out_end out = Returned \<and> \<not> committed (out_ops out) \<and> errors_is_opt (out_ctxErr out) DeadlineExceeded
      then (out_ops out @ problem_ops encode timeBudgetExceededProblem (out_request out), Returned)
      else answer out)"

lemma timeout_answer: "0 < t \<Longrightarrow> answer (RequestTimeout encode t next r s) = budget encode (next (r\<lparr>hr_timeout := Some t\<rparr>) s)"
  by (simp add: RequestTimeout_def budget_def Let_def)

lemma budget_problem: "budget encode (answer_problem encode p r s) = (problem_ops encode p r, Returned)"
  by (simp add: budget_def answer_problem_def problem_ops_commit)

lemma budget_state: "budget encode (out\<lparr>out_state := s\<rparr>) = budget encode out"
  by (simp add: budget_def)

lemma budget_recover: "budget encode (Recover encode stack next r s) = contain encode (next r s)"
proof (cases "out_end (next r s)")
  case Returned
  then show ?thesis by (simp add: budget_def Recover_def contain_def Let_def)
next
  case (Panicked rec)
  then show ?thesis using problem_ops_commit by (simp add: budget_def Recover_def contain_def Let_def)
qed

text \<open>What the budget sees of the two limits.\<close>

definition decided :: "encoder \<Rightarrow> ('m, 'l, 'x) server handler \<Rightarrow> http_request \<Rightarrow> ('m, 'l, 'x) admission \<Rightarrow> write_op list \<times> completion" where
  "decided encode core r verdict =
     (case verdict of Refused p \<Rightarrow> (problem_ops encode p r, Returned) | Run r' s' \<Rightarrow> contain encode (core r' s'))"

lemma rate_limit_answer:
  assumes "hc_RateLimiter cfg \<noteq> None \<longrightarrow> hc_RateLimitKey cfg \<noteq> None"
    and "RateLimit encode (hc_RateLimiter cfg) (hc_RateLimitKey cfg) (Recover encode stack core) = Some limited"
  shows "budget encode (limited r s) = decided encode core r (rate_decision cfg r s)"
proof (cases "hc_RateLimiter cfg")
  case None
  then have "limited = Recover encode stack core" using assms(2) by (simp add: RateLimit_def)
  then show ?thesis using None by (simp add: rate_decision_def decided_def budget_recover)
next
  case (Some allow)
  then obtain keyFor where key: "hc_RateLimitKey cfg = Some keyFor" using assms(1) by auto
  have limited: "limited = RateLimit_serve encode allow keyFor (Recover encode stack core)"
    using assms(2) by (simp add: Some key RateLimit_def)
  obtain allowed d l where allow: "allow (keyFor (Some r)) (sv_limiter s) = ((allowed, d), l)" by (metis prod.exhaust)
  show ?thesis
    by (simp add: limited Some key allow RateLimit_serve_def rate_decision_def decided_def budget_recover budget_problem Let_def)
qed

lemma in_flight_answer:
  assumes "0 \<le> limit" "\<And>r s. budget encode (limited r s) = decided encode core r (rate_decision cfg r s)"
  shows "budget encode (MaxInFlight encode sem limit limited r s) =
    decided encode core r
      (if limit = 0 \<or> isHealthProbeRequest (Some r) then rate_decision cfg r s
       else case inflight_enter sem s of (False, _) \<Rightarrow> Refused shed_problem | (True, s') \<Rightarrow> rate_decision cfg r s')"
proof -
  obtain ok s' where enter: "inflight_enter sem s = (ok, s')" by fastforce
  show ?thesis
    using assms(1)
    by (cases ok) (auto simp: MaxInFlight_def enter assms(2) budget_problem budget_state Let_def decided_def)
qed

lemma AccessLog_answer: "out_ops (AccessLog snoop enabled probes next r s) = out_ops (next r s)"
  "out_end (AccessLog snoop enabled probes next r s) = out_end (next r s)"
  by (simp_all add: AccessLog_def Let_def split: prod.splits)

lemma decided_request: "decided encode core (r\<lparr>hr_timeout := t\<rparr>) v = decided encode core r v \<and>
    decided encode core (r\<lparr>hr_bodyLimit := b\<rparr>) v = decided encode core r v"
  by (cases v) (simp_all add: decided_def problem_ops_def)

lemma hardened_answer:
  assumes "otel_observes env" "Harden env hasLog hasMetrics cfg (Some api) = Inr h"
  shows "answer (h r s) =
    apfst (\<lambda>ops. SetHeader requestIDHeader (rq_id (hr_core (correlated (en_generated env) r)))
                 # SetHeader contentTypeOptionsHeader ''nosniff'' # ops)
      (decided (en_encode env) (routed env api) (correlated (en_generated env) r)
         (admission env cfg (correlated (en_generated env) r) s))"
proof -
  have cfg: "0 < hc_MaxBodyBytes cfg" "0 < hc_RequestTimeout cfg" "0 \<le> hc_MaxInFlight cfg"
    "hc_RateLimiter cfg \<noteq> None \<longrightarrow> hc_RateLimitKey cfg \<noteq> None" and h: "h = hardened env cfg api"
    using assms(2) by (auto simp: Harden_def split: if_splits)
  obtain limited where lim: "RateLimit (en_encode env) (hc_RateLimiter cfg) (hc_RateLimitKey cfg)
      (Recover (en_encode env) (en_stack env) (routed env api)) = Some limited"
    using cfg(4) by (cases "hc_RateLimiter cfg"; cases "hc_RateLimitKey cfg") (simp_all add: RateLimit_def)
  let ?r = "correlated (en_generated env) r" and ?encode = "en_encode env"
  let ?timed = "RequestTimeout ?encode (hc_RequestTimeout cfg)
      (MaxInFlight ?encode (en_sem env) (hc_MaxInFlight cfg) limited)"
  have core: "(\<lambda>r s. case en_route env r of Matched \<Rightarrow> api r s | NotFound \<Rightarrow> fallback_NotFound (en_encode env) r s
      | MethodNotAllowed \<Rightarrow> fallback_MethodNotAllowed (en_encode env) (en_matches env) r s) = routed env api"
    by (simp add: fun_eq_iff routed_def)
  have ops: "out_ops (h r s) = SetHeader requestIDHeader (rq_id (hr_core ?r)) # SetHeader contentTypeOptionsHeader ''nosniff''
      # out_ops (RequestBodyLimit ?encode (hc_MaxBodyBytes cfg) ?timed ?r s)"
    and end': "out_end (h r s) = out_end (RequestBodyLimit ?encode (hc_MaxBodyBytes cfg) ?timed ?r s)"
    using assms(1)
    by (simp_all add: AccessLog_answer h hardened_def Let_def newRootRouter_def core lim otel_observes_def RequestCorrelation_def
        SecurityHeaders_def correlated_def ContextWithAcceptedRequestID_def RequestID_def contextWithProblemRecord_def)
  have "answer (RequestBodyLimit ?encode (hc_MaxBodyBytes cfg) ?timed ?r s) =
      decided ?encode (routed env api) ?r (admission env cfg ?r s)"
  proof (cases "hc_MaxBodyBytes cfg < hr_ContentLength ?r")
    case True
    then show ?thesis
      using cfg(1) by (simp add: RequestBodyLimit_def admission_def decided_def answer_problem_def)
  next
    case False
    let ?b = "if hr_hasBody ?r then ?r\<lparr>hr_bodyLimit := Some (hc_MaxBodyBytes cfg)\<rparr> else ?r"
    have "answer (RequestBodyLimit ?encode (hc_MaxBodyBytes cfg) ?timed ?r s) = answer (?timed ?b s)"
      using False cfg(1) by (simp add: RequestBodyLimit_def)
    also have "\<dots> = budget ?encode (MaxInFlight ?encode (en_sem env) (hc_MaxInFlight cfg) limited
        (?b\<lparr>hr_timeout := Some (hc_RequestTimeout cfg)\<rparr>) s)"
      using cfg(2) by (rule timeout_answer)
    also have "\<dots> = decided ?encode (routed env api) (?b\<lparr>hr_timeout := Some (hc_RequestTimeout cfg)\<rparr>) (admission env cfg ?r s)"
      using False cfg(3) in_flight_answer [OF cfg(3) rate_limit_answer [OF cfg(4) lim]]
      by (simp add: admission_def Let_def)
    also have "\<dots> = decided ?encode (routed env api) ?r (admission env cfg ?r s)"
      by (simp add: decided_request)
    finally show ?thesis .
  qed
  with ops end' show ?thesis by (simp add: prod_eq_iff)
qed

definition status_of :: "problemResponse \<Rightarrow> nat" where
  "status_of p = def_Status (ForCodeOrInternal (pr_code p))"

lemma chain_statuses:
  "status_of requestEntityTooLargeProblem = 413" "status_of shed_problem = 503" "status_of (limited_problem d) = 429"
  "status_of recovered_problem = 500" "status_of timeBudgetExceededProblem = 504"
  by (simp_all add: status_of_def code_status requestEntityTooLargeProblem_def shed_problem_def limited_problem_def
      recovered_problem_def timeBudgetExceededProblem_def problem_response_def)

lemma admission_refuses:
  assumes "admission env cfg r s = Refused p"
  shows "p = requestEntityTooLargeProblem \<or> (p = shed_problem \<or> (\<exists>d. p = limited_problem d)) \<and> 0 < pr_retryAfter p"
proof -
  have rate: "\<exists>d. p = limited_problem d" if "rate_decision cfg r' s' = Refused p" for r' and s' :: "('a, 'b, 'c) server"
    using that by (auto simp: rate_decision_def split: option.splits if_splits prod.splits)
  have "p = requestEntityTooLargeProblem \<or> p = shed_problem \<or> (\<exists>d. p = limited_problem d)"
    using assms rate by (auto simp: admission_def Let_def split: if_splits prod.splits bool.splits)
  then show ?thesis by (auto simp: shed_problem_def shedRetryAfter_def second_def limited_problem_def)
qed

lemma uncommitted_headers: "\<not> committed [SetHeader a b, SetHeader c d]"
  by simp

lemma headers_of_problem:
  assumes "k \<noteq> ''Content-Type''" "k \<noteq> ''Retry-After''" "\<not> committed before"
  shows "rw_header (response (before @ problem_ops encode p r)) k = rw_header (response before) k"
proof -
  have "rw_status (fold apply_op before empty_writer) = None" using assms by (simp add: fold_committed empty_writer_def)
  then show ?thesis using assms by (simp add: response_def problem_written writeProblem_header)
qed

lemma retry_of_problem:
  assumes "0 < pr_retryAfter p" "\<not> committed before" "rw_header (response before) ''Retry-After'' = None"
  shows "rw_header (response (before @ problem_ops encode p r)) ''Retry-After'' = Some (decimal_int (retryAfterSeconds (pr_retryAfter p)))"
proof -
  have "rw_status (fold apply_op before empty_writer) = None" using assms by (simp add: fold_committed empty_writer_def)
  then show ?thesis using assms by (simp add: response_def problem_written writeProblem_retry)
qed

text \<open>C34: The hardened chain decides every request in one order. A request the chain refuses (its declared body is too
  large, no slot is free, its caller is over budget) is answered 413, 503 or 429 with the request id, \<^verbatim>\<open>nosniff\<close>
  and, for 503 and 429, a \<^verbatim>\<open>Retry-After\<close>, and the handler does not run. Otherwise the routed handler runs: a
  response it has started is never replaced; a panic before that becomes 500, an expired budget
  504. No panic but \<^verbatim>\<open>http.ErrAbortHandler\<close> ever leaves the chain.\<close>

theorem hardened_chain_decides:
  assumes "otel_observes env" and "Harden env hasLog hasMetrics cfg (Some api) = Inr h"
    and "r' = correlated (en_generated env) r" and "out = h r s"
    and "set_by_chain = [SetHeader requestIDHeader (rq_id (hr_core r')), SetHeader contentTypeOptionsHeader ''nosniff'']"
  shows "case admission env cfg r' s of
      Refused p \<Rightarrow>
        out_end out = Returned \<and> rw_status (response (out_ops out)) = Some (status_of p)
        \<and> status_of p \<in> {413, 503, 429}
        \<and> rw_header (response (out_ops out)) requestIDHeader = Some (rq_id (hr_core r'))
        \<and> rw_header (response (out_ops out)) contentTypeOptionsHeader = Some ''nosniff''
        \<and> (status_of p \<noteq> 413 \<longrightarrow> rw_header (response (out_ops out)) ''Retry-After'' \<noteq> None)
    | Run r1 s1 \<Rightarrow>
        (let run = routed env api r1 s1
         in (committed (out_ops run) \<longrightarrow> out_ops out = set_by_chain @ out_ops run)
            \<and> (\<not> committed (out_ops run) \<and> out_end run = Returned \<and> errors_is_opt (out_ctxErr run) DeadlineExceeded
                \<longrightarrow> rw_status (response (out_ops out)) = Some 504)
            \<and> (case out_end run of
                 Returned \<Rightarrow> out_end out = Returned
               | Panicked rec \<Rightarrow>
                   if is_abort rec then out_end out = Panicked (PanicError False ErrAbortHandler)
                   else out_end out = Returned
                        \<and> (\<not> committed (out_ops run) \<longrightarrow> rw_status (response (out_ops out)) = Some 500)))"
proof -
  have out: "answer out = apfst (\<lambda>ops. set_by_chain @ ops)
      (decided (en_encode env) (routed env api) r' (admission env cfg r' s))"
    using hardened_answer [OF assms(1,2), of r s] unfolding assms(3-5) by simp
  have pre: "\<not> committed set_by_chain" by (simp add: assms(5))
  show ?thesis
  proof (cases "admission env cfg r' s")
    case (Refused p)
    then have ops: "out_ops out = set_by_chain @ problem_ops (en_encode env) p r'" and fin: "out_end out = Returned"
      using out by (simp_all add: decided_def)
    have heads: "rw_header (response set_by_chain) requestIDHeader = Some (rq_id (hr_core r'))"
      "rw_header (response set_by_chain) contentTypeOptionsHeader = Some ''nosniff''"
      "rw_header (response set_by_chain) ''Retry-After'' = None"
      by (simp_all add: assms(5) response_def empty_writer_def set_header_def requestIDHeader_def contentTypeOptionsHeader_def)
    have kept: "rw_header (response (out_ops out)) requestIDHeader = Some (rq_id (hr_core r'))"
      "rw_header (response (out_ops out)) contentTypeOptionsHeader = Some ''nosniff''"
      using heads pre unfolding ops
      by (simp_all add: headers_of_problem requestIDHeader_def contentTypeOptionsHeader_def)
    have "status_of p \<in> {413, 503, 429}" using admission_refuses [OF Refused] chain_statuses by auto
    moreover have "rw_header (response (out_ops out)) ''Retry-After'' \<noteq> None" if "status_of p \<noteq> 413"
      using admission_refuses [OF Refused] that chain_statuses(1) retry_of_problem [OF _ pre heads(3)] unfolding ops by auto
    ultimately show ?thesis
      using fin kept problem_status [OF pre] unfolding Refused ops by (simp add: status_of_def)
  next
    case (Run r1 s1)
    let ?run = "routed env api r1 s1"
    have run: "(out_ops out, out_end out) = apfst (\<lambda>ops. set_by_chain @ ops) (contain (en_encode env) ?run)"
      using out Run by (simp add: decided_def)
    have st: "rw_status (response (set_by_chain @ out_ops ?run @ problem_ops e p q)) = Some (status_of p)"
      if "\<not> committed (out_ops ?run)" for e p q
      using problem_status [of "set_by_chain @ out_ops ?run" e p q] pre that by (simp add: status_of_def)
    have "(committed (out_ops ?run) \<longrightarrow> out_ops out = set_by_chain @ out_ops ?run)
            \<and> (\<not> committed (out_ops ?run) \<and> out_end ?run = Returned \<and> errors_is_opt (out_ctxErr ?run) DeadlineExceeded
                \<longrightarrow> rw_status (response (out_ops out)) = Some 504)
            \<and> (case out_end ?run of
                 Returned \<Rightarrow> out_end out = Returned
               | Panicked rec \<Rightarrow>
                   if is_abort rec then out_end out = Panicked (PanicError False ErrAbortHandler)
                   else out_end out = Returned
                        \<and> (\<not> committed (out_ops ?run) \<longrightarrow> rw_status (response (out_ops out)) = Some 500))"
      using run st by (auto simp: contain_def chain_statuses split: completion.splits if_splits)
    then show ?thesis using Run by (simp add: Let_def)
  qed
qed

section \<open>Requests in flight\<close>

text \<open>What \<^verbatim>\<open>golang.org/x/sync/semaphore\<close> documents for one weight at a time, with nobody blocked in \<^verbatim>\<open>Acquire\<close>: \<open>held\<close> is
  the weight in use, \<open>capacity\<close> the capacity.\<close>

definition sem_laws :: "'m sem_lib \<Rightarrow> ('m \<Rightarrow> int) \<Rightarrow> ('m \<Rightarrow> int) \<Rightarrow> bool" where
  "sem_laws sem held capacity =
     ((\<forall>n. held (sem_NewWeighted sem n) = 0 \<and> capacity (sem_NewWeighted sem n) = n)
      \<and> (\<forall>m ok m'. sem_TryAcquire sem 1 m = (ok, m') \<longrightarrow>
           capacity m' = capacity m \<and> ok = (held m + 1 \<le> capacity m) \<and> held m' = (if ok then held m + 1 else held m))
      \<and> (\<forall>m. 1 \<le> held m \<longrightarrow> held (sem_Release sem 1 m) = held m - 1 \<and> capacity (sem_Release sem 1 m) = capacity m))"

text \<open>Handlers of many requests interleave: one enters, is shed, works, or leaves. \<open>running\<close> counts those inside.\<close>

inductive inflight_step :: "'m sem_lib \<Rightarrow> ('m, 'l, 'x) server \<times> nat \<Rightarrow> ('m, 'l, 'x) server \<times> nat \<Rightarrow> bool" for sem where
  enter: "inflight_enter sem s = (True, s') \<Longrightarrow> inflight_step sem (s, running) (s', Suc running)"
| shed: "inflight_enter sem s = (False, s') \<Longrightarrow> inflight_step sem (s, running) (s', running)"
| work: "sv_sem s' = sv_sem s \<Longrightarrow> sv_active s' = sv_active s \<Longrightarrow> inflight_step sem (s, running) (s', running)"
| leave: "inflight_step sem (s, Suc running) (inflight_leave sem s, running)"

definition inflight_start :: "'m sem_lib \<Rightarrow> int \<Rightarrow> ('m, 'l, 'x) server \<times> nat \<Rightarrow> bool" where
  "inflight_start sem limit = (\<lambda>(s, running). sv_sem s = sem_NewWeighted sem limit \<and> sv_active s = 0 \<and> running = 0)"

definition inflight_inv :: "'m sem_lib \<Rightarrow> ('m \<Rightarrow> int) \<Rightarrow> ('m \<Rightarrow> int) \<Rightarrow> int \<Rightarrow> ('m, 'l, 'x) server \<times> nat \<Rightarrow> bool" where
  "inflight_inv sem held capacity limit = (\<lambda>(s, running).
     sem_laws sem held capacity \<longrightarrow> 0 < limit \<longrightarrow>
     held (sv_sem s) = int running \<and> capacity (sv_sem s) = limit \<and> int running \<le> limit \<and> sv_active s = int running)"

lemma sem_lawsD:
  assumes "sem_laws sem held capacity"
  shows "held (sem_NewWeighted sem n) = 0" "capacity (sem_NewWeighted sem n) = n"
    "sem_TryAcquire sem 1 m = (ok, m') \<Longrightarrow> capacity m' = capacity m \<and> ok = (held m + 1 \<le> capacity m)
       \<and> held m' = (if ok then held m + 1 else held m)"
    "1 \<le> held m \<Longrightarrow> held (sem_Release sem 1 m) = held m - 1 \<and> capacity (sem_Release sem 1 m) = capacity m"
  using assms unfolding sem_laws_def by blast+

lemma inflight_inv_step:
  assumes "inflight_inv sem held capacity limit a" "inflight_step sem a b"
  shows "inflight_inv sem held capacity limit b"
  using assms(2)
proof (cases rule: inflight_step.cases)
  case (enter s s' running)
  obtain m where "sem_TryAcquire sem 1 (sv_sem s) = (True, m)" "s' = Admitted (s\<lparr>sv_sem := m\<rparr>)"
    using enter(3) by (auto simp: inflight_enter_def split: prod.splits bool.splits)
  then show ?thesis
    using assms(1) sem_lawsD(3) [of sem held capacity "sv_sem s" True m] unfolding enter(1,2)
    by (auto simp: inflight_inv_def Admitted_def)
next
  case (shed s s' running)
  obtain m where "sem_TryAcquire sem 1 (sv_sem s) = (False, m)" "s' = Shed (s\<lparr>sv_sem := m\<rparr>)"
    using shed(3) by (auto simp: inflight_enter_def split: prod.splits bool.splits)
  then show ?thesis
    using assms(1) sem_lawsD(3) [of sem held capacity "sv_sem s" False m] unfolding shed(1,2)
    by (auto simp: inflight_inv_def Shed_def)
next
  case (leave s running)
  then show ?thesis
    using assms(1) sem_lawsD(4) [of sem held capacity "sv_sem s"]
    by (auto simp: inflight_inv_def inflight_leave_def Admitted_done_def Let_def)
qed (use assms(1) in \<open>auto simp: inflight_inv_def\<close>)

interpretation inflight: transition_system "inflight_start sem limit" "inflight_step sem" "inflight_inv sem held capacity limit"
proof unfold_locales
  show "inflight_inv sem held capacity limit s" if "inflight_start sem limit s" for s
    using that by (auto simp: inflight_start_def inflight_inv_def sem_lawsD split: prod.splits)
qed (rule inflight_inv_step)

text \<open>At most the configured number of handlers run at once, in every interleaving of requests. The
  gauge of active requests is that number exactly; a request is shed only when every slot is taken, and admitted
  whenever one is free.\<close>

theorem in_flight_limit_holds:
  assumes "sem_laws sem held capacity" and "0 < limit" and "inflight_start sem limit (s0, n0)"
    and "(inflight_step sem)\<^sup>*\<^sup>* (s0, n0) (s, running)"
  shows "int running \<le> limit \<and> sv_active s = int running \<and> (fst (inflight_enter sem s) \<longleftrightarrow> int running < limit)"
proof -
  have "inflight_inv sem held capacity limit (s, running)" using inflight.run_inv [OF assms(3,4)] .
  then have inv: "held (sv_sem s) = int running" "capacity (sv_sem s) = limit" "int running \<le> limit" "sv_active s = int running"
    using assms(1,2) by (auto simp: inflight_inv_def)
  obtain ok m where acq: "sem_TryAcquire sem 1 (sv_sem s) = (ok, m)" by fastforce
  then have "fst (inflight_enter sem s) = ok" by (cases ok) (auto simp: inflight_enter_def)
  moreover have "ok = (int running + 1 \<le> limit)" using sem_lawsD(3) [OF assms(1) acq] inv by simp
  ultimately show ?thesis using inv by auto
qed

definition example_sem :: "(int \<times> int) sem_lib" where
  "example_sem =
     \<lparr>sem_NewWeighted = (\<lambda>n. (0, n)),
      sem_TryAcquire = (\<lambda>k m. if fst m + k \<le> snd m then (True, (fst m + k, snd m)) else (False, m)),
      sem_Release = (\<lambda>k m. (fst m - k, snd m))\<rparr>"

definition example_server :: "int \<times> int \<Rightarrow> int \<Rightarrow> (int \<times> int, unit, unit) server" where
  "example_server m active = \<lparr>sv_sem = m, sv_active = active, sv_shed = 0, sv_limiter = (), sv_rest = ()\<rparr>"

lemma example_sem_laws: "sem_laws example_sem fst snd"
  by (auto simp: sem_laws_def example_sem_def split: if_splits)

lemma in_flight_limit_holds_witness:
  "sv_active (example_server (1, 1) 1) = 1 \<and> \<not> fst (inflight_enter example_sem (example_server (1, 1) 1))"
proof -
  have "inflight_step example_sem (example_server (0, 1) 0, 0) (example_server (1, 1) 1, Suc 0)"
    by (rule inflight_step.enter) (simp add: inflight_enter_def example_sem_def example_server_def Admitted_def)
  then have "(inflight_step example_sem)\<^sup>*\<^sup>* (example_server (0, 1) 0, 0) (example_server (1, 1) 1, 1)" by simp
  moreover have "inflight_start example_sem 1 (example_server (0, 1) 0, 0)"
    by (simp add: inflight_start_def example_server_def example_sem_def)
  ultimately show ?thesis
    using in_flight_limit_holds [OF example_sem_laws, of 1 "example_server (0, 1) 0" 0 "example_server (1, 1) 1" 1] by simp
qed

definition example_env :: "(int \<times> int, unit, unit) chain_env" where
  "example_env =
     \<lparr>en_encode = (\<lambda>_. None), en_generated = ''generated'', en_logEnabled = True, en_snoop = (\<lambda>_. (500, 1)), en_stack = '''',
      en_sem = example_sem, en_otel = (\<lambda>_ _ next. next), en_route = (\<lambda>_. Matched), en_matches = (\<lambda>_ _. False)\<rparr>"

definition example_config :: "unit HardenConfig" where
  "example_config =
     \<lparr>hc_MaxBodyBytes = 1000, hc_RequestTimeout = second, hc_MaxInFlight = 1, hc_OTelServerName = '''', hc_TraceRequest = None,
      hc_LogHealthProbes = False, hc_RateLimiter = None, hc_RateLimitKey = None\<rparr>"

definition example_http_request :: http_request where
  "example_http_request =
     \<lparr>hr_core = \<lparr>rq_id = '''', rq_record = None, rq_method = ''POST'', rq_template = ''''\<rparr>, hr_path = ''/orders'',
      hr_header = (\<lambda>_. ''''), hr_ContentLength = 2, hr_hasBody = True, hr_bodyLimit = None, hr_timeout = None,
      hr_routePattern = None, hr_Pattern = ''''\<rparr>"

text \<open>An operation that sets a header and panics.\<close>

definition example_api :: "(int \<times> int, unit, unit) server handler" where
  "example_api r s =
     \<lparr>out_ops = [SetHeader ''Location'' ''/orders/1''], out_end = Panicked (PanicString ''boom''), out_logs = [],
      out_request = r, out_ctxErr = None, out_state = s\<rparr>"

lemma hardened_chain_decides_witness:
  "\<exists>h. Harden example_env True True example_config (Some example_api) = Inr h
     \<and> rw_status (response (out_ops (h example_http_request (example_server (0, 1) 0)))) = Some 500"
proof -
  have obs: "otel_observes example_env" by (simp add: otel_observes_def example_env_def)
  have built: "Harden example_env True True example_config (Some example_api)
      = Inr (hardened example_env example_config example_api)"
    by (simp add: Harden_def example_config_def second_def)
  let ?r = "correlated (en_generated example_env) example_http_request"
  have "\<exists>r1 s1. admission example_env example_config ?r (example_server (0, 1) 0) = Run r1 s1"
    by (simp add: admission_def example_config_def rate_decision_def correlated_def contextWithProblemRecord_def example_http_request_def
        inflight_enter_def example_env_def example_sem_def example_server_def isHealthProbeRequest_def)
  then obtain r1 s1 where run: "admission example_env example_config ?r (example_server (0, 1) 0) = Run r1 s1" by blast
  have "routed example_env example_api r1 s1 = example_api r1 s1" by (simp add: routed_def example_env_def)
  then show ?thesis
    using built hardened_chain_decides [OF obs built refl refl refl, of example_http_request "example_server (0, 1) 0"]
    by (simp add: run Let_def example_api_def is_abort_def)
qed

end
