(* ===== verification/HttpRouter.thy ===== *)
theory HttpRouter
  imports HttpChain Health OutboundTrust HttpIdempotency
begin

text \<open>
  What the router is built from: the probe handlers (\<^verbatim>\<open>handlers.go\<close>, \<^verbatim>\<open>health_handlers.go\<close>), the seam
  that publishes the authenticated caller (\<^verbatim>\<open>identity.go\<close>), and the check of idempotent operations of the
  contract (\<^verbatim>\<open>idempotency.go\<close>). The OpenAPI document is data here: the maps of kin-openapi are lists in the order
  Go iterates them.
\<close>

section \<open>Probes\<close>

definition probeOperationCount :: nat where "probeOperationCount = 2"

record ('h, 'a) Handlers =
  hd_Health :: "'h option"
  hd_ReadinessGate :: "(unit \<Rightarrow> go_error option) option"
  hd_API :: "'a option"

record ('h, 'a) strictHandlers =
  st_API :: "'a option"
  st_health :: 'h
  st_readinessGate :: "unit \<Rightarrow> go_error option"

text \<open>\<open>declared\<close> is the number of operations of the generated interface; the inbound webhook is the third owned one.\<close>

definition newStrictHandlers :: "nat \<Rightarrow> ('h, 'a) Handlers \<Rightarrow> go_error + ('h, 'a) strictHandlers" where
  "newStrictHandlers declared h =
     (case hd_Health h of
        None \<Rightarrow> Inl (Fresh ''http router: health service is required'')
      | Some health \<Rightarrow>
          (case hd_ReadinessGate h of
             None \<Rightarrow> Inl (Fresh ''http router: readiness gate is required'')
           | Some gate \<Rightarrow>
               let ownedOperations = probeOperationCount + 1
               in if hd_API h = None \<and> ownedOperations < declared
                  then Inl (Fresh (''http router: handlers API is required: the OpenAPI contract declares '' @ decimal declared
                         @ '' operations and this package implements '' @ decimal ownedOperations))
                  else Inr \<lparr>st_API = hd_API h, st_health = health, st_readinessGate = gate\<rparr>))"

definition HealthLive :: "nat \<times> string" where "HealthLive = (200, ''ok'')"

definition HealthReady :: "instant \<Rightarrow> (Service, 'a) strictHandlers \<Rightarrow> nat \<times> string" where
  "HealthReady now h =
     (if st_readinessGate h () \<noteq> None then (503, ''not ready'')
      else if Cached now (st_health h) \<noteq> None then (503, ''not ready'')
      else (200, ''ok''))"

section \<open>The authenticated caller\<close>

abbreviation errUnresolvableAuthenticatedRequest :: go_error where
  "errUnresolvableAuthenticatedRequest \<equiv> Sentinel ''httpx.errUnresolvableAuthenticatedRequest''"
abbreviation errInvalidAuthenticatedPrincipal :: go_error where
  "errInvalidAuthenticatedPrincipal \<equiv> Sentinel ''httpx.errInvalidAuthenticatedPrincipal''"

text \<open>The validator's input: none, or with a validation input that has a request or none. The request is its context.\<close>

type_synonym auth_input = "req_context option option option"

definition authenticatedRequest :: "auth_input \<Rightarrow> req_context option" where
  "authenticatedRequest input =
     (case input of None \<Rightarrow> None | Some None \<Rightarrow> None | Some (Some request) \<Rightarrow> request)"

definition setPrincipal :: "auth_input \<Rightarrow> Principal \<Rightarrow> auth_input" where
  "setPrincipal input p = map_option (map_option (map_option (ContextWithPrincipal p))) input"

definition Authenticated :: "(auth_input \<Rightarrow> go_error + Principal) option \<Rightarrow> (auth_input \<Rightarrow> go_error option \<times> auth_input) option" where
  "Authenticated resolve =
     map_option (\<lambda>resolver input.
       case resolver input of
         Inl err \<Rightarrow> (Some err, input)
       | Inr p \<Rightarrow>
           if trim_space (Subject p) = '''' \<and> trim_space (ClientID p) = '''' then (Some errInvalidAuthenticatedPrincipal, input)
           else (case authenticatedRequest input of
                   None \<Rightarrow> (Some errUnresolvableAuthenticatedRequest, input)
                 | Some request \<Rightarrow> (None, setPrincipal input p))) resolve"

section \<open>Idempotent operations\<close>

definition idempotencyExtension :: string where "idempotencyExtension = ''x-idempotent''"
definition idempotency_Header :: string where "idempotency_Header = ''Idempotency-Key''"
definition idempotencyReplayHeaders :: "string list" where
  "idempotencyReplayHeaders = [''Content-Disposition'', ''Content-Encoding'', ''Content-Language'', ''Content-Type'', ''Location'']"

datatype extension_value = ExtBool bool | ExtOther string

record api_parameter =
  ap_In :: string
  ap_Name :: string
  ap_Required :: bool
  ap_MaxLength :: "nat option"

text \<open>A response reference without a value is \<open>None\<close>, otherwise the names of its headers. \<open>ap_MaxLength\<close> is none when the
  schema, its value or the keyword is missing.\<close>

record api_operation =
  ao_OperationID :: string
  ao_Extensions :: "(string \<times> extension_value) list"
  ao_Security :: "string list list option"
  ao_Parameters :: "api_parameter option list"
  ao_Responses :: "(string \<times> string list option) list option"

record api_spec =
  as_Paths :: "api_operation option list option list option"
  as_Security :: "string list list"

definition operationHasSecurity :: "api_spec \<Rightarrow> api_operation \<Rightarrow> bool" where
  "operationHasSecurity spec operation =
     (let requirements = (case ao_Security operation of None \<Rightarrow> as_Security spec | Some own \<Rightarrow> own)
      in requirements \<noteq> [] \<and> list_all (\<lambda>requirement. requirement \<noteq> []) requirements)"

fun operationHasRequiredKey :: "api_parameter option list \<Rightarrow> bool" where
  "operationHasRequiredKey [] = False"
| "operationHasRequiredKey (reference # rest) =
     (case reference of
        None \<Rightarrow> operationHasRequiredKey rest
      | Some parameter \<Rightarrow>
          if \<not> equal_fold (ap_In parameter) ''header'' \<or> \<not> equal_fold (ap_Name parameter) idempotency_Header
          then operationHasRequiredKey rest
          else ap_Required parameter \<and> ap_MaxLength parameter = Some MaxKeyBytes)"

text \<open>\<^verbatim>\<open>strconv.Atoi\<close> on a status text, and \<^verbatim>\<open>http.CanonicalHeaderKey\<close>.\<close>

definition success_status :: "string \<Rightarrow> bool" where
  "success_status status =
     (case parse_int 64 status of Some code \<Rightarrow> 200 \<le> code \<and> code < 300 | None \<Rightarrow> equal_fold status ''2XX'')"

fun validateIdempotentResponseHeaders ::
  "(string \<Rightarrow> string) \<Rightarrow> string \<Rightarrow> (string \<times> string list option) list \<Rightarrow> go_error option" where
  "validateIdempotentResponseHeaders canonical opID [] = None"
| "validateIdempotentResponseHeaders canonical opID ((status, reference) # rest) =
     (if \<not> success_status status then validateIdempotentResponseHeaders canonical opID rest
      else case reference of
             None \<Rightarrow> validateIdempotentResponseHeaders canonical opID rest
           | Some headers \<Rightarrow>
               (case find (\<lambda>name. canonical name \<notin> set idempotencyReplayHeaders) headers of
                  Some name \<Rightarrow> Some (Fresh (''http idempotency: operation '' @ opID @ '' success response header ''
                                @ canonical name @ '' is not replayable''))
                | None \<Rightarrow> validateIdempotentResponseHeaders canonical opID rest))"

definition required_statuses :: "nat list" where "required_statuses = [400, 401, 403, 422, 500, 503, 504]"

definition validateIdempotentOperation :: "(string \<Rightarrow> string) \<Rightarrow> api_spec \<Rightarrow> api_operation \<Rightarrow> extension_value \<Rightarrow> go_error option" where
  "validateIdempotentOperation canonical spec operation raw =
     (let opID = ao_OperationID operation
      in if raw \<noteq> ExtBool True then Some (Fresh (''http idempotency: operation '' @ opID @ '' must declare x-idempotent: true''))
         else if \<not> operationHasSecurity spec operation then Some (Fresh (''http idempotency: operation '' @ opID @ '' is not protected''))
         else if \<not> operationHasRequiredKey (ao_Parameters operation)
         then Some (Fresh (''http idempotency: operation '' @ opID @ '' lacks required Idempotency-Key''))
         else case (case ao_Responses operation of None \<Rightarrow> None | Some rs \<Rightarrow> validateIdempotentResponseHeaders canonical opID rs) of
                Some err \<Rightarrow> Some err
              | None \<Rightarrow>
                  (case find (\<lambda>status. case ao_Responses operation of None \<Rightarrow> True | Some rs \<Rightarrow> map_of rs (decimal status) = None)
                          required_statuses of
                     Some status \<Rightarrow> Some (Fresh (''http idempotency: operation '' @ opID @ '' lacks '' @ decimal status @ '' response''))
                   | None \<Rightarrow> None))"

fun validate_operations :: "(string \<Rightarrow> string) \<Rightarrow> api_spec \<Rightarrow> api_operation option list \<Rightarrow> bool \<Rightarrow> go_error + bool" where
  "validate_operations canonical spec [] found = Inr found"
| "validate_operations canonical spec (None # rest) found = validate_operations canonical spec rest found"
| "validate_operations canonical spec (Some operation # rest) found =
     (case map_of (ao_Extensions operation) idempotencyExtension of
        None \<Rightarrow> validate_operations canonical spec rest found
      | Some raw \<Rightarrow>
          (case validateIdempotentOperation canonical spec operation raw of
             Some err \<Rightarrow> Inl err
           | None \<Rightarrow> validate_operations canonical spec rest True))"

definition path_operations :: "api_operation option list option list \<Rightarrow> api_operation option list" where
  "path_operations paths = concat (map (\<lambda>path. case path of None \<Rightarrow> [] | Some ops \<Rightarrow> ops) paths)"

definition validateIdempotentOperations :: "(string \<Rightarrow> string) \<Rightarrow> api_spec option \<Rightarrow> go_error + bool" where
  "validateIdempotentOperations canonical spec =
     (case spec of
        None \<Rightarrow> Inl (Fresh ''http idempotency: OpenAPI spec is required'')
      | Some sp \<Rightarrow>
          (case as_Paths sp of
             None \<Rightarrow> Inl (Fresh ''http idempotency: OpenAPI spec is required'')
           | Some paths \<Rightarrow> validate_operations canonical sp (path_operations paths) False))"

section \<open>What the checks give\<close>

text \<open>A secured request that is admitted is attributed: when the authentication seam reports no error, the request the next
  handler gets carries the principal the resolver returned, and that principal names a subject or a client.\<close>

theorem authenticated_request_is_attributed:
  assumes "Authenticated (Some resolve) = Some authenticate" and "authenticate input = (None, input')"
  shows "\<exists>p ctx. resolve input = Inr p \<and> authenticatedRequest input' = Some ctx \<and> PrincipalFromContext ctx = Some p
     \<and> (trim_space (Subject p) \<noteq> '''' \<or> trim_space (ClientID p) \<noteq> '''')"
  using assms
  by (auto simp: Authenticated_def authenticatedRequest_def setPrincipal_def PrincipalFromContext_def ContextWithPrincipal_def
      split: sum.splits option.splits if_splits)

definition example_principal :: Principal where
  "example_principal = \<lparr>Issuer = ''iss'', Subject = ''s'', ClientID = '''', Scopes = []\<rparr>"

definition example_context :: req_context where
  "example_context = \<lparr>ctx_principal = None, ctx_requestID = None\<rparr>"

lemma authenticated_request_is_attributed_witness:
  "\<exists>authenticate input'. Authenticated (Some (\<lambda>_. Inr example_principal)) = Some authenticate
     \<and> authenticate (Some (Some (Some example_context))) = (None, input')
     \<and> (\<exists>ctx. authenticatedRequest input' = Some ctx \<and> PrincipalFromContext ctx = Some example_principal)"
proof -
  have "trim_space ''s'' \<noteq> ''''" by (simp add: trim_ascii)
  then obtain authenticate input' where run: "Authenticated (Some (\<lambda>_. Inr example_principal)) = Some authenticate"
    "authenticate (Some (Some (Some example_context))) = (None, input')"
    by (auto simp: Authenticated_def example_principal_def authenticatedRequest_def)
  then show ?thesis using authenticated_request_is_attributed [OF run] by auto
qed

text \<open>What an accepted declaration has.\<close>

definition replayable :: "(string \<Rightarrow> string) \<Rightarrow> api_operation \<Rightarrow> bool" where
  "replayable canonical operation =
     (\<forall>rs status headers name. ao_Responses operation = Some rs \<longrightarrow> (status, Some headers) \<in> set rs \<longrightarrow> success_status status \<longrightarrow>
        name \<in> set headers \<longrightarrow> canonical name \<in> set idempotencyReplayHeaders)"

lemma response_headers_ok:
  "validateIdempotentResponseHeaders canonical opID rs = None \<Longrightarrow> (status, Some headers) \<in> set rs \<Longrightarrow> success_status status \<Longrightarrow>
   name \<in> set headers \<Longrightarrow> canonical name \<in> set idempotencyReplayHeaders"
  by (induction canonical opID rs rule: validateIdempotentResponseHeaders.induct)
    (auto simp: find_None_iff split: if_splits option.splits)

lemma required_key_ok:
  "operationHasRequiredKey ps \<Longrightarrow> \<exists>p. Some p \<in> set ps \<and> equal_fold (ap_In p) ''header'' \<and> equal_fold (ap_Name p) idempotency_Header
     \<and> ap_Required p \<and> ap_MaxLength p = Some MaxKeyBytes"
  by (induction ps) (auto split: option.splits if_splits)

definition idempotent_contract :: "(string \<Rightarrow> string) \<Rightarrow> api_spec \<Rightarrow> api_operation \<Rightarrow> bool" where
  "idempotent_contract canonical spec operation =
     (operationHasSecurity spec operation \<and> replayable canonical operation
      \<and> (\<exists>p. Some p \<in> set (ao_Parameters operation) \<and> equal_fold (ap_Name p) idempotency_Header
           \<and> ap_Required p \<and> ap_MaxLength p = Some MaxKeyBytes)
      \<and> (\<exists>rs. ao_Responses operation = Some rs \<and> (\<forall>status \<in> set required_statuses. map_of rs (decimal status) \<noteq> None)))"

lemma validated_operation:
  assumes "validateIdempotentOperation canonical spec operation raw = None"
  shows "raw = ExtBool True \<and> idempotent_contract canonical spec operation"
proof -
  let ?missing = "\<lambda>status. case ao_Responses operation of None \<Rightarrow> True | Some rs \<Rightarrow> map_of rs (decimal status) = None"
  have basic: "raw = ExtBool True" "operationHasSecurity spec operation" "operationHasRequiredKey (ao_Parameters operation)"
    and heads: "(case ao_Responses operation of None \<Rightarrow> None
      | Some rs \<Rightarrow> validateIdempotentResponseHeaders canonical (ao_OperationID operation) rs) = None"
    and all: "find ?missing required_statuses = None"
    using assms by (auto simp: validateIdempotentOperation_def Let_def split: if_splits option.splits)
  have none: "\<not> ?missing status" if "status \<in> set required_statuses" for status
    using all that by (auto simp: find_None_iff)
  have "400 \<in> set required_statuses" by (simp add: required_statuses_def)
  then obtain rs where rs: "ao_Responses operation = Some rs" using none [of 400] by (auto split: option.splits)
  then have "map_of rs (decimal status) \<noteq> None" if "status \<in> set required_statuses" for status
    using none [OF that] by simp
  moreover have "replayable canonical operation"
    using heads rs response_headers_ok unfolding replayable_def by fastforce
  ultimately show ?thesis
    using basic rs required_key_ok [OF basic(3)] unfolding idempotent_contract_def by blast
qed

lemma validate_operations_ok:
  "validate_operations canonical spec ops found = Inr found' \<Longrightarrow>
   (\<forall>operation raw. Some operation \<in> set ops \<longrightarrow> map_of (ao_Extensions operation) idempotencyExtension = Some raw \<longrightarrow>
      idempotent_contract canonical spec operation)
   \<and> (found' \<longleftrightarrow> found \<or> (\<exists>operation. Some operation \<in> set ops \<and> map_of (ao_Extensions operation) idempotencyExtension \<noteq> None))"
proof (induction canonical spec ops found rule: validate_operations.induct)
  case (3 canonical spec operation rest found)
  show ?case
  proof (cases "map_of (ao_Extensions operation) idempotencyExtension")
    case None
    then show ?thesis using 3 by auto
  next
    case (Some raw)
    then have ok: "validateIdempotentOperation canonical spec operation raw = None"
      and rest: "validate_operations canonical spec rest True = Inr found'"
      using 3(3) by (auto split: option.splits)
    show ?thesis using 3(2) [OF Some ok rest] validated_operation [OF ok] Some by auto
  qed
qed auto

text \<open>The router starts only with sound idempotent operations. When the contract is accepted, every operation that
  declares \<^verbatim>\<open>x-idempotent\<close> is protected by a security requirement, requires an \<^verbatim>\<open>Idempotency-Key\<close> of at most the length the
  store accepts, declares every status the middleware may answer, and promises only success headers a
  replay can restore; the component is switched on exactly when there is such an operation.\<close>

theorem accepted_idempotent_contract:
  assumes "validateIdempotentOperations canonical (Some spec) = Inr found" and "as_Paths spec = Some paths"
  shows "(\<forall>operation raw. Some operation \<in> set (path_operations paths) \<longrightarrow>
            map_of (ao_Extensions operation) idempotencyExtension = Some raw \<longrightarrow> idempotent_contract canonical spec operation)
     \<and> (found \<longleftrightarrow> (\<exists>operation. Some operation \<in> set (path_operations paths)
            \<and> map_of (ao_Extensions operation) idempotencyExtension \<noteq> None))"
  using assms validate_operations_ok [of canonical spec "path_operations paths" False found]
  by (auto simp: validateIdempotentOperations_def)

definition example_operation :: api_operation where
  "example_operation =
     \<lparr>ao_OperationID = ''op'', ao_Extensions = [(''x-idempotent'', ExtBool True)], ao_Security = None,
      ao_Parameters = [Some \<lparr>ap_In = ''header'', ap_Name = ''Idempotency-Key'', ap_Required = True, ap_MaxLength = Some 255\<rparr>],
      ao_Responses = Some [(''400'', None), (''401'', None), (''403'', None), (''422'', None), (''500'', None), (''503'', None),
        (''504'', None)]\<rparr>"

definition example_api_spec :: api_spec where
  "example_api_spec = \<lparr>as_Paths = Some [Some [Some example_operation]], as_Security = [[''bearer'']]\<rparr>"

lemma example_contract: "validateIdempotentOperations id (Some example_api_spec) = Inr True"
  by code_simp

lemma accepted_idempotent_contract_witness: "idempotent_contract id example_api_spec example_operation"
  using accepted_idempotent_contract [OF example_contract, of "[Some [Some example_operation]]"]
  by (auto simp: example_api_spec_def path_operations_def example_operation_def idempotencyExtension_def)

end
