(* ===== verification/BearerAuth.thy ===== *)
theory BearerAuth
  imports HttpProblem ReqCtx OutboundTrust
begin

text \<open>
  Package \<^verbatim>\<open>internal/infra/bearerauthn\<close>: the bearer credential (\<^verbatim>\<open>bearer.go\<close>), the runtime around one trust
  engine (\<^verbatim>\<open>runtime.go\<close>, \<^verbatim>\<open>metrics.go\<close>), and its HTTP and gRPC boundaries (\<^verbatim>\<open>http.go\<close>, \<^verbatim>\<open>grpc.go\<close>). The failure kinds are
  those of \<open>HttpProblem\<close>.

  The trust engine is the \<^verbatim>\<open>Verifier\<close> interface: a function of the token on a state of its own. The counter of
  verifications is the list of the attributes it was increased with. gRPC metadata is a map with
  lower-case keys, as the library documents it. The wait on a stream operation is a function of what its
  \<^verbatim>\<open>select\<close> observes.
\<close>

section \<open>The credential\<close>

definition MaxTokenBytes :: nat where "MaxTokenBytes = 32768"
definition ClockSkew :: duration where "ClockSkew = 30 * second"

definition token_space :: "char \<Rightarrow> bool" where
  "token_space c = (of_char c \<in> {32, 9, 13, 10 :: nat})"

text \<open>\<^verbatim>\<open>strings.Cut(value, " ")\<close>.\<close>

definition cut_space :: "string \<Rightarrow> string \<times> string \<times> bool" where
  "cut_space value =
     (let before = takeWhile (\<lambda>c. c \<noteq> CHR '' '') value
      in (before, drop (length before + 1) value, length before < length value))"

definition bearerToken :: "string list \<Rightarrow> go_error + string" where
  "bearerToken values =
     (case values of
        [] \<Rightarrow> Inl (bearer_failure KindMissing)
      | [value] \<Rightarrow>
          if trim_space value \<noteq> value \<or> CHR '','' \<in> set value then Inl (bearer_failure KindMalformed)
          else (case cut_space value of
                  (scheme, token, found) \<Rightarrow>
                    let token = dropWhile (\<lambda>c. c = CHR '' '') token
                    in if \<not> found \<or> \<not> equal_fold scheme ''Bearer'' \<or> token = '''' \<or> list_ex token_space token
                       then Inl (bearer_failure KindMalformed)
                       else if MaxTokenBytes < length token then Inl (bearer_failure KindOversize)
                       else Inr token)
      | _ \<Rightarrow> Inl (bearer_failure KindMalformed))"

section \<open>The runtime\<close>

record Result =
  rs_Principal :: Principal
  rs_ExpiresAt :: instant

definition zero_principal :: Principal where
  "zero_principal = \<lparr>Issuer = '''', Subject = '''', ClientID = '''', Scopes = []\<rparr>"

definition zero_result :: Result where
  "zero_result = \<lparr>rs_Principal = zero_principal, rs_ExpiresAt = zero_time\<rparr>"

definition transportHTTP :: string where "transportHTTP = ''http''"
definition transportGRPC :: string where "transportGRPC = ''grpc''"

type_synonym 's verifier = "string \<Rightarrow> 's \<Rightarrow> (go_error + Result) \<times> 's"

text \<open>The state of a runtime: the engine's own, and the recorded verifications. \<open>has_metrics\<close> is whether the counter could be created.\<close>

record 's runtime =
  rt_engine :: 's
  rt_has_metrics :: bool
  rt_verifications :: "(string \<times> string) list list"

definition bearer_New :: "'s verifier option \<Rightarrow> bool \<Rightarrow> 's \<Rightarrow> go_error + ('s verifier \<times> 's runtime)" where
  "bearer_New verifier has_metrics engine =
     (case verifier of
        None \<Rightarrow> Inl (Fresh ''bearer authentication verifier is required'')
      | Some verify \<Rightarrow> Inr (verify, \<lparr>rt_engine = engine, rt_has_metrics = has_metrics, rt_verifications = []\<rparr>))"

definition verification_attributes :: "string \<Rightarrow> go_error option \<Rightarrow> (string \<times> string) list" where
  "verification_attributes carrier err =
     (let result = (if err = None then ''success'' else ''failure'');
          reason = (case err of
                      None \<Rightarrow> ''''
                    | Some e \<Rightarrow>
                        (case KindOf e of
                           None \<Rightarrow> ''invalid''
                         | Some kind \<Rightarrow> (case detailFor kind of (detail, found) \<Rightarrow> if found then kd_reason detail else ''invalid'')))
      in [(''authn.transport'', carrier), (''authn.result'', result)] @ (if reason \<noteq> '''' then [(''authn.reason'', reason)] else []))"

definition recordVerification :: "string \<Rightarrow> go_error option \<Rightarrow> 's runtime \<Rightarrow> 's runtime" where
  "recordVerification carrier err r =
     (if \<not> rt_has_metrics r then r
      else r\<lparr>rt_verifications := rt_verifications r @ [verification_attributes carrier err]\<rparr>)"

definition sanitizeVerifierError :: "go_error option \<Rightarrow> go_error option" where
  "sanitizeVerifierError err =
     (case err of
        None \<Rightarrow> None
      | Some e \<Rightarrow>
          if errors_is e Canceled \<or> errors_is e DeadlineExceeded then Some e
          else if KindOf e \<noteq> None then Some e
          else Some (VerificationFailure KindInvalid))"

definition validResult :: "Result \<Rightarrow> bool" where
  "validResult result = (Identified (rs_Principal result) \<and> rs_ExpiresAt result \<noteq> zero_time)"

definition verifyCredential :: "'s verifier \<Rightarrow> string list \<Rightarrow> string \<Rightarrow> 's runtime \<Rightarrow> (Result \<times> go_error option) \<times> 's runtime" where
  "verifyCredential verify values carrier r =
     (case bearerToken values of
        Inl err \<Rightarrow> ((zero_result, Some err), recordVerification carrier (Some err) r)
      | Inr token \<Rightarrow>
          (case verify token (rt_engine r) of
             (Inl err, engine) \<Rightarrow>
               let sanitized = sanitizeVerifierError (Some err); r = r\<lparr>rt_engine := engine\<rparr>
               in ((zero_result, sanitized), recordVerification carrier sanitized r)
           | (Inr verified, engine) \<Rightarrow>
               let r = r\<lparr>rt_engine := engine\<rparr>
               in if \<not> validResult verified
                  then ((zero_result, Some (bearer_failure KindUnavailable)),
                        recordVerification carrier (Some (bearer_failure KindUnavailable)) r)
                  else ((verified, None), recordVerification carrier None r)))"

section \<open>HTTP\<close>

abbreviation errUnsupportedSecurityScheme :: go_error where
  "errUnsupportedSecurityScheme \<equiv> Sentinel ''bearerauthn.errUnsupportedSecurityScheme''"

type_synonym header_map = "string \<Rightarrow> string list"

record security_scheme =
  ss_Type :: string
  ss_Scheme :: string

text \<open>The validator's input; its request is the header map, behind two pointers.\<close>

record authn_input =
  ai_SecurityScheme :: "security_scheme option"
  ai_Request :: "header_map option option"

definition bearerSecurityScheme :: "authn_input option \<Rightarrow> bool" where
  "bearerSecurityScheme input =
     (case input of
        None \<Rightarrow> False
      | Some i \<Rightarrow>
          (case ai_SecurityScheme i of
             None \<Rightarrow> False
           | Some scheme \<Rightarrow> equal_fold (ss_Type scheme) ''http'' \<and> equal_fold (ss_Scheme scheme) ''bearer''))"

definition requestFromAuthenticationInput :: "authn_input option \<Rightarrow> header_map option" where
  "requestFromAuthenticationInput input =
     (case input of None \<Rightarrow> None | Some i \<Rightarrow> (case ai_Request i of None \<Rightarrow> None | Some request \<Rightarrow> request))"

definition ResolveHTTP :: "'s verifier \<Rightarrow> authn_input option \<Rightarrow> 's runtime
    \<Rightarrow> (Principal \<times> go_error option) \<times> authn_input option \<times> 's runtime" where
  "ResolveHTTP verify input r =
     (if \<not> bearerSecurityScheme input then ((zero_principal, Some errUnsupportedSecurityScheme), input, r)
      else case requestFromAuthenticationInput input of
             None \<Rightarrow> ((zero_principal, Some (bearer_failure KindMalformed)), input,
                      recordVerification transportHTTP (Some (bearer_failure KindMalformed)) r)
           | Some header \<Rightarrow>
               let values = header ''Authorization'';
                   input = map_option (\<lambda>i. i\<lparr>ai_Request := Some (Some (header(''Authorization'' := [])))\<rparr>) input;
                   ((verified, err), r) = verifyCredential verify values transportHTTP r
               in ((rs_Principal verified, err), input, r))"

section \<open>gRPC\<close>

datatype grpc_code = gRPC_OK | gRPC_Canceled | gRPC_Unknown | gRPC_InvalidArgument | gRPC_DeadlineExceeded | gRPC_NotFound
  | gRPC_AlreadyExists | gRPC_PermissionDenied | gRPC_ResourceExhausted | gRPC_FailedPrecondition | gRPC_Aborted
  | gRPC_OutOfRange | gRPC_Unimplemented | gRPC_Internal | gRPC_Unavailable | gRPC_DataLoss | gRPC_Unauthenticated

type_synonym grpc_status = "grpc_code \<times> string"

record rpc_context =
  rp_metadata :: "(string \<Rightarrow> string list) option"
  rp_ctx :: req_context
  rp_deadline :: "instant option"
  rp_endsWithDrain :: bool

definition splitAuthorizationMetadata :: "rpc_context \<Rightarrow> rpc_context \<times> (string \<Rightarrow> string list)" where
  "splitAuthorizationMetadata ctx =
     (case rp_metadata ctx of
        None \<Rightarrow> (ctx, \<lambda>_. [])
      | Some incoming \<Rightarrow> (ctx\<lparr>rp_metadata := Some (incoming(''authorization'' := []))\<rparr>, incoming))"

definition publicHealthMethod :: "string \<Rightarrow> bool" where
  "publicHealthMethod fullMethod = (fullMethod = ''/grpc.health.v1.Health/Check'')"

definition authenticateRPC :: "'s verifier \<Rightarrow> rpc_context \<Rightarrow> (string \<Rightarrow> string list) \<Rightarrow> 's runtime
    \<Rightarrow> (go_error + rpc_context \<times> instant) \<times> 's runtime" where
  "authenticateRPC verify ctx incoming r =
     (case verifyCredential verify (incoming ''authorization'') transportGRPC r of
        ((verified, Some err), r) \<Rightarrow> (Inl err, r)
      | ((verified, None), r) \<Rightarrow>
          (Inr (ctx\<lparr>rp_ctx := ContextWithPrincipal (rs_Principal verified) (rp_ctx ctx)\<rparr>, rs_ExpiresAt verified), r))"

definition unauthenticatedCredential :: grpc_status where
  "unauthenticatedCredential = (gRPC_Unauthenticated, ''authentication credential is missing or invalid'')"

definition grpcAuthenticationError :: "go_error \<Rightarrow> grpc_status" where
  "grpcAuthenticationError err =
     (if errors_is err Canceled then (gRPC_Canceled, ''authentication canceled'')
      else if errors_is err DeadlineExceeded then (gRPC_DeadlineExceeded, ''authentication deadline exceeded'')
      else case KindOf err of
             None \<Rightarrow> unauthenticatedCredential
           | Some kind \<Rightarrow>
               if kind = KindOversize then (gRPC_ResourceExhausted, ''authentication credential is too large'')
               else if kind = KindUnavailable then (gRPC_Unavailable, ''authentication trust is unavailable'')
               else unauthenticatedCredential)"

text \<open>What an interceptor does with a call: refuse it, or run the handler with a context.\<close>

datatype rpc_outcome = Refuse grpc_status | Handle rpc_context

definition UnaryInterceptor :: "'s verifier \<Rightarrow> string \<Rightarrow> rpc_context \<Rightarrow> 's runtime \<Rightarrow> rpc_outcome \<times> 's runtime" where
  "UnaryInterceptor verify fullMethod ctx r =
     (let (clean, incoming) = splitAuthorizationMetadata ctx
      in if publicHealthMethod fullMethod then (Handle clean, r)
         else case authenticateRPC verify clean incoming r of
                (Inl err, r) \<Rightarrow> (Refuse (grpcAuthenticationError err), r)
              | (Inr (authenticated, _), r) \<Rightarrow> (Handle authenticated, r))"

definition earlier :: "instant option \<Rightarrow> instant \<Rightarrow> instant" where
  "earlier deadline t = (case deadline of None \<Rightarrow> t | Some d \<Rightarrow> min d t)"

definition StreamInterceptor :: "'s verifier \<Rightarrow> rpc_context \<Rightarrow> 's runtime \<Rightarrow> rpc_outcome \<times> 's runtime" where
  "StreamInterceptor verify ctx r =
     (let (clean, incoming) = splitAuthorizationMetadata ctx
      in case authenticateRPC verify clean incoming r of
           (Inl err, r) \<Rightarrow> (Refuse (grpcAuthenticationError err), r)
         | (Inr (authenticated, expiresAt), r) \<Rightarrow>
             (Handle (authenticated\<lparr>rp_deadline := Some (earlier (rp_deadline authenticated) (expiresAt + ClockSkew))\<rparr>), r))"

text \<open>What the wait observes: the operation's result and \<^verbatim>\<open>ctx.Err()\<close> after it, or the end of the context.\<close>

datatype wait_event = OperationDone "go_error option" "go_error option" | ContextDone go_error

definition waitMessageOperation :: "go_error option \<Rightarrow> wait_event \<Rightarrow> go_error option" where
  "waitMessageOperation ctxErr event =
     (case ctxErr of
        Some err \<Rightarrow> Some (WrapFmt ''authenticated gRPC stream context'' err)
      | None \<Rightarrow>
          (case event of
             OperationDone result (Some after) \<Rightarrow> Some (WrapFmt ''authenticated gRPC stream context'' after)
           | OperationDone result None \<Rightarrow> result
           | ContextDone err \<Rightarrow> Some (WrapFmt ''authenticated gRPC stream context'' err)))"

text \<open>Receiving a protobuf message: the caller's message is replaced by the detached one only on success.\<close>

definition RecvMsg :: "go_error option \<Rightarrow> wait_event \<Rightarrow> 'msg \<Rightarrow> 'msg \<Rightarrow> go_error option \<times> 'msg" where
  "RecvMsg ctxErr event detached received =
     (case waitMessageOperation ctxErr event of
        Some err \<Rightarrow> (Some (WrapFmt ''receive gRPC message'' err), received)
      | None \<Rightarrow> (None, detached))"

definition SendMsg :: "go_error option \<Rightarrow> wait_event \<Rightarrow> go_error option" where
  "SendMsg ctxErr event = map_option (WrapFmt ''send gRPC message'') (waitMessageOperation ctxErr event)"

definition recvNonProtoMsg :: "go_error option \<Rightarrow> go_error option \<Rightarrow> go_error option \<Rightarrow> go_error option" where
  "recvNonProtoMsg before result after =
     (case before of
        Some err \<Rightarrow> Some (WrapFmt ''receive authenticated gRPC message'' err)
      | None \<Rightarrow>
          (case result of
             Some err \<Rightarrow> Some (WrapFmt ''receive gRPC message'' err)
           | None \<Rightarrow> map_option (WrapFmt ''receive authenticated gRPC message'') after))"

section \<open>The credential's grammar\<close>

lemma cut_space_append:
  "CHR '' '' \<notin> set scheme \<Longrightarrow> cut_space (scheme @ CHR '' '' # rest) = (scheme, rest, True)"
  by (simp add: cut_space_def Let_def takeWhile_append)

lemma cut_space_found:
  assumes "cut_space raw = (scheme, rest, True)"
  shows "raw = scheme @ CHR '' '' # rest \<and> CHR '' '' \<notin> set scheme"
proof -
  let ?b = "takeWhile (\<lambda>c. c \<noteq> CHR '' '') raw" and ?d = "dropWhile (\<lambda>c. c \<noteq> CHR '' '') raw"
  have parts: "scheme = ?b" "rest = drop (length ?b + 1) raw" "length ?b < length raw"
    using assms unfolding cut_space_def Let_def prod.inject by auto
  have split: "?b @ ?d = raw" by simp
  have "?d \<noteq> []" using parts(3) split by (metis append_Nil2 nat_neq_iff)
  then obtain x xs where d: "?d = x # xs" by (cases ?d) auto
  then have "x = CHR '' ''" using hd_dropWhile [of "\<lambda>c. c \<noteq> CHR '' ''" raw] by auto
  moreover have "rest = xs" unfolding parts(2) by (subst split [symmetric], subst d) simp
  ultimately have "raw = scheme @ CHR '' '' # rest" using split d parts(1) by simp
  moreover have "CHR '' '' \<notin> set scheme" unfolding parts(1) by (auto dest: set_takeWhileD)
  ultimately show ?thesis by blast
qed

lemma leading_spaces: "\<exists>n. s = replicate n (CHR '' '') @ dropWhile (\<lambda>c. c = CHR '' '') s"
proof -
  have "takeWhile (\<lambda>c. c = CHR '' '') s = replicate (length (takeWhile (\<lambda>c. c = CHR '' '') s)) (CHR '' '')"
    by (rule replicate_eqI [symmetric, THEN sym]) (auto dest: set_takeWhileD)
  then show ?thesis by (metis takeWhile_dropWhile_id)
qed

lemma drop_spaces: "t \<noteq> '''' \<Longrightarrow> \<not> list_ex token_space t \<Longrightarrow> dropWhile (\<lambda>c. c = CHR '' '') (replicate n (CHR '' '') @ t) = t"
  by (induction n) (cases t, auto simp: token_space_def)

definition bearer_value :: "string \<Rightarrow> nat \<Rightarrow> string \<Rightarrow> string" where
  "bearer_value scheme n token = scheme @ CHR '' '' # replicate n (CHR '' '') @ token"

text \<open>The grammar of a bearer credential. A token is taken exactly from a single \<^verbatim>\<open>Authorization\<close> value that is the scheme
  \<^verbatim>\<open>Bearer\<close> in any case, one or more spaces, and the token, without a comma or surrounding
  whitespace, where the token has no blank and at most 32 KiB.\<close>

theorem bearer_token_grammar:
  "bearerToken values = Inr token \<longleftrightarrow>
     (\<exists>scheme n. values = [bearer_value scheme n token] \<and> CHR '' '' \<notin> set scheme \<and> equal_fold scheme ''Bearer''
        \<and> trim_space (bearer_value scheme n token) = bearer_value scheme n token
        \<and> CHR '','' \<notin> set (bearer_value scheme n token)
        \<and> token \<noteq> '''' \<and> \<not> list_ex token_space token \<and> length token \<le> 32768)" (is "?taken = ?grammar")
proof
  assume ?taken
  then obtain raw where raw: "values = [raw]" by (auto simp: bearerToken_def split: list.splits)
  obtain scheme rest found where cut: "cut_space raw = (scheme, rest, found)" by (metis prod.exhaust)
  let ?t = "dropWhile (\<lambda>c. c = CHR '' '') rest"
  have ok: "trim_space raw = raw" "CHR '','' \<notin> set raw" "found" "equal_fold scheme ''Bearer''" "?t = token"
    "token \<noteq> ''''" "\<not> list_ex token_space token" "length token \<le> 32768"
    using \<open>?taken\<close> by (auto simp: bearerToken_def raw cut Let_def MaxTokenBytes_def split: if_splits)
  have v: "raw = scheme @ CHR '' '' # rest" "CHR '' '' \<notin> set scheme" using cut_space_found cut ok(3) by auto
  obtain n where "rest = replicate n (CHR '' '') @ token" using leading_spaces [of rest] ok(5) by auto
  then have "raw = bearer_value scheme n token" using v by (simp add: bearer_value_def)
  then show ?grammar using raw ok v(2) by blast
next
  assume ?grammar
  then obtain scheme n where v: "values = [bearer_value scheme n token]" "CHR '' '' \<notin> set scheme" "equal_fold scheme ''Bearer''"
    "trim_space (bearer_value scheme n token) = bearer_value scheme n token" "CHR '','' \<notin> set (bearer_value scheme n token)"
    "token \<noteq> ''''" "\<not> list_ex token_space token" "length token \<le> 32768" by blast
  have "cut_space (bearer_value scheme n token) = (scheme, replicate n (CHR '' '') @ token, True)"
    unfolding bearer_value_def by (rule cut_space_append [OF v(2)])
  then show ?taken
    using v by (simp add: bearerToken_def Let_def MaxTokenBytes_def drop_spaces [OF v(6,7)] del: dropWhile_eq_Nil_conv)
qed

section \<open>Admission\<close>

lemma KindOf_bearer_failure: "KindOf (bearer_failure k) = Some k"
  by (simp add: KindOf_def bearer_failure_def)

lemma KindOf_VerificationFailure: "KindOf (VerificationFailure k) = Some k"
  by (simp add: KindOf_def VerificationFailure_def bearer_failure_def)

lemma bearerToken_kind: "bearerToken values = Inl err \<Longrightarrow> KindOf err \<noteq> None"
proof -
  have "case bearerToken values of Inl e \<Rightarrow> KindOf e \<noteq> None | Inr _ \<Rightarrow> True"
    unfolding bearerToken_def Let_def by (simp add: KindOf_bearer_failure split: list.split prod.split)
  then show "bearerToken values = Inl err \<Longrightarrow> KindOf err \<noteq> None" by simp
qed

text \<open>What a proven credential is: the engine accepted the token and named an identified principal and an expiry.\<close>

definition proven :: "'s verifier \<Rightarrow> string list \<Rightarrow> 's \<Rightarrow> Result \<Rightarrow> bool" where
  "proven verify values engine verified =
     (\<exists>token engine'. bearerToken values = Inr token \<and> verify token engine = (Inr verified, engine')
        \<and> Identified (rs_Principal verified) \<and> rs_ExpiresAt verified \<noteq> zero_time)"

lemma verify_proven:
  "verifyCredential verify values carrier r = ((verified, None), r') \<Longrightarrow> proven verify values (rt_engine r) verified"
  by (auto simp: verifyCredential_def proven_def validResult_def sanitizeVerifierError_def Let_def
      split: sum.splits prod.splits if_splits)

lemma authenticate_proven:
  assumes "authenticateRPC verify ctx incoming r = (Inr (ctx', expiresAt), r')"
  shows "\<exists>verified. proven verify (incoming ''authorization'') (rt_engine r) verified \<and> expiresAt = rs_ExpiresAt verified
     \<and> PrincipalFromContext (rp_ctx ctx') = Some (rs_Principal verified) \<and> rp_metadata ctx' = rp_metadata ctx
     \<and> rp_deadline ctx' = rp_deadline ctx"
proof -
  obtain verified where "verifyCredential verify (incoming ''authorization'') transportGRPC r = ((verified, None), r')"
    "ctx' = ctx\<lparr>rp_ctx := ContextWithPrincipal (rs_Principal verified) (rp_ctx ctx)\<rparr>" "expiresAt = rs_ExpiresAt verified"
    using assms by (auto simp: authenticateRPC_def split: prod.splits option.splits)
  then show ?thesis
    by (intro exI [of _ verified]) (auto dest: verify_proven simp: PrincipalFromContext_def ContextWithPrincipal_def)
qed

definition credential_free :: "rpc_context \<Rightarrow> bool" where
  "credential_free ctx = (\<forall>md. rp_metadata ctx = Some md \<longrightarrow> md ''authorization'' = [])"

definition rpc_credentials :: "rpc_context \<Rightarrow> string list" where
  "rpc_credentials ctx = (case rp_metadata ctx of None \<Rightarrow> [] | Some md \<Rightarrow> md ''authorization'')"

lemma split_clean:
  "splitAuthorizationMetadata ctx = (clean, incoming) \<Longrightarrow>
     credential_free clean \<and> incoming ''authorization'' = rpc_credentials ctx \<and> rp_deadline clean = rp_deadline ctx"
  by (auto simp: splitAuthorizationMetadata_def credential_free_def rpc_credentials_def split: option.splits)

lemma unary_admits:
  assumes "UnaryInterceptor verify fullMethod ctx r = (Handle ctx', r')"
  shows "credential_free ctx' \<and> (publicHealthMethod fullMethod \<or> (\<exists>verified. proven verify (rpc_credentials ctx) (rt_engine r) verified
     \<and> PrincipalFromContext (rp_ctx ctx') = Some (rs_Principal verified)))"
proof -
  obtain clean incoming where split: "splitAuthorizationMetadata ctx = (clean, incoming)" by fastforce
  show ?thesis
  proof (cases "publicHealthMethod fullMethod")
    case True
    then show ?thesis using assms split_clean [OF split] by (simp add: UnaryInterceptor_def split)
  next
    case False
    then obtain expiresAt where "authenticateRPC verify clean incoming r = (Inr (ctx', expiresAt), r')"
      using assms by (auto simp: UnaryInterceptor_def split split: prod.splits sum.splits)
    from authenticate_proven [OF this] show ?thesis using split_clean [OF split] by (auto simp: credential_free_def)
  qed
qed

lemma stream_admits:
  assumes "StreamInterceptor verify ctx r = (Handle ctx', r')"
  shows "credential_free ctx' \<and> (\<exists>verified. proven verify (rpc_credentials ctx) (rt_engine r) verified
     \<and> PrincipalFromContext (rp_ctx ctx') = Some (rs_Principal verified)
     \<and> (\<exists>deadline. rp_deadline ctx' = Some deadline \<and> deadline \<le> rs_ExpiresAt verified + ClockSkew))"
proof -
  obtain clean incoming where split: "splitAuthorizationMetadata ctx = (clean, incoming)" by fastforce
  obtain authenticated expiresAt where auth: "authenticateRPC verify clean incoming r = (Inr (authenticated, expiresAt), r')"
    and ctx': "ctx' = authenticated\<lparr>rp_deadline := Some (earlier (rp_deadline authenticated) (expiresAt + ClockSkew))\<rparr>"
    using assms by (auto simp: StreamInterceptor_def split split: prod.splits sum.splits)
  have "earlier d t \<le> t" for d t by (simp add: earlier_def split: option.splits)
  then show ?thesis
    using authenticate_proven [OF auth] split_clean [OF split] unfolding ctx' by (auto simp: credential_free_def)
qed

lemma http_admits:
  assumes "ResolveHTTP verify input r = ((p, None), input', r')"
  shows "\<exists>header header' verified. requestFromAuthenticationInput input = Some header
     \<and> proven verify (header ''Authorization'') (rt_engine r) verified \<and> p = rs_Principal verified
     \<and> requestFromAuthenticationInput input' = Some header' \<and> header' ''Authorization'' = []"
proof -
  obtain header where header: "requestFromAuthenticationInput input = Some header"
    using assms by (auto simp: ResolveHTTP_def split: if_splits option.splits)
  obtain verified where run: "verifyCredential verify (header ''Authorization'') transportHTTP r = ((verified, None), r')"
    and p: "p = rs_Principal verified"
    and input': "input' = map_option (\<lambda>i. i\<lparr>ai_Request := Some (Some (header(''Authorization'' := [])))\<rparr>) input"
    using assms header by (auto simp: ResolveHTTP_def split: if_splits prod.splits)
  have "requestFromAuthenticationInput input' = Some (header(''Authorization'' := []))"
    using header unfolding input' by (auto simp: requestFromAuthenticationInput_def split: option.splits)
  then show ?thesis using header verify_proven [OF run] p by auto
qed

text \<open>Nothing runs on a credential that was not proven, and no handler sees a credential. A unary RPC other than the health
  probe, a stream, and a bearer-secured HTTP request are admitted only when the trust engine
  accepted the one bearer token that was sent and named an identified principal; that principal
  is what the handler finds in its context, the credential is gone from metadata and headers, and a stream's
  context ends at the latest at the token's expiry plus the clock skew.\<close>

theorem admitted_calls_are_authenticated:
  "(UnaryInterceptor verify fullMethod ctx r = (Handle ctx', r') \<longrightarrow>
      credential_free ctx' \<and> (fullMethod = ''/grpc.health.v1.Health/Check'' \<or>
        (\<exists>verified. proven verify (rpc_credentials ctx) (rt_engine r) verified
           \<and> PrincipalFromContext (rp_ctx ctx') = Some (rs_Principal verified))))
   \<and> (StreamInterceptor verify ctx r = (Handle ctx', r') \<longrightarrow>
      credential_free ctx' \<and> (\<exists>verified deadline. proven verify (rpc_credentials ctx) (rt_engine r) verified
        \<and> PrincipalFromContext (rp_ctx ctx') = Some (rs_Principal verified)
        \<and> rp_deadline ctx' = Some deadline \<and> deadline \<le> rs_ExpiresAt verified + ClockSkew))
   \<and> (ResolveHTTP verify input r = ((p, None), input', r') \<longrightarrow>
      (\<exists>header header' verified. requestFromAuthenticationInput input = Some header
        \<and> proven verify (header ''Authorization'') (rt_engine r) verified \<and> p = rs_Principal verified
        \<and> requestFromAuthenticationInput input' = Some header' \<and> header' ''Authorization'' = []))"
  using unary_admits [of verify fullMethod ctx r ctx' r'] stream_admits [of verify ctx r ctx' r'] http_admits [of verify input r p input' r']
  unfolding publicHealthMethod_def by blast

text \<open>Every failed verification is a classified one. The error has one of the declared kinds or is the caller's own
  cancellation or deadline, so no text of a trust engine reaches a response; the caller gets the zero
  result; and exactly one outcome is counted, with its reason.\<close>

theorem verification_failure_is_classified:
  assumes "verifyCredential verify values carrier r = ((verified, Some err), r')"
  shows "verified = zero_result \<and> (KindOf err \<noteq> None \<or> errors_is err Canceled \<or> errors_is err DeadlineExceeded)
     \<and> rt_verifications r' = rt_verifications r @ (if rt_has_metrics r then [verification_attributes carrier (Some err)] else [])"
proof (cases "bearerToken values")
  case (Inl e)
  then show ?thesis
    using assms bearerToken_kind [OF Inl] by (auto simp: verifyCredential_def recordVerification_def)
next
  case (Inr token)
  then show ?thesis
    using assms
    by (auto simp: verifyCredential_def recordVerification_def sanitizeVerifierError_def KindOf_bearer_failure
        KindOf_VerificationFailure Let_def split: sum.splits prod.splits if_splits)
qed

definition example_verified :: Result where
  "example_verified =
     \<lparr>rs_Principal = \<lparr>Issuer = ''i'', Subject = ''s'', ClientID = '''', Scopes = []\<rparr>, rs_ExpiresAt = 7\<rparr>"

definition example_verifier :: "unit verifier" where
  "example_verifier token engine = (if token = ''good'' then Inr example_verified else Inl (Fresh ''secret detail''), engine)"

definition example_runtime :: "unit runtime" where
  "example_runtime = \<lparr>rt_engine = (), rt_has_metrics = True, rt_verifications = []\<rparr>"

definition example_rpc :: rpc_context where
  "example_rpc =
     \<lparr>rp_metadata = Some (\<lambda>k. if k = ''authorization'' then [''Bearer good''] else []),
      rp_ctx = \<lparr>ctx_principal = None, ctx_requestID = None\<rparr>, rp_deadline = None, rp_endsWithDrain = False\<rparr>"

lemma example_trims: "trim_space ''Bearer good'' = ''Bearer good''" "trim_space ''Bearer bad'' = ''Bearer bad''"
  "equal_fold ''Bearer'' ''Bearer''"
  by (simp_all add: trim_ascii equal_fold_def)

lemma example_bearer_tokens: "bearerToken [''Bearer good''] = Inr ''good''" "bearerToken [''Bearer bad''] = Inr ''bad''"
  by (simp_all add: bearerToken_def example_trims cut_space_def token_space_def MaxTokenBytes_def)

lemma example_identified: "Identified (rs_Principal example_verified)"
  by (simp add: Identified_def example_verified_def trim_ascii)

lemma example_proof:
  "verifyCredential example_verifier [''Bearer good''] carrier example_runtime
     = ((example_verified, None), recordVerification carrier None example_runtime)"
proof -
  have "validResult example_verified"
    using example_identified by (simp add: validResult_def example_verified_def [THEN arg_cong [of _ _ rs_ExpiresAt]] zero_time_def)
  then show ?thesis by (simp add: verifyCredential_def example_bearer_tokens example_verifier_def example_runtime_def)
qed

lemma admitted_calls_are_authenticated_witness:
  "\<exists>ctx' r'. StreamInterceptor example_verifier example_rpc example_runtime = (Handle ctx', r')
     \<and> credential_free ctx' \<and> (\<exists>deadline. rp_deadline ctx' = Some deadline)"
proof -
  have "\<exists>ctx' r'. StreamInterceptor example_verifier example_rpc example_runtime = (Handle ctx', r')"
    by (simp add: StreamInterceptor_def splitAuthorizationMetadata_def example_rpc_def authenticateRPC_def example_proof)
  then obtain ctx' r' where run: "StreamInterceptor example_verifier example_rpc example_runtime = (Handle ctx', r')" by blast
  then show ?thesis
    using admitted_calls_are_authenticated [of example_verifier "''''" example_rpc example_runtime ctx' r' None zero_principal None] by blast
qed

lemma verification_failure_is_classified_witness:
  "\<exists>err r'. verifyCredential example_verifier [''Bearer bad''] transportGRPC example_runtime = ((zero_result, Some err), r')
     \<and> length (rt_verifications r') = 1"
proof -
  have "\<exists>err r'. verifyCredential example_verifier [''Bearer bad''] transportGRPC example_runtime = ((zero_result, Some err), r')"
    by (auto simp: verifyCredential_def example_bearer_tokens example_verifier_def Let_def sanitizeVerifierError_def)
  then obtain err r' where run: "verifyCredential example_verifier [''Bearer bad''] transportGRPC example_runtime = ((zero_result, Some err), r')"
    by blast
  then show ?thesis using verification_failure_is_classified [OF run] by (auto simp: example_runtime_def)
qed

lemma bearerToken_length: "bearerToken values = Inr token \<Longrightarrow> length token \<le> MaxTokenBytes"
  by (auto simp: bearerToken_def Let_def split: list.splits if_splits prod.splits)

section \<open>The contract of a trust engine\<close>

text \<open>What the runtime relies on: an engine answers with a classified error or the caller's own context error, and a
  result names its caller. Then the runtime forwards the engine's errors as they are, and the only accepted results it
  withholds are those without an issuer or an expiry.\<close>

definition classified_failure :: "go_error \<Rightarrow> bool" where
  "classified_failure err = (KindOf err \<noteq> None \<or> errors_is err Canceled \<or> errors_is err DeadlineExceeded)"

definition names_caller :: "Result \<Rightarrow> bool" where
  "names_caller verified = (trim_space (Subject (rs_Principal verified)) \<noteq> '''' \<or> trim_space (ClientID (rs_Principal verified)) \<noteq> '''')"

locale trust_engine =
  fixes verify :: "'s verifier"
  assumes failure_classified: "verify token s = (Inl err, s') \<Longrightarrow> classified_failure err"
    and success_named: "verify token s = (Inr verified, s') \<Longrightarrow> names_caller verified"
begin

lemma failure_kept: "verify token s = (Inl err, s') \<Longrightarrow> sanitizeVerifierError (Some err) = Some err"
  by (drule failure_classified) (auto simp: classified_failure_def sanitizeVerifierError_def)

lemma failure_forwarded:
  assumes "bearerToken values = Inr token" "verify token (rt_engine r) = (Inl err, s')"
  shows "fst (verifyCredential verify values carrier r) = (zero_result, Some err)"
  using assms failure_kept [OF assms(2)] by (simp add: verifyCredential_def Let_def)

lemma success_forwarded:
  assumes "bearerToken values = Inr token" "verify token (rt_engine r) = (Inr verified, s')"
    and "trim_space (Issuer (rs_Principal verified)) \<noteq> ''''" "rs_ExpiresAt verified \<noteq> zero_time"
  shows "fst (verifyCredential verify values carrier r) = (verified, None)"
  using assms success_named [OF assms(2)] by (auto simp: verifyCredential_def validResult_def Identified_def names_caller_def Let_def)

end

end
