(* ===== verification/GrpcBoundary.thy ===== *)
theory GrpcBoundary
  imports BearerAuth HttpChain "HOL-Library.Multiset"
begin

text \<open>
  Package \<^verbatim>\<open>internal/infra/grpc\<close>: the error boundaries (\<^verbatim>\<open>status.go\<close>), the interceptors for recovery, deadline, admission,
  drain and validation, their order (\<^verbatim>\<open>chain.go\<close>), the limits (\<^verbatim>\<open>config.go\<close>) and the server's life (\<^verbatim>\<open>server.go\<close>,
  \<^verbatim>\<open>health_method.go\<close>).

  Errors here may be or wrap gRPC statuses: \<open>rpc_error\<close> adds those leaves, and \<open>plain\<close> is the error a
  domain mapper sees. A handler is a function on the state of the process and may panic. The
  protobuf validator, the semaphores and grpc-go itself are parameters; that the stats handler tags a call
  before its interceptors and reports its end after its handler is how grpc-go calls them.

  The drain of the server is a step relation: calls are tagged, admitted, run and end in any
  interleaving with \<^verbatim>\<open>start\<close>.
\<close>

section \<open>Statuses and errors\<close>

record violation =
  vi_rule :: string
  vi_message :: "string option"
  vi_elements :: "(string \<times> string option) list"

datatype status_detail = RetryInfo duration | ErrorInfo string string | Violations "violation list"

record rpc_status =
  gs_code :: grpc_code
  gs_message :: string
  gs_details :: "status_detail list"

datatype rpc_error = Plain go_error | StatusError rpc_status | OwnedStatus rpc_status | Wrapped string rpc_error
  | Joined "rpc_error list"

fun plain :: "rpc_error \<Rightarrow> go_error" where
  "plain (Plain e) = e"
| "plain (StatusError s) = Typed ''*status.Error'' (gs_message s)"
| "plain (OwnedStatus s) = Typed ''*grpcx.ownedStatusError'' (gs_message s)"
| "plain (Wrapped m e) = WrapFmt m (plain e)"
| "plain (Joined es) = errors_join (map plain es)"

text \<open>\<^verbatim>\<open>errors.AsType[*ownedStatusError]\<close>, and the error's own status.\<close>

fun as_owned :: "rpc_error \<Rightarrow> rpc_status option" where
  "as_owned (Plain e) = None"
| "as_owned (StatusError s) = None"
| "as_owned (OwnedStatus s) = Some s"
| "as_owned (Wrapped m e) = as_owned e"
| "as_owned (Joined es) = (case filter (\<lambda>r. r \<noteq> None) (map as_owned es) of [] \<Rightarrow> None | r # _ \<Rightarrow> r)"

definition directStatus :: "rpc_error \<Rightarrow> rpc_status option" where
  "directStatus err = (case err of StatusError s \<Rightarrow> Some s | OwnedStatus s \<Rightarrow> Some s | _ \<Rightarrow> None)"

definition new_status :: "grpc_code \<Rightarrow> string \<Rightarrow> rpc_status" where
  "new_status c detail = \<lparr>gs_code = c, gs_message = detail, gs_details = []\<rparr>"

definition ownedStatus :: "grpc_code \<Rightarrow> string \<Rightarrow> rpc_error" where
  "ownedStatus c detail = OwnedStatus (new_status c detail)"

definition mapContextError :: "rpc_error \<Rightarrow> rpc_error option" where
  "mapContextError err =
     (if errors_is (plain err) Canceled then Some (ownedStatus gRPC_Canceled ''request canceled'')
      else if errors_is (plain err) DeadlineExceeded then Some (ownedStatus gRPC_DeadlineExceeded ''request deadline exceeded'')
      else None)"

definition grpcCode :: "code \<Rightarrow> grpc_code" where
  "grpcCode c =
     (if c = CodeBadRequest \<or> c = CodeUnprocessableContent \<or> c = CodeIdempotencyKeyMismatch then gRPC_InvalidArgument
      else if c = CodeUnauthorized then gRPC_Unauthenticated
      else if c = CodeForbidden then gRPC_PermissionDenied
      else if c = CodeNotFound then gRPC_NotFound
      else if c = CodeMethodNotAllowed then gRPC_Unimplemented
      else if c = CodeAlreadyExists then gRPC_AlreadyExists
      else if c = CodeRequestEntityTooLarge \<or> c = CodeTooManyRequests \<or> c = CodeRequestHeaderFieldsTooLarge
      then gRPC_ResourceExhausted
      else if c = CodeServiceUnavailable \<or> c = CodeIdempotencyUnavailable \<or> c = CodeIdempotencyOutcomeUnknown
      then gRPC_Unavailable
      else if c = CodeGatewayTimeout then gRPC_DeadlineExceeded
      else gRPC_Internal)"

text \<open>\<^verbatim>\<open>strings.ToUpper\<close> on the ASCII codes of the catalog.\<close>

definition ascii_upper :: "string \<Rightarrow> string" where
  "ascii_upper s = map (\<lambda>c. if 97 \<le> (of_char c :: nat) \<and> (of_char c :: nat) \<le> 122 then char_of (of_char c - 32 :: nat) else c) s"

definition classifiedDetails :: "classification \<Rightarrow> string \<Rightarrow> status_detail list" where
  "classifiedDetails mapped domain =
     (if 0 < class_RetryAfter mapped then [RetryInfo (class_RetryAfter mapped)] else [])
     @ (if domain \<noteq> '''' then [ErrorInfo (ascii_upper (class_Code mapped)) domain] else [])"

text \<open>\<^verbatim>\<open>WithDetails\<close> fails for an OK status only.\<close>

definition mappedStatus :: "classification \<Rightarrow> string \<Rightarrow> rpc_error" where
  "mappedStatus mapped domain =
     (let detail = cmp_Or [trim_space (class_Detail mapped), SanitizedDetail];
          rendered = new_status (grpcCode (class_Code mapped)) detail;
          details = classifiedDetails mapped domain
      in OwnedStatus (if details \<noteq> [] \<and> gs_code rendered \<noteq> gRPC_OK then rendered\<lparr>gs_details := details\<rparr> else rendered))"

definition mapHandlerError :: "rpc_error option \<Rightarrow> mapper option list \<Rightarrow> string \<Rightarrow> rpc_error option \<times> bool" where
  "mapHandlerError err mappers domain =
     (case err of
        None \<Rightarrow> (None, False)
      | Some e \<Rightarrow>
          (case mapContextError e of
             Some contextStatus \<Rightarrow> (Some contextStatus, False)
           | None \<Rightarrow>
               (case as_owned e of
                  Some s \<Rightarrow> (Some (OwnedStatus s), False)
                | None \<Rightarrow>
                    if (case directStatus e of Some s \<Rightarrow> gs_code s = gRPC_Unimplemented | None \<Rightarrow> False)
                    then (Some (ownedStatus gRPC_Unimplemented ''method not implemented''), False)
                    else (case Classify (Some (plain e)) mappers of
                            (classified, True) \<Rightarrow> (Some (mappedStatus classified domain), False)
                          | (_, False) \<Rightarrow> (Some (ownedStatus gRPC_Internal SanitizedDetail), True)))))"



definition recordUnhandledFailure :: "string \<Rightarrow> rpc_error \<Rightarrow> log_record" where
  "recordUnhandledFailure method err =
     \<lparr>lr_level = ''ERROR'', lr_event = ''grpc_unhandled_failure'',
      lr_attrs = [(''rpc.method'', [method]), (''error_chain'', [ClassChain (Some (plain err))])]\<rparr>"

section \<open>Interceptors\<close>











record 'm limiter =
  li_sem :: 'm
  li_shed :: nat
  li_active :: "int option"
  li_draining :: "bool option"



record ('m, 'x) rpc_server =
  rv_business :: "'m limiter"
  rv_health :: "'m limiter"
  rv_rest :: 'x

definition newAdmissionPolicy :: "'m sem_lib \<Rightarrow> int \<Rightarrow> int \<Rightarrow> 'x \<Rightarrow> ('m, 'x) rpc_server" where
  "newAdmissionPolicy sem businessLimit healthLimit rest =
     \<lparr>rv_business = \<lparr>li_sem = sem_NewWeighted sem businessLimit, li_shed = 0, li_active = Some 0, li_draining = Some False\<rparr>,
      rv_health = \<lparr>li_sem = sem_NewWeighted sem healthLimit, li_shed = 0, li_active = None, li_draining = None\<rparr>,
      rv_rest = rest\<rparr>"





section \<open>Validation\<close>

definition validationFailureDetail :: string where "validationFailureDetail = ''request validation failed''"
definition maxValidationViolations :: nat where "maxValidationViolations = 10"

text \<open>What the protobuf validator says of a message; the last argument of \<open>Violated\<close> is the error of \<^verbatim>\<open>WithDetails\<close>, if any.\<close>

datatype message_check = NotProto string | Valid | ValidatorFailed go_error | Violated "violation list" "go_error option"

definition publicValidationViolations :: "violation list \<Rightarrow> violation list" where
  "publicValidationViolations source =
     map (\<lambda>v. v\<lparr>vi_message := None, vi_elements := map (\<lambda>(name, _). (name, None)) (vi_elements v)\<rparr>)
       (take maxValidationViolations source)"

definition validateMessage :: "string \<Rightarrow> message_check \<Rightarrow> rpc_error option \<times> log_record list" where
  "validateMessage method check =
     (case check of
        NotProto t \<Rightarrow>
          (Some (ownedStatus gRPC_Internal SanitizedDetail),
           [recordUnhandledFailure method (Plain (Fresh (''unsupported protobuf message type '' @ t)))])
      | Valid \<Rightarrow> (None, [])
      | ValidatorFailed err \<Rightarrow>
          (Some (ownedStatus gRPC_Internal SanitizedDetail), [recordUnhandledFailure method (Plain err)])
      | Violated source detailErr \<Rightarrow>
          (let rendered = new_status gRPC_InvalidArgument validationFailureDetail
           in case detailErr of
                Some err \<Rightarrow> (Some (OwnedStatus rendered), [recordUnhandledFailure method (Plain err)])
              | None \<Rightarrow> (Some (OwnedStatus (rendered\<lparr>gs_details := [Violations (publicValidationViolations source)]\<rparr>)), [])))"


text \<open>One message received on a validated stream.\<close>

definition validating_RecvMsg :: "string \<Rightarrow> go_error option \<Rightarrow> message_check \<Rightarrow> rpc_error option \<times> log_record list" where
  "validating_RecvMsg method received check =
     (case received of Some err \<Rightarrow> (Some (Plain err), []) | None \<Rightarrow> validateMessage method check)"

section \<open>The chains\<close>




section \<open>Limits\<close>

record serverConfig =
  sc_maxConcurrentRPCs :: int
  sc_maxConcurrentHealthRPCs :: int
  sc_maxConcurrentStreams :: nat
  sc_maxHeaderListBytes :: nat
  sc_maxReceiveMessageBytes :: int
  sc_maxSendMessageBytes :: int
  sc_unaryTimeout :: duration

definition MaxConnections :: int where "MaxConnections = 4096"

definition defaultServerConfig :: serverConfig where
  "defaultServerConfig =
     \<lparr>sc_maxConcurrentRPCs = 256, sc_maxConcurrentHealthRPCs = MaxConnections, sc_maxConcurrentStreams = 100,
      sc_maxHeaderListBytes = 16384, sc_maxReceiveMessageBytes = 4194304, sc_maxSendMessageBytes = 4194304,
      sc_unaryTimeout = 8 * second\<rparr>"

definition validateConfig :: "serverConfig \<Rightarrow> go_error option" where
  "validateConfig cfg =
     (if sc_maxConcurrentRPCs cfg \<le> 0 \<or> sc_maxConcurrentHealthRPCs cfg \<le> 0
      then Some (Fresh ''build gRPC server: admission limits must be positive'')
      else if sc_maxConcurrentStreams cfg = 0 \<or> sc_maxHeaderListBytes cfg = 0
      then Some (Fresh ''build gRPC server: stream and header limits must be positive'')
      else if sc_maxReceiveMessageBytes cfg \<le> 0 \<or> sc_maxSendMessageBytes cfg \<le> 0
      then Some (Fresh ''build gRPC server: message limits must be positive'')
      else if sc_unaryTimeout cfg \<le> 0 then Some (Fresh ''build gRPC server: unary timeout must be positive'')
      else None)"

section \<open>The drain\<close>

text \<open>\<^verbatim>\<open>rpcDrain\<close>; \<open>dr_closed\<close> counts how often its channel was closed, which may happen once.\<close>

record rpcDrain =
  dr_active :: int
  dr_draining :: bool
  dr_closed :: nat

definition newRPCDrain :: rpcDrain where "newRPCDrain = \<lparr>dr_active = 0, dr_draining = False, dr_closed = 0\<rparr>"

definition drain_track :: "rpcDrain \<Rightarrow> bool \<times> rpcDrain" where
  "drain_track d = (if dr_draining d then (False, d) else (True, d\<lparr>dr_active := dr_active d + 1\<rparr>))"

definition drain_release :: "rpcDrain \<Rightarrow> rpcDrain" where
  "drain_release d =
     (let d = d\<lparr>dr_active := dr_active d - 1\<rparr>
      in if dr_draining d \<and> dr_active d = 0 then d\<lparr>dr_closed := dr_closed d + 1\<rparr> else d)"

definition drainingNow :: "rpcDrain \<Rightarrow> bool" where "drainingNow d = dr_draining d"

definition drain_start :: "rpcDrain \<Rightarrow> rpcDrain" where
  "drain_start d =
     (if dr_draining d then d
      else let d = d\<lparr>dr_draining := True\<rparr> in if dr_active d = 0 then d\<lparr>dr_closed := dr_closed d + 1\<rparr> else d)"

text \<open>A business call between \<^verbatim>\<open>TagRPC\<close> and its \<^verbatim>\<open>End\<close>, with whether it was tracked. Admission asks \<^verbatim>\<open>drainingNow\<close> before the
  handler may run; a call may also end without running.\<close>

datatype rpc_call = Tagged (call_tracked: bool) | Running (call_tracked: bool) | Finished (call_tracked: bool)

inductive drain_step :: "rpcDrain \<times> rpc_call multiset \<Rightarrow> rpcDrain \<times> rpc_call multiset \<Rightarrow> bool" where
  tag: "drain_track d = (b, d') \<Longrightarrow> drain_step (d, cs) (d', add_mset (Tagged b) cs)"
| admit: "\<not> drainingNow d \<Longrightarrow> drain_step (d, add_mset (Tagged b) cs) (d, add_mset (Running b) cs)"
| refuse: "drain_step (d, add_mset (Tagged b) cs) (d, add_mset (Finished b) cs)"
| finish: "drain_step (d, add_mset (Running b) cs) (d, add_mset (Finished b) cs)"
| ended: "drain_step (d, add_mset (Finished b) cs) (if b then drain_release d else d, cs)"
| start: "drain_step (d, cs) (drain_start d, cs)"

definition drain_new :: "rpcDrain \<times> rpc_call multiset \<Rightarrow> bool" where
  "drain_new = (\<lambda>(d, cs). d = newRPCDrain \<and> cs = {#})"

definition drain_inv :: "rpcDrain \<times> rpc_call multiset \<Rightarrow> bool" where
  "drain_inv = (\<lambda>(d, cs).
     dr_active d = int (size (filter_mset call_tracked cs))
     \<and> (\<not> dr_draining d \<longrightarrow> dr_closed d = 0 \<and> (\<forall>c \<in># cs. call_tracked c))
     \<and> (dr_draining d \<longrightarrow> dr_closed d = (if dr_active d = 0 then 1 else 0))
     \<and> Running False \<notin># cs)"

lemma drain_inv_step:
  assumes "drain_inv a" "drain_step a b"
  shows "drain_inv b"
  using assms(2,1)
proof (cases rule: drain_step.cases)
  case (ended d b cs)
  then show ?thesis using assms(1) by (cases b) (auto simp: drain_inv_def drain_release_def Let_def)
qed (auto simp: drain_inv_def drain_track_def drain_start_def drainingNow_def Let_def split: if_splits)

interpretation draining_server: transition_system drain_new drain_step drain_inv
proof unfold_locales
  show "drain_inv s" if "drain_new s" for s
    using that by (auto simp: drain_new_def drain_inv_def newRPCDrain_def)
qed (rule drain_inv_step)

text \<open>The server's life. \<open>gv_serving\<close> is the published health status, \<open>gv_healthDrained\<close> whether health streams were
  canceled, \<open>gv_stop\<close> how the transport was stopped, which happens once.\<close>

datatype stop = NotStopped | GracefullyStopped | ForceStopped

record grpc_server =
  gv_serving :: bool
  gv_healthDraining :: bool
  gv_healthDrained :: bool
  gv_drain :: rpcDrain
  gv_stop :: stop

definition SetServing :: "bool \<Rightarrow> grpc_server \<Rightarrow> grpc_server" where
  "SetServing ready s = (if gv_healthDraining s then s else s\<lparr>gv_serving := ready\<rparr>)"

definition grpc_StartDrain :: "grpc_server \<Rightarrow> grpc_server" where
  "grpc_StartDrain s =
     (if gv_healthDraining s then s else s\<lparr>gv_healthDraining := True, gv_serving := False, gv_healthDrained := True\<rparr>)"

definition forceStop :: "grpc_server \<Rightarrow> grpc_server" where
  "forceStop s = (let s = s\<lparr>gv_healthDrained := True\<rparr> in if gv_stop s = NotStopped then s\<lparr>gv_stop := ForceStopped\<rparr> else s)"

definition gracefulStop :: "grpc_server \<Rightarrow> grpc_server" where
  "gracefulStop s = (if gv_stop s = NotStopped then s\<lparr>gv_stop := GracefullyStopped\<rparr> else s)"

definition Serve_result :: "go_error option \<Rightarrow> go_error option" where
  "Serve_result err =
     (case err of
        None \<Rightarrow> None
      | Some e \<Rightarrow> if errors_is e (Sentinel ''grpc.ErrServerStopped'') then None else Some (WrapFmt ''serve native gRPC server'' e))"

text \<open>What the second \<^verbatim>\<open>select\<close> of \<^verbatim>\<open>Shutdown\<close> sees. The drain may have moved on meanwhile: \<open>later\<close> is the server then.\<close>

datatype shutdown_wait = Drained | AlreadyStopped | ShutdownExpired go_error

definition Shutdown_begin :: "grpc_server \<Rightarrow> grpc_server" where
  "Shutdown_begin s = (let s = grpc_StartDrain s in s\<lparr>gv_drain := drain_start (gv_drain s)\<rparr>)"

definition Shutdown :: "grpc_server \<Rightarrow> shutdown_wait \<Rightarrow> grpc_server \<Rightarrow> go_error option \<times> grpc_server" where
  "Shutdown s event later =
     (let s = Shutdown_begin s
      in if 0 < dr_closed (gv_drain s) then (None, gracefulStop s)
         else case event of
                Drained \<Rightarrow> (None, gracefulStop later)
              | AlreadyStopped \<Rightarrow> (None, later)
              | ShutdownExpired err \<Rightarrow> (Some (WrapFmt ''shutdown gRPC server'' err), forceStop later))"

text \<open>C36: A finished drain means an idle server. In every interleaving of calls with the start of a shutdown, the channel that
  reports the drain is closed at most once, only after the drain began, and from then on no
  business handler is running or can start.\<close>

theorem drained_server_is_idle:
  assumes "drain_step\<^sup>*\<^sup>* (newRPCDrain, {#}) (d, cs)"
  shows "dr_closed d \<le> 1
     \<and> (dr_closed d = 1 \<longrightarrow> dr_draining d \<and> (\<forall>b. Running b \<notin># cs)
          \<and> (\<forall>d' cs'. drain_step\<^sup>*\<^sup>* (d, cs) (d', cs') \<longrightarrow> (\<forall>b. Running b \<notin># cs')))"
proof -
  have inv: "drain_inv (d, cs)"
    using draining_server.run_inv [OF _ assms] by (simp add: drain_new_def)
  have idle: "dr_draining d' \<and> dr_closed d' = 1 \<and> (\<forall>b. Running b \<notin># cs')"
    if "drain_inv (d', cs')" "dr_closed d' = 1" for d' cs'
  proof -
    have dr: "dr_draining d'" using that by (cases "dr_draining d'") (auto simp: drain_inv_def)
    then have "\<not> call_tracked c" if "c \<in># cs'" for c
      using \<open>drain_inv (d', cs')\<close> \<open>dr_closed d' = 1\<close> that by (auto simp: drain_inv_def split: if_splits)
    then have "Running True \<notin># cs'" by force
    moreover have "Running False \<notin># cs'" using that by (simp add: drain_inv_def)
    ultimately show ?thesis using dr that(2) by (metis (full_types))
  qed
  have closed_step: "dr_closed (fst b) = 1" if "drain_step a b" "drain_inv a" "dr_closed (fst a) = 1" for a b
  proof -
    have "dr_draining (fst a)" "\<forall>c \<in># snd a. \<not> call_tracked c"
      using idle [of "fst a" "snd a"] that(2,3) by (auto simp: drain_inv_def split: prod.splits if_splits)
    with that(1) show ?thesis
      by (cases rule: drain_step.cases) (use that(3) in \<open>auto simp: drain_track_def drain_start_def split: if_splits\<close>)
  qed
  have later: "dr_closed (fst b) = 1 \<and> drain_inv b" if "drain_step\<^sup>*\<^sup>* (d, cs) b" "dr_closed d = 1" for b
    using that
  proof (induction rule: rtranclp_induct)
    case (step b c)
    then show ?case using closed_step drain_inv_step by blast
  qed (use inv in simp)
  have "dr_closed d \<le> 1" using inv by (cases "dr_draining d") (auto simp: drain_inv_def)
  moreover have "\<forall>b. Running b \<notin># cs'" if "dr_closed d = 1" "drain_step\<^sup>*\<^sup>* (d, cs) (d', cs')" for d' cs'
    using later [OF that(2,1)] idle [of d' cs'] by simp
  ultimately show ?thesis using idle [OF inv] by blast
qed

lemma drained_server_is_idle_witness:
  "dr_closed (drain_start newRPCDrain) = 1 \<and> dr_draining (drain_start newRPCDrain)
     \<and> (\<nexists>b d' cs'. drain_step\<^sup>*\<^sup>* (drain_start newRPCDrain, {#}) (d', cs') \<and> Running b \<in># cs')"
proof -
  have "drain_step\<^sup>*\<^sup>* (newRPCDrain, {#}) (drain_start newRPCDrain, {#})" by (blast intro: drain_step.start)
  moreover have "dr_closed (drain_start newRPCDrain) = 1" by (simp add: drain_start_def newRPCDrain_def)
  ultimately show ?thesis using drained_server_is_idle by blast
qed

section \<open>What a caller sees\<close>








section \<open>Two transports, one classification\<close>

text \<open>The gRPC code that stands for an HTTP status of the catalog.\<close>

definition canonical_code :: "nat \<Rightarrow> grpc_code" where
  "canonical_code status =
     (if status = 400 \<or> status = 422 then gRPC_InvalidArgument
      else if status = 401 then gRPC_Unauthenticated
      else if status = 403 then gRPC_PermissionDenied
      else if status = 404 then gRPC_NotFound
      else if status = 405 then gRPC_Unimplemented
      else if status = 409 then gRPC_AlreadyExists
      else if status = 413 \<or> status = 429 \<or> status = 431 then gRPC_ResourceExhausted
      else if status = 503 then gRPC_Unavailable
      else if status = 504 then gRPC_DeadlineExceeded
      else gRPC_Internal)"

lemma catalog_code_statuses:
  "def_Status (ForCodeOrInternal ''forbidden'') = 403"
  "def_Status (ForCodeOrInternal ''not_found'') = 404"
  "def_Status (ForCodeOrInternal ''method_not_allowed'') = 405"
  "def_Status (ForCodeOrInternal ''already_exists'') = 409"
  "def_Status (ForCodeOrInternal ''unprocessable_content'') = 422"
  "def_Status (ForCodeOrInternal ''too_many_requests'') = 429"
  "def_Status (ForCodeOrInternal ''idempotency_key_mismatch'') = 422"
  "def_Status (ForCodeOrInternal ''idempotency_unavailable'') = 503"
  "def_Status (ForCodeOrInternal ''idempotency_outcome_unknown'') = 503"
  by (simp_all add: code_status)

lemma codes_agree:
  assumes "c \<in> set AllCodes"
  shows "grpcCode c = canonical_code (def_Status (ForCodeOrInternal c))"
proof -
  have "list_all (\<lambda>c. grpcCode c = canonical_code (def_Status (ForCodeOrInternal c))) AllCodes"
    by (simp add: AllCodes_def grpcCode_def canonical_code_def catalog_code_statuses)
  then show ?thesis using assms by (simp add: list_all_iff)
qed

lemma Classify_known: "Classify err mappers = (classified, True) \<Longrightarrow> class_Code classified \<in> set AllCodes"
  by (induction err mappers rule: Classify.induct) (auto split: prod.splits if_splits)

lemma mappedStatus_code: "\<exists>s. mappedStatus mapped domain = OwnedStatus s \<and> gs_code s = grpcCode (class_Code mapped)"
  by (simp add: mappedStatus_def Let_def new_status_def)

text \<open>The two transports agree. For every error that is not a gRPC status or the caller's cancellation, and every list of domain
  mappers, the code a gRPC caller receives is the one that stands for the HTTP status the same error is
  answered with.\<close>

theorem transports_agree:
  assumes "rw_status w = None" and "\<not> errors_is e Canceled"
    and "RejectResponse encode has_log mappers (Some e) (w, r) = (logs, w', r')"
  shows "\<exists>status s. rw_status w' = Some status
     \<and> fst (mapHandlerError (Some (Plain e)) mappers domain) = Some (OwnedStatus s) \<and> gs_code s = canonical_code status"
proof (cases "errors_is e DeadlineExceeded")
  case True
  then have "w' = fst (writeProblem encode timeBudgetExceededProblem (w, r))"
    using assms(3) by (auto simp: RejectResponse_def contextFailureProblem_def errors_is_opt_def)
  then have "rw_status w' = Some 504"
    using writeProblem_status [OF assms(1)] by (simp add: timeBudgetExceededProblem_def problem_response_def)
  then show ?thesis
    using True assms(2) by (simp add: mapHandlerError_def mapContextError_def ownedStatus_def new_status_def canonical_code_def)
next
  case False
  have none: "contextFailureProblem (Some e) = None" "mapContextError (Plain e) = None"
    using False assms(2) by (simp_all add: contextFailureProblem_def mapContextError_def errors_is_opt_def)
  obtain mapped ok where cl: "Classify (Some e) mappers = (mapped, ok)" by fastforce
  show ?thesis
  proof (cases ok)
    case True
    then have st: "rw_status w' = Some (def_Status (ForCodeOrInternal (class_Code mapped)))"
      using assms(3) none cl writeProblem_result [OF _ assms(1)] by (fastforce simp: RejectResponse_def)
    obtain s where s: "mappedStatus mapped domain = OwnedStatus s" "gs_code s = grpcCode (class_Code mapped)"
      using mappedStatus_code by blast
    have "gs_code s = canonical_code (def_Status (ForCodeOrInternal (class_Code mapped)))"
      using s(2) codes_agree [OF Classify_known [of "Some e" mappers mapped]] cl True by simp
    then show ?thesis using st s(1) none cl True by (simp add: mapHandlerError_def directStatus_def)
  next
    case False
    then have "rw_status w' = Some 500"
      using assms(3) none cl writeProblem_result [OF _ assms(1)] by (fastforce simp: RejectResponse_def problem_response_def)
    then show ?thesis
      using False none cl by (simp add: mapHandlerError_def directStatus_def ownedStatus_def new_status_def canonical_code_def)
  qed
qed

lemma transports_agree_witness:
  "\<exists>s. fst (mapHandlerError (Some (Plain DeadlineExceeded)) [] ''orders'') = Some (OwnedStatus s)
     \<and> gs_code s = gRPC_DeadlineExceeded"
proof -
  have start: "rw_status empty_writer = None" by (simp add: empty_writer_def)
  obtain logs w' r' where run: "RejectResponse (\<lambda>_. None) True [] (Some DeadlineExceeded) (empty_writer, None) = (logs, w', r')"
    by (metis prod.exhaust)
  then have "w' = fst (writeProblem (\<lambda>_. None) timeBudgetExceededProblem (empty_writer, None))"
    by (simp add: RejectResponse_def contextFailureProblem_def errors_is_opt_def prod_eq_iff)
  then have "rw_status w' = Some 504"
    using writeProblem_status [OF start] by (simp add: timeBudgetExceededProblem_def problem_response_def)
  then show ?thesis
    using transports_agree [OF start _ run, of "''orders''"] by (simp add: canonical_code_def)
qed

text \<open>\<^verbatim>\<open>google.rpc.ErrorInfo\<close> wants a reason of at most 63 characters of the form \<^verbatim>\<open>[A-Z][A-Z0-9_]+[A-Z0-9]\<close>.\<close>

definition upper_char :: "char \<Rightarrow> bool" where "upper_char c = between 65 90 (of_char c)"
definition upper_digit :: "char \<Rightarrow> bool" where "upper_digit c = (upper_char c \<or> is_digit c)"

definition conforming_reason :: "string \<Rightarrow> bool" where
  "conforming_reason s =
     (length s \<le> 63 \<and> 3 \<le> length s \<and> upper_char (hd s) \<and> upper_digit (List.last s)
      \<and> list_all (\<lambda>c. upper_digit c \<or> c = CHR ''_'') s)"

lemma reasons_conform: "list_all (\<lambda>c. conforming_reason (ascii_upper c)) AllCodes" "distinct (map ascii_upper AllCodes)"
  by (simp_all add: AllCodes_def conforming_reason_def ascii_upper_def upper_digit_def upper_char_def between_def is_digit_def
      char_of_def bit_0)

end
