(* ===== verification/HttpClient.thy ===== *)
theory HttpClient
  imports OutboundTrust ReqCtx "HOL-Library.Multiset"
begin

text \<open>
  Package \<^verbatim>\<open>internal/infra/httpclient\<close>: one client per outbound dependency, pinned to one HTTPS authority
  (\<^verbatim>\<open>target_policy.go\<close>), cleaned of the headers a caller may not set (\<^verbatim>\<open>propagation.go\<close>), and bounded in the
  requests it has open and the bytes it hands out (\<^verbatim>\<open>client.go\<close>).

  \<open>netlib\<close> holds the URL parser, \<^verbatim>\<open>strings.ToLower\<close> and \<^verbatim>\<open>netip.ParseAddr\<close>. The transport below the client is an
  argument, a function of the request on a network state; a response body is a reader with a state of its own. The
  contexts the code asks for an error are the errors they answer. One call of \<^verbatim>\<open>do\<close> is cut in two where it waits:
  \<open>do_admit\<close> up to the admission, \<open>do_finish\<close> once the transport answered. Between them, and while a body is open,
  other calls run: \<open>client_step\<close> has every interleaving.
\<close>

record netlib =
  nl_Parse :: "string \<Rightarrow> url option"
  nl_ToLower :: "string \<Rightarrow> string"
  nl_ParseAddr :: "string \<Rightarrow> addr option"

section \<open>Target policy\<close>

abbreviation ErrTargetDenied :: go_error where "ErrTargetDenied \<equiv> Sentinel ''httpclient.ErrTargetDenied''"

definition has_suffix :: "string \<Rightarrow> string \<Rightarrow> bool" where
  "has_suffix s t = (length t \<le> length s \<and> drop (length s - length t) s = t)"

definition trim_suffix :: "string \<Rightarrow> string \<Rightarrow> string" where
  "trim_suffix s t = (if has_suffix s t then take (length s - length t) s else s)"

record targetPolicy =
  tp_privateSuffix :: string

definition policy_private :: "targetPolicy \<Rightarrow> bool" where
  "policy_private p = (tp_privateSuffix p \<noteq> '''')"

definition allowsAddress :: "targetPolicy \<Rightarrow> addr \<Rightarrow> bool" where
  "allowsAddress p resolved = (if policy_private p then IsPrivate (Unmap resolved) else PublicAddress resolved)"

definition privateHostSuffix :: "netlib \<Rightarrow> string \<Rightarrow> string" where
  "privateHostSuffix nl configured =
     (let suffix = trim_suffix (nl_ToLower nl (trim_space configured)) ''.''
      in if suffix = '''' then '''' else if hd suffix \<noteq> CHR ''.'' then CHR ''.'' # suffix else suffix)"

definition validateTarget :: "netlib \<Rightarrow> string \<Rightarrow> targetPolicy \<Rightarrow> go_error + url" where
  "validateTarget nl raw policy =
     (case HTTPSTarget (nl_Parse nl) (nl_ToLower nl) (trim_space raw) of (baseURL, issue) \<Rightarrow>
        (case issue of
           TargetNotAbsolute \<Rightarrow> Inl (Fresh ''build outbound HTTP client: base URL must be absolute'')
         | TargetNotHTTPS \<Rightarrow> Inl (Fresh ''build outbound HTTP client: target requires HTTPS'')
         | TargetHasUserInfoOrFragment \<Rightarrow>
             Inl (Fresh ''build outbound HTTP client: base URL cannot contain user info, query, or fragment'')
         | TargetHasQuery \<Rightarrow>
             Inl (Fresh ''build outbound HTTP client: base URL cannot contain user info, query, or fragment'')
         | TargetOK \<Rightarrow>
             if policy_private policy
             then (if \<not> has_suffix (trim_suffix (u_Hostname baseURL) ''.'') (tp_privateSuffix policy)
                   then Inl (Fresh ''build outbound HTTP client: private target requires the configured DNS suffix'')
                   else Inr baseURL)
             else (case nl_ParseAddr nl (u_Hostname baseURL) of
                     Some address \<Rightarrow> if \<not> allowsAddress policy address then Inl ErrTargetDenied else Inr baseURL
                   | None \<Rightarrow> Inr baseURL)))"

text \<open>\<^verbatim>\<open>net.SplitHostPort\<close>: the port follows the last colon; a host with colons stands in brackets.\<close>

definition net_SplitHostPort :: "string \<Rightarrow> (string \<times> string) option" where
  "net_SplitHostPort s =
     (if CHR '':'' \<notin> set s then None
      else let i = length s - 1 - length (takeWhile (\<lambda>c. c \<noteq> CHR '':'') (rev s))
           in if hd s = CHR ''[''
              then (if CHR '']'' \<notin> set s then None
                    else let e = length (takeWhile (\<lambda>c. c \<noteq> CHR '']'') s)
                         in if e + 1 \<noteq> i \<or> CHR ''['' \<in> set (drop 1 s) \<or> CHR '']'' \<in> set (drop (e + 1) s) then None
                            else Some (drop 1 (take e s), drop (i + 1) s))
              else if CHR '':'' \<in> set (take i s) \<or> CHR ''['' \<in> set s \<or> CHR '']'' \<in> set s then None
              else Some (take i s, drop (i + 1) s))"

definition enforceDialAddress :: "netlib \<Rightarrow> targetPolicy \<Rightarrow> string \<Rightarrow> go_error option" where
  "enforceDialAddress nl policy address =
     (case net_SplitHostPort address of
        None \<Rightarrow> Some ErrTargetDenied
      | Some (host, _) \<Rightarrow>
          (case nl_ParseAddr nl host of
             None \<Rightarrow> Some ErrTargetDenied
           | Some resolved \<Rightarrow> if \<not> allowsAddress policy resolved then Some ErrTargetDenied else None))"

text \<open>A request as the transports see it; headers are a map that keeps the case of its keys.\<close>

record out_request =
  or_Method :: string
  or_URL :: "url option"
  or_Host :: string
  or_Header :: "(string \<times> string list) list"
  or_Trailer :: "(string \<times> string list) list"

record 'b http_response =
  re_StatusCode :: int
  re_ContentLength :: int
  re_Header :: "(string \<times> string list) list"
  re_Body :: 'b

type_synonym ('b, 'n) round_trip = "out_request \<Rightarrow> 'n \<Rightarrow> (go_error + 'b http_response) \<times> 'n"

definition authority_RoundTrip :: "string \<Rightarrow> string \<Rightarrow> ('b, 'n) round_trip \<Rightarrow> ('b, 'n) round_trip" where
  "authority_RoundTrip scheme authority base request n =
     (case or_URL request of
        None \<Rightarrow> (Inl ErrTargetDenied, n)
      | Some u \<Rightarrow>
          if u_User u \<noteq> None \<or> \<not> equal_fold (u_Scheme u) scheme \<or> \<not> equal_fold (u_Host u) authority
             \<or> (or_Host request \<noteq> '''' \<and> \<not> equal_fold (or_Host request) authority)
          then (Inl ErrTargetDenied, n)
          else base request n)"

section \<open>Propagation\<close>

definition RequestIDHeader :: string where "RequestIDHeader = ''X-Request-ID''"

definition reserved_header :: "string \<Rightarrow> bool" where
  "reserved_header name =
     (equal_fold name ''accept-encoding'' \<or> equal_fold name ''traceparent'' \<or> equal_fold name ''tracestate''
      \<or> equal_fold name ''baggage'' \<or> equal_fold name RequestIDHeader)"

definition removeReservedHeaders :: "(string \<times> string list) list \<Rightarrow> (string \<times> string list) list" where
  "removeReservedHeaders header = filter (\<lambda>(name, _). \<not> reserved_header name) header"

definition propagation_RoundTrip :: "('b, 'n) round_trip \<Rightarrow> ('b, 'n) round_trip" where
  "propagation_RoundTrip base request n =
     base (request\<lparr>or_Header := removeReservedHeaders (or_Header request), or_Trailer := removeReservedHeaders (or_Trailer request)\<rparr>) n"

section \<open>Building a client\<close>

record TransportLimits =
  tl_ResponseHeaderTimeout :: duration
  tl_MaxResponseHeaderBytes :: int
  tl_MaxInFlight :: int
  tl_AbsoluteBodyBytes :: int

definition validateTransportLimits :: "TransportLimits \<Rightarrow> go_error option" where
  "validateTransportLimits limits =
     (if tl_ResponseHeaderTimeout limits \<le> 0 \<or> tl_MaxResponseHeaderBytes limits \<le> 0 \<or> tl_MaxInFlight limits \<le> 0
         \<or> tl_AbsoluteBodyBytes limits \<le> 0
      then Some (Fresh ''build outbound HTTP client: transport limits must be positive'') else None)"

text \<open>The part of the cloned default transport the code sets; the dialer is checked with the policy.\<close>

record pinned_transport =
  pt_proxy :: bool
  pt_ResponseHeaderTimeout :: duration
  pt_MaxResponseHeaderBytes :: int
  pt_dial :: targetPolicy

record http_client =
  hc_baseURL :: url
  hc_transport :: pinned_transport
  hc_scheme :: string
  hc_authority :: string
  hc_capacity :: nat
  hc_inFlight :: nat
  hc_absoluteBodyBytes :: int

text \<open>\<open>defaultTransport\<close> is \<^verbatim>\<open>http.DefaultTransport\<close> when it is an \<^verbatim>\<open>*http.Transport\<close>.\<close>

definition newClient :: "netlib \<Rightarrow> pinned_transport option \<Rightarrow> string \<Rightarrow> targetPolicy \<Rightarrow> TransportLimits \<Rightarrow> go_error + http_client" where
  "newClient nl defaultTransport rawBaseURL policy limits =
     (case validateTarget nl rawBaseURL policy of
        Inl err \<Rightarrow> Inl err
      | Inr baseURL \<Rightarrow>
          (case defaultTransport of
             None \<Rightarrow> Inl (Fresh ''build outbound HTTP client: default transport has unexpected type'')
           | Some transport \<Rightarrow>
               Inr \<lparr>hc_baseURL = baseURL,
                    hc_transport = transport\<lparr>pt_proxy := False, pt_ResponseHeaderTimeout := tl_ResponseHeaderTimeout limits,
                       pt_MaxResponseHeaderBytes := tl_MaxResponseHeaderBytes limits, pt_dial := policy\<rparr>,
                    hc_scheme = u_Scheme baseURL, hc_authority = u_Host baseURL, hc_capacity = nat (tl_MaxInFlight limits),
                    hc_inFlight = 0, hc_absoluteBodyBytes = tl_AbsoluteBodyBytes limits\<rparr>))"

definition NewExternalHTTPS :: "netlib \<Rightarrow> pinned_transport option \<Rightarrow> string \<Rightarrow> TransportLimits \<Rightarrow> go_error + http_client" where
  "NewExternalHTTPS nl dt baseURL limits =
     (case validateTransportLimits limits of
        Some err \<Rightarrow> Inl err
      | None \<Rightarrow> newClient nl dt baseURL \<lparr>tp_privateSuffix = ''''\<rparr> limits)"

definition NewPrivateHTTPS ::
  "netlib \<Rightarrow> pinned_transport option \<Rightarrow> string \<Rightarrow> string \<Rightarrow> TransportLimits \<Rightarrow> go_error + http_client" where
  "NewPrivateHTTPS nl dt baseURL privateSuffix limits =
     (case validateTransportLimits limits of
        Some err \<Rightarrow> Inl err
      | None \<Rightarrow>
          let suffix = privateHostSuffix nl privateSuffix
          in if suffix = '''' then Inl (Fresh ''build outbound HTTP client: private DNS suffix is required'')
             else newClient nl dt baseURL \<lparr>tp_privateSuffix = suffix\<rparr> limits)"

text \<open>What the client's own \<^verbatim>\<open>http.Client\<close> does with a request: no redirect is followed, and a transport error comes
  back as a \<^verbatim>\<open>*url.Error\<close>.\<close>

definition send_request :: "http_client \<Rightarrow> ('b, 'n) round_trip \<Rightarrow> ('b, 'n) round_trip" where
  "send_request c base request n =
     (case propagation_RoundTrip (authority_RoundTrip (hc_scheme c) (hc_authority c) base) request n of
        (Inl err, n') \<Rightarrow> (Inl (WrapTyped ''*url.Error'' (or_Method request) err), n')
      | (Inr response, n') \<Rightarrow> (Inr response, n'))"

section \<open>One request\<close>

abbreviation ErrSaturated :: go_error where "ErrSaturated \<equiv> Sentinel ''httpclient.ErrSaturated''"
abbreviation ErrResponseTooLarge :: go_error where "ErrResponseTooLarge \<equiv> Sentinel ''httpclient.ErrResponseTooLarge''"
abbreviation ErrOperationTimeout :: go_error where "ErrOperationTimeout \<equiv> Sentinel ''httpclient.ErrOperationTimeout''"
abbreviation io_EOF :: go_error where "io_EOF \<equiv> Sentinel ''io.EOF''"

text \<open>The \<^verbatim>\<open>sync.Once\<close> of a call, and how often \<^verbatim>\<open>cancelOperation\<close> ran.\<close>

record admission =
  ad_released :: bool
  ad_cancels :: nat

definition release_admission :: "admission \<Rightarrow> http_client \<Rightarrow> admission \<times> http_client" where
  "release_admission ad c =
     (if ad_released ad then (ad, c)
      else (\<lparr>ad_released = True, ad_cancels = ad_cancels ad + 1\<rparr>, c\<lparr>hc_inFlight := hc_inFlight c - 1\<rparr>))"

definition send_error :: "go_error \<Rightarrow> go_error" where
  "send_error err = WrapFmt ''send outbound HTTP request'' err"

text \<open>\<open>ctxErr\<close> is what the request's context answers at the first test, \<open>lateErr\<close> after the full channel was seen. The number
  is how often the operation was cancelled.\<close>

definition do_admit ::
  "out_request option \<Rightarrow> go_error option \<Rightarrow> go_error option \<Rightarrow> http_client \<Rightarrow> go_error option \<times> nat \<times> http_client" where
  "do_admit request ctxErr lateErr c =
     (if (case request of None \<Rightarrow> True | Some r \<Rightarrow> or_URL r = None)
      then (Some (Fresh ''send outbound HTTP request: request URL is required''), 1, c)
      else case ctxErr of
        Some err \<Rightarrow> (Some (send_error err), 1, c)
      | None \<Rightarrow>
          if hc_inFlight c < hc_capacity c then (None, 0, c\<lparr>hc_inFlight := hc_inFlight c + 1\<rparr>)
          else (Some (send_error (case lateErr of Some err \<Rightarrow> err | None \<Rightarrow> ErrSaturated)), 1, c))"

text \<open>An \<^verbatim>\<open>io.ReadCloser\<close>: a read gets the length of its buffer and gives the bytes it put there.\<close>

record 'b reader =
  rd_Read :: "nat \<Rightarrow> 'b \<Rightarrow> (string \<times> go_error option) \<times> 'b"
  rd_Close :: "'b \<Rightarrow> go_error option \<times> 'b"

record 'b boundedBody =
  bb_body :: 'b
  bb_remaining :: int
  bb_tooLarge :: bool
  bb_admission :: admission

definition do_finish ::
  "int \<Rightarrow> go_error option \<Rightarrow> go_error + 'b http_response \<Rightarrow> admission \<Rightarrow> http_client
     \<Rightarrow> (go_error + 'b boundedBody http_response) \<times> admission \<times> http_client" where
  "do_finish maxBodyBytes contextErr answer ad c =
     (case answer of
        Inl err \<Rightarrow>
          (case release_admission ad c of (ad', c') \<Rightarrow>
             (Inl (send_error (case contextErr of Some e \<Rightarrow> e | None \<Rightarrow> err)), ad', c'))
      | Inr response \<Rightarrow>
          if maxBodyBytes < re_ContentLength response
          then (case release_admission ad c of (ad', c') \<Rightarrow> (Inl (send_error ErrResponseTooLarge), ad', c'))
          else (Inr \<lparr>re_StatusCode = re_StatusCode response, re_ContentLength = re_ContentLength response,
                     re_Header = re_Header response,
                     re_Body = \<lparr>bb_body = re_Body response, bb_remaining = maxBodyBytes, bb_tooLarge = False, bb_admission = ad\<rparr>\<rparr>,
                ad, c))"

definition body_Read ::
  "'b reader \<Rightarrow> go_error option \<Rightarrow> nat \<Rightarrow> 'b boundedBody \<Rightarrow> http_client
     \<Rightarrow> (string \<times> go_error option) \<times> 'b boundedBody \<times> http_client" where
  "body_Read rd contextErr buffer b c =
     (if bb_tooLarge b then (('''', Some ErrResponseTooLarge), b, c)
      else let k = (if bb_remaining b < int buffer then nat (bb_remaining b) + 1 else buffer)
           in case rd_Read rd k (bb_body b) of ((chunk, err), body) \<Rightarrow>
                if bb_remaining b < int (length chunk)
                then (case release_admission (bb_admission b) c of (ad, c') \<Rightarrow>
                        ((take (nat (bb_remaining b)) chunk, Some ErrResponseTooLarge),
                         \<lparr>bb_body = body, bb_remaining = 0, bb_tooLarge = True, bb_admission = ad\<rparr>, c'))
                else let b' = b\<lparr>bb_body := body, bb_remaining := bb_remaining b - int (length chunk)\<rparr>
                     in (case err of
                          None \<Rightarrow> ((chunk, None), b', c)
                        | Some e \<Rightarrow>
                            (case release_admission (bb_admission b) c of (ad, c') \<Rightarrow>
                               ((chunk, Some (case contextErr of Some e' \<Rightarrow> e' | None \<Rightarrow> e)), b'\<lparr>bb_admission := ad\<rparr>, c'))))"

definition body_Close :: "'b reader \<Rightarrow> 'b boundedBody \<Rightarrow> http_client \<Rightarrow> go_error option \<times> 'b boundedBody \<times> http_client" where
  "body_Close rd b c =
     (case rd_Close rd (bb_body b) of (err, body) \<Rightarrow>
        (case release_admission (bb_admission b) c of (ad, c') \<Rightarrow>
           (map_option (WrapFmt ''close outbound HTTP response body'') err, b\<lparr>bb_body := body, bb_admission := ad\<rparr>, c')))"

text \<open>A whole call with nothing in between, and \<^verbatim>\<open>Do\<close> and \<^verbatim>\<open>DoWithPolicy\<close> over it. \<open>ctxErr\<close>, \<open>lateErr\<close> and
  \<open>contextErr\<close> are the answers of the contexts at the points where the code asks.\<close>

definition client_do ::
  "('b, 'n) round_trip \<Rightarrow> int \<Rightarrow> go_error option \<Rightarrow> go_error option \<Rightarrow> go_error option \<Rightarrow> out_request option \<Rightarrow> http_client \<Rightarrow> 'n
     \<Rightarrow> (go_error + 'b boundedBody http_response) \<times> admission \<times> http_client \<times> 'n" where
  "client_do base maxBodyBytes ctxErr lateErr contextErr request c n =
     (case do_admit request ctxErr lateErr c of
        (Some err, cancels, c') \<Rightarrow> (Inl err, \<lparr>ad_released = True, ad_cancels = cancels\<rparr>, c', n)
      | (None, cancels, c') \<Rightarrow>
          (case send_request c' base (the request) n of (answer, n') \<Rightarrow>
             (case do_finish maxBodyBytes contextErr answer \<lparr>ad_released = False, ad_cancels = cancels\<rparr> c' of
                (result, ad, c'') \<Rightarrow> (result, ad, c'', n'))))"

definition client_Do where
  "client_Do base ctxErr lateErr contextErr request c n =
     client_do base (hc_absoluteBodyBytes c) ctxErr lateErr (if request = None then None else contextErr) request c n"

record OperationPolicy =
  op_Timeout :: duration
  op_MaxBodyBytes :: int

text \<open>\<open>parentErr\<close> is the error of the caller's context, \<open>timedOut\<close> whether the operation's own deadline is the cause.\<close>

definition operation_context_error :: "go_error option \<Rightarrow> bool \<Rightarrow> go_error option" where
  "operation_context_error parentErr timedOut =
     (case parentErr of
        Some err \<Rightarrow> Some (WrapFmt ''parent request'' err)
      | None \<Rightarrow> if timedOut then Some ErrOperationTimeout else None)"

definition DoWithPolicy where
  "DoWithPolicy base policy ctxErr lateErr parentErr timedOut request c n =
     (if (case request of None \<Rightarrow> True | Some r \<Rightarrow> or_URL r = None)
      then (Inl (Fresh ''send outbound HTTP request: request URL is required''), None, c, n)
      else if op_Timeout policy \<le> 0 \<or> op_MaxBodyBytes policy \<le> 0 \<or> hc_absoluteBodyBytes c < op_MaxBodyBytes policy
      then (Inl (Fresh ''send outbound HTTP request: operation policy must be positive and within transport limits''), None, c, n)
      else case client_do base (op_MaxBodyBytes policy) ctxErr lateErr (operation_context_error parentErr timedOut) request c n of
             (result, ad, c', n') \<Rightarrow> (result, Some ad, c', n'))"

text \<open>\<^verbatim>\<open>StandardClient\<close> sends through \<^verbatim>\<open>Do\<close> and drops a response that comes with an error, which the sum already does.\<close>

definition doRoundTripper where
  "doRoundTripper base ctxErr lateErr contextErr request c n = client_Do base ctxErr lateErr contextErr (Some request) c n"

section \<open>Interleavings of calls\<close>

datatype 'b out_call = Sending admission | Reading "'b boundedBody" | Ended admission

fun call_admission :: "'b out_call \<Rightarrow> admission" where
  "call_admission (Sending ad) = ad"
| "call_admission (Reading b) = bb_admission b"
| "call_admission (Ended ad) = ad"

definition holds_slot :: "'b out_call \<Rightarrow> bool" where
  "holds_slot call = (\<not> ad_released (call_admission call))"

inductive client_step :: "'b reader \<Rightarrow> http_client \<times> 'b out_call multiset \<Rightarrow> http_client \<times> 'b out_call multiset \<Rightarrow> bool"
  for rd :: "'b reader" where
  refused: "do_admit request ctxErr lateErr c = (Some err, n, c') \<Longrightarrow>
     client_step rd (c, cs) (c', add_mset (Ended \<lparr>ad_released = True, ad_cancels = n\<rparr>) cs)"
| admitted: "do_admit request ctxErr lateErr c = (None, n, c') \<Longrightarrow>
     client_step rd (c, cs) (c', add_mset (Sending \<lparr>ad_released = False, ad_cancels = n\<rparr>) cs)"
| failed: "do_finish maxBodyBytes contextErr (answer :: go_error + 'b http_response) ad c = (Inl err, ad', c') \<Longrightarrow>
     client_step rd (c, add_mset (Sending ad) cs) (c', add_mset (Ended ad') cs)"
| answered: "do_finish maxBodyBytes contextErr answer ad c = (Inr response, ad', c') \<Longrightarrow>
     client_step rd (c, add_mset (Sending ad) cs) (c', add_mset (Reading (re_Body response)) cs)"
| read: "body_Read rd contextErr buffer b c = (out, b', c') \<Longrightarrow>
     client_step rd (c, add_mset (Reading b) cs) (c', add_mset (Reading b') cs)"
| close: "body_Close rd b c = (out, b', c') \<Longrightarrow>
     client_step rd (c, add_mset (Reading b) cs) (c', add_mset (Reading b') cs)"

definition client_new :: "http_client \<times> 'b out_call multiset \<Rightarrow> bool" where
  "client_new = (\<lambda>(c, cs). hc_inFlight c = 0 \<and> cs = {#})"

definition once :: "admission \<Rightarrow> bool" where
  "once ad = (ad_cancels ad = (if ad_released ad then 1 else 0))"

definition client_inv :: "http_client \<times> 'b out_call multiset \<Rightarrow> bool" where
  "client_inv = (\<lambda>(c, cs). hc_inFlight c = size (filter_mset holds_slot cs) \<and> hc_inFlight c \<le> hc_capacity c
     \<and> (\<forall>call \<in># cs. once (call_admission call)))"

text \<open>Every way a call moves on either keeps its admission or releases it.\<close>

lemma release_cases:
  assumes "release_admission ad c = (ad', c')" "once ad"
  shows "once ad'" "ad_released ad'" "hc_capacity c' = hc_capacity c"
    "hc_inFlight c' = (if ad_released ad then hc_inFlight c else hc_inFlight c - 1)"
  using assms by (auto simp: release_admission_def once_def split: if_splits)

definition moves :: "admission \<Rightarrow> http_client \<Rightarrow> admission \<Rightarrow> http_client \<Rightarrow> bool" where
  "moves ad c ad' c' = ((ad', c') = (ad, c) \<or> (ad', c') = release_admission ad c)"

lemma finish_moves: "do_finish m ce answer ad c = (Inl err, ad', c') \<Longrightarrow> moves ad c ad' c'"
  "do_finish m ce answer ad c = (Inr response, ad', c') \<Longrightarrow> moves ad c (bb_admission (re_Body response)) c'"
  by (auto simp: do_finish_def moves_def split: sum.splits if_splits prod.splits)

lemma read_moves: "body_Read rd ce k b c = (out, b', c') \<Longrightarrow> moves (bb_admission b) c (bb_admission b') c'"
  by (auto simp: body_Read_def moves_def Let_def split: prod.splits if_splits option.splits)

lemma close_moves: "body_Close rd b c = (out, b', c') \<Longrightarrow> moves (bb_admission b) c (bb_admission b') c'"
  by (auto simp: body_Close_def moves_def split: prod.splits)

lemma moves_inv:
  assumes "client_inv (c, add_mset call cs)" "moves (call_admission call) c (call_admission call') c'"
  shows "client_inv (c', add_mset call' cs)"
  using assms(2) unfolding moves_def
proof
  assume "(call_admission call', c') = (call_admission call, c)"
  then show ?thesis using assms(1) by (auto simp: client_inv_def holds_slot_def)
next
  assume "(call_admission call', c') = release_admission (call_admission call) c"
  moreover have "once (call_admission call)" using assms(1) by (simp add: client_inv_def)
  ultimately show ?thesis using release_cases [of "call_admission call" c "call_admission call'" c'] assms(1)
    by (cases "ad_released (call_admission call)") (auto simp: client_inv_def holds_slot_def)
qed

lemma admit_inv: "do_admit r e1 e2 c = (None, n, c') \<Longrightarrow> n = 0 \<and> c' = c\<lparr>hc_inFlight := hc_inFlight c + 1\<rparr> \<and> hc_inFlight c < hc_capacity c"
  "do_admit r e1 e2 c = (Some err, n, c') \<Longrightarrow> n = 1 \<and> c' = c"
  by (auto simp: do_admit_def split: option.splits if_splits)

lemma client_inv_step:
  assumes "client_inv a" "client_step rd a b"
  shows "client_inv b"
  using assms(2)
proof (cases rule: client_step.cases)
  case (refused request ctxErr lateErr c err n c' cs)
  then show ?thesis using assms(1) admit_inv(2) [OF refused(3)] by (auto simp: client_inv_def once_def holds_slot_def)
next
  case (admitted request ctxErr lateErr c n c' cs)
  then show ?thesis using assms(1) admit_inv(1) [OF admitted(3)] by (auto simp: client_inv_def once_def holds_slot_def)
next
  case (failed m ce answer ad c err ad' c' cs)
  then show ?thesis using assms(1) moves_inv finish_moves(1) [OF failed(3)] by fastforce
next
  case (answered m ce answer ad c response ad' c' cs)
  then show ?thesis using assms(1) moves_inv finish_moves(2) [OF answered(3)] by fastforce
next
  case (read ce k b c out b' c' cs)
  then show ?thesis using assms(1) moves_inv read_moves [OF read(3)] by fastforce
next
  case (close b c out b' c' cs)
  then show ?thesis using assms(1) moves_inv close_moves [OF close(3)] by fastforce
qed

interpretation outbound: transition_system client_new "client_step rd" client_inv for rd
proof
  show "client_inv s" if "client_new s" for s using that by (auto simp: client_new_def client_inv_def)
  show "client_inv t" if "client_inv s" "client_step rd s t" for s t rd using that by (rule client_inv_step)
qed

lemma capacity_fixed: "(client_step rd)\<^sup>*\<^sup>* a b \<Longrightarrow> hc_capacity (fst b) = hc_capacity (fst a)"
proof (induction rule: rtranclp_induct)
  case (step b d)
  have "hc_capacity c' = hc_capacity c" if "moves ad c ad' c'" for ad c ad' c'
    using that by (auto simp: moves_def release_admission_def split: if_splits)
  with step(2) have "hc_capacity (fst d) = hc_capacity (fst b)"
    by cases (auto dest!: admit_inv finish_moves read_moves close_moves)
  with step(3) show ?case by simp
qed simp

text \<open>Admission is balanced. In every interleaving of calls on one client, the slots taken are exactly the calls
  that still hold one, never more than the configured limit; each call cancels its operation context once, when it gives
  its slot back, however often its body is read or closed; and when every call has given its slot back none is taken.\<close>

theorem outbound_admission_balanced:
  assumes "NewExternalHTTPS nl dt baseURL limits = Inr c0"
    and "(client_step rd)\<^sup>*\<^sup>* (c0, {#}) (c, cs)"
  shows "int (size (filter_mset holds_slot cs)) \<le> tl_MaxInFlight limits
     \<and> hc_inFlight c = size (filter_mset holds_slot cs)
     \<and> (\<forall>call \<in># cs. ad_cancels (call_admission call) = (if ad_released (call_admission call) then 1 else 0))
     \<and> ((\<forall>call \<in># cs. ad_released (call_admission call)) \<longrightarrow> hc_inFlight c = 0)"
proof -
  have new: "client_new (c0, {#})" "0 < tl_MaxInFlight limits" "hc_capacity c0 = nat (tl_MaxInFlight limits)"
    using assms(1) by (auto simp: NewExternalHTTPS_def newClient_def validateTransportLimits_def client_new_def
        split: option.splits sum.splits if_splits)
  have "hc_capacity c = hc_capacity c0" using capacity_fixed [OF assms(2)] by simp
  moreover have inv: "client_inv (c, cs)" using outbound.run_inv [OF new(1) assms(2)] .
  ultimately have "int (size (filter_mset holds_slot cs)) \<le> tl_MaxInFlight limits"
    using new by (simp add: client_inv_def) linarith
  moreover have "hc_inFlight c = 0" if "\<forall>call \<in># cs. ad_released (call_admission call)"
  proof -
    have "filter_mset holds_slot cs = {#}" using that by (auto simp: filter_mset_eq_conv holds_slot_def)
    then show ?thesis using inv by (simp add: client_inv_def)
  qed
  ultimately show ?thesis using inv by (auto simp: client_inv_def once_def)
qed

section \<open>The bytes of a body\<close>

text \<open>The contract of \<^verbatim>\<open>io.Reader\<close>: a read fills no more than its buffer, hands out the next bytes of the body, and
  reports the end only there. It does not know this package's own error. \<open>left\<close> is what the body still has.\<close>

definition reads_from :: "'b reader \<Rightarrow> ('b \<Rightarrow> string) \<Rightarrow> bool" where
  "reads_from rd left =
     (\<forall>k b chunk err b'. rd_Read rd k b = ((chunk, err), b') \<longrightarrow>
        length chunk \<le> k \<and> left b = chunk @ left b' \<and> (err = Some io_EOF \<longrightarrow> left b' = '''') \<and> err \<noteq> Some ErrResponseTooLarge)"

text \<open>A sequence of reads with the given buffers, up to the first error: the bytes, the error if one came, the body.\<close>

fun read_some :: "'b reader \<Rightarrow> (nat \<times> go_error option) list \<Rightarrow> 'b boundedBody \<Rightarrow> http_client
    \<Rightarrow> string \<times> go_error option \<times> 'b boundedBody \<times> http_client" where
  "read_some rd [] b c = ('''', None, b, c)"
| "read_some rd ((buffer, contextErr) # rest) b c =
     (case body_Read rd contextErr buffer b c of
        ((chunk, Some err), b', c') \<Rightarrow> (chunk, Some err, b', c')
      | ((chunk, None), b', c') \<Rightarrow> (case read_some rd rest b' c' of (more_bytes, r) \<Rightarrow> (chunk @ more_bytes, r)))"

lemma one_read:
  assumes "reads_from rd left" "body_Read rd ce k b c = ((chunk, err), b', c')" "\<not> bb_tooLarge b" "0 \<le> bb_remaining b"
    and "ce \<noteq> Some io_EOF" "ce \<noteq> Some ErrResponseTooLarge"
  shows "int (length chunk) + bb_remaining b' \<le> bb_remaining b \<and> 0 \<le> bb_remaining b'
     \<and> (err \<noteq> Some ErrResponseTooLarge \<longrightarrow> left (bb_body b) = chunk @ left (bb_body b') \<and> \<not> bb_tooLarge b'
          \<and> int (length chunk) + bb_remaining b' = bb_remaining b)
     \<and> (err = Some io_EOF \<longrightarrow> left (bb_body b') = '''')
     \<and> (err = Some ErrResponseTooLarge \<longrightarrow>
          chunk = take (nat (bb_remaining b)) (left (bb_body b)) \<and> bb_remaining b < int (length (left (bb_body b))))"
proof -
  obtain k' chunk' err' body where r: "rd_Read rd k' (bb_body b) = ((chunk', err'), body)"
    and out: "((chunk, err), b', c') = body_Read rd ce k b c"
    and k': "k' = (if bb_remaining b < int k then nat (bb_remaining b) + 1 else k)"
    using assms(2) by (metis prod.exhaust)
  have law: "left (bb_body b) = chunk' @ left body" "err' = Some io_EOF \<longrightarrow> left body = ''''"
    using assms(1) r by (auto simp: reads_from_def)
  have "err' \<noteq> Some ErrResponseTooLarge" using assms(1) r by (auto simp: reads_from_def)
  then show ?thesis
    using out assms(3-6) r law unfolding body_Read_def k' [symmetric] Let_def
    by (auto split: if_splits option.splits prod.splits)
qed

definition context_answers :: "(nat \<times> go_error option) list \<Rightarrow> bool" where
  "context_answers reads = list_all (\<lambda>(_, ce). ce \<noteq> Some io_EOF \<and> ce \<noteq> Some ErrResponseTooLarge) reads"

lemma some_reads:
  assumes "reads_from rd left" "context_answers reads" "\<not> bb_tooLarge b" "0 \<le> bb_remaining b"
    and "read_some rd reads b c = (bytes, err, b', c')"
  shows "int (length bytes) \<le> bb_remaining b
     \<and> (err \<noteq> Some ErrResponseTooLarge \<longrightarrow> left (bb_body b) = bytes @ left (bb_body b'))
     \<and> (err = Some io_EOF \<longrightarrow> left (bb_body b') = '''')
     \<and> (err = Some ErrResponseTooLarge \<longrightarrow>
          bytes = take (nat (bb_remaining b)) (left (bb_body b)) \<and> bb_remaining b < int (length (left (bb_body b))))"
  using assms(2-)
proof (induction reads arbitrary: b c bytes)
  case (Cons read reads)
  obtain k ce where read: "read = (k, ce)" by fastforce
  have ce: "ce \<noteq> Some io_EOF" "ce \<noteq> Some ErrResponseTooLarge" and rest: "context_answers reads"
    using Cons(2) read by (auto simp: context_answers_def)
  obtain chunk e b1 c1 where r: "body_Read rd ce k b c = ((chunk, e), b1, c1)" by (metis prod.exhaust)
  note one = one_read [OF assms(1) r Cons(3,4) ce]
  show ?case
  proof (cases e)
    case None
    obtain tail where t: "read_some rd reads b1 c1 = (tail, err, b', c')" "bytes = chunk @ tail"
      using Cons(5) read r None by (auto split: prod.splits)
    have "\<not> bb_tooLarge b1" "0 \<le> bb_remaining b1" using one None by auto
    note ih = Cons(1) [OF rest this t(1)]
    have l: "left (bb_body b) = chunk @ left (bb_body b1)" "bb_remaining b = int (length chunk) + bb_remaining b1"
      using one None by auto
    have "nat (bb_remaining b) = length chunk + nat (bb_remaining b1)" using l(2) \<open>0 \<le> bb_remaining b1\<close> by simp
    then show ?thesis unfolding t(2) l(1) using ih l(2) by simp
  next
    case (Some x)
    then show ?thesis using Cons(5) read r one by auto
  qed
qed auto

text \<open>A body is never cut silently. Reading a response with any buffers hands out at most the admitted number of
  bytes, always a beginning of the provider's body; the end is reported only after the whole body, and the size error
  only for a body that is longer than the limit, after exactly the limit's bytes.\<close>

theorem bounded_body_is_prefix:
  assumes "reads_from rd left" "context_answers reads" "0 \<le> maxBodyBytes"
    and "do_finish maxBodyBytes ce (Inr response) ad c = (Inr opened, ad', c')"
    and "read_some rd reads (re_Body opened) c' = (bytes, err, b, c'')"
  shows "int (length bytes) \<le> maxBodyBytes
     \<and> (\<exists>rest. left (re_Body response) = bytes @ rest)
     \<and> (err = Some io_EOF \<longrightarrow> bytes = left (re_Body response))
     \<and> (err = Some ErrResponseTooLarge \<longrightarrow>
          bytes = take (nat maxBodyBytes) (left (re_Body response)) \<and> maxBodyBytes < int (length (left (re_Body response))))"
proof -
  have o: "bb_body (re_Body opened) = re_Body response" "bb_remaining (re_Body opened) = maxBodyBytes"
    "\<not> bb_tooLarge (re_Body opened)"
    using assms(4) by (auto simp: do_finish_def split: if_splits)
  note r = some_reads [OF assms(1,2) o(3) _ assms(5), unfolded o, OF assms(3)]
  have "\<exists>rest. left (re_Body response) = bytes @ rest"
    using r by (metis append_take_drop_id)
  then show ?thesis using r by auto
qed

section \<open>The fixed authority\<close>

text \<open>Outbound requests stay on their authority. Whatever a caller builds, a client for an external dependency hands
  to the network only requests for the validated HTTPS authority, without user information and without a header reserved
  to the transport; it never uses a proxy, and dials only addresses that are public.\<close>

theorem outbound_request_is_pinned:
  assumes "NewExternalHTTPS nl dt baseURL limits = Inr c"
  shows "\<not> pt_proxy (hc_transport c)
     \<and> (enforceDialAddress nl (pt_dial (hc_transport c)) address = None \<longrightarrow>
          (\<exists>host port resolved. net_SplitHostPort address = Some (host, port) \<and> nl_ParseAddr nl host = Some resolved
             \<and> public_by_table (Unmap resolved)))
     \<and> (fst (send_request c base request n) \<noteq> Inl (WrapTyped ''*url.Error'' (or_Method request) ErrTargetDenied) \<longrightarrow>
          (\<exists>u v header trailer. or_URL request = Some u \<and> nl_Parse nl (trim_space baseURL) = Some v
             \<and> u_User u = None \<and> equal_fold (u_Scheme u) ''https'' \<and> equal_fold (u_Host u) (nl_ToLower nl (u_Host v))
             \<and> (or_Host request = '''' \<or> equal_fold (or_Host request) (nl_ToLower nl (u_Host v)))
             \<and> (\<forall>(name, _) \<in> set (header @ trailer). \<not> reserved_header name)
             \<and> snd (send_request c base request n) = snd (base (request\<lparr>or_Header := header, or_Trailer := trailer\<rparr>) n)))"
proof -
  obtain baseURL' transport where v: "validateTarget nl baseURL \<lparr>tp_privateSuffix = ''''\<rparr> = Inr baseURL'"
    and c: "hc_scheme c = u_Scheme baseURL'" "hc_authority c = u_Host baseURL'" "\<not> pt_proxy (hc_transport c)"
      "pt_dial (hc_transport c) = \<lparr>tp_privateSuffix = ''''\<rparr>"
    using assms by (auto simp: NewExternalHTTPS_def newClient_def split: option.splits sum.splits)
  then have "HTTPSTarget (nl_Parse nl) (nl_ToLower nl) (trim_space baseURL) = (baseURL', TargetOK)"
    by (auto simp: validateTarget_def split: prod.splits TargetIssue.splits if_splits option.splits)
  from HTTPSTarget_OK [OF this] obtain u where u: "nl_Parse nl (trim_space baseURL) = Some u"
    "u_Host baseURL' = nl_ToLower nl (u_Host u)" "u_Scheme baseURL' = ''https''" by blast
  let ?sent = "request\<lparr>or_Header := removeReservedHeaders (or_Header request), or_Trailer := removeReservedHeaders (or_Trailer request)\<rparr>"
  have dial: "\<exists>host port resolved. net_SplitHostPort address = Some (host, port) \<and> nl_ParseAddr nl host = Some resolved
      \<and> public_by_table (Unmap resolved)" if "enforceDialAddress nl (pt_dial (hc_transport c)) address = None"
    using that c(4) by (auto simp: enforceDialAddress_def allowsAddress_def policy_private_def public_address_by_table
        split: option.splits prod.splits if_splits)
  have clean: "\<forall>(name, _) \<in> set (removeReservedHeaders (or_Header request) @ removeReservedHeaders (or_Trailer request)).
      \<not> reserved_header name"
    by (auto simp: removeReservedHeaders_def)
  have sent: "\<exists>w. or_URL request = Some w \<and> u_User w = None \<and> equal_fold (u_Scheme w) ''https''
      \<and> equal_fold (u_Host w) (nl_ToLower nl (u_Host u))
      \<and> (or_Host request = '''' \<or> equal_fold (or_Host request) (nl_ToLower nl (u_Host u)))
      \<and> snd (send_request c base request n) = snd (base ?sent n)"
    if "fst (send_request c base request n) \<noteq> Inl (WrapTyped ''*url.Error'' (or_Method request) ErrTargetDenied)"
    using that u c by (auto simp: send_request_def propagation_RoundTrip_def authority_RoundTrip_def
        split: option.splits if_splits prod.splits sum.splits)
  show ?thesis using c(3) dial sent clean u(1) by blast
qed

section \<open>An example client\<close>

definition example_target :: url where
  "example_target = zero_url\<lparr>u_Scheme := ''https'', u_Host := ''idp.example''\<rparr>"

definition example_netlib :: netlib where
  "example_netlib = \<lparr>nl_Parse = (\<lambda>raw. if raw = ''https://idp.example'' then Some example_target else None), nl_ToLower = id,
     nl_ParseAddr = (\<lambda>host. if host = ''8.8.8.8'' then Some (V4 0x08080808) else None)\<rparr>"

definition example_limits :: TransportLimits where
  "example_limits = \<lparr>tl_ResponseHeaderTimeout = 1, tl_MaxResponseHeaderBytes = 1, tl_MaxInFlight = 1, tl_AbsoluteBodyBytes = 3\<rparr>"

definition example_out_client :: http_client where
  "example_out_client =
     \<lparr>hc_baseURL = example_target,
      hc_transport = \<lparr>pt_proxy = False, pt_ResponseHeaderTimeout = 1, pt_MaxResponseHeaderBytes = 1, pt_dial = \<lparr>tp_privateSuffix = ''''\<rparr>\<rparr>,
      hc_scheme = ''https'', hc_authority = ''idp.example'', hc_capacity = 1, hc_inFlight = 0, hc_absoluteBodyBytes = 3\<rparr>"

definition example_transport :: pinned_transport where
  "example_transport = \<lparr>pt_proxy = True, pt_ResponseHeaderTimeout = 0, pt_MaxResponseHeaderBytes = 0, pt_dial = \<lparr>tp_privateSuffix = ''''\<rparr>\<rparr>"

definition example_out_request :: out_request where
  "example_out_request = \<lparr>or_Method = ''GET'', or_URL = Some example_target, or_Host = '''',
     or_Header = [(''Baggage'', [''x''])], or_Trailer = []\<rparr>"

definition text_reader :: "string reader" where
  "text_reader = \<lparr>rd_Read = (\<lambda>k b. ((take k b, if b = '''' then Some io_EOF else None), drop k b)), rd_Close = (\<lambda>b. (None, b))\<rparr>"

definition example_response :: "string http_response" where
  "example_response = \<lparr>re_StatusCode = 200, re_ContentLength = -1, re_Header = [], re_Body = ''abcde''\<rparr>"

lemma example_out_client_built:
  "NewExternalHTTPS example_netlib (Some example_transport) ''https://idp.example'' example_limits = Inr example_out_client"
  by (simp add: NewExternalHTTPS_def validateTransportLimits_def newClient_def validateTarget_def HTTPSTarget_def example_netlib_def
      example_target_def example_limits_def example_out_client_def example_transport_def zero_url_def policy_private_def trim_ascii
      u_Hostname_def splitHostPort_def equal_fold_def is_digit_def)

lemma outbound_admission_balanced_witness:
  "\<exists>c cs. (client_step text_reader)\<^sup>*\<^sup>* (example_out_client, {#}) (c, cs)
     \<and> hc_inFlight c = 1 \<and> int (size (filter_mset holds_slot cs)) \<le> tl_MaxInFlight example_limits"
proof -
  let ?c = "example_out_client\<lparr>hc_inFlight := 1\<rparr>"
  have "do_admit (Some example_out_request) None None example_out_client = (None, 0, ?c)"
    by (simp add: do_admit_def example_out_request_def example_out_client_def)
  then have run: "(client_step text_reader)\<^sup>*\<^sup>* (example_out_client, {#}) (?c, {#Sending \<lparr>ad_released = False, ad_cancels = 0\<rparr>#})"
    by (blast intro: client_step.admitted)
  have "int (size (filter_mset holds_slot {#Sending \<lparr>ad_released = False, ad_cancels = 0\<rparr> :: string out_call#})) \<le> tl_MaxInFlight example_limits"
    using outbound_admission_balanced [OF example_out_client_built run] by (rule conjunct1)
  moreover have "hc_inFlight ?c = 1" by simp
  ultimately show ?thesis using run by blast
qed

lemma bounded_body_is_prefix_witness:
  "(case do_finish 3 None (Inr example_response) \<lparr>ad_released = False, ad_cancels = 0\<rparr> example_out_client of
      (Inr opened, _, c) \<Rightarrow> fst (read_some text_reader [(2, None), (2, None)] (re_Body opened) c) = take 3 ''abcde''
    | _ \<Rightarrow> False)"
proof -
  let ?ad = "\<lparr>ad_released = False, ad_cancels = 0\<rparr>"
  let ?o = "\<lparr>re_StatusCode = 200, re_ContentLength = -1, re_Header = [],
     re_Body = \<lparr>bb_body = ''abcde'', bb_remaining = 3, bb_tooLarge = False, bb_admission = ?ad\<rparr>\<rparr>"
  have f: "do_finish 3 None (Inr example_response) ?ad example_out_client = (Inr ?o, ?ad, example_out_client)"
    by (simp add: do_finish_def example_response_def)
  let ?r = "read_some text_reader [(2, None), (2, None)] (re_Body ?o) example_out_client"
  have e: "fst (snd ?r) = Some ErrResponseTooLarge"
    by (simp add: body_Read_def text_reader_def release_admission_def)
  have r: "?r = (fst ?r, fst (snd ?r), fst (snd (snd ?r)), snd (snd (snd ?r)))" by simp
  have "reads_from text_reader id" by (auto simp: reads_from_def text_reader_def)
  moreover have "context_answers [(2, None), (2, None)]" by (simp add: context_answers_def)
  ultimately have "fst ?r = take (nat 3) ''abcde''"
    using bounded_body_is_prefix [OF _ _ _ f r] e unfolding example_response_def by force
  then show ?thesis unfolding f by (simp only: prod.case sum.case) simp
qed

lemma outbound_request_is_pinned_witness:
  "\<exists>header trailer. \<not> list_ex (\<lambda>(name, _). reserved_header name) (header @ trailer)
     \<and> snd (send_request example_out_client (\<lambda>r n. (Inl ErrSaturated, or_Header r)) example_out_request []) = header"
proof -
  have "fst (send_request example_out_client (\<lambda>r n. (Inl ErrSaturated, or_Header r)) example_out_request [])
      \<noteq> Inl (WrapTyped ''*url.Error'' (or_Method example_out_request) ErrTargetDenied)"
    by (simp add: send_request_def propagation_RoundTrip_def authority_RoundTrip_def example_out_client_def example_out_request_def
        example_target_def zero_url_def equal_fold_def)
  then show ?thesis
    using outbound_request_is_pinned [OF example_out_client_built, of "''8.8.8.8:443''" "\<lambda>r n. (Inl ErrSaturated, or_Header r)" example_out_request "[]"]
    by (auto simp: list_ex_iff)
qed

end
