(* ===== verification/OidcTrust.thy ===== *)
theory OidcTrust
  imports BearerAuth HttpClient
begin

text \<open>
  The trust values of \<^verbatim>\<open>internal/authntrust\<close> and the JWT engine \<^verbatim>\<open>internal/infra/oidcjwt\<close>: its policy
  (\<^verbatim>\<open>policy.go\<close>), the caller a token names (\<^verbatim>\<open>token.go\<close>), the provider documents (\<^verbatim>\<open>provider.go\<close>), and the
  verification of one token (\<^verbatim>\<open>verifier.go\<close>).

  The JWT parser and the key set are libraries. \<open>jwtlib\<close> has the parser as a function of its options, and \<open>jwt_laws\<close>
  says what an accepted token has passed; the key set is a function of the token on a state, which may also report
  failed refreshes. A context is live, cancelled or past its deadline.
\<close>

section \<open>Trust values\<close>

definition TargetClassExternalHTTPS :: string where "TargetClassExternalHTTPS = ''external-https''"
definition TargetClassPrivateHTTPS :: string where "TargetClassPrivateHTTPS = ''private-https''"
definition TokenProfileResourceServer :: string where "TokenProfileResourceServer = ''resource-server''"
definition TokenProfileRFC9068 :: string where "TokenProfileRFC9068 = ''rfc9068''"

definition validHTTPSTarget :: "netlib \<Rightarrow> string \<Rightarrow> bool \<Rightarrow> bool" where
  "validHTTPSTarget nl raw allowQuery =
     (if trim_space raw \<noteq> raw then False
      else let issue = snd (HTTPSTarget (nl_Parse nl) (nl_ToLower nl) raw)
           in issue = TargetOK \<or> allowQuery \<and> issue = TargetHasQuery)"

definition ValidIssuerURL :: "netlib \<Rightarrow> string \<Rightarrow> bool" where
  "ValidIssuerURL nl raw = validHTTPSTarget nl raw False"

definition ValidJWKSURL :: "netlib \<Rightarrow> string \<Rightarrow> bool" where
  "ValidJWKSURL nl raw = validHTTPSTarget nl raw True"

definition ValidIntrospectionEndpoint :: "netlib \<Rightarrow> string \<Rightarrow> bool" where
  "ValidIntrospectionEndpoint nl raw = validHTTPSTarget nl raw False"

definition ValidIntrospectionTargetClass :: "string \<Rightarrow> bool" where
  "ValidIntrospectionTargetClass raw = (raw = TargetClassExternalHTTPS \<or> raw = TargetClassPrivateHTTPS)"

datatype IntrospectionTargetIssue =
    IntrospectionTargetValid
  | IntrospectionTargetClassInvalid
  | IntrospectionPrivateSuffixRequired
  | IntrospectionPrivateSuffixForbidden

definition IntrospectionTargetPolicyIssue :: "string \<Rightarrow> string \<Rightarrow> IntrospectionTargetIssue" where
  "IntrospectionTargetPolicyIssue targetClass privateSuffix =
     (if \<not> ValidIntrospectionTargetClass targetClass then IntrospectionTargetClassInvalid
      else if targetClass = TargetClassPrivateHTTPS
      then (if trim_space privateSuffix = '''' then IntrospectionPrivateSuffixRequired else IntrospectionTargetValid)
      else if privateSuffix \<noteq> '''' then IntrospectionPrivateSuffixForbidden
      else IntrospectionTargetValid)"

definition ValidTokenProfile :: "string \<Rightarrow> bool" where
  "ValidTokenProfile raw = (raw = TokenProfileResourceServer \<or> raw = TokenProfileRFC9068)"

section \<open>The JWT policy\<close>

record oidc_Policy =
  op_issuer :: string
  op_audience :: string
  op_tokenProfile :: string

definition oidc_NewPolicy :: "netlib \<Rightarrow> oidc_Policy \<Rightarrow> go_error + oidc_Policy" where
  "oidc_NewPolicy nl input =
     (let issuer = trim_space (op_issuer input); audience = trim_space (op_audience input);
          tokenProfile = nl_ToLower nl (trim_space (op_tokenProfile input))
      in if \<not> ValidIssuerURL nl issuer
         then Inl (Fresh ''authn issuer must be an absolute HTTPS URL without user info, query, or fragment'')
         else if audience = '''' then Inl (Fresh ''authn audience cannot be empty'')
         else if \<not> ValidTokenProfile tokenProfile
         then Inl (Fresh ''authn token profile must be one of resource-server or rfc9068'')
         else Inr \<lparr>op_issuer = issuer, op_audience = audience, op_tokenProfile = tokenProfile\<rparr>)"

definition strictRFC9068 :: "oidc_Policy \<Rightarrow> bool" where
  "strictRFC9068 p = (op_tokenProfile p = TokenProfileRFC9068)"

definition maxProviderBodyBytes :: int where "maxProviderBodyBytes = 1048576"
definition maxProviderHeaderBytes :: int where "maxProviderHeaderBytes = 32768"
definition maxProviderInFlight :: int where "maxProviderInFlight = 1"
definition allowedAlgorithm :: string where "allowedAlgorithm = ''RS256''"
definition providerTimeout :: duration where "providerTimeout = 5 * second"

section \<open>The caller of a token\<close>

record accessTokenClaims =
  tc_Issuer :: string
  tc_Subject :: string
  tc_Audience :: "string list"
  tc_ExpiresAt :: "instant option"
  tc_NotBefore :: "instant option"
  tc_IssuedAt :: "instant option"
  tc_ID :: string
  tc_ClientID :: string
  tc_AuthorizedParty :: string
  tc_ApplicationID :: string
  tc_OktaClientID :: string

text \<open>The value is none when the header is absent or no string.\<close>

definition validAccessTokenType :: "string option \<Rightarrow> bool" where
  "validAccessTokenType v =
     (case v of None \<Rightarrow> False | Some typ \<Rightarrow> equal_fold typ ''at+jwt'' \<or> equal_fold typ ''application/at+jwt'')"

fun oneClientID :: "string \<Rightarrow> string list \<Rightarrow> string option" where
  "oneClientID selected [] = Some selected"
| "oneClientID selected (v # vs) =
     (if v = '''' then oneClientID selected vs
      else if trim_space v \<noteq> v then None
      else if selected \<noteq> '''' \<and> v \<noteq> selected then None
      else oneClientID v vs)"

definition principalFromClaims :: "accessTokenClaims \<Rightarrow> bool \<Rightarrow> Principal option" where
  "principalFromClaims tcl strict =
     (case oneClientID '''' [tc_ClientID tcl, tc_AuthorizedParty tcl, tc_ApplicationID tcl, tc_OktaClientID tcl] of
        None \<Rightarrow> None
      | Some clientID \<Rightarrow>
          let subject = tc_Subject tcl
          in if trim_space subject \<noteq> subject \<or> (subject = '''' \<and> clientID = '''') then None
             else if strict \<and> (subject = '''' \<or> trim_space (tc_ClientID tcl) = '''' \<or> trim_space (tc_ID tcl) = ''''
                               \<or> tc_IssuedAt tcl = None) then None
             else Some \<lparr>Issuer = tc_Issuer tcl, Subject = subject, ClientID = clientID, Scopes = []\<rparr>)"

section \<open>Verification\<close>

datatype ctx_state = CtxLive | CtxCanceled | CtxExpired

fun ctx_error :: "ctx_state \<Rightarrow> go_error option" where
  "ctx_error CtxLive = None"
| "ctx_error CtxCanceled = Some Canceled"
| "ctx_error CtxExpired = Some DeadlineExceeded"

record jwt_token =
  tk_typ :: "string option"
  tk_alg :: string
  tk_kid :: string
  tk_Valid :: bool

record parser_options =
  po_ValidMethods :: "string list"
  po_Issuer :: string
  po_Audience :: string
  po_ExpirationRequired :: bool
  po_Leeway :: duration
  po_StrictDecoding :: bool
  po_JSONNumber :: bool

text \<open>\<^verbatim>\<open>ParseWithClaims\<close> calls the key function on the state it is given. \<open>jw_signed key compact\<close> is that the signature of the
  token verifies under the key; \<open>jw_claims\<close> is the payload of a token.\<close>

record ('k, 's) jwtlib =
  jw_Parse :: "parser_options \<Rightarrow> instant \<Rightarrow> string \<Rightarrow> (jwt_token \<Rightarrow> 's \<Rightarrow> (go_error + 'k) \<times> 's) \<Rightarrow> 's
     \<Rightarrow> (jwt_token option \<times> go_error option \<times> accessTokenClaims) \<times> 's"
  jw_signed :: "'k \<Rightarrow> string \<Rightarrow> bool"
  jw_claims :: "string \<Rightarrow> accessTokenClaims option"

definition parser_for :: "oidc_Policy \<Rightarrow> parser_options" where
  "parser_for policy =
     \<lparr>po_ValidMethods = [allowedAlgorithm], po_Issuer = op_issuer policy, po_Audience = op_audience policy,
      po_ExpirationRequired = True, po_Leeway = ClockSkew, po_StrictDecoding = True, po_JSONNumber = True\<rparr>"

text \<open>The engine's state: the key set, whether the process context was cancelled, what the refresh reporter recorded, and
  whether the call at hand saw a failed refresh.\<close>

record 's oidc_state =
  os_keys :: 's
  os_closed :: bool
  os_closedIdle :: nat
  os_refreshFailures :: nat
  os_observer :: "bool option"

definition shouldReportRefreshFailure :: "bool \<Rightarrow> bool \<Rightarrow> ctx_state \<Rightarrow> bool" where
  "shouldReportRefreshFailure processDone requestRefresh refreshCtx =
     (if processDone then False else \<not> requestRefresh \<or> ctx_error refreshCtx = None)"

definition refreshFailureReporter :: "ctx_state \<Rightarrow> 's oidc_state \<Rightarrow> 's oidc_state" where
  "refreshFailureReporter refreshCtx st =
     (if \<not> shouldReportRefreshFailure (os_closed st) (os_observer st \<noteq> None) refreshCtx then st
      else st\<lparr>os_observer := map_option (\<lambda>_. True) (os_observer st), os_refreshFailures := os_refreshFailures st + 1\<rparr>)"

text \<open>A key function: the key of a token, and the contexts of the refreshes that failed while it looked.\<close>

type_synonym ('k, 's) key_function = "jwt_token \<Rightarrow> 's \<Rightarrow> (go_error + 'k) \<times> ctx_state list \<times> 's"

definition select_key :: "oidc_Policy \<Rightarrow> ('k, 's) key_function option \<Rightarrow> jwt_token \<Rightarrow> 's oidc_state \<Rightarrow> (go_error + 'k) \<times> 's oidc_state" where
  "select_key policy keyFunc token st =
     (if strictRFC9068 policy \<and> \<not> validAccessTokenType (tk_typ token) then (Inl (VerificationFailure KindInvalid), st)
      else case keyFunc of
        None \<Rightarrow> (Inl (VerificationFailure KindUnavailable), st)
      | Some f \<Rightarrow> (case f token (os_keys st) of (answer, failures, keys) \<Rightarrow>
            (answer, fold refreshFailureReporter failures (st\<lparr>os_keys := keys\<rparr>))))"

definition oidc_Close :: "'s oidc_state \<Rightarrow> 's oidc_state" where
  "oidc_Close st = (if os_closed st then st else st\<lparr>os_closed := True, os_closedIdle := os_closedIdle st + 1\<rparr>)"

text \<open>\<open>ctx\<close> is the state of the caller's context once the parser is done.\<close>

definition oidc_Verify ::
  "('k, 's oidc_state) jwtlib \<Rightarrow> oidc_Policy \<Rightarrow> ('k, 's) key_function option \<Rightarrow> instant \<Rightarrow> ctx_state \<Rightarrow> 's oidc_state verifier" where
  "oidc_Verify jw policy keyFunc now ctx compact st =
     (if MaxTokenBytes < length compact then (Inl (VerificationFailure KindOversize), st)
      else case jw_Parse jw (parser_for policy) now compact (select_key policy keyFunc) (st\<lparr>os_observer := Some False\<rparr>) of
        ((token, err, tcl), st1) \<Rightarrow>
          let st2 = st1\<lparr>os_observer := None\<rparr>
          in if err \<noteq> None \<or> token = None \<or> \<not> tk_Valid (the token)
             then (case ctx_error ctx of
                     Some ctxErr \<Rightarrow> (Inl (WrapFmt ''verify access token'' ctxErr), st2)
                   | None \<Rightarrow>
                       if os_observer st1 = Some True then (Inl (VerificationFailure KindUnavailable), st2)
                       else (Inl (VerificationFailure KindInvalid), st2))
             else (case (principalFromClaims tcl (strictRFC9068 policy), tc_ExpiresAt tcl) of
                     (Some caller, Some expiry) \<Rightarrow> (Inr \<lparr>rs_Principal = caller, rs_ExpiresAt = expiry\<rparr>, st2)
                   | _ \<Rightarrow> (Inl (VerificationFailure KindInvalid), st2)))"

section \<open>The provider's documents\<close>

record discoveryDocument =
  dd_Issuer :: string
  dd_JWKSURI :: string

definition providerTransportLimits :: TransportLimits where
  "providerTransportLimits =
     \<lparr>tl_ResponseHeaderTimeout = providerTimeout, tl_MaxResponseHeaderBytes = maxProviderHeaderBytes,
      tl_MaxInFlight = maxProviderInFlight, tl_AbsoluteBodyBytes = maxProviderBodyBytes\<rparr>"

text \<open>\<^verbatim>\<open>io.ReadAll\<close> over \<^verbatim>\<open>io.LimitReader\<close>, for a body that has the given bytes and then ends or fails.\<close>

type_synonym body_text = "string \<times> go_error option"

definition readAll_limited :: "nat \<Rightarrow> body_text \<Rightarrow> string \<times> go_error option" where
  "readAll_limited n body = (case body of (content, err) \<Rightarrow> if n \<le> length content then (take n content, None) else (content, err))"

text \<open>The URL library's \<^verbatim>\<open>String\<close> and \<^verbatim>\<open>http.NewRequest\<close>, and the JSON decoder of the discovery document.\<close>

record provlib =
  pv_net :: netlib
  pv_transport :: "pinned_transport option"
  pv_String :: "url \<Rightarrow> string"
  pv_NewRequest :: "string \<Rightarrow> bool"
  pv_discovery :: "string \<Rightarrow> discoveryDocument option"

definition fetchDocument ::
  "provlib \<Rightarrow> (string \<Rightarrow> go_error + (int \<times> body_text)) \<Rightarrow> ctx_state \<Rightarrow> string \<Rightarrow> go_error + string" where
  "fetchDocument pv client ctx target =
     (if \<not> pv_NewRequest pv target then Inl (Fresh ''provider request is invalid'')
      else case client target of
        Inl err \<Rightarrow>
          (case ctx_error ctx of Some e \<Rightarrow> Inl (WrapFmt ''provider request canceled'' e) | None \<Rightarrow> Inl (Fresh ''provider request failed''))
      | Inr (status, response) \<Rightarrow>
          if status \<noteq> 200 then Inl (Fresh ''provider returned an unsuccessful status'')
          else (case readAll_limited (nat maxProviderBodyBytes + 1) response of
                  (_, Some err) \<Rightarrow>
                    (case ctx_error ctx of Some e \<Rightarrow> Inl (WrapFmt ''provider response canceled'' e)
                     | None \<Rightarrow> Inl (Fresh ''provider response failed''))
                | (body, None) \<Rightarrow>
                    if nat maxProviderBodyBytes < length body then Inl (Fresh ''provider response is too large'') else Inr body))"

definition validateDiscovery :: "provlib \<Rightarrow> string \<Rightarrow> oidc_Policy \<Rightarrow> go_error + string" where
  "validateDiscovery pv body policy =
     (case pv_discovery pv body of
        None \<Rightarrow> Inl (Fresh ''OIDC startup failed at discovery validation'')
      | Some document \<Rightarrow>
          if dd_Issuer document \<noteq> op_issuer policy \<or> \<not> ValidJWKSURL (pv_net pv) (dd_JWKSURI document)
          then Inl (Fresh ''OIDC startup failed at discovery validation'') else Inr (dd_JWKSURI document))"

definition authority_of :: "provlib \<Rightarrow> url \<Rightarrow> string" where
  "authority_of pv u = pv_String pv (zero_url\<lparr>u_Scheme := u_Scheme u, u_Host := u_Host u\<rparr>)"

definition discoverJWKSURI ::
  "provlib \<Rightarrow> (http_client \<Rightarrow> string \<Rightarrow> go_error + (int \<times> body_text)) \<Rightarrow> ctx_state \<Rightarrow> oidc_Policy \<Rightarrow> go_error + string" where
  "discoverJWKSURI pv do_get ctx policy =
     (case nl_Parse (pv_net pv) (op_issuer policy) of
        None \<Rightarrow> Inl (Fresh ''OIDC startup failed at issuer validation'')
      | Some issuerURL \<Rightarrow>
      case NewExternalHTTPS (pv_net pv) (pv_transport pv) (authority_of pv issuerURL) providerTransportLimits of
        Inl err \<Rightarrow> Inl (Fresh ''OIDC startup failed at discovery client'')
      | Inr client \<Rightarrow>
      let discoveryURL = issuerURL\<lparr>u_Path := trim_suffix (u_Path issuerURL) ''/'' @ ''/.well-known/openid-configuration''\<rparr>
      in case fetchDocument pv (do_get client) ctx (pv_String pv discoveryURL) of
           Inl err \<Rightarrow> Inl (WrapFmt ''OIDC startup failed at discovery'' err)
         | Inr body \<Rightarrow> validateDiscovery pv body policy)"

definition newJWKSClient :: "provlib \<Rightarrow> string \<Rightarrow> go_error + http_client" where
  "newJWKSClient pv jwksURI =
     (case nl_Parse (pv_net pv) jwksURI of
        None \<Rightarrow> Inl (Fresh ''OIDC startup failed at JWKS URL validation'')
      | Some parsed \<Rightarrow>
          (case NewExternalHTTPS (pv_net pv) (pv_transport pv) (authority_of pv parsed) providerTransportLimits of
             Inl err \<Rightarrow> Inl (Fresh ''OIDC startup failed at JWKS client'') | Inr bounded \<Rightarrow> Inr bounded))"

text \<open>\<open>response\<close> is none for a nil response or body; \<open>closeErr\<close> is what closing the body answers.\<close>

definition jwks_RoundTrip :: "go_error + body_text option \<Rightarrow> go_error option \<Rightarrow> go_error + string" where
  "jwks_RoundTrip answer closeErr =
     (case answer of
        Inl err \<Rightarrow> Inl (WrapFmt ''send JWKS request'' err)
      | Inr None \<Rightarrow> Inl (Fresh ''JWKS provider returned an empty response'')
      | Inr (Some response) \<Rightarrow>
          (case readAll_limited (nat maxProviderBodyBytes + 1) response of
             (body, readErr) \<Rightarrow>
               if readErr \<noteq> None \<or> closeErr \<noteq> None then Inl (Fresh ''read JWKS provider response'')
               else if nat maxProviderBodyBytes < length body then Inl (Fresh ''JWKS provider response is too large'')
               else Inr body))"

text \<open>\<^verbatim>\<open>New\<close>; \<open>loadKeys\<close> and \<open>signingKeys\<close> are the two steps of the key library, with the state of the key set.\<close>

record ('k, 's) keylib =
  kl_load :: "http_client \<Rightarrow> string \<Rightarrow> 's option"
  kl_signing :: "'s \<Rightarrow> ('k, 's) key_function option"

definition oidc_New ::
  "provlib \<Rightarrow> ('k, 's) keylib \<Rightarrow> (http_client \<Rightarrow> string \<Rightarrow> go_error + (int \<times> body_text)) \<Rightarrow> ctx_state \<Rightarrow> oidc_Policy
     \<Rightarrow> go_error + (('k, 's) key_function \<times> 's oidc_state)" where
  "oidc_New pv kl do_get ctx policy =
     (case discoverJWKSURI pv do_get ctx policy of
        Inl err \<Rightarrow> Inl err
      | Inr jwksURI \<Rightarrow>
      case newJWKSClient pv jwksURI of
        Inl err \<Rightarrow> Inl err
      | Inr jwksClient \<Rightarrow>
      case kl_load kl jwksClient jwksURI of
        None \<Rightarrow> Inl (Fresh ''OIDC startup failed at JWKS load'')
      | Some keys \<Rightarrow>
      case kl_signing kl keys of
        None \<Rightarrow> Inl (Fresh ''OIDC startup failed at JWKS key selection'')
      | Some keyFunc \<Rightarrow>
          Inr (keyFunc, \<lparr>os_keys = keys, os_closed = False, os_closedIdle = 0, os_refreshFailures = 0, os_observer = None\<rparr>))"

section \<open>What an accepted token has shown\<close>

text \<open>The documented contract of the parser: it accepts a token only after the key function named a key for it under which
  the signature verifies, with an allowed algorithm, and after issuer, audience, expiry and start were checked
  with the leeway.\<close>

definition jwt_laws :: "('k, 's) jwtlib \<Rightarrow> bool" where
  "jwt_laws jw =
     (\<forall>opts now compact kf st token tcl st'.
        jw_Parse jw opts now compact kf st = ((Some token, None, tcl), st') \<longrightarrow> tk_Valid token \<longrightarrow>
          jw_claims jw compact = Some tcl \<and> tk_alg token \<in> set (po_ValidMethods opts)
          \<and> (\<exists>parsed key. kf parsed st = (Inr key, st') \<and> tk_typ parsed = tk_typ token \<and> tk_alg parsed = tk_alg token
               \<and> tk_kid parsed = tk_kid token \<and> jw_signed jw key compact)
          \<and> tc_Issuer tcl = po_Issuer opts \<and> po_Audience opts \<in> set (tc_Audience tcl)
          \<and> (\<exists>e. tc_ExpiresAt tcl = Some e \<and> now < e + po_Leeway opts)
          \<and> (\<forall>nbf. tc_NotBefore tcl = Some nbf \<longrightarrow> nbf \<le> now + po_Leeway opts))"

lemma oneClientID_agrees:
  "oneClientID selected vs = Some cid \<Longrightarrow>
     (\<forall>v \<in> set vs. v = '''' \<or> v = cid) \<and> (selected = '''' \<or> cid = selected) \<and> (cid = selected \<or> trim_space cid = cid)"
  by (induction selected vs rule: oneClientID.induct) (auto split: if_splits)

lemma principal_named:
  assumes "principalFromClaims tcl strict = Some caller"
  shows "Issuer caller = tc_Issuer tcl" "Subject caller = tc_Subject tcl" "trim_space (Subject caller) = Subject caller"
    "\<forall>v \<in> {tc_ClientID tcl, tc_AuthorizedParty tcl, tc_ApplicationID tcl, tc_OktaClientID tcl}. v = '''' \<or> v = ClientID caller"
    "trim_space (ClientID caller) = ClientID caller" "Subject caller \<noteq> '''' \<or> ClientID caller \<noteq> ''''"
    "strict \<longrightarrow> Subject caller \<noteq> '''' \<and> ClientID caller \<noteq> '''' \<and> trim_space (tc_ID tcl) \<noteq> '''' \<and> tc_IssuedAt tcl \<noteq> None"
proof -
  obtain cid where cid: "oneClientID '''' [tc_ClientID tcl, tc_AuthorizedParty tcl, tc_ApplicationID tcl, tc_OktaClientID tcl] = Some cid"
    and rest: "trim_space (tc_Subject tcl) = tc_Subject tcl" "\<not> (tc_Subject tcl = '''' \<and> cid = '''')"
      "\<not> (strict \<and> (tc_Subject tcl = '''' \<or> trim_space (tc_ClientID tcl) = '''' \<or> trim_space (tc_ID tcl) = '''' \<or> tc_IssuedAt tcl = None))"
      "caller = \<lparr>Issuer = tc_Issuer tcl, Subject = tc_Subject tcl, ClientID = cid, Scopes = []\<rparr>"
    using assms by (auto simp del: oneClientID.simps simp: principalFromClaims_def Let_def split: option.splits if_splits)
  have blank: "trim_space '''' = ''''" by (simp add: trim_space_def)
  note agree = oneClientID_agrees [OF cid]
  show "Issuer caller = tc_Issuer tcl" "Subject caller = tc_Subject tcl" "trim_space (Subject caller) = Subject caller"
    "Subject caller \<noteq> '''' \<or> ClientID caller \<noteq> ''''"
    using rest by auto
  show "\<forall>v \<in> {tc_ClientID tcl, tc_AuthorizedParty tcl, tc_ApplicationID tcl, tc_OktaClientID tcl}. v = '''' \<or> v = ClientID caller"
    using agree rest(4) by auto
  show "trim_space (ClientID caller) = ClientID caller" using agree rest(4) blank by auto
  show "strict \<longrightarrow> Subject caller \<noteq> '''' \<and> ClientID caller \<noteq> '''' \<and> trim_space (tc_ID tcl) \<noteq> '''' \<and> tc_IssuedAt tcl \<noteq> None"
    using agree rest(3,4) blank by auto
qed

lemma verify_accepts:
  assumes "oidc_Verify jw policy keyFunc now ctx compact st = (Inr verified, st')"
  shows "\<exists>token tcl st1. length compact \<le> MaxTokenBytes
     \<and> jw_Parse jw (parser_for policy) now compact (select_key policy keyFunc) (st\<lparr>os_observer := Some False\<rparr>) = ((Some token, None, tcl), st1)
     \<and> tk_Valid token \<and> principalFromClaims tcl (strictRFC9068 policy) = Some (rs_Principal verified)
     \<and> tc_ExpiresAt tcl = Some (rs_ExpiresAt verified)"
  using assms by (auto simp: oidc_Verify_def Let_def split: if_splits option.splits prod.splits)

lemma oidc_failure: "oidc_Verify jw policy keyFunc now ctx compact st = (Inl err, st') \<Longrightarrow> classified_failure err"
proof -
  have "errors_is (WrapFmt ''verify access token'' e) Canceled \<or> errors_is (WrapFmt ''verify access token'' e) DeadlineExceeded"
    if "ctx_error ctx = Some e" for e using that by (cases ctx) auto
  then show "oidc_Verify jw policy keyFunc now ctx compact st = (Inl err, st') \<Longrightarrow> classified_failure err"
    by (auto simp: oidc_Verify_def classified_failure_def KindOf_VerificationFailure Let_def split: if_splits option.splits prod.splits)
qed

interpretation oidc_engine: trust_engine "oidc_Verify jw policy keyFunc now ctx" for jw policy keyFunc now ctx
proof
  show "classified_failure err" if "oidc_Verify jw policy keyFunc now ctx token s = (Inl err, s')" for token s err s'
    using that by (rule oidc_failure)
  show "names_caller verified" if "oidc_Verify jw policy keyFunc now ctx token s = (Inr verified, s')" for token s verified s'
    using verify_accepts [OF that] principal_named(3,5,6) unfolding names_caller_def by metis
qed

text \<open>C33: An accepted JWT is a proven one. When the runtime over the JWT engine admits a credential, the token is
  signed under a key the issuer's key set named for it, with the one allowed algorithm; its issuer and audience are the
  configured ones, its lifetime covers now up to the clock skew, all its client claims agree, and the caller reported is the
  caller it names. Under RFC 9068 it also has the access-token type and the claims that profile requires.\<close>

theorem accepted_jwt_is_proven:
  assumes "jwt_laws jw"
    and "verifyCredential (oidc_Verify jw policy keyFunc now ctx) values carrier r = ((verified, None), r')"
  shows "\<exists>compact token f key tcl. bearerToken values = Inr compact \<and> length compact \<le> MaxTokenBytes
     \<and> keyFunc = Some f \<and> fst (f token (os_keys (rt_engine r))) = Inr key \<and> jw_signed jw key compact \<and> tk_alg token = ''RS256''
     \<and> jw_claims jw compact = Some tcl \<and> tc_Issuer tcl = op_issuer policy \<and> op_audience policy \<in> set (tc_Audience tcl)
     \<and> tc_ExpiresAt tcl = Some (rs_ExpiresAt verified) \<and> now < rs_ExpiresAt verified + 30 * second
     \<and> (\<forall>nbf. tc_NotBefore tcl = Some nbf \<longrightarrow> nbf \<le> now + 30 * second)
     \<and> Issuer (rs_Principal verified) = op_issuer policy \<and> Subject (rs_Principal verified) = tc_Subject tcl
     \<and> (\<forall>v \<in> {tc_ClientID tcl, tc_AuthorizedParty tcl, tc_ApplicationID tcl, tc_OktaClientID tcl}.
          v = '''' \<or> v = ClientID (rs_Principal verified))
     \<and> (strictRFC9068 policy \<longrightarrow> validAccessTokenType (tk_typ token) \<and> Subject (rs_Principal verified) \<noteq> ''''
          \<and> ClientID (rs_Principal verified) \<noteq> '''' \<and> trim_space (tc_ID tcl) \<noteq> '''' \<and> tc_IssuedAt tcl \<noteq> None)"
proof -
  let ?st = "(rt_engine r)\<lparr>os_observer := Some False\<rparr>"
  obtain compact s' where run: "bearerToken values = Inr compact"
    "oidc_Verify jw policy keyFunc now ctx compact (rt_engine r) = (Inr verified, s')"
    using verify_proven [OF assms(2)] by (auto simp: proven_def)
  from verify_accepts [OF run(2)] obtain token tcl st1 where p: "length compact \<le> MaxTokenBytes"
    "jw_Parse jw (parser_for policy) now compact (select_key policy keyFunc) ?st = ((Some token, None, tcl), st1)"
    "tk_Valid token" "principalFromClaims tcl (strictRFC9068 policy) = Some (rs_Principal verified)"
    "tc_ExpiresAt tcl = Some (rs_ExpiresAt verified)" by blast
  have law: "jw_claims jw compact = Some tcl" "tk_alg token = ''RS256''"
    "tc_Issuer tcl = op_issuer policy" "op_audience policy \<in> set (tc_Audience tcl)"
    "now < rs_ExpiresAt verified + 30 * second" "\<forall>nbf. tc_NotBefore tcl = Some nbf \<longrightarrow> nbf \<le> now + 30 * second"
    using assms(1) [unfolded jwt_laws_def, rule_format, OF p(2,3)] p(5)
    by (auto simp: parser_for_def allowedAlgorithm_def ClockSkew_def)
  obtain parsed key where key: "select_key policy keyFunc parsed ?st = (Inr key, st1)" "tk_alg parsed = ''RS256''"
    "jw_signed jw key compact"
    using assms(1) [unfolded jwt_laws_def, rule_format, OF p(2,3)] law(2) by auto
  then obtain f where f: "keyFunc = Some f" "fst (f parsed (os_keys (rt_engine r))) = Inr key"
    "strictRFC9068 policy \<longrightarrow> validAccessTokenType (tk_typ parsed)"
    by (auto simp: select_key_def split: if_splits option.splits prod.splits)
  note named = principal_named [OF p(4)]
  show ?thesis
  proof (rule exI [of _ compact], rule exI [of _ parsed], rule exI [of _ f], rule exI [of _ key], rule exI [of _ tcl],
      intro conjI)
  qed (use run(1) p(1,5) f key(2,3) law named in simp_all)
qed

text \<open>A failed key refresh is never blamed on the caller. While the caller's context is live, a token that is not
  accepted after a refresh of the key set failed is answered with unavailable trust, one without such a failure as
  invalid, and the runtime forwards that answer unchanged.\<close>

theorem failed_refresh_is_unavailable:
  assumes "bearerToken values = Inr compact"
    and "oidc_Verify jw policy keyFunc now CtxLive compact (rt_engine r) = (Inl err, st')"
  shows "fst (verifyCredential (oidc_Verify jw policy keyFunc now CtxLive) values carrier r) = (zero_result, Some err)
     \<and> KindOf err \<noteq> None \<and> length compact \<le> MaxTokenBytes
     \<and> (\<exists>token perr tcl st1. jw_Parse jw (parser_for policy) now compact (select_key policy keyFunc)
            ((rt_engine r)\<lparr>os_observer := Some False\<rparr>) = ((token, perr, tcl), st1)
          \<and> (perr \<noteq> None \<and> os_observer st1 = Some True \<longrightarrow> KindOf err = Some KindUnavailable)
          \<and> (os_observer st1 \<noteq> Some True \<longrightarrow> KindOf err = Some KindInvalid))"
proof -
  let ?parse = "jw_Parse jw (parser_for policy) now compact (select_key policy keyFunc) ((rt_engine r)\<lparr>os_observer := Some False\<rparr>)"
  have short: "length compact \<le> MaxTokenBytes" using assms(1) by (rule bearerToken_length)
  obtain token perr tcl st1 where p: "?parse = ((token, perr, tcl), st1)" by (metis prod.exhaust)
  have "KindOf err \<noteq> None \<and> (perr \<noteq> None \<and> os_observer st1 = Some True \<longrightarrow> KindOf err = Some KindUnavailable)
     \<and> (os_observer st1 \<noteq> Some True \<longrightarrow> KindOf err = Some KindInvalid)"
    using assms(2) short p
    by (auto simp: oidc_Verify_def KindOf_VerificationFailure Let_def split: if_splits option.splits)
  then show ?thesis using oidc_engine.failure_forwarded [OF assms] short p by blast
qed

section \<open>An example issuer\<close>

definition example_claims :: accessTokenClaims where
  "example_claims =
     \<lparr>tc_Issuer = ''i'', tc_Subject = ''s'', tc_Audience = [''a''], tc_ExpiresAt = Some 9, tc_NotBefore = Some 5, tc_IssuedAt = Some 5,
      tc_ID = ''1'', tc_ClientID = ''c'', tc_AuthorizedParty = ''c'', tc_ApplicationID = '''', tc_OktaClientID = ''''\<rparr>"

definition example_policy :: oidc_Policy where
  "example_policy = \<lparr>op_issuer = ''i'', op_audience = ''a'', op_tokenProfile = ''rfc9068''\<rparr>"

definition example_token :: jwt_token where
  "example_token = \<lparr>tk_typ = Some ''at+jwt'', tk_alg = ''RS256'', tk_kid = ''k'', tk_Valid = False\<rparr>"

definition example_accepts :: "parser_options \<Rightarrow> instant \<Rightarrow> bool" where
  "example_accepts opts now =
     (''RS256'' \<in> set (po_ValidMethods opts) \<and> po_Issuer opts = ''i'' \<and> po_Audience opts = ''a'' \<and> now < 9 + po_Leeway opts
      \<and> 5 \<le> now + po_Leeway opts)"

definition example_jwt :: "(unit, unit oidc_state) jwtlib" where
  "example_jwt =
     \<lparr>jw_Parse = (\<lambda>opts now compact kf st.
        if compact \<noteq> ''good'' then ((None, Some (Fresh ''token is malformed''), example_claims), st)
        else case kf example_token st of
          (Inl err, st') \<Rightarrow> ((Some example_token, Some err, example_claims), st')
        | (Inr key, st') \<Rightarrow>
            if example_accepts opts now then ((Some (example_token\<lparr>tk_Valid := True\<rparr>), None, example_claims), st')
            else ((Some example_token, Some (Fresh ''token is invalid''), example_claims), st')),
      jw_signed = (\<lambda>key compact. compact = ''good''),
      jw_claims = (\<lambda>compact. if compact = ''good'' then Some example_claims else None)\<rparr>"

definition example_oidc_state :: "unit oidc_state" where
  "example_oidc_state = \<lparr>os_keys = (), os_closed = False, os_closedIdle = 0, os_refreshFailures = 0, os_observer = None\<rparr>"

definition example_oidc_runtime :: "unit oidc_state runtime" where
  "example_oidc_runtime = \<lparr>rt_engine = example_oidc_state, rt_has_metrics = True, rt_verifications = []\<rparr>"

lemma example_jwt_laws: "jwt_laws example_jwt"
  unfolding jwt_laws_def
proof (intro allI impI)
  fix opts now compact kf st token tcl st'
  assume p: "jw_Parse example_jwt opts now compact kf st = ((Some token, None, tcl), st')" "tk_Valid token"
  then obtain key where good: "compact = ''good''" "kf example_token st = (Inr key, st')" "example_accepts opts now"
    "tcl = example_claims" "token = example_token\<lparr>tk_Valid := True\<rparr>"
    by (auto simp: example_jwt_def example_token_def split: if_splits prod.splits sum.splits)
  have "\<exists>parsed key. kf parsed st = (Inr key, st') \<and> tk_typ parsed = tk_typ token \<and> tk_alg parsed = tk_alg token
               \<and> tk_kid parsed = tk_kid token \<and> jw_signed example_jwt key compact"
    using good by (intro exI [of _ example_token] exI [of _ key]) (simp add: example_jwt_def)
  then show "jw_claims example_jwt compact = Some tcl \<and> tk_alg token \<in> set (po_ValidMethods opts)
          \<and> (\<exists>parsed key. kf parsed st = (Inr key, st') \<and> tk_typ parsed = tk_typ token \<and> tk_alg parsed = tk_alg token
               \<and> tk_kid parsed = tk_kid token \<and> jw_signed example_jwt key compact)
          \<and> tc_Issuer tcl = po_Issuer opts \<and> po_Audience opts \<in> set (tc_Audience tcl)
          \<and> (\<exists>e. tc_ExpiresAt tcl = Some e \<and> now < e + po_Leeway opts)
          \<and> (\<forall>nbf. tc_NotBefore tcl = Some nbf \<longrightarrow> nbf \<le> now + po_Leeway opts)"
    using good by (simp add: example_jwt_def example_claims_def example_token_def example_accepts_def)
qed

lemmas example_oidc = oidc_Verify_def example_jwt_def select_key_def example_policy_def strictRFC9068_def TokenProfileRFC9068_def
  validAccessTokenType_def example_token_def equal_fold_def parser_for_def allowedAlgorithm_def example_accepts_def ClockSkew_def
  second_def MaxTokenBytes_def principalFromClaims_def example_claims_def example_oidc_runtime_def example_oidc_state_def

lemma example_jwt_accepted:
  "\<exists>r'. verifyCredential (oidc_Verify example_jwt example_policy (Some (\<lambda>token s. (Inr (), [], s))) 7 CtxLive) [''Bearer good''] transportHTTP
      example_oidc_runtime
   = ((\<lparr>rs_Principal = \<lparr>Issuer = ''i'', Subject = ''s'', ClientID = ''c'', Scopes = []\<rparr>, rs_ExpiresAt = 9\<rparr>, None), r')"
  by (simp add: verifyCredential_def example_bearer_tokens example_oidc trim_ascii Let_def validResult_def Identified_def zero_time_def)

lemma accepted_jwt_is_proven_witness:
  "\<exists>compact tcl. bearerToken [''Bearer good''] = Inr compact \<and> jw_claims example_jwt compact = Some tcl \<and> tc_Issuer tcl = ''i''
     \<and> jw_signed example_jwt () compact"
proof -
  obtain r' where run: "verifyCredential (oidc_Verify example_jwt example_policy (Some (\<lambda>token s. (Inr (), [], s))) 7 CtxLive) [''Bearer good'']
      transportHTTP example_oidc_runtime
    = ((\<lparr>rs_Principal = \<lparr>Issuer = ''i'', Subject = ''s'', ClientID = ''c'', Scopes = []\<rparr>, rs_ExpiresAt = 9\<rparr>, None), r')"
    using example_jwt_accepted by blast
  have "op_issuer example_policy = ''i''" by (simp add: example_policy_def)
  then show ?thesis using accepted_jwt_is_proven [OF example_jwt_laws run] by (metis (full_types) old.unit.exhaust)
qed

lemma failed_refresh_is_unavailable_witness:
  "\<exists>err. fst (verifyCredential (oidc_Verify example_jwt example_policy (Some (\<lambda>token s. (Inl (Fresh ''unknown kid''), [CtxLive], s))) 7 CtxLive)
      [''Bearer good''] transportHTTP example_oidc_runtime) = (zero_result, Some err) \<and> KindOf err \<noteq> None"
proof -
  let ?f = "Some (\<lambda>token s. (Inl (Fresh ''unknown kid''), [CtxLive], s))"
  have "\<exists>err st'. oidc_Verify example_jwt example_policy ?f 7 CtxLive ''good'' (rt_engine example_oidc_runtime) = (Inl err, st')"
    by (simp add: example_oidc refreshFailureReporter_def shouldReportRefreshFailure_def Let_def)
  then show ?thesis using failed_refresh_is_unavailable [OF example_bearer_tokens(1)] by blast
qed

end
