(* ===== verification/Introspection.thy ===== *)
theory Introspection
  imports OidcTrust
begin

text \<open>
  Package \<^verbatim>\<open>internal/infra/oauthintrospection\<close>, the RFC 7662 engine: its policy (\<^verbatim>\<open>policy.go\<close>), the request it sends
  and the bounded response it reads (\<^verbatim>\<open>verifier.go\<close>), and the strict admission of that response (\<^verbatim>\<open>response.go\<close>).

  The provider client is an argument. The JSON decoder is \<open>walk\<close>: what \<^verbatim>\<open>json.Decoder\<close> reads of a body, one level deep, up to
  its first syntax error, and whether the input ends there; the loop over it is the code's. A value is the JSON value a
  raw message holds, a number its literal.
\<close>

section \<open>The policy\<close>

record intro_Policy =
  ip_issuer :: string
  ip_audience :: string
  ip_endpoint :: string
  ip_targetClass :: string
  ip_privateSuffix :: string
  ip_clientID :: string
  ip_clientSecret :: string

definition intro_NewPolicy :: "netlib \<Rightarrow> intro_Policy \<Rightarrow> go_error + intro_Policy" where
  "intro_NewPolicy nl input =
     (if \<not> ValidIssuerURL nl (ip_issuer input)
      then Inl (Fresh ''authn issuer must be an absolute HTTPS URL without user info, query, or fragment'')
      else if trim_space (ip_audience input) = '''' \<or> trim_space (ip_audience input) \<noteq> ip_audience input
      then Inl (Fresh ''authn audience cannot be empty'')
      else if \<not> ValidIntrospectionEndpoint nl (ip_endpoint input)
      then Inl (Fresh ''authn introspection endpoint must be an absolute HTTPS URL without user info, query, or fragment'')
      else case IntrospectionTargetPolicyIssue (ip_targetClass input) (ip_privateSuffix input) of
        IntrospectionTargetClassInvalid \<Rightarrow>
          Inl (Fresh ''authn introspection target class must be one of external-https or private-https'')
      | IntrospectionPrivateSuffixRequired \<Rightarrow>
          Inl (Fresh ''authn introspection private host suffix is required for private-https'')
      | IntrospectionPrivateSuffixForbidden \<Rightarrow>
          Inl (Fresh ''authn introspection private host suffix is forbidden for external-https'')
      | IntrospectionTargetValid \<Rightarrow>
          if ip_clientID input = '''' then Inl (Fresh ''authn introspection client id cannot be empty'')
          else if ip_clientSecret input = '''' then Inl (Fresh ''authn introspection client secret cannot be empty'')
          else Inr input)"

section \<open>Reading the response\<close>

datatype jvalue = JvNull | JvBool bool | JvNumber string | JvString string | JvArray "jvalue list" | JvObject "(string \<times> jvalue) list"

datatype ditem = DOpen | DClose | DKey string | DVal jvalue

type_synonym walk = "string \<Rightarrow> ditem list \<times> bool"

abbreviation unavailable :: go_error where "unavailable \<equiv> VerificationFailure KindUnavailable"
abbreviation invalid :: go_error where "invalid \<equiv> VerificationFailure KindInvalid"

type_synonym members = "(string \<times> jvalue) list"

text \<open>The loop of \<^verbatim>\<open>decodeObjectMembers\<close> after the opening brace: \<^verbatim>\<open>More\<close>, a key that is new, its value, and at the end the
  closing brace with nothing behind it.\<close>

fun decode_members :: "bool \<Rightarrow> members \<Rightarrow> ditem list \<Rightarrow> go_error + members" where
  "decode_members clean acc [] = Inl unavailable"
| "decode_members clean acc (DClose # rest) = (if rest = [] \<and> clean then Inr acc else Inl unavailable)"
| "decode_members clean acc (DKey key # DVal v # rest) =
     (if map_of acc key \<noteq> None then Inl unavailable else decode_members clean ((key, v) # acc) rest)"
| "decode_members clean acc (_ # rest) = Inl unavailable"

definition decodeObjectMembers :: "walk \<Rightarrow> string \<Rightarrow> go_error + members" where
  "decodeObjectMembers walk body =
     (case walk body of (items, clean) \<Rightarrow>
        (case items of DOpen # rest \<Rightarrow> decode_members clean [] rest | _ \<Rightarrow> Inl unavailable))"

definition booleanMember :: "members \<Rightarrow> string \<Rightarrow> go_error + bool" where
  "booleanMember ms name = (case map_of ms name of Some (JvBool b) \<Rightarrow> Inr b | _ \<Rightarrow> Inl unavailable)"

definition exactJSONString :: "jvalue \<Rightarrow> go_error + string" where
  "exactJSONString raw = (case raw of JvString s \<Rightarrow> Inr s | _ \<Rightarrow> Inl unavailable)"

definition requiredStringMember :: "members \<Rightarrow> string \<Rightarrow> go_error + string" where
  "requiredStringMember ms name =
     (case map_of ms name of
        None \<Rightarrow> Inl unavailable
      | Some raw \<Rightarrow> (case exactJSONString raw of Inl err \<Rightarrow> Inl unavailable | Inr v \<Rightarrow> if v = '''' then Inl unavailable else Inr v))"

definition optionalIdentityMember :: "members \<Rightarrow> string \<Rightarrow> go_error + string" where
  "optionalIdentityMember ms name =
     (case map_of ms name of
        None \<Rightarrow> Inr ''''
      | Some raw \<Rightarrow>
          (case exactJSONString raw of
             Inl err \<Rightarrow> Inl err
           | Inr v \<Rightarrow> if v = '''' then Inr '''' else if trim_space v \<noteq> v then Inl unavailable else Inr v))"

text \<open>\<^verbatim>\<open>json.Unmarshal\<close> into \<^verbatim>\<open>[]string\<close>: null gives no elements, a null element the empty string.\<close>

fun unmarshal_text :: "jvalue \<Rightarrow> string option" where
  "unmarshal_text (JvString s) = Some s"
| "unmarshal_text JvNull = Some ''''"
| "unmarshal_text _ = None"

fun unmarshal_texts :: "jvalue \<Rightarrow> string list option" where
  "unmarshal_texts JvNull = Some []"
| "unmarshal_texts (JvArray vs) =
     (if list_all (\<lambda>v. unmarshal_text v \<noteq> None) vs then Some (map (the \<circ> unmarshal_text) vs) else None)"
| "unmarshal_texts _ = None"

definition audienceMember :: "members \<Rightarrow> go_error + string list" where
  "audienceMember ms =
     (case map_of ms ''aud'' of
        None \<Rightarrow> Inl unavailable
      | Some (JvString single) \<Rightarrow> if single = '''' then Inl unavailable else Inr [single]
      | Some raw \<Rightarrow>
          (case unmarshal_texts raw of
             None \<Rightarrow> Inl unavailable
           | Some audiences \<Rightarrow> if audiences = [] then Inl unavailable else if '''' \<in> set audiences then Inl unavailable else Inr audiences))"

text \<open>\<^verbatim>\<open>strconv.ParseInt\<close> of the raw message: only a number literal can be an integer text. \<^verbatim>\<open>time.Unix\<close> counts seconds from year 1
  in an \<^verbatim>\<open>int64\<close>, which wraps.\<close>

definition exactIntegralNumber :: "jvalue \<Rightarrow> go_error + int" where
  "exactIntegralNumber raw =
     (case raw of
        JvNumber literal \<Rightarrow> (case parse_int 64 (trim_space literal) of None \<Rightarrow> Inl unavailable | Some v \<Rightarrow> Inr v)
      | _ \<Rightarrow> Inl unavailable)"

definition time_Unix :: "int \<Rightarrow> instant" where
  "time_Unix seconds = (wrap64 (seconds + 62135596800) - 62135596800) * second"

definition requiredNumericDate :: "members \<Rightarrow> string \<Rightarrow> go_error + instant" where
  "requiredNumericDate ms name =
     (case map_of ms name of
        None \<Rightarrow> Inl unavailable
      | Some raw \<Rightarrow> (case exactIntegralNumber raw of Inl err \<Rightarrow> Inl err | Inr seconds \<Rightarrow> Inr (time_Unix seconds)))"

definition optionalNumericDate :: "members \<Rightarrow> string \<Rightarrow> go_error + instant option" where
  "optionalNumericDate ms name =
     (case map_of ms name of
        None \<Rightarrow> Inr None
      | Some raw \<Rightarrow> (case exactIntegralNumber raw of Inl err \<Rightarrow> Inl err | Inr seconds \<Rightarrow> Inr (Some (time_Unix seconds))))"

text \<open>The members of an active response, in the order in which the code reads them, and the tests on them.\<close>

type_synonym intro_claims = "string \<times> string list \<times> instant \<times> instant option \<times> string \<times> string"

definition read_claims :: "members \<Rightarrow> go_error + intro_claims" where
  "read_claims ms =
     and_then (requiredStringMember ms ''iss'') (\<lambda>issuer.
     and_then (audienceMember ms) (\<lambda>audiences.
     and_then (requiredNumericDate ms ''exp'') (\<lambda>expiresAt.
     and_then (optionalNumericDate ms ''nbf'') (\<lambda>notBefore.
     and_then (optionalIdentityMember ms ''sub'') (\<lambda>subject.
     and_then (optionalIdentityMember ms ''client_id'') (\<lambda>clientID.
     if subject = '''' \<and> clientID = '''' then Inl unavailable
     else Inr (issuer, audiences, expiresAt, notBefore, subject, clientID)))))))"

fun judge_claims :: "intro_Policy \<Rightarrow> instant \<Rightarrow> intro_claims \<Rightarrow> go_error + Result" where
  "judge_claims policy now (issuer, audiences, expiresAt, notBefore, subject, clientID) =
     (if issuer \<noteq> ip_issuer policy \<or> ip_audience policy \<notin> set audiences then Inl invalid
      else if expiresAt + ClockSkew < now then Inl invalid
      else if (case notBefore of None \<Rightarrow> False | Some nbf \<Rightarrow> now + ClockSkew < nbf) then Inl invalid
      else Inr \<lparr>rs_Principal = \<lparr>Issuer = ip_issuer policy, Subject = subject, ClientID = clientID, Scopes = []\<rparr>,
                rs_ExpiresAt = expiresAt\<rparr>)"

definition admitResponse :: "walk \<Rightarrow> string \<Rightarrow> intro_Policy \<Rightarrow> instant \<Rightarrow> go_error + Result" where
  "admitResponse walk body policy now =
     and_then (decodeObjectMembers walk body) (\<lambda>ms.
     and_then (booleanMember ms ''active'') (\<lambda>active.
     if \<not> active then Inl invalid else and_then (read_claims ms) (judge_claims policy now)))"

section \<open>One introspection\<close>

text \<open>\<^verbatim>\<open>url.QueryEscape\<close> and the encoded form.\<close>

definition query_plain :: "char \<Rightarrow> bool" where
  "query_plain c =
     (let n = of_char c :: nat in between 65 90 n \<or> between 97 122 n \<or> between 48 57 n \<or> c \<in> set ''-_.~'')"

definition upper_hex :: "nat \<Rightarrow> char" where
  "upper_hex n = (if n < 10 then char_of (48 + n) else char_of (55 + n))"

definition query_escape :: "string \<Rightarrow> string" where
  "query_escape s =
     concat (map (\<lambda>c. if query_plain c then [c] else if c = CHR '' '' then ''+''
                      else let n = of_char c :: nat in [CHR ''%'', upper_hex (n div 16), upper_hex (n mod 16)]) s)"

definition introspection_form :: "string \<Rightarrow> string" where
  "introspection_form token = ''token='' @ query_escape token @ ''&token_type_hint=access_token''"

record introspectionRequest =
  ir_Method :: string
  ir_URL :: string
  ir_Body :: string
  ir_ContentType :: string
  ir_Accept :: string
  ir_BasicAuth :: "string \<times> string"

definition newIntrospectionRequest :: "provlib \<Rightarrow> intro_Policy \<Rightarrow> string \<Rightarrow> go_error + introspectionRequest" where
  "newIntrospectionRequest pv policy token =
     (if \<not> pv_NewRequest pv (ip_endpoint policy) then Inl (WrapFmt ''build introspection request'' (Fresh ''invalid URL''))
      else Inr \<lparr>ir_Method = ''POST'', ir_URL = ip_endpoint policy, ir_Body = introspection_form token,
                ir_ContentType = ''application/x-www-form-urlencoded'', ir_Accept = ''application/json'',
                ir_BasicAuth = (query_escape (ip_clientID policy), query_escape (ip_clientSecret policy))\<rparr>)"

record provider_response =
  ps_Status :: int
  ps_ContentType :: string
  ps_Body :: "body_text option"

definition intro_maxInFlight :: int where "intro_maxInFlight = 32"

definition readBoundedBody :: "provider_response option \<Rightarrow> string option" where
  "readBoundedBody response =
     (case response of
        None \<Rightarrow> None
      | Some r \<Rightarrow>
          (case ps_Body r of
             None \<Rightarrow> None
           | Some b \<Rightarrow>
               (case readAll_limited (nat maxProviderBodyBytes + 1) b of
                  (body, err) \<Rightarrow> if err \<noteq> None \<or> nat maxProviderBodyBytes < length body then None else Some body)))"

text \<open>\<open>parseMedia\<close> is \<^verbatim>\<open>mime.ParseMediaType\<close>.\<close>

definition json_media :: "(string \<Rightarrow> string option) \<Rightarrow> string \<Rightarrow> bool" where
  "json_media parseMedia v = (case parseMedia v of None \<Rightarrow> False | Some media \<Rightarrow> equal_fold media ''application/json'')"

definition classifyContextOrUnavailable :: "ctx_state \<Rightarrow> go_error" where
  "classifyContextOrUnavailable ctx =
     (case ctx_error ctx of Some ctxErr \<Rightarrow> WrapFmt ''verify access token'' ctxErr | None \<Rightarrow> unavailable)"

record 's introlib =
  il_prov :: provlib
  il_Do :: "introspectionRequest \<Rightarrow> 's \<Rightarrow> (go_error + provider_response option) \<times> 's"
  il_media :: "string \<Rightarrow> string option"
  il_walk :: walk

definition intro_Verify :: "'s introlib \<Rightarrow> intro_Policy \<Rightarrow> instant \<Rightarrow> ctx_state \<Rightarrow> 's verifier" where
  "intro_Verify il policy now ctx token s =
     (case newIntrospectionRequest (il_prov il) policy token of
        Inl err \<Rightarrow> (Inl (classifyContextOrUnavailable ctx), s)
      | Inr request \<Rightarrow>
          (case il_Do il request s of
             (Inl err, s') \<Rightarrow> (Inl (classifyContextOrUnavailable ctx), s')
           | (Inr response, s') \<Rightarrow>
               (case readBoundedBody response of
                  None \<Rightarrow> (Inl (classifyContextOrUnavailable ctx), s')
                | Some body \<Rightarrow>
                    if ps_Status (the response) \<noteq> 200 \<or> \<not> json_media (il_media il) (ps_ContentType (the response))
                    then (Inl unavailable, s')
                    else (admitResponse (il_walk il) body policy now, s'))))"

definition newProviderClient :: "provlib \<Rightarrow> intro_Policy \<Rightarrow> go_error + http_client" where
  "newProviderClient pv policy =
     (let limits = \<lparr>tl_ResponseHeaderTimeout = providerTimeout, tl_MaxResponseHeaderBytes = maxProviderHeaderBytes,
                    tl_MaxInFlight = intro_maxInFlight, tl_AbsoluteBodyBytes = maxProviderBodyBytes\<rparr>;
          failed = WrapFmt ''build introspection client'' (bearer_failure KindUnavailable)
      in if ip_targetClass policy = TargetClassExternalHTTPS
         then (case NewExternalHTTPS (pv_net pv) (pv_transport pv) (ip_endpoint policy) limits of Inl err \<Rightarrow> Inl failed | Inr c \<Rightarrow> Inr c)
         else if ip_targetClass policy = TargetClassPrivateHTTPS
         then (case NewPrivateHTTPS (pv_net pv) (pv_transport pv) (ip_endpoint policy) (ip_privateSuffix policy) limits of
                 Inl err \<Rightarrow> Inl failed | Inr c \<Rightarrow> Inr c)
         else Inl failed)"

text \<open>\<^verbatim>\<open>Close\<close>: the number of times the idle connections were closed, and the \<^verbatim>\<open>sync.Once\<close>.\<close>

definition intro_Close :: "bool \<times> nat \<Rightarrow> bool \<times> nat" where
  "intro_Close s = (case s of (closed, n) \<Rightarrow> if closed then (closed, n) else (True, n + 1))"

section \<open>The engine's contract\<close>

lemma decode_members_failure: "decode_members clean acc items = Inl err \<Longrightarrow> err = unavailable"
  by (induction clean acc items rule: decode_members.induct) (auto split: if_splits)

lemma member_failures:
  "decodeObjectMembers walk body = Inl err \<Longrightarrow> err = unavailable"
  "booleanMember ms name = Inl err \<Longrightarrow> err = unavailable"
  "requiredStringMember ms name = Inl err \<Longrightarrow> err = unavailable"
  "audienceMember ms = Inl err \<Longrightarrow> err = unavailable"
  "requiredNumericDate ms name = Inl err \<Longrightarrow> err = unavailable"
  "optionalNumericDate ms name = Inl err \<Longrightarrow> err = unavailable"
  "optionalIdentityMember ms name = Inl err \<Longrightarrow> err = unavailable"
  by (auto simp: decodeObjectMembers_def booleanMember_def requiredStringMember_def audienceMember_def requiredNumericDate_def
      optionalNumericDate_def optionalIdentityMember_def exactJSONString_def exactIntegralNumber_def
      dest: decode_members_failure split: option.splits sum.splits jvalue.splits if_splits prod.splits list.splits ditem.splits)

lemma decode_distinct:
  "decode_members clean acc items = Inr ms \<Longrightarrow> distinct (map fst acc) \<Longrightarrow> distinct (map fst ms)"
  by (induction clean acc items rule: decode_members.induct) (auto split: if_splits simp: map_of_eq_None_iff)

text \<open>The claims of a caller the policy admits at a moment.\<close>

fun claims_admitted :: "intro_Policy \<Rightarrow> instant \<Rightarrow> intro_claims \<Rightarrow> bool" where
  "claims_admitted policy now (issuer, audiences, expiresAt, notBefore, subject, clientID) =
     (issuer = ip_issuer policy \<and> ip_audience policy \<in> set audiences \<and> now \<le> expiresAt + 30 * second
      \<and> (\<forall>nbf. notBefore = Some nbf \<longrightarrow> nbf \<le> now + 30 * second))"

lemma read_claims_failure: "read_claims ms = Inl err \<Longrightarrow> err = unavailable"
  by (auto simp: read_claims_def and_then_Inl dest: member_failures split: if_splits)

lemma judge_Inr: "judge_claims policy now c = Inr verified \<Longrightarrow> claims_admitted policy now c"
  by (cases "(policy, now, c)" rule: judge_claims.cases) (auto simp: ClockSkew_def split: if_splits option.splits)

lemma judge_Inl: "judge_claims policy now c = Inl err \<Longrightarrow> err = invalid \<and> \<not> claims_admitted policy now c"
  by (cases "(policy, now, c)" rule: judge_claims.cases) (auto simp: ClockSkew_def split: if_splits option.splits)

lemma admit_Inr:
  assumes "admitResponse walk body policy now = Inr verified"
  shows "\<exists>ms c. decodeObjectMembers walk body = Inr ms \<and> booleanMember ms ''active'' = Inr True \<and> read_claims ms = Inr c
     \<and> judge_claims policy now c = Inr verified"
  using assms by (auto simp: admitResponse_def split: if_splits)

lemma admit_Inl:
  assumes "admitResponse walk body policy now = Inl err"
  shows "err = unavailable \<or> (err = invalid \<and> (\<exists>ms active. decodeObjectMembers walk body = Inr ms
     \<and> booleanMember ms ''active'' = Inr active
     \<and> (active \<longrightarrow> (\<exists>c. read_claims ms = Inr c \<and> \<not> claims_admitted policy now c))))"
proof (cases "decodeObjectMembers walk body")
  case (Inl e)
  then show ?thesis using assms member_failures(1) [OF Inl] by (simp add: admitResponse_def and_then_def)
next
  case ms: (Inr ms)
  show ?thesis
  proof (cases "booleanMember ms ''active''")
    case (Inl e)
    then show ?thesis using assms ms member_failures(2) [OF Inl] by (simp add: admitResponse_def and_then_def)
  next
    case active: (Inr active)
    show ?thesis
    proof (cases "active \<and> (\<exists>c. read_claims ms = Inr c)")
      case True
      then obtain c where c: "read_claims ms = Inr c" "judge_claims policy now c = Inl err"
        using assms ms active by (auto simp: admitResponse_def and_then_def)
      then show ?thesis using ms active judge_Inl [OF c(2)] by blast
    next
      case False
      then have "\<not> active \<and> err = invalid \<or> err = unavailable"
        using assms ms active read_claims_failure
        by (cases "read_claims ms") (auto simp: admitResponse_def and_then_def split: if_splits)
      then show ?thesis using ms active False by blast
    qed
  qed
qed

lemma intro_failure: "intro_Verify il policy now ctx token s = (Inl err, s') \<Longrightarrow> classified_failure err"
proof -
  have ctx: "classified_failure (classifyContextOrUnavailable ctx)"
    by (cases ctx) (auto simp: classifyContextOrUnavailable_def classified_failure_def KindOf_VerificationFailure)
  show "intro_Verify il policy now ctx token s = (Inl err, s') \<Longrightarrow> classified_failure err"
    using ctx admit_Inl
    by (fastforce simp: intro_Verify_def classified_failure_def KindOf_VerificationFailure split: sum.splits prod.splits option.splits if_splits)
qed

lemma bounded_whole:
  "readBoundedBody response = Some body \<Longrightarrow> \<exists>r. response = Some r \<and> ps_Body r = Some (body, None) \<and> int (length body) \<le> maxProviderBodyBytes"
  by (auto simp: readBoundedBody_def readAll_limited_def maxProviderBodyBytes_def split: option.splits prod.splits if_splits)

text \<open>An answer of the engine that is not the failure of the call: what the provider sent, and what became of it.\<close>

lemma verify_judges:
  assumes "intro_Verify il policy now ctx token s = (answer, s')"
  shows "answer = Inl (classifyContextOrUnavailable ctx) \<or> answer = Inl unavailable
     \<or> (\<exists>request response body. newIntrospectionRequest (il_prov il) policy token = Inr request
          \<and> il_Do il request s = (Inr (Some response), s') \<and> ps_Body response = Some (body, None)
          \<and> int (length body) \<le> maxProviderBodyBytes \<and> ps_Status response = 200
          \<and> json_media (il_media il) (ps_ContentType response) \<and> answer = admitResponse (il_walk il) body policy now)"
  using assms
  by (auto simp: intro_Verify_def dest!: bounded_whole split: sum.splits prod.splits option.splits if_splits)

lemma verify_admits:
  assumes "intro_Verify il policy now ctx token s = (Inr verified, s')"
  shows "\<exists>request response body. newIntrospectionRequest (il_prov il) policy token = Inr request
     \<and> il_Do il request s = (Inr (Some response), s') \<and> ps_Body response = Some (body, None)
     \<and> int (length body) \<le> maxProviderBodyBytes \<and> ps_Status response = 200
     \<and> json_media (il_media il) (ps_ContentType response) \<and> admitResponse (il_walk il) body policy now = Inr verified"
  using verify_judges [OF assms] by auto

lemma identity_trimmed: "optionalIdentityMember ms name = Inr v \<Longrightarrow> trim_space v = v"
  by (auto simp: optionalIdentityMember_def trim_space_def split: option.splits sum.splits if_splits)

lemma admitted_named: "intro_Verify il policy now ctx token s = (Inr verified, s') \<Longrightarrow> names_caller verified"
proof -
  assume "intro_Verify il policy now ctx token s = (Inr verified, s')"
  from verify_admits [OF this] obtain body where "admitResponse (il_walk il) body policy now = Inr verified" by blast
  from admit_Inr [OF this] obtain ms c where "read_claims ms = Inr c" "judge_claims policy now c = Inr verified" by blast
  then obtain subject clientID where "optionalIdentityMember ms ''sub'' = Inr subject"
    "optionalIdentityMember ms ''client_id'' = Inr clientID" "subject \<noteq> '''' \<or> clientID \<noteq> ''''"
    "Subject (rs_Principal verified) = subject" "ClientID (rs_Principal verified) = clientID"
    by (auto simp: read_claims_def split: if_splits)
  then show "names_caller verified" using identity_trimmed by (auto simp: names_caller_def)
qed

interpretation introspection_engine: trust_engine "intro_Verify il policy now ctx" for il policy now ctx
proof
  show "classified_failure err" if "intro_Verify il policy now ctx token s = (Inl err, s')" for token s err s'
    using that by (rule intro_failure)
  show "names_caller verified" if "intro_Verify il policy now ctx token s = (Inr verified, s')" for token s verified s'
    using that by (rule admitted_named)
qed

section \<open>Form encoding\<close>

fun hex_value :: "char \<Rightarrow> nat" where
  "hex_value c = (let n = of_char c in if n \<le> 57 then n - 48 else n - 55)"

fun query_unescape :: "string \<Rightarrow> string" where
  "query_unescape (CHR ''%'' # h # l # s) = char_of (hex_value h * 16 + hex_value l) # query_unescape s"
| "query_unescape (CHR ''+'' # s) = CHR '' '' # query_unescape s"
| "query_unescape (c # s) = c # query_unescape s"
| "query_unescape [] = []"

lemma hex_value_upper: "n < 16 \<Longrightarrow> hex_value (upper_hex n) = n"
  by (auto simp: upper_hex_def Let_def)

lemma unescape_plain: "query_plain c \<Longrightarrow> query_unescape (c # s) = c # query_unescape s"
  by (cases "c # s" rule: query_unescape.cases) (auto simp: query_plain_def between_def)

lemma unescape_query_escape: "query_unescape (query_escape s) = s"
proof (induction s)
  case Nil
  then show ?case by (simp add: query_escape_def)
next
  case (Cons c s)
  let ?n = "of_char c :: nat"
  have step: "query_escape (c # s) = (if query_plain c then [c] else if c = CHR '' '' then ''+''
      else [CHR ''%'', upper_hex (?n div 16), upper_hex (?n mod 16)]) @ query_escape s"
    by (simp add: query_escape_def Let_def)
  have "?n div 16 < 16" using nat_of_char_less_256 [of c] by linarith
  then have "query_unescape [CHR ''%'', upper_hex (?n div 16), upper_hex (?n mod 16)] = [c]"
    by (simp add: hex_value_upper del: hex_value.simps)
  then show ?case using Cons unescape_plain unfolding step by (auto simp: hex_value_upper simp del: hex_value.simps)
qed

lemma escaped_token_chars: "list_all (\<lambda>c. query_plain c \<or> c = CHR ''%'' \<or> c = CHR ''+'') (query_escape s)"
proof -
  have "query_plain (upper_hex n)" if "n < 16" for n
    using that by (auto simp: query_plain_def upper_hex_def between_def Let_def)
  moreover have "(of_char c :: nat) div 16 < 16" for c using nat_of_char_less_256 [of c] by linarith
  ultimately show ?thesis by (auto simp: query_escape_def list_all_iff Let_def)
qed

section \<open>What the provider said\<close>

text \<open>Admission by introspection. When the runtime over this engine admits a credential, exactly that token was
  sent to the provider, form-encoded so that it cannot add a field; the provider answered 200 with a whole JSON
  document within the bound, whose members are unique; it says active, names the configured issuer and audience, is within its
  lifetime up to the clock skew; and the caller is the one it names.\<close>

theorem introspected_caller_is_active:
  assumes "verifyCredential (intro_Verify il policy now ctx) values carrier r = ((verified, None), r')"
  shows "\<exists>token request response body ms c. bearerToken values = Inr token
     \<and> fst (il_Do il request (rt_engine r)) = Inr (Some response) \<and> ir_URL request = ip_endpoint policy
     \<and> ir_Body request = ''token='' @ query_escape token @ ''&token_type_hint=access_token''
     \<and> query_unescape (query_escape token) = token
     \<and> list_all (\<lambda>c. query_plain c \<or> c = CHR ''%'' \<or> c = CHR ''+'') (query_escape token)
     \<and> ps_Status response = 200 \<and> ps_Body response = Some (body, None) \<and> length body \<le> 1048576
     \<and> decodeObjectMembers (il_walk il) body = Inr ms \<and> distinct (map fst ms)
     \<and> map_of ms ''active'' = Some (JvBool True) \<and> map_of ms ''iss'' = Some (JvString (ip_issuer policy))
     \<and> read_claims ms = Inr c \<and> claims_admitted policy now c
     \<and> Issuer (rs_Principal verified) = ip_issuer policy
     \<and> snd (snd (snd (snd c))) = (Subject (rs_Principal verified), ClientID (rs_Principal verified))
     \<and> rs_ExpiresAt verified = fst (snd (snd c))"
proof -
  obtain token s' where run: "bearerToken values = Inr token" "intro_Verify il policy now ctx token (rt_engine r) = (Inr verified, s')"
    using verify_proven [OF assms] by (auto simp: proven_def)
  from verify_admits [OF run(2)] obtain request response body where q: "newIntrospectionRequest (il_prov il) policy token = Inr request"
    "il_Do il request (rt_engine r) = (Inr (Some response), s')" "ps_Body response = Some (body, None)"
    "int (length body) \<le> maxProviderBodyBytes" "ps_Status response = 200" "admitResponse (il_walk il) body policy now = Inr verified"
    by blast
  from admit_Inr [OF q(6)] obtain ms c where a: "decodeObjectMembers (il_walk il) body = Inr ms" "booleanMember ms ''active'' = Inr True"
    "read_claims ms = Inr c" "judge_claims policy now c = Inr verified" by blast
  have req: "ir_URL request = ip_endpoint policy" "ir_Body request = ''token='' @ query_escape token @ ''&token_type_hint=access_token''"
    using q(1) by (auto simp: newIntrospectionRequest_def introspection_form_def split: if_splits)
  have dist: "distinct (map fst ms)"
    using a(1) decode_distinct [of _ "[]"] by (auto simp: decodeObjectMembers_def split: prod.splits list.splits ditem.splits)
  have act: "map_of ms ''active'' = Some (JvBool True)"
    using a(2) by (auto simp: booleanMember_def split: option.splits jvalue.splits)
  obtain issuer audiences expiresAt notBefore subject clientID
    where c: "c = (issuer, audiences, expiresAt, notBefore, subject, clientID)" by (cases c) auto
  have v: "issuer = ip_issuer policy" "Issuer (rs_Principal verified) = issuer" "Subject (rs_Principal verified) = subject"
    "ClientID (rs_Principal verified) = clientID" "rs_ExpiresAt verified = expiresAt"
    using a(4) c by (auto split: if_splits)
  have "requiredStringMember ms ''iss'' = Inr issuer" using a(3) c by (auto simp: read_claims_def split: if_splits)
  then have iss: "map_of ms ''iss'' = Some (JvString (ip_issuer policy))"
    using v(1) by (auto simp: requiredStringMember_def exactJSONString_def split: option.splits sum.splits if_splits jvalue.splits)
  show ?thesis
  proof (rule exI [of _ token], rule exI [of _ request], rule exI [of _ response], rule exI [of _ body], rule exI [of _ ms],
      rule exI [of _ c], intro conjI)
    show "length body \<le> 1048576" using q(4) by (simp add: maxProviderBodyBytes_def)
    show "claims_admitted policy now c" using a(4) by (rule judge_Inr)
    show "list_all (\<lambda>c. query_plain c \<or> c = CHR ''%'' \<or> c = CHR ''+'') (query_escape token)" by (rule escaped_token_chars)
  qed (use run(1) q req dist act iss a c v unescape_query_escape in simp_all)
qed

text \<open>An outage is not a verdict. The engine calls a credential invalid only on a whole, well-formed answer of the provider
  that says so: not active, or active with claims the policy does not admit. Every other failure is unavailable trust or the
  caller's own context error, and the runtime passes it on as it is.\<close>

theorem introspection_rejects_only_on_evidence:
  assumes "bearerToken values = Inr token"
    and "intro_Verify il policy now ctx token (rt_engine r) = (Inl err, s')"
  shows "fst (verifyCredential (intro_Verify il policy now ctx) values carrier r) = (zero_result, Some err)
     \<and> (err = unavailable \<or> (\<exists>e. ctx_error ctx = Some e \<and> errors_is err e)
        \<or> err = invalid \<and> (\<exists>request response body ms active. il_Do il request (rt_engine r) = (Inr (Some response), s')
             \<and> ps_Status response = 200 \<and> ps_Body response = Some (body, None) \<and> decodeObjectMembers (il_walk il) body = Inr ms
             \<and> map_of ms ''active'' = Some (JvBool active)
             \<and> (active \<longrightarrow> (\<exists>c. read_claims ms = Inr c \<and> \<not> claims_admitted policy now c))))"
proof -
  have bool: "map_of ms ''active'' = Some (JvBool b)" if "booleanMember ms ''active'' = Inr b" for ms b
    using that by (auto simp: booleanMember_def split: option.splits jvalue.splits)
  have ctx: "classifyContextOrUnavailable ctx = unavailable
      \<or> (\<exists>e. ctx_error ctx = Some e \<and> errors_is (classifyContextOrUnavailable ctx) e)"
    by (cases ctx) (auto simp: classifyContextOrUnavailable_def)
  from verify_judges [OF assms(2)] consider "err = classifyContextOrUnavailable ctx" | "err = unavailable"
    | request response body where "il_Do il request (rt_engine r) = (Inr (Some response), s')" "ps_Status response = 200"
      "ps_Body response = Some (body, None)" "admitResponse (il_walk il) body policy now = Inl err"
    by (metis Inl_inject)
  then have "err = unavailable \<or> (\<exists>e. ctx_error ctx = Some e \<and> errors_is err e)
        \<or> err = invalid \<and> (\<exists>request response body ms active. il_Do il request (rt_engine r) = (Inr (Some response), s')
             \<and> ps_Status response = 200 \<and> ps_Body response = Some (body, None) \<and> decodeObjectMembers (il_walk il) body = Inr ms
             \<and> map_of ms ''active'' = Some (JvBool active)
             \<and> (active \<longrightarrow> (\<exists>c. read_claims ms = Inr c \<and> \<not> claims_admitted policy now c)))"
  proof cases
    case 3
    then show ?thesis using admit_Inl [OF 3(4)] bool by blast
  qed (use ctx in auto)
  then show ?thesis using introspection_engine.failure_forwarded [OF assms] by simp
qed

section \<open>An example provider\<close>

definition example_intro_policy :: intro_Policy where
  "example_intro_policy = \<lparr>ip_issuer = ''i'', ip_audience = ''a'', ip_endpoint = ''https://idp.example'', ip_targetClass = ''external-https'',
     ip_privateSuffix = '''', ip_clientID = ''c'', ip_clientSecret = ''s''\<rparr>"

definition example_members :: "bool \<Rightarrow> ditem list" where
  "example_members active =
     [DOpen, DKey ''active'', DVal (JvBool active), DKey ''iss'', DVal (JvString ''i''), DKey ''aud'', DVal (JvArray [JvString ''a'']),
      DKey ''exp'', DVal (JvNumber ''9''), DKey ''sub'', DVal (JvString ''s''), DClose]"

text \<open>The provider's documents are ''yes'' and ''no''; it knows one token.\<close>

definition example_introlib :: "unit introlib" where
  "example_introlib =
     \<lparr>il_prov = \<lparr>pv_net = example_netlib, pv_transport = Some example_transport, pv_String = (\<lambda>u. ''''), pv_NewRequest = (\<lambda>raw. True),
                pv_discovery = (\<lambda>body. None)\<rparr>,
      il_Do = (\<lambda>request s. (Inr (Some \<lparr>ps_Status = 200, ps_ContentType = ''application/json'',
         ps_Body = Some (if ir_Body request = introspection_form ''good'' then ''yes'' else ''no'', None)\<rparr>), s)),
      il_media = Some, il_walk = (\<lambda>body. (example_members (body = ''yes''), True))\<rparr>"

definition example_intro_runtime :: "unit runtime" where
  "example_intro_runtime = \<lparr>rt_engine = (), rt_has_metrics = True, rt_verifications = []\<rparr>"

lemmas example_intro = intro_Verify_def newIntrospectionRequest_def example_introlib_def readBoundedBody_def readAll_limited_def
  maxProviderBodyBytes_def json_media_def equal_fold_def admitResponse_def decodeObjectMembers_def example_members_def and_then_def
  booleanMember_def read_claims_def requiredStringMember_def exactJSONString_def audienceMember_def requiredNumericDate_def
  optionalNumericDate_def exactIntegralNumber_def optionalIdentityMember_def example_intro_policy_def ClockSkew_def

lemma example_number: "parse_int 64 ''9'' = Some 9"
  by (simp add: trim_ascii parse_int_def digits_value_def is_digit_def parse_uint_def)

lemma example_instant: "time_Unix 9 = 9 * second"
  by (simp add: time_Unix_def wrap64_id)

lemma introspected_caller_is_active_witness:
  "\<exists>body. decodeObjectMembers (il_walk example_introlib) body
      = Inr (rev [(''active'', JvBool True), (''iss'', JvString ''i''), (''aud'', JvArray [JvString ''a'']), (''exp'', JvNumber ''9''),
               (''sub'', JvString ''s'')]) \<and> length body \<le> 1048576"
proof -
  have "\<exists>verified r'. verifyCredential (intro_Verify example_introlib example_intro_policy (9 * second) CtxLive) [''Bearer good'']
      transportHTTP example_intro_runtime = ((verified, None), r')"
    by (simp add: verifyCredential_def example_bearer_tokens example_intro example_number example_instant trim_ascii Let_def
        validResult_def Identified_def zero_time_def second_def)
  then obtain body ms where b: "length body \<le> 1048576" "decodeObjectMembers (il_walk example_introlib) body = Inr ms"
    "map_of ms ''active'' = Some (JvBool True)"
    using introspected_caller_is_active by blast
  then have "body = ''yes''" by (auto simp: example_introlib_def decodeObjectMembers_def example_members_def)
  with b show ?thesis by (intro exI [of _ body]) (simp add: example_introlib_def decodeObjectMembers_def example_members_def)
qed

lemma introspection_rejects_only_on_evidence_witness:
  "fst (verifyCredential (intro_Verify example_introlib example_intro_policy 0 CtxLive) [''Bearer bad''] transportHTTP example_intro_runtime)
     = (zero_result, Some invalid)"
proof -
  have "intro_Verify example_introlib example_intro_policy 0 CtxLive ''bad'' (rt_engine example_intro_runtime) = (Inl invalid, ())"
    by (simp add: example_intro introspection_form_def query_escape_def query_plain_def between_def)
  from introspection_rejects_only_on_evidence [OF example_bearer_tokens(2) this] show ?thesis by (rule conjunct1)
qed

end
