(* ===== verification/Config.thy ===== *)
theory Config
  imports Introspection NatsWorker InboundManifest Complex_Main
begin

text \<open>
  Package \<^verbatim>\<open>internal/config\<close>: the sections of the snapshot and the rules that check and canonicalize them
  (\<^verbatim>\<open>validate.go\<close> and the \<^verbatim>\<open>_config.go\<close> files), with the rules it shares with the adapters in
  \<^verbatim>\<open>internal/messagingconfig\<close> and \<^verbatim>\<open>internal/observability/otelconfig\<close>.

  A section is a record; a validator that takes a pointer returns the section it leaves behind. Durations and integers are
  values of 64 bits, whose sums wrap. A \<^verbatim>\<open>float64\<close> is not a number, infinite or the rational it stands for.
  The library functions are those of \<open>netlib\<close>, and the decoder of the endpoint document is an argument.
\<close>

datatype float64 = FNaN | FInf bool | FNum rat

abbreviation ErrValidate :: go_error where "ErrValidate \<equiv> Sentinel ''config.ErrValidate''"
abbreviation ErrSecretPolicy :: go_error where "ErrSecretPolicy \<equiv> Sentinel ''config.ErrSecretPolicy''"

definition config_error :: "string \<Rightarrow> go_error" where "config_error m = WrapFmt m ErrValidate"

text \<open>\<open>unless ok m\<close> is the check that returns the error \<open>m\<close> when \<open>ok\<close> fails.\<close>

definition unless :: "bool \<Rightarrow> string \<Rightarrow> go_error option" where
  "unless ok m = (if ok then None else Some (config_error m))"

definition checked :: "'a \<Rightarrow> go_error option list \<Rightarrow> go_error + 'a" where
  "checked x checks = (case first_error checks of None \<Rightarrow> Inr x | Some err \<Rightarrow> Inl err)"

section \<open>Shared checks\<close>

definition validateDurationRange :: "string \<Rightarrow> duration \<Rightarrow> duration \<Rightarrow> duration \<Rightarrow> go_error option" where
  "validateDurationRange name v lo hi = unless (\<not> (v < lo \<or> hi < v)) (name @ '' must be in range'')"

definition validateIntRange :: "string \<Rightarrow> int \<Rightarrow> int \<Rightarrow> int \<Rightarrow> go_error option" where
  "validateIntRange name v lo hi = unless (\<not> (v < lo \<or> hi < v)) (name @ '' must be in range'')"

definition validateHostPortAddr :: "string \<Rightarrow> string \<Rightarrow> go_error option" where
  "validateHostPortAddr name address =
     (case net_SplitHostPort address of
        None \<Rightarrow> Some (config_error (name @ '' must be host:port''))
      | Some (_, rawPort) \<Rightarrow>
          unless (case parse_uint 16 rawPort of None \<Rightarrow> False | Some port \<Rightarrow> port \<noteq> 0) (name @ '' port must be in range [1,65535]''))"

section \<open>The small sections\<close>

record AppConfig =
  ac_Env :: string
  ac_Version :: string
  ac_Commit :: string
  ac_InstanceID :: string

definition validateAppConfig :: "AppConfig \<Rightarrow> go_error + AppConfig" where
  "validateAppConfig cfg0 =
     (let cfg = \<lparr>ac_Env = trim_space (ac_Env cfg0), ac_Version = trim_space (ac_Version cfg0), ac_Commit = trim_space (ac_Commit cfg0),
                 ac_InstanceID = trim_space (ac_InstanceID cfg0)\<rparr>
      in checked cfg
           [unless (ac_Env cfg \<noteq> '''') ''app.env cannot be empty'', unless (ac_Version cfg \<noteq> '''') ''app.version cannot be empty'',
            unless (ac_Commit cfg \<noteq> '''') ''app.commit cannot be empty''])"

record HealthConfig =
  he_RefreshInterval :: duration
  he_FailureThreshold :: int

definition validateHealthConfig :: "HealthConfig \<Rightarrow> go_error option" where
  "validateHealthConfig cfg =
     first_error
       [validateDurationRange ''health.refresh_interval'' (he_RefreshInterval cfg) (100 * millisecond) minute,
        validateIntRange ''health.failure_threshold'' (he_FailureThreshold cfg) 1 100]"

record RuntimeConfig =
  ru_MemoryLimitRatio :: float64

definition unit_ratio :: "string \<Rightarrow> string \<Rightarrow> float64 \<Rightarrow> string option" where
  "unit_ratio inf_text range_text v =
     (case v of FNaN \<Rightarrow> Some inf_text | FInf _ \<Rightarrow> Some inf_text | FNum q \<Rightarrow> if q < 0 \<or> 1 < q then Some range_text else None)"

definition validateRuntimeConfig :: "RuntimeConfig \<Rightarrow> go_error option" where
  "validateRuntimeConfig cfg =
     map_option config_error (unit_ratio ''runtime.memory_limit_ratio must be finite'' ''runtime.memory_limit_ratio must be in range [0,1]''
       (ru_MemoryLimitRatio cfg))"

record PostgresConfig =
  pc_Enabled :: bool
  pc_DSN :: string
  pc_MaxOpenConns :: int

definition validatePostgres :: "PostgresConfig \<Rightarrow> go_error option" where
  "validatePostgres cfg =
     first_error
       [if pc_Enabled cfg \<and> trim_space (pc_DSN cfg) = ''''
        then Some (WrapFmt ''postgres.dsn is required when postgres.enabled=true'' ErrSecretPolicy) else None,
        validateIntRange ''postgres.max_open_conns'' (pc_MaxOpenConns cfg) 1 500]"

record JobsConfig =
  jc_MaxWorkers :: int

definition validateJobs :: "JobsConfig \<Rightarrow> PostgresConfig \<Rightarrow> go_error option" where
  "validateJobs cfg postgres =
     (if jc_MaxWorkers cfg = 0 then None
      else if \<not> pc_Enabled postgres then Some (config_error ''positive jobs.max_workers requires postgres.enabled'')
      else validateIntRange ''jobs.max_workers'' (jc_MaxWorkers cfg) 1 500)"

record HTTPIdempotencyConfig =
  hi_Retention :: duration

definition ValidateHTTPIdempotencyActive :: "HTTPIdempotencyConfig \<Rightarrow> PostgresConfig \<Rightarrow> go_error option" where
  "ValidateHTTPIdempotencyActive cfg postgres =
     first_error [unless (pc_Enabled postgres) ''http_idempotency requires postgres.enabled'',
       unless (0 < hi_Retention cfg) ''http_idempotency.retention must be positive'']"

record OutboundWebhooksConfig =
  ow_Enabled :: bool
  ow_Endpoints :: string
  ow_StaticSecrets :: string

definition validateOutboundWebhooks :: "OutboundWebhooksConfig \<Rightarrow> PostgresConfig \<Rightarrow> JobsConfig \<Rightarrow> go_error option" where
  "validateOutboundWebhooks cfg postgres jobs =
     (if \<not> ow_Enabled cfg then None
      else first_error
        [unless (pc_Enabled postgres \<and> 0 < jc_MaxWorkers jobs) ''webhooks.enabled requires postgres.enabled and jobs.max_workers > 0'',
         unless (ow_Endpoints cfg \<noteq> '''') ''webhooks.endpoints are required''])"

definition validateJobsWorkerOutboundWebhooks :: "OutboundWebhooksConfig \<Rightarrow> go_error option" where
  "validateJobsWorkerOutboundWebhooks cfg =
     unless (\<not> (ow_Enabled cfg \<and> ow_StaticSecrets cfg = '''')) ''webhooks.static_secrets must be supplied through environment''"

record InboundWebhooksConfig =
  iw_Endpoints :: string
  iw_StaticSecrets :: string

definition validateInboundWebhookEndpoints :: "(string \<Rightarrow> inbound_entry list option) \<Rightarrow> string \<Rightarrow> go_error option" where
  "validateInboundWebhookEndpoints unmarshal v =
     (case ParseEndpoints unmarshal v of
        Inl err \<Rightarrow> Some (errorf2 ''inbound_webhooks.endpoints'' ErrValidate err) | Inr _ \<Rightarrow> None)"

definition validateInboundWebhooks :: "(string \<Rightarrow> inbound_entry list option) \<Rightarrow> InboundWebhooksConfig \<Rightarrow> go_error option" where
  "validateInboundWebhooks unmarshal cfg =
     first_error
       [unless ((iw_Endpoints cfg = '''') = (iw_StaticSecrets cfg = ''''))
          ''inbound_webhooks.endpoints and inbound_webhooks.static_secrets must be supplied together'',
        validateInboundWebhookEndpoints unmarshal (iw_Endpoints cfg)]"

section \<open>HTTP\<close>

record HTTPConfig =
  ht_Addr :: string
  ht_GracePeriod :: duration
  ht_ShutdownTimeout :: duration
  ht_ReadinessTimeout :: duration
  ht_ReadinessPropagationDelay :: duration
  ht_ReadHeaderTimeout :: duration
  ht_ReadTimeout :: duration
  ht_RequestTimeout :: duration
  ht_WriteTimeout :: duration
  ht_IdleTimeout :: duration
  ht_MaxHeaderBytes :: int
  ht_MaxBodyBytes :: int
  ht_MaxInFlight :: int
  ht_MaxConnections :: int
  ht_AccessLogHealthProbes :: bool

definition httpTerminalResponseReserve :: duration where "httpTerminalResponseReserve = second"

definition validateHTTPReadinessWriteTimeout :: "HTTPConfig \<Rightarrow> go_error option" where
  "validateHTTPReadinessWriteTimeout cfg =
     unless (\<not> ht_WriteTimeout cfg < ht_ReadinessTimeout cfg) ''http.readiness_timeout must be <= http.write_timeout''"

definition validateHTTPRequestWriteTimeout :: "HTTPConfig \<Rightarrow> go_error option" where
  "validateHTTPRequestWriteTimeout cfg =
     unless (\<not> ht_WriteTimeout cfg < wrap64 (ht_RequestTimeout cfg + httpTerminalResponseReserve))
       ''http.request_timeout must leave at least 1s before http.write_timeout for the terminal response''"

definition validateHTTPShutdownBudget :: "HTTPConfig \<Rightarrow> go_error option" where
  "validateHTTPShutdownBudget cfg =
     (let effectiveDrainBudget = wrap64 (ht_ShutdownTimeout cfg - ht_ReadinessPropagationDelay cfg)
      in first_error
           [unless (0 < effectiveDrainBudget) ''http.readiness_propagation_delay must be less than http.shutdown_timeout'',
            unless (\<not> effectiveDrainBudget < ht_WriteTimeout cfg)
              ''http.write_timeout must be <= effective drain budget after readiness propagation''])"

definition validateHTTPConnectionCeiling :: "HTTPConfig \<Rightarrow> go_error option" where
  "validateHTTPConnectionCeiling cfg =
     unless (ht_MaxConnections cfg = 0 \<or> ht_MaxInFlight cfg \<le> ht_MaxConnections cfg) ''http.max_connections must be >= http.max_in_flight''"

definition validateHTTPCapacityBounds :: "HTTPConfig \<Rightarrow> go_error option" where
  "validateHTTPCapacityBounds cfg =
     first_error
       [unless (0 < ht_MaxHeaderBytes cfg) ''http.max_header_bytes must be > 0'', unless (0 < ht_MaxBodyBytes cfg) ''http.max_body_bytes must be > 0'',
        validateIntRange ''http.max_in_flight'' (ht_MaxInFlight cfg) 0 100000,
        validateIntRange ''http.max_connections'' (ht_MaxConnections cfg) 0 1000000, validateHTTPConnectionCeiling cfg]"

definition validateHTTPConfig :: "HTTPConfig \<Rightarrow> go_error + HTTPConfig" where
  "validateHTTPConfig cfg0 =
     (let cfg = cfg0\<lparr>ht_Addr := trim_space (ht_Addr cfg0)\<rparr>
      in checked cfg
           [unless (ht_Addr cfg \<noteq> '''') ''http.addr cannot be empty'',
            validateDurationRange ''http.grace_period'' (ht_GracePeriod cfg) second (10 * minute),
            validateDurationRange ''http.shutdown_timeout'' (ht_ShutdownTimeout cfg) second (10 * minute),
            unless (\<not> ht_GracePeriod cfg < ht_ShutdownTimeout cfg) ''http.shutdown_timeout must be <= http.grace_period'',
            validateDurationRange ''http.readiness_timeout'' (ht_ReadinessTimeout cfg) (100 * millisecond) (30 * second),
            validateDurationRange ''http.readiness_propagation_delay'' (ht_ReadinessPropagationDelay cfg) 0 (ht_ShutdownTimeout cfg),
            validateDurationRange ''http.read_header_timeout'' (ht_ReadHeaderTimeout cfg) (100 * millisecond) (5 * minute),
            validateDurationRange ''http.read_timeout'' (ht_ReadTimeout cfg) (100 * millisecond) (5 * minute),
            validateDurationRange ''http.request_timeout'' (ht_RequestTimeout cfg) (100 * millisecond) (10 * minute),
            validateDurationRange ''http.write_timeout'' (ht_WriteTimeout cfg) (100 * millisecond) (10 * minute),
            validateDurationRange ''http.idle_timeout'' (ht_IdleTimeout cfg) (100 * millisecond) (24 * hour),
            validateHTTPReadinessWriteTimeout cfg, validateHTTPRequestWriteTimeout cfg, validateHTTPShutdownBudget cfg,
            validateHTTPCapacityBounds cfg])"

section \<open>gRPC\<close>

definition GRPCTransportSecurityPlaintext :: string where "GRPCTransportSecurityPlaintext = ''plaintext''"
definition GRPCTransportSecurityTLS :: string where "GRPCTransportSecurityTLS = ''tls''"

record GRPCConfig =
  gr_Enabled :: bool
  gr_Addr :: string
  gr_TransportSecurity :: string
  gr_CertFile :: string
  gr_KeyFile :: string
  gr_ClientCAFile :: string

definition validateGRPCAddress :: "string \<Rightarrow> go_error option" where
  "validateGRPCAddress address =
     (if address = '''' then Some (config_error ''grpc.server.addr cannot be empty when grpc.server.enabled is true'')
      else validateHostPortAddr ''grpc.server.addr'' address)"

definition validateGRPCConfig :: "netlib \<Rightarrow> GRPCConfig \<Rightarrow> go_error + GRPCConfig" where
  "validateGRPCConfig nl cfg0 =
     (let cfg = \<lparr>gr_Enabled = gr_Enabled cfg0, gr_Addr = trim_space (gr_Addr cfg0),
                 gr_TransportSecurity = nl_ToLower nl (trim_space (gr_TransportSecurity cfg0)), gr_CertFile = trim_space (gr_CertFile cfg0),
                 gr_KeyFile = trim_space (gr_KeyFile cfg0), gr_ClientCAFile = trim_space (gr_ClientCAFile cfg0)\<rparr>
      in if \<not> gr_Enabled cfg then Inr cfg
         else checked cfg
           [validateGRPCAddress (gr_Addr cfg),
            if gr_TransportSecurity cfg = GRPCTransportSecurityPlaintext
            then unless (gr_CertFile cfg = '''' \<and> gr_KeyFile cfg = '''' \<and> gr_ClientCAFile cfg = '''')
                   ''grpc.server.tls fields must be empty when transport_security is plaintext''
            else if gr_TransportSecurity cfg = GRPCTransportSecurityTLS
            then unless (gr_CertFile cfg \<noteq> '''' \<and> gr_KeyFile cfg \<noteq> '''')
                   ''grpc.server.tls cert_file and key_file are required when transport_security is tls''
            else Some (config_error ''grpc.server.transport_security must be one of plaintext or tls'')])"

section \<open>Authentication\<close>

record AuthnConfig =
  au_Issuer :: string
  au_Audience :: string
  au_TokenProfile :: string
  au_IntrospectionEndpoint :: string
  au_IntrospectionTargetClass :: string
  au_IntrospectionPrivateHostSuffix :: string
  au_IntrospectionClientID :: string
  au_IntrospectionClientSecret :: string

definition introspectionConfigured :: "AuthnConfig \<Rightarrow> bool" where
  "introspectionConfigured cfg =
     (au_IntrospectionEndpoint cfg \<noteq> '''' \<or> au_IntrospectionTargetClass cfg \<noteq> '''' \<or> au_IntrospectionPrivateHostSuffix cfg \<noteq> ''''
      \<or> au_IntrospectionClientID cfg \<noteq> '''' \<or> au_IntrospectionClientSecret cfg \<noteq> '''')"

definition validateIntrospectionConfig :: "netlib \<Rightarrow> AuthnConfig \<Rightarrow> go_error option" where
  "validateIntrospectionConfig nl cfg =
     first_error
       [unless (ValidIntrospectionEndpoint nl (au_IntrospectionEndpoint cfg))
          ''authn.introspection_endpoint must be an absolute HTTPS URL without user info, query, or fragment'',
        (case IntrospectionTargetPolicyIssue (au_IntrospectionTargetClass cfg) (au_IntrospectionPrivateHostSuffix cfg) of
           IntrospectionTargetValid \<Rightarrow> None
         | IntrospectionTargetClassInvalid \<Rightarrow>
             Some (config_error ''authn.introspection_target_class must be one of external-https or private-https'')
         | IntrospectionPrivateSuffixRequired \<Rightarrow>
             Some (config_error ''authn.introspection_private_host_suffix is required for private-https'')
         | IntrospectionPrivateSuffixForbidden \<Rightarrow>
             Some (config_error ''authn.introspection_private_host_suffix is forbidden for external-https'')),
        unless (au_IntrospectionClientID cfg \<noteq> '''') ''authn.introspection_client_id cannot be empty'',
        unless (au_IntrospectionClientSecret cfg \<noteq> '''') ''authn.introspection_client_secret cannot be empty'']"

definition validateAuthnConfig :: "netlib \<Rightarrow> AuthnConfig \<Rightarrow> go_error + AuthnConfig" where
  "validateAuthnConfig nl cfg0 =
     (let cfg = cfg0\<lparr>au_Issuer := trim_space (au_Issuer cfg0), au_Audience := trim_space (au_Audience cfg0),
                     au_TokenProfile := nl_ToLower nl (trim_space (au_TokenProfile cfg0))\<rparr>
      in checked cfg
           [unless (ValidIssuerURL nl (au_Issuer cfg)) ''authn.issuer must be an absolute HTTPS URL without user info, query, or fragment'',
            unless (au_Audience cfg \<noteq> '''') ''authn.audience cannot be empty'',
            unless (ValidTokenProfile (au_TokenProfile cfg)) ''authn.token_profile must be one of resource-server or rfc9068'',
            if introspectionConfigured cfg then validateIntrospectionConfig nl cfg else None])"

definition validateAuthnHTTPCompatibility :: "HTTPConfig \<Rightarrow> go_error option" where
  "validateAuthnHTTPCompatibility cfg = unless (ht_MaxInFlight cfg \<noteq> 0) ''authn OIDC profile requires http.max_in_flight > 0''"

definition validateAuthnGRPCCompatibility :: "GRPCConfig \<Rightarrow> go_error option" where
  "validateAuthnGRPCCompatibility cfg =
     unless (\<not> (gr_Enabled cfg \<and> gr_TransportSecurity cfg \<noteq> GRPCTransportSecurityTLS))
       ''authn OIDC profile requires grpc.server.transport_security=tls''"

section \<open>Messaging\<close>

definition messaging_ValidateURL :: "netlib \<Rightarrow> string \<Rightarrow> bool \<Rightarrow> go_error option" where
  "messaging_ValidateURL nl raw allowPlaintext =
     (case nl_Parse nl raw of
        None \<Rightarrow> Some (Fresh ''messaging URL is invalid'')
      | Some parsed \<Rightarrow>
          if u_Host parsed = '''' then Some (Fresh ''messaging URL is invalid'')
          else if u_User parsed \<noteq> None then Some (Fresh ''messaging URL userinfo is forbidden'')
          else if u_Scheme parsed = ''tls'' \<or> u_Scheme parsed = ''wss'' then None
          else if u_Scheme parsed = ''nats'' \<or> u_Scheme parsed = ''ws''
          then (if \<not> allowPlaintext then Some (Fresh ''plaintext messaging URL requires explicit opt-in'') else None)
          else Some (Fresh ''messaging URL scheme is unsupported''))"

record MessagingConfig =
  mc_URLs :: string
  mc_CredentialsFile :: string
  mc_RootCAFile :: string
  mc_AllowPlaintext :: bool
  mc_AllowUnauthenticated :: bool
  mc_Stream :: string
  mc_MaxPayloadBytes :: int

definition messaging_Enabled :: "MessagingConfig \<Rightarrow> bool" where
  "messaging_Enabled cfg = (trim_space (mc_URLs cfg) \<noteq> '''')"

fun canonical_urls :: "netlib \<Rightarrow> bool \<Rightarrow> string list \<Rightarrow> string list \<Rightarrow> go_error + string list" where
  "canonical_urls nl allowPlaintext canonical [] = Inr canonical"
| "canonical_urls nl allowPlaintext canonical (raw # rest) =
     (let v = trim_space raw
      in case messaging_ValidateURL nl v allowPlaintext of
           Some err \<Rightarrow> Inl (errorf2 ''messaging.urls'' ErrValidate err)
         | None \<Rightarrow>
             if v \<in> set canonical then Inl (config_error ''messaging.urls contains a duplicate URL'')
             else canonical_urls nl allowPlaintext (canonical @ [v]) rest)"

definition canonicalizeMessagingURLs :: "netlib \<Rightarrow> string \<Rightarrow> bool \<Rightarrow> go_error + string" where
  "canonicalizeMessagingURLs nl raw allowPlaintext =
     (case canonical_urls nl allowPlaintext [] (split_on (CHR '','') raw) of
        Inl err \<Rightarrow> Inl err
      | Inr canonical \<Rightarrow>
          if canonical = [] then Inl (config_error ''messaging.urls cannot be empty when messaging is enabled'')
          else Inr (str_join '','' canonical))"

definition validateMessagingConfig :: "netlib \<Rightarrow> MessagingConfig \<Rightarrow> go_error + MessagingConfig" where
  "validateMessagingConfig nl cfg0 =
     (let cfg = cfg0\<lparr>mc_URLs := trim_space (mc_URLs cfg0), mc_CredentialsFile := trim_space (mc_CredentialsFile cfg0),
                     mc_RootCAFile := trim_space (mc_RootCAFile cfg0), mc_Stream := trim_space (mc_Stream cfg0)\<rparr>
      in if mc_MaxPayloadBytes cfg \<le> 0 then Inl (config_error ''messaging.max_payload_bytes must be positive'')
         else if mc_URLs cfg = '''' then Inr cfg
         else case canonicalizeMessagingURLs nl (mc_URLs cfg) (mc_AllowPlaintext cfg) of
           Inl err \<Rightarrow> Inl err
         | Inr canonicalURLs \<Rightarrow>
             checked (cfg\<lparr>mc_URLs := canonicalURLs\<rparr>)
               [unless (mc_AllowUnauthenticated cfg \<or> mc_CredentialsFile cfg \<noteq> '''') ''messaging.credentials_file is required'',
                unless (ValidStreamOrConsumerName (mc_Stream cfg)) ''messaging.stream is invalid''])"

section \<open>Object storage\<close>

record ObjectStorageConfig =
  oc_Provider :: string
  oc_Endpoint :: string
  oc_Region :: string
  oc_Bucket :: string
  oc_ExpectedBucketOwner :: string
  oc_CredentialSource :: string
  oc_MaxObjectBytes :: int

definition validateObjectStorage :: "ObjectStorageConfig \<Rightarrow> go_error + ObjectStorageConfig" where
  "validateObjectStorage cfg0 =
     (let cfg1 = \<lparr>oc_Provider = trim_space (oc_Provider cfg0), oc_Endpoint = trim_space (oc_Endpoint cfg0),
                  oc_Region = trim_space (oc_Region cfg0), oc_Bucket = trim_space (oc_Bucket cfg0),
                  oc_ExpectedBucketOwner = trim_space (oc_ExpectedBucketOwner cfg0),
                  oc_CredentialSource = trim_space (oc_CredentialSource cfg0), oc_MaxObjectBytes = oc_MaxObjectBytes cfg0\<rparr>;
          cfg = (if oc_Provider cfg1 = ''cloudflare_r2'' \<and> oc_Region cfg1 = '''' then cfg1\<lparr>oc_Region := ''auto''\<rparr> else cfg1)
      in checked cfg
           [unless (oc_Provider cfg \<noteq> '''') ''object_storage.provider is required'', unless (oc_Bucket cfg \<noteq> '''') ''object_storage.bucket is required'',
            unless (oc_CredentialSource cfg \<noteq> '''') ''object_storage.credential_source is required'',
            unless (oc_Provider cfg = ''amazon_s3'' \<or> oc_Provider cfg = ''cloudflare_r2'') ''object_storage.provider is invalid'',
            unless (oc_CredentialSource cfg = ''aws_default'' \<or> oc_CredentialSource cfg = ''static'') ''object_storage.credential_source is invalid'',
            unless (0 < oc_MaxObjectBytes cfg) ''object_storage.max_object_bytes must be positive''])"

section \<open>Observability\<close>

definition SamplerAlwaysOn :: string where "SamplerAlwaysOn = ''always_on''"
definition SamplerAlwaysOff :: string where "SamplerAlwaysOff = ''always_off''"
definition SamplerTraceIDRatio :: string where "SamplerTraceIDRatio = ''traceidratio''"
definition SamplerParentBasedTraceIDRatio :: string where "SamplerParentBasedTraceIDRatio = ''parentbased_traceidratio''"
definition DefaultTracesSampler :: string where "DefaultTracesSampler = SamplerParentBasedTraceIDRatio"

definition TracesSamplerOrDefault :: "netlib \<Rightarrow> string \<Rightarrow> string" where
  "TracesSamplerOrDefault nl name =
     (let normalized = nl_ToLower nl (trim_space name) in if normalized = '''' then DefaultTracesSampler else normalized)"

definition ValidateTracesSampler :: "netlib \<Rightarrow> string \<Rightarrow> float64 \<Rightarrow> go_error option" where
  "ValidateTracesSampler nl name a =
     (if TracesSamplerOrDefault nl name \<notin> {SamplerAlwaysOn, SamplerAlwaysOff, SamplerTraceIDRatio, SamplerParentBasedTraceIDRatio}
      then Some (Fresh ''traces_sampler is unsupported'')
      else map_option Fresh (unit_ratio ''traces_sampler_arg must be finite'' ''traces_sampler_arg must be in range [0,1]'' a))"

record ObservabilityConfig =
  ob_MetricsAddr :: string
  ob_PprofEnabled :: bool
  ob_ServiceName :: string
  ob_TracesSampler :: string
  ob_TracesSamplerArg :: float64
  ob_OTLPEndpoint :: string
  ob_OTLPMetricsEndpoint :: string
  ob_OTLPHeaders :: string

text \<open>The fields that are normalized after the listener checks are not read by them, so one record holds the result.\<close>

definition validateObservabilityConfig :: "netlib \<Rightarrow> ObservabilityConfig \<Rightarrow> go_error + ObservabilityConfig" where
  "validateObservabilityConfig nl cfg0 =
     (let cfg = cfg0\<lparr>ob_MetricsAddr := trim_space (ob_MetricsAddr cfg0), ob_ServiceName := trim_space (ob_ServiceName cfg0),
                     ob_TracesSampler := TracesSamplerOrDefault nl (ob_TracesSampler cfg0),
                     ob_OTLPEndpoint := trim_space (ob_OTLPEndpoint cfg0), ob_OTLPMetricsEndpoint := trim_space (ob_OTLPMetricsEndpoint cfg0)\<rparr>
      in checked cfg
           [if ob_MetricsAddr cfg \<noteq> '''' then validateHostPortAddr ''observability.metrics.addr'' (ob_MetricsAddr cfg) else None,
            unless (\<not> (ob_PprofEnabled cfg \<and> ob_MetricsAddr cfg = ''''))
              ''observability.pprof.enabled requires observability.metrics.addr, which serves the diagnostics listener'',
            unless (ob_ServiceName cfg \<noteq> '''') ''observability.otel.service_name cannot be empty'',
            map_option (errorf2 ''observability.otel'' ErrValidate) (ValidateTracesSampler nl (ob_TracesSampler cfg) (ob_TracesSamplerArg cfg))])"

section \<open>The snapshot\<close>

record Config =
  cf_App :: AppConfig
  cf_HTTP :: HTTPConfig
  cf_Authn :: AuthnConfig
  cf_GRPC :: GRPCConfig
  cf_Health :: HealthConfig
  cf_Messaging :: MessagingConfig
  cf_Observability :: ObservabilityConfig
  cf_Runtime :: RuntimeConfig
  cf_Postgres :: PostgresConfig
  cf_HTTPIdempotency :: HTTPIdempotencyConfig
  cf_Jobs :: JobsConfig
  cf_OutboundWebhooks :: OutboundWebhooksConfig
  cf_InboundWebhooks :: InboundWebhooksConfig
  cf_ObjectStorage :: ObjectStorageConfig

type_synonym endpoint_decoder = "string \<Rightarrow> inbound_entry list option"

definition config_validate :: "netlib \<Rightarrow> endpoint_decoder \<Rightarrow> Config \<Rightarrow> go_error + Config" where
  "config_validate nl unmarshal cfg =
     and_then (validateAppConfig (cf_App cfg)) (\<lambda>app.
     and_then (validateHTTPConfig (cf_HTTP cfg)) (\<lambda>http.
     and_then (checked () [validateAuthnHTTPCompatibility http]) (\<lambda>_.
     and_then (validateAuthnConfig nl (cf_Authn cfg)) (\<lambda>authn.
     and_then (validateGRPCConfig nl (cf_GRPC cfg)) (\<lambda>grpc.
     and_then (checked () [validateAuthnGRPCCompatibility grpc, validateHealthConfig (cf_Health cfg), validateRuntimeConfig (cf_Runtime cfg)]) (\<lambda>_.
     and_then (validateMessagingConfig nl (cf_Messaging cfg)) (\<lambda>messaging.
     and_then (checked ()
       [validatePostgres (cf_Postgres cfg), validateJobs (cf_Jobs cfg) (cf_Postgres cfg),
        validateOutboundWebhooks (cf_OutboundWebhooks cfg) (cf_Postgres cfg) (cf_Jobs cfg),
        validateInboundWebhooks unmarshal (cf_InboundWebhooks cfg)]) (\<lambda>_.
     and_then (validateObjectStorage (cf_ObjectStorage cfg)) (\<lambda>objects.
     and_then (validateObservabilityConfig nl (cf_Observability cfg)) (\<lambda>observability.
     Inr (cfg\<lparr>cf_App := app, cf_HTTP := http, cf_Authn := authn, cf_GRPC := grpc, cf_Messaging := messaging,
              cf_ObjectStorage := objects, cf_Observability := observability\<rparr>)))))))))))"

definition validateJobsWorkerConfig :: "netlib \<Rightarrow> endpoint_decoder \<Rightarrow> Config \<Rightarrow> go_error + Config" where
  "validateJobsWorkerConfig nl unmarshal cfg =
     and_then (validateAppConfig (cf_App cfg)) (\<lambda>app.
     and_then (validateHTTPConfig (cf_HTTP cfg)) (\<lambda>http.
     and_then (checked ()
       [validatePostgres (cf_Postgres cfg), validateJobs (cf_Jobs cfg) (cf_Postgres cfg),
        validateJobsWorkerOutboundWebhooks (cf_OutboundWebhooks cfg),
        validateInboundWebhookEndpoints unmarshal (iw_Endpoints (cf_InboundWebhooks cfg))]) (\<lambda>_.
     and_then (validateObservabilityConfig nl (cf_Observability cfg)) (\<lambda>observability.
     Inr (cfg\<lparr>cf_App := app, cf_HTTP := http, cf_Observability := observability\<rparr>)))))"

text \<open>\<^verbatim>\<open>natsjs.ValidateConfig\<close>, the rules the adapter applies again.\<close>

record nats_Config =
  nc_URLs :: "string list"
  nc_CredentialsFile :: string
  nc_AllowPlaintext :: bool
  nc_AllowUnauthenticated :: bool
  nc_Stream :: string
  nc_MaxPayloadBytes :: int

definition nats_ValidateConfig :: "netlib \<Rightarrow> nats_Config \<Rightarrow> go_error option" where
  "nats_ValidateConfig nl cfg =
     (if nc_URLs cfg = [] then Some (WrapFmt ''messaging URLs are required'' ErrRejected)
      else first_error
        (map (\<lambda>raw. map_option (errorf2 '''' ErrRejected) (messaging_ValidateURL nl raw (nc_AllowPlaintext cfg))) (nc_URLs cfg)
         @ [if \<not> nc_AllowUnauthenticated cfg \<and> trim_space (nc_CredentialsFile cfg) = ''''
            then Some (WrapFmt ''credentials file is required'' ErrRejected) else None,
            if \<not> ValidStreamOrConsumerName (nc_Stream cfg) then Some (WrapFmt ''invalid source stream'' ErrRejected) else None,
            if nc_MaxPayloadBytes cfg \<le> 0 then Some (WrapFmt ''max payload bytes must be positive'' ErrRejected) else None]))"

text \<open>\<^verbatim>\<open>runtimeopts.Messaging\<close> with its \<^verbatim>\<open>splitList\<close>.\<close>

definition splitList :: "string \<Rightarrow> string list" where
  "splitList v = map trim_space (split_on (CHR '','') v)"

definition runtime_Messaging :: "MessagingConfig \<Rightarrow> nats_Config" where
  "runtime_Messaging cfg =
     \<lparr>nc_URLs = splitList (mc_URLs cfg), nc_CredentialsFile = mc_CredentialsFile cfg, nc_AllowPlaintext = mc_AllowPlaintext cfg,
      nc_AllowUnauthenticated = mc_AllowUnauthenticated cfg, nc_Stream = mc_Stream cfg, nc_MaxPayloadBytes = mc_MaxPayloadBytes cfg\<rparr>"

section \<open>Reading an accepted section\<close>

lemma checked_Inr [simp]: "checked x cs = Inr y \<longleftrightarrow> y = x \<and> (\<forall>e \<in> set cs. e = None)"
  by (auto simp: checked_def first_error_None [symmetric] split: option.splits)

lemma unless_None [simp]: "unless ok m = None \<longleftrightarrow> ok"
  by (simp add: unless_def)

lemma range_None [simp]: "validateDurationRange name v lo hi = None \<longleftrightarrow> lo \<le> v \<and> v \<le> hi"
  "validateIntRange name v lo hi = None \<longleftrightarrow> lo \<le> v \<and> v \<le> hi"
  by (auto simp: validateDurationRange_def validateIntRange_def)

lemma ratio_None: "unit_ratio m m' v = None \<longleftrightarrow> (\<exists>q. v = FNum q \<and> 0 \<le> q \<and> q \<le> 1)"
  by (cases v) (auto simp: unit_ratio_def)

lemma address_None:
  "validateHostPortAddr name address = None \<longleftrightarrow>
     (\<exists>host rawPort port. net_SplitHostPort address = Some (host, rawPort) \<and> parse_uint 16 rawPort = Some port \<and> 0 < port)"
  by (auto simp: validateHostPortAddr_def split: option.splits)

lemmas section_defs = validateAppConfig_def validateHealthConfig_def validateRuntimeConfig_def validatePostgres_def validateJobs_def
  validateOutboundWebhooks_def validateInboundWebhooks_def validateHTTPReadinessWriteTimeout_def validateHTTPRequestWriteTimeout_def
  validateHTTPShutdownBudget_def validateHTTPConnectionCeiling_def validateHTTPCapacityBounds_def validateGRPCAddress_def
  validateAuthnHTTPCompatibility_def validateAuthnGRPCCompatibility_def

text \<open>What the HTTP section promises: the budgets nest, without a wrapped sum.\<close>

lemma http_accepted:
  assumes "validateHTTPConfig cfg = Inr c"
  shows "c = cfg\<lparr>ht_Addr := trim_space (ht_Addr cfg)\<rparr>" "ht_Addr c \<noteq> ''''"
    "second \<le> ht_GracePeriod c" "ht_GracePeriod c \<le> 10 * minute"
    "second \<le> ht_ShutdownTimeout c" "ht_ShutdownTimeout c \<le> ht_GracePeriod c"
    "0 \<le> ht_ReadinessPropagationDelay c" "ht_ReadinessPropagationDelay c + ht_WriteTimeout c \<le> ht_ShutdownTimeout c"
    "100 * millisecond \<le> ht_RequestTimeout c" "ht_RequestTimeout c + second \<le> ht_WriteTimeout c"
    "ht_ReadinessTimeout c \<le> ht_WriteTimeout c" "ht_WriteTimeout c \<le> 10 * minute"
    "0 < ht_MaxHeaderBytes c" "0 < ht_MaxBodyBytes c" "0 \<le> ht_MaxInFlight c"
    "ht_MaxConnections c = 0 \<or> ht_MaxInFlight c \<le> ht_MaxConnections c"
proof -
  have c: "c = cfg\<lparr>ht_Addr := trim_space (ht_Addr cfg)\<rparr>" and "ht_Addr c \<noteq> ''''"
    and g: "second \<le> ht_GracePeriod c" "ht_GracePeriod c \<le> 10 * minute" "second \<le> ht_ShutdownTimeout c" "ht_ShutdownTimeout c \<le> 10 * minute"
      "ht_ShutdownTimeout c \<le> ht_GracePeriod c" "0 \<le> ht_ReadinessPropagationDelay c" "ht_ReadinessPropagationDelay c \<le> ht_ShutdownTimeout c"
      "100 * millisecond \<le> ht_RequestTimeout c" "ht_RequestTimeout c \<le> 10 * minute" "ht_WriteTimeout c \<le> 10 * minute"
    and r: "validateHTTPReadinessWriteTimeout c = None" "validateHTTPRequestWriteTimeout c = None" "validateHTTPShutdownBudget c = None"
      "validateHTTPCapacityBounds c = None"
    using assms unfolding validateHTTPConfig_def Let_def checked_Inr by (auto simp: not_less)
  have sums: "wrap64 (ht_RequestTimeout c + second) = ht_RequestTimeout c + second"
    "wrap64 (ht_ShutdownTimeout c - ht_ReadinessPropagationDelay c) = ht_ShutdownTimeout c - ht_ReadinessPropagationDelay c"
    using g by (auto intro!: wrap64_small simp: dur_simps)
  show "c = cfg\<lparr>ht_Addr := trim_space (ht_Addr cfg)\<rparr>" "ht_Addr c \<noteq> ''''"
    "second \<le> ht_GracePeriod c" "ht_GracePeriod c \<le> 10 * minute"
    "second \<le> ht_ShutdownTimeout c" "ht_ShutdownTimeout c \<le> ht_GracePeriod c"
    "0 \<le> ht_ReadinessPropagationDelay c" "100 * millisecond \<le> ht_RequestTimeout c" "ht_WriteTimeout c \<le> 10 * minute"
    by fact+
  show "ht_ReadinessPropagationDelay c + ht_WriteTimeout c \<le> ht_ShutdownTimeout c" "ht_RequestTimeout c + second \<le> ht_WriteTimeout c"
    "ht_ReadinessTimeout c \<le> ht_WriteTimeout c" "0 < ht_MaxHeaderBytes c" "0 < ht_MaxBodyBytes c" "0 \<le> ht_MaxInFlight c"
    "ht_MaxConnections c = 0 \<or> ht_MaxInFlight c \<le> ht_MaxConnections c"
    using r sums by (auto simp: section_defs httpTerminalResponseReserve_def first_error_None Let_def)
qed

section \<open>Messaging addresses\<close>

lemma canonical_urls_Inr:
  assumes "canonical_urls nl p acc raws = Inr res" "distinct acc"
  shows "res = acc @ map trim_space raws \<and> distinct res \<and> (\<forall>u \<in> set (map trim_space raws). messaging_ValidateURL nl u p = None)"
  using assms
proof (induction nl p acc raws rule: canonical_urls.induct)
  case (2 nl p acc raw rest)
  then show ?case by (fastforce simp: Let_def split: option.splits if_splits)
qed auto

lemma canonical_urls_again:
  assumes "distinct (acc @ us)" "\<forall>u \<in> set us. messaging_ValidateURL nl u p = None \<and> trim_space u = u"
  shows "canonical_urls nl p acc us = Inr (acc @ us)"
  using assms
proof (induction us arbitrary: acc)
  case (Cons u us)
  then show ?case by (auto simp: Let_def)
qed simp

lemma canonical_messaging:
  assumes "canonicalizeMessagingURLs nl raw p = Inr urls"
  shows "\<exists>us. us \<noteq> [] \<and> urls = str_join '','' us \<and> split_on (CHR '','') urls = us \<and> distinct us
     \<and> (\<forall>u \<in> set us. messaging_ValidateURL nl u p = None \<and> trim_space u = u)"
proof -
  let ?us = "map trim_space (split_on (CHR '','') raw)"
  have c: "canonical_urls nl p [] (split_on (CHR '','') raw) = Inr ?us" and j: "urls = str_join '','' ?us"
    using assms canonical_urls_Inr [of nl p "[]" "split_on (CHR '','') raw"]
    by (auto simp: canonicalizeMessagingURLs_def split: sum.splits if_splits)
  note r = canonical_urls_Inr [OF c]
  have "CHR '','' \<notin> set u" if "u \<in> set ?us" for u
    using that trim_space_subset split_on_no_sep by fastforce
  then have "split_on (CHR '','') urls = ?us" unfolding j by (intro split_join) auto
  then show ?thesis using r j by (intro exI [of _ ?us]) auto
qed

lemma messaging_again:
  assumes "validateMessagingConfig nl cfg = Inr c"
  shows "validateMessagingConfig nl c = Inr c \<and> (messaging_Enabled c \<longrightarrow> nats_ValidateConfig nl (runtime_Messaging c) = None)"
proof (cases "trim_space (mc_URLs cfg) = ''''")
  case True
  then show ?thesis using assms by (auto simp: validateMessagingConfig_def messaging_Enabled_def Let_def split: if_splits)
next
  case False
  then obtain urls where u: "canonicalizeMessagingURLs nl (trim_space (mc_URLs cfg)) (mc_AllowPlaintext cfg) = Inr urls"
    and c: "c = cfg\<lparr>mc_URLs := urls, mc_CredentialsFile := trim_space (mc_CredentialsFile cfg),
       mc_RootCAFile := trim_space (mc_RootCAFile cfg), mc_Stream := trim_space (mc_Stream cfg)\<rparr>"
    and rest: "0 < mc_MaxPayloadBytes c" "mc_AllowUnauthenticated c \<or> mc_CredentialsFile c \<noteq> ''''" "ValidStreamOrConsumerName (mc_Stream c)"
    using assms by (auto simp: validateMessagingConfig_def Let_def split: if_splits sum.splits)
  obtain us where us: "us \<noteq> []" "urls = str_join '','' us" "split_on (CHR '','') urls = us" "distinct us"
    "\<forall>u \<in> set us. messaging_ValidateURL nl u (mc_AllowPlaintext cfg) = None \<and> trim_space u = u"
    using canonical_messaging [OF u] by blast
  have t: "trim_space urls = urls" unfolding us(2) by (rule trim_space_join) (use us(5) in \<open>auto simp: list_all_iff\<close>)
  have again: "canonicalizeMessagingURLs nl urls (mc_AllowPlaintext cfg) = Inr urls"
    using us canonical_urls_again [of "[]" us nl "mc_AllowPlaintext cfg"] by (simp add: canonicalizeMessagingURLs_def)
  have "validateMessagingConfig nl c = Inr c"
    using rest t again by (simp add: validateMessagingConfig_def c Let_def)
  moreover have "nats_ValidateConfig nl (runtime_Messaging c) = None"
    using us rest t
    by (auto simp: nats_ValidateConfig_def runtime_Messaging_def splitList_def first_error_None c)
  ultimately show ?thesis by blast
qed

section \<open>Accepted configurations\<close>

text \<open>Lower-casing twice is lower-casing once, it makes no space, and lower-case letters stay.\<close>

definition lower_laws :: "netlib \<Rightarrow> bool" where
  "lower_laws nl =
     (\<forall>s. nl_ToLower nl (nl_ToLower nl s) = nl_ToLower nl s \<and> trim_space (nl_ToLower nl (trim_space s)) = nl_ToLower nl (trim_space s)
        \<and> (list_all (\<lambda>c. c \<in> set ''abcdefghijklmnopqrstuvwxyz_'') s \<longrightarrow> nl_ToLower nl s = s))"

lemma sampler_again:
  assumes "lower_laws nl"
  shows "TracesSamplerOrDefault nl (TracesSamplerOrDefault nl s) = TracesSamplerOrDefault nl s"
proof -
  have "nl_ToLower nl DefaultTracesSampler = DefaultTracesSampler"
    using assms by (simp add: lower_laws_def DefaultTracesSampler_def SamplerParentBasedTraceIDRatio_def)
  moreover have "trim_space DefaultTracesSampler = DefaultTracesSampler"
    by (simp add: DefaultTracesSampler_def SamplerParentBasedTraceIDRatio_def trim_ascii)
  ultimately show ?thesis using assms by (auto simp: TracesSamplerOrDefault_def lower_laws_def Let_def)
qed

lemma sections_again:
  assumes "lower_laws nl"
  shows "validateAppConfig a = Inr a' \<Longrightarrow> validateAppConfig a' = Inr a'"
    "validateHTTPConfig h = Inr h' \<Longrightarrow> validateHTTPConfig h' = Inr h'"
    "validateAuthnConfig nl u = Inr u' \<Longrightarrow> validateAuthnConfig nl u' = Inr u'"
    "validateGRPCConfig nl g = Inr g' \<Longrightarrow> validateGRPCConfig nl g' = Inr g'"
    "validateObjectStorage b = Inr b' \<Longrightarrow> validateObjectStorage b' = Inr b'"
    "validateObservabilityConfig nl w = Inr w' \<Longrightarrow> validateObservabilityConfig nl w' = Inr w'"
  subgoal by (auto simp: validateAppConfig_def Let_def)
  subgoal by (auto simp: validateHTTPConfig_def Let_def section_defs httpTerminalResponseReserve_def first_error_None)
  subgoal using assms
    by (auto simp: validateAuthnConfig_def introspectionConfigured_def validateIntrospectionConfig_def lower_laws_def Let_def)
  subgoal using assms by (auto simp: validateGRPCConfig_def lower_laws_def Let_def split: if_splits)
  subgoal by (auto simp: validateObjectStorage_def Let_def trim_ascii split: if_splits)
  subgoal using sampler_again [OF assms]
    by (auto simp: validateObservabilityConfig_def ValidateTracesSampler_def Let_def split: if_splits)
  done

text \<open>The policies the composition root builds of an accepted section.\<close>

definition jwt_policy_of :: "AuthnConfig \<Rightarrow> oidc_Policy" where
  "jwt_policy_of a = \<lparr>op_issuer = au_Issuer a, op_audience = au_Audience a, op_tokenProfile = au_TokenProfile a\<rparr>"

definition introspection_policy_of :: "AuthnConfig \<Rightarrow> intro_Policy" where
  "introspection_policy_of a =
     \<lparr>ip_issuer = au_Issuer a, ip_audience = au_Audience a, ip_endpoint = au_IntrospectionEndpoint a,
      ip_targetClass = au_IntrospectionTargetClass a, ip_privateSuffix = au_IntrospectionPrivateHostSuffix a,
      ip_clientID = au_IntrospectionClientID a, ip_clientSecret = au_IntrospectionClientSecret a\<rparr>"

lemma authn_engines:
  assumes "lower_laws nl" "validateAuthnConfig nl a = Inr c"
  shows "oidc_NewPolicy nl (jwt_policy_of c) = Inr (jwt_policy_of c)"
    "introspectionConfigured c \<Longrightarrow> intro_NewPolicy nl (introspection_policy_of c) = Inr (introspection_policy_of c)"
proof -
  have c: "trim_space (au_Issuer c) = au_Issuer c" "trim_space (au_Audience c) = au_Audience c"
    "nl_ToLower nl (trim_space (au_TokenProfile c)) = au_TokenProfile c" "ValidIssuerURL nl (au_Issuer c)" "au_Audience c \<noteq> ''''"
    "ValidTokenProfile (au_TokenProfile c)" "introspectionConfigured c \<longrightarrow> validateIntrospectionConfig nl c = None"
    using assms by (auto simp: validateAuthnConfig_def introspectionConfigured_def lower_laws_def Let_def split: if_splits)
  then show "oidc_NewPolicy nl (jwt_policy_of c) = Inr (jwt_policy_of c)" by (simp add: oidc_NewPolicy_def jwt_policy_of_def Let_def)
  show "intro_NewPolicy nl (introspection_policy_of c) = Inr (introspection_policy_of c)" if "introspectionConfigured c"
    using c that
    by (auto simp: intro_NewPolicy_def introspection_policy_of_def validateIntrospectionConfig_def first_error_None
        split: IntrospectionTargetIssue.splits)
qed

lemma config_sections:
  assumes "config_validate nl unmarshal cfg = Inr c"
  shows "validateAppConfig (cf_App cfg) = Inr (cf_App c)" "validateHTTPConfig (cf_HTTP cfg) = Inr (cf_HTTP c)"
    "validateAuthnConfig nl (cf_Authn cfg) = Inr (cf_Authn c)" "validateGRPCConfig nl (cf_GRPC cfg) = Inr (cf_GRPC c)"
    "validateMessagingConfig nl (cf_Messaging cfg) = Inr (cf_Messaging c)" "validateObjectStorage (cf_ObjectStorage cfg) = Inr (cf_ObjectStorage c)"
    "validateObservabilityConfig nl (cf_Observability cfg) = Inr (cf_Observability c)"
    "validateAuthnHTTPCompatibility (cf_HTTP c) = None" "validateAuthnGRPCCompatibility (cf_GRPC c) = None"
    "validateHealthConfig (cf_Health c) = None" "validateRuntimeConfig (cf_Runtime c) = None" "validatePostgres (cf_Postgres c) = None"
    "validateJobs (cf_Jobs c) (cf_Postgres c) = None" "validateOutboundWebhooks (cf_OutboundWebhooks c) (cf_Postgres c) (cf_Jobs c) = None"
    "validateInboundWebhooks unmarshal (cf_InboundWebhooks c) = None"
  using assms by (auto simp: config_validate_def)

lemma grpc_accepted:
  assumes "validateGRPCConfig nl g = Inr c" "validateAuthnGRPCCompatibility c = None" "gr_Enabled c"
  shows "gr_TransportSecurity c = ''tls'' \<and> gr_CertFile c \<noteq> '''' \<and> gr_KeyFile c \<noteq> ''''
    \<and> (\<exists>host rawPort port. net_SplitHostPort (gr_Addr c) = Some (host, rawPort) \<and> parse_uint 16 rawPort = Some port \<and> 0 < port)"
  using assms
  by (auto simp: validateGRPCConfig_def validateAuthnGRPCCompatibility_def validateGRPCAddress_def GRPCTransportSecurityTLS_def
      GRPCTransportSecurityPlaintext_def address_None Let_def split: if_splits)

text \<open>Configuration and adapters agree. A snapshot that is accepted is canonical: validating it again accepts it and
  changes nothing. The JWT engine, the introspection engine when it is configured and the broker client when messaging
  is enabled accept exactly the values in it, so no adapter refuses at startup what the loader let through.\<close>

theorem accepted_snapshot_is_canonical:
  assumes "lower_laws nl" "config_validate nl unmarshal cfg = Inr c"
  shows "config_validate nl unmarshal c = Inr c
     \<and> oidc_NewPolicy nl (jwt_policy_of (cf_Authn c)) = Inr (jwt_policy_of (cf_Authn c))
     \<and> (introspectionConfigured (cf_Authn c) \<longrightarrow>
          intro_NewPolicy nl (introspection_policy_of (cf_Authn c)) = Inr (introspection_policy_of (cf_Authn c)))
     \<and> (messaging_Enabled (cf_Messaging c) \<longrightarrow> nats_ValidateConfig nl (runtime_Messaging (cf_Messaging c)) = None)"
proof -
  note s = config_sections [OF assms(2)]
  have "config_validate nl unmarshal c = Inr c"
    using s(8-) sections_again(1) [OF assms(1) s(1)] sections_again(2) [OF assms(1) s(2)] sections_again(3) [OF assms(1) s(3)]
      sections_again(4) [OF assms(1) s(4)] messaging_again [OF s(5)] sections_again(5) [OF assms(1) s(6)] sections_again(6) [OF assms(1) s(7)]
    by (simp add: config_validate_def)
  then show ?thesis using authn_engines [OF assms(1) s(3)] messaging_again [OF s(5)] by blast
qed

text \<open>What an accepted snapshot guarantees. The time budgets nest: a request with its terminal response fits the write
  deadline, the write deadline with the propagation delay fits the drain, and the drain fits the grace period, with no
  wrapped sum. Requests are limited while callers are authenticated, and no more handlers are admitted than connections. A gRPC server
  speaks TLS with a certificate on a numbered port. Webhook delivery has a database with a connection string and 1 to 500 workers, and
  inbound endpoints and their secrets come together. Ratios are numbers between 0 and 1.\<close>

theorem accepted_snapshot_is_sound:
  assumes "config_validate nl unmarshal cfg = Inr c"
  shows "ht_RequestTimeout (cf_HTTP c) + second \<le> ht_WriteTimeout (cf_HTTP c)
     \<and> ht_ReadinessPropagationDelay (cf_HTTP c) + ht_WriteTimeout (cf_HTTP c) \<le> ht_ShutdownTimeout (cf_HTTP c)
     \<and> 0 \<le> ht_ReadinessPropagationDelay (cf_HTTP c) \<and> 0 < ht_RequestTimeout (cf_HTTP c)
     \<and> ht_ShutdownTimeout (cf_HTTP c) \<le> ht_GracePeriod (cf_HTTP c) \<and> ht_GracePeriod (cf_HTTP c) \<le> 10 * minute
     \<and> 0 < ht_MaxInFlight (cf_HTTP c) \<and> (ht_MaxConnections (cf_HTTP c) = 0 \<or> ht_MaxInFlight (cf_HTTP c) \<le> ht_MaxConnections (cf_HTTP c))
     \<and> (gr_Enabled (cf_GRPC c) \<longrightarrow> gr_TransportSecurity (cf_GRPC c) = ''tls'' \<and> gr_CertFile (cf_GRPC c) \<noteq> '''' \<and> gr_KeyFile (cf_GRPC c) \<noteq> ''''
          \<and> (\<exists>host rawPort port. net_SplitHostPort (gr_Addr (cf_GRPC c)) = Some (host, rawPort) \<and> parse_uint 16 rawPort = Some port \<and> 0 < port))
     \<and> (ow_Enabled (cf_OutboundWebhooks c) \<longrightarrow> pc_Enabled (cf_Postgres c) \<and> trim_space (pc_DSN (cf_Postgres c)) \<noteq> ''''
          \<and> 1 \<le> jc_MaxWorkers (cf_Jobs c) \<and> jc_MaxWorkers (cf_Jobs c) \<le> 500 \<and> ow_Endpoints (cf_OutboundWebhooks c) \<noteq> '''')
     \<and> ((iw_Endpoints (cf_InboundWebhooks c) = '''') = (iw_StaticSecrets (cf_InboundWebhooks c) = ''''))
     \<and> (\<exists>es. ParseEndpoints unmarshal (iw_Endpoints (cf_InboundWebhooks c)) = Inr es)
     \<and> (\<exists>q. ru_MemoryLimitRatio (cf_Runtime c) = FNum q \<and> 0 \<le> q \<and> q \<le> 1)
     \<and> (\<exists>q. ob_TracesSamplerArg (cf_Observability c) = FNum q \<and> 0 \<le> q \<and> q \<le> 1)"
proof -
  note s = config_sections [OF assms]
  note h = http_accepted [OF s(2)]
  have inflight: "0 < ht_MaxInFlight (cf_HTTP c)" using s(8) h(15) by (simp add: validateAuthnHTTPCompatibility_def)
  have grpc: "gr_TransportSecurity (cf_GRPC c) = ''tls'' \<and> gr_CertFile (cf_GRPC c) \<noteq> '''' \<and> gr_KeyFile (cf_GRPC c) \<noteq> ''''
      \<and> (\<exists>host rawPort port. net_SplitHostPort (gr_Addr (cf_GRPC c)) = Some (host, rawPort) \<and> parse_uint 16 rawPort = Some port \<and> 0 < port)"
    if "gr_Enabled (cf_GRPC c)"
    using grpc_accepted [OF s(4,9) that] .
  have hooks: "pc_Enabled (cf_Postgres c) \<and> trim_space (pc_DSN (cf_Postgres c)) \<noteq> '''' \<and> 1 \<le> jc_MaxWorkers (cf_Jobs c)
      \<and> jc_MaxWorkers (cf_Jobs c) \<le> 500 \<and> ow_Endpoints (cf_OutboundWebhooks c) \<noteq> ''''" if "ow_Enabled (cf_OutboundWebhooks c)"
    using s(12-14) that by (auto simp: validateOutboundWebhooks_def validatePostgres_def validateJobs_def first_error_None split: if_splits)
  have inbound: "(iw_Endpoints (cf_InboundWebhooks c) = '''') = (iw_StaticSecrets (cf_InboundWebhooks c) = '''')"
    "\<exists>es. ParseEndpoints unmarshal (iw_Endpoints (cf_InboundWebhooks c)) = Inr es"
    using s(15) by (auto simp: validateInboundWebhooks_def validateInboundWebhookEndpoints_def first_error_None split: sum.splits)
  have ratios: "\<exists>q. ru_MemoryLimitRatio (cf_Runtime c) = FNum q \<and> 0 \<le> q \<and> q \<le> 1"
    "\<exists>q. ob_TracesSamplerArg (cf_Observability c) = FNum q \<and> 0 \<le> q \<and> q \<le> 1"
    using s(7,11)
    by (auto simp: validateRuntimeConfig_def validateObservabilityConfig_def ValidateTracesSampler_def ratio_None Let_def split: if_splits)
  have "0 < ht_RequestTimeout (cf_HTTP c)" using h(9) by (simp add: millisecond_def)
  then show ?thesis using h(4,6,7,8,10,16) inflight grpc hooks inbound ratios by blast
qed

section \<open>An example snapshot\<close>

definition example_http_config :: HTTPConfig where
  "example_http_config =
     \<lparr>ht_Addr = '':8080'', ht_GracePeriod = 45 * second, ht_ShutdownTimeout = 25 * second, ht_ReadinessTimeout = 4 * second,
      ht_ReadinessPropagationDelay = 15 * second, ht_ReadHeaderTimeout = 5 * second, ht_ReadTimeout = 5 * second, ht_RequestTimeout = 8 * second,
      ht_WriteTimeout = 10 * second, ht_IdleTimeout = 60 * second, ht_MaxHeaderBytes = 16384, ht_MaxBodyBytes = 1048576, ht_MaxInFlight = 256,
      ht_MaxConnections = 4096, ht_AccessLogHealthProbes = False\<rparr>"

definition example_config :: Config where
  "example_config =
     \<lparr>cf_App = \<lparr>ac_Env = ''local'', ac_Version = ''dev'', ac_Commit = ''unknown'', ac_InstanceID = ''''\<rparr>, cf_HTTP = example_http_config,
      cf_Authn = \<lparr>au_Issuer = ''https://idp.example'', au_Audience = ''a'', au_TokenProfile = ''rfc9068'', au_IntrospectionEndpoint = '''',
        au_IntrospectionTargetClass = '''', au_IntrospectionPrivateHostSuffix = '''', au_IntrospectionClientID = '''', au_IntrospectionClientSecret = ''''\<rparr>,
      cf_GRPC = \<lparr>gr_Enabled = False, gr_Addr = '''', gr_TransportSecurity = '''', gr_CertFile = '''', gr_KeyFile = '''', gr_ClientCAFile = ''''\<rparr>,
      cf_Health = \<lparr>he_RefreshInterval = 2 * second, he_FailureThreshold = 3\<rparr>,
      cf_Messaging = \<lparr>mc_URLs = '''', mc_CredentialsFile = '''', mc_RootCAFile = '''', mc_AllowPlaintext = False, mc_AllowUnauthenticated = False,
        mc_Stream = '''', mc_MaxPayloadBytes = 262144\<rparr>,
      cf_Observability = \<lparr>ob_MetricsAddr = '''', ob_PprofEnabled = False, ob_ServiceName = ''service'', ob_TracesSampler = '''',
        ob_TracesSamplerArg = FNum 0, ob_OTLPEndpoint = '''', ob_OTLPMetricsEndpoint = '''', ob_OTLPHeaders = ''''\<rparr>,
      cf_Runtime = \<lparr>ru_MemoryLimitRatio = FNum 1\<rparr>, cf_Postgres = \<lparr>pc_Enabled = False, pc_DSN = '''', pc_MaxOpenConns = 4\<rparr>,
      cf_HTTPIdempotency = \<lparr>hi_Retention = 0\<rparr>, cf_Jobs = \<lparr>jc_MaxWorkers = 0\<rparr>,
      cf_OutboundWebhooks = \<lparr>ow_Enabled = False, ow_Endpoints = '''', ow_StaticSecrets = ''''\<rparr>,
      cf_InboundWebhooks = \<lparr>iw_Endpoints = '''', iw_StaticSecrets = ''''\<rparr>,
      cf_ObjectStorage = \<lparr>oc_Provider = ''cloudflare_r2'', oc_Endpoint = '''', oc_Region = '''', oc_Bucket = ''b'', oc_ExpectedBucketOwner = '''',
        oc_CredentialSource = ''static'', oc_MaxObjectBytes = 1\<rparr>\<rparr>"

lemma example_lower_laws: "lower_laws example_netlib"
  by (simp add: lower_laws_def example_netlib_def)

lemma example_issuer: "ValidIssuerURL example_netlib ''https://idp.example''"
  by (simp add: ValidIssuerURL_def validHTTPSTarget_def HTTPSTarget_def example_netlib_def example_target_def zero_url_def trim_ascii
      u_Hostname_def splitHostPort_def equal_fold_def is_digit_def)

lemma example_http_accepted: "validateHTTPConfig example_http_config = Inr example_http_config"
  by (simp add: validateHTTPConfig_def example_http_config_def section_defs httpTerminalResponseReserve_def first_error_None dur_simps
      trim_ascii wrap64_small Let_def)

lemma example_sections:
  "\<exists>a. validateAppConfig (cf_App example_config) = Inr a" "cf_HTTP example_config = example_http_config"
  "\<exists>u. validateAuthnConfig example_netlib (cf_Authn example_config) = Inr u" "\<exists>b. validateObjectStorage (cf_ObjectStorage example_config) = Inr b"
  "\<exists>w. validateObservabilityConfig example_netlib (cf_Observability example_config) = Inr w"
  subgoal by (simp add: validateAppConfig_def example_config_def trim_ascii Let_def)
  subgoal by (simp add: example_config_def)
  subgoal using example_issuer
    by (simp add: validateAuthnConfig_def example_config_def trim_ascii introspectionConfigured_def ValidTokenProfile_def
        TokenProfileRFC9068_def example_netlib_def Let_def)
  subgoal by (simp add: validateObjectStorage_def example_config_def trim_ascii Let_def)
  subgoal by (simp add: validateObservabilityConfig_def example_config_def trim_ascii ValidateTracesSampler_def TracesSamplerOrDefault_def
        example_netlib_def DefaultTracesSampler_def SamplerParentBasedTraceIDRatio_def SamplerAlwaysOn_def SamplerAlwaysOff_def
        SamplerTraceIDRatio_def unit_ratio_def Let_def)
  done

lemma example_accepted_config: "\<exists>c. config_validate example_netlib (\<lambda>_. None) example_config = Inr c"
proof -
  have "cf_GRPC example_config = \<lparr>gr_Enabled = False, gr_Addr = '''', gr_TransportSecurity = '''', gr_CertFile = '''', gr_KeyFile = '''',
      gr_ClientCAFile = ''''\<rparr>" by (simp add: example_config_def)
  then have grpc: "\<exists>g. validateGRPCConfig example_netlib (cf_GRPC example_config) = Inr g \<and> validateAuthnGRPCCompatibility g = None"
    by (simp add: validateGRPCConfig_def validateAuthnGRPCCompatibility_def Let_def)
  have messaging: "\<exists>m. validateMessagingConfig example_netlib (cf_Messaging example_config) = Inr m"
    by (simp add: validateMessagingConfig_def example_config_def Let_def)
  have "validateAuthnHTTPCompatibility example_http_config = None"
    by (simp add: validateAuthnHTTPCompatibility_def example_http_config_def)
  moreover have "validateHealthConfig (cf_Health example_config) = None" "validateRuntimeConfig (cf_Runtime example_config) = None"
    "validatePostgres (cf_Postgres example_config) = None" "validateJobs (cf_Jobs example_config) (cf_Postgres example_config) = None"
    "validateOutboundWebhooks (cf_OutboundWebhooks example_config) (cf_Postgres example_config) (cf_Jobs example_config) = None"
    "validateInboundWebhooks (\<lambda>_. None) (cf_InboundWebhooks example_config) = None"
    by (simp_all add: example_config_def section_defs first_error_None unit_ratio_def validateInboundWebhookEndpoints_def ParseEndpoints_def
        dur_simps)
  ultimately show ?thesis using example_sections grpc messaging example_http_accepted by (auto simp: config_validate_def)
qed

lemma accepted_snapshot_is_canonical_witness:
  "\<exists>c. config_validate example_netlib (\<lambda>_. None) c = Inr c
     \<and> oidc_NewPolicy example_netlib (jwt_policy_of (cf_Authn c)) = Inr (jwt_policy_of (cf_Authn c))"
  using example_accepted_config accepted_snapshot_is_canonical [OF example_lower_laws] by blast

lemma accepted_snapshot_is_sound_witness:
  "\<exists>c. config_validate example_netlib (\<lambda>_. None) example_config = Inr c \<and> ht_ShutdownTimeout (cf_HTTP c) \<le> ht_GracePeriod (cf_HTTP c)"
  using example_accepted_config accepted_snapshot_is_sound by blast

end
