(* ===== verification/ConfigLoad.thy ===== *)
theory ConfigLoad
  imports Config "HOL-Library.List_Lexorder" "HOL-Library.AList"
begin

text \<open>
  Package \<^verbatim>\<open>internal/config\<close>: how a snapshot is loaded. The stages of \<^verbatim>\<open>config.go\<close> and \<^verbatim>\<open>load_koanf.go\<close>, files
  (\<^verbatim>\<open>load_file.go\<close>), the environment (\<^verbatim>\<open>load_environment.go\<close>), the rule that files carry no secrets (\<^verbatim>\<open>secret_policy.go\<close>), scalars
  written where a section belongs (\<^verbatim>\<open>schema.go\<close>), the conversion of values (\<^verbatim>\<open>parse.go\<close>, \<^verbatim>\<open>snapshot.go\<close>), and the
  classes of errors (\<^verbatim>\<open>errors.go\<close>).

  The store that merges the sources, \<^verbatim>\<open>koanf\<close>, is \<open>koanf\<close>, a record of its operations; the number formats of \<^verbatim>\<open>strconv\<close> and
  \<^verbatim>\<open>time\<close> for floats and durations are those of \<open>numlib\<close>. Contexts are the answers they give when asked.
\<close>

section \<open>Errors\<close>

abbreviation ErrLoad :: go_error where "ErrLoad \<equiv> Sentinel ''config.ErrLoad''"
abbreviation ErrParse :: go_error where "ErrParse \<equiv> Sentinel ''config.ErrParse''"
abbreviation ErrUnknownKey :: go_error where "ErrUnknownKey \<equiv> Sentinel ''config.ErrUnknownKey''"

definition config_ErrorType :: "go_error option \<Rightarrow> string" where
  "config_ErrorType err =
     (case err of
        None \<Rightarrow> ''''
      | Some e \<Rightarrow>
          if errors_is e ErrUnknownKey then ''unknown_key'' else if errors_is e ErrSecretPolicy then ''secret_policy''
          else if errors_is e ErrValidate then ''validate'' else if errors_is e ErrParse then ''parse''
          else if errors_is e ErrLoad then ''load'' else ''unknown'')"

text \<open>A context is nil or answers with its error; the argument is that answer.\<close>

definition checkContextWithError :: "ctx_state option \<Rightarrow> go_error \<Rightarrow> go_error option" where
  "checkContextWithError ctx classification =
     (case ctx of
        None \<Rightarrow> Some (WrapFmt ''nil context'' classification)
      | Some st \<Rightarrow> map_option (errorf2 '''' classification) (ctx_error st))"

definition checkLoadContext :: "ctx_state option \<Rightarrow> go_error option" where
  "checkLoadContext ctx = checkContextWithError ctx ErrLoad"

definition checkValidateContext :: "ctx_state option \<Rightarrow> go_error option" where
  "checkValidateContext ctx = checkContextWithError ctx ErrValidate"

section \<open>Values\<close>

datatype any = AnyNil | AnyInt int | AnyInt64 int | AnyUint64 int | AnyFloat float64 | AnyBool bool | AnyString string | AnyOther string

record numlib =
  nm_float_of_int :: "int \<Rightarrow> float64"
  nm_ParseFloat :: "string \<Rightarrow> float64 option"
  nm_ParseDuration :: "string \<Rightarrow> duration option"
  nm_Level :: "string \<Rightarrow> int option"
  nm_Sprint :: "any \<Rightarrow> string"

definition maxExactIntegerFloat64 :: int where "maxExactIntegerFloat64 = 2 ^ 53"

definition sanitizedDurationParseDetail :: "string \<Rightarrow> string" where
  "sanitizedDurationParseDetail raw =
     (if \<not> list_ex (\<lambda>r. r \<in> set (map of_char ''hmsun'' @ [0xB5, 0x3BC])) (runes raw) then ''missing duration unit''
      else ''invalid duration syntax'')"

definition parseDuration :: "numlib \<Rightarrow> string \<Rightarrow> go_error + duration" where
  "parseDuration nm raw =
     (case nm_ParseDuration nm raw of None \<Rightarrow> Inl (Fresh (sanitizedDurationParseDetail raw)) | Some d \<Rightarrow> Inr d)"

definition signedIntegerBounds :: "int \<Rightarrow> go_error + int \<times> int" where
  "signedIntegerBounds bitSize =
     (if bitSize \<le> 0 \<or> 64 < bitSize then Inl (Fresh ''unsupported integer bit size'')
      else Inr (- (2 ^ nat (bitSize - 1)), 2 ^ nat (bitSize - 1) - 1))"

definition out_of_range :: go_error where "out_of_range = Fresh ''integer out of range''"

definition signedIntegerFromInt64 :: "int \<Rightarrow> int \<Rightarrow> int \<Rightarrow> go_error + int" where
  "signedIntegerFromInt64 v lo hi = (if v < lo \<or> hi < v then Inl out_of_range else Inr v)"

definition signedIntegerFromUint64 :: "int \<Rightarrow> int \<Rightarrow> go_error + int" where
  "signedIntegerFromUint64 v hi = (if hi < 0 \<or> 2 ^ 63 - 1 < v then Inl out_of_range else if hi < v then Inl out_of_range else Inr v)"

text \<open>The bounds are compared as floats. A value of at most \<open>2 ^ 53\<close> compares with the rounded bound as with the bound.\<close>

definition signedIntegerFromFloat64 :: "float64 \<Rightarrow> int \<Rightarrow> int \<Rightarrow> go_error + int" where
  "signedIntegerFromFloat64 v lo hi =
     (case v of
        FNum q \<Rightarrow>
          if rat_of_int \<lfloor>q\<rfloor> \<noteq> q then Inl (Fresh ''non-integer numeric value'')
          else if rat_of_int maxExactIntegerFloat64 < \<bar>q\<bar> then Inl out_of_range
          else if q < rat_of_int lo \<or> rat_of_int hi < q then Inl out_of_range
          else Inr \<lfloor>q\<rfloor>
      | _ \<Rightarrow> Inl (Fresh ''non-finite numeric value''))"

definition parseSignedInteger :: "any \<Rightarrow> int \<Rightarrow> go_error + int" where
  "parseSignedInteger v bitSize =
     and_then (signedIntegerBounds bitSize) (\<lambda>(lo, hi).
       case v of
         AnyInt n \<Rightarrow> signedIntegerFromInt64 n lo hi
       | AnyInt64 n \<Rightarrow> signedIntegerFromInt64 n lo hi
       | AnyUint64 n \<Rightarrow> signedIntegerFromUint64 n hi
       | AnyFloat x \<Rightarrow> signedIntegerFromFloat64 x lo hi
       | AnyString s \<Rightarrow>
           (case parse_int (nat bitSize) (trim_space s) of None \<Rightarrow> Inl (Fresh ''invalid integer format'') | Some n \<Rightarrow> Inr n)
       | _ \<Rightarrow> Inl (Fresh ''unsupported type''))"

definition isFiniteFloat64 :: "float64 \<Rightarrow> bool" where
  "isFiniteFloat64 v = (case v of FNum _ \<Rightarrow> True | _ \<Rightarrow> False)"

definition parseFloat64 :: "numlib \<Rightarrow> any \<Rightarrow> go_error + float64" where
  "parseFloat64 nm v =
     and_then
       (case v of
          AnyFloat x \<Rightarrow> Inr x
        | AnyInt n \<Rightarrow> Inr (nm_float_of_int nm n)
        | AnyInt64 n \<Rightarrow> Inr (nm_float_of_int nm n)
        | AnyUint64 n \<Rightarrow> Inr (nm_float_of_int nm n)
        | AnyString s \<Rightarrow> (case nm_ParseFloat nm (trim_space s) of None \<Rightarrow> Inl (Fresh ''invalid float format'') | Some x \<Rightarrow> Inr x)
        | _ \<Rightarrow> Inl (Fresh ''unsupported type''))
       (\<lambda>x. if \<not> isFiniteFloat64 x then Inl (Fresh ''non-finite numeric value'') else Inr x)"

text \<open>\<^verbatim>\<open>strconv.ParseBool\<close>.\<close>

definition strconv_ParseBool :: "string \<Rightarrow> bool option" where
  "strconv_ParseBool s =
     (if s \<in> set [''1'', ''t'', ''T'', ''TRUE'', ''true'', ''True''] then Some True
      else if s \<in> set [''0'', ''f'', ''F'', ''FALSE'', ''false'', ''False''] then Some False else None)"

definition parseBool :: "any \<Rightarrow> go_error + bool" where
  "parseBool v =
     (case v of
        AnyBool b \<Rightarrow> Inr b
      | AnyString s \<Rightarrow> (case strconv_ParseBool (trim_space s) of None \<Rightarrow> Inl (Fresh ''invalid boolean format'') | Some b \<Rightarrow> Inr b)
      | _ \<Rightarrow> Inl (Fresh ''unsupported type''))"

datatype target_type = DurationType | LogLevelType | IntKind int | Float64Kind | BoolKind | OtherKind

datatype decoded = DecDuration duration | DecLevel int | DecInt int | DecFloat float64 | DecBool bool | DecAny any

definition decode_failure :: "go_error \<Rightarrow> go_error" where
  "decode_failure err = (case err of Fresh detail \<Rightarrow> Typed ''*config.configValueDecodeError'' detail | _ \<Rightarrow> err)"

definition decodeConfigValue :: "numlib \<Rightarrow> target_type \<Rightarrow> any \<Rightarrow> go_error + decoded" where
  "decodeConfigValue nm t v =
     (case t of
        DurationType \<Rightarrow>
          (case v of
             AnyString raw \<Rightarrow>
               if trim_space raw = '''' then Inl (decode_failure (Fresh ''duration is empty''))
               else (case parseDuration nm (trim_space raw) of Inl err \<Rightarrow> Inl (decode_failure err) | Inr d \<Rightarrow> Inr (DecDuration d))
           | _ \<Rightarrow> Inl (decode_failure (Fresh ''duration must be a string with a unit'')))
      | LogLevelType \<Rightarrow>
          (case v of
             AnyString raw \<Rightarrow>
               if trim_space raw = '''' then Inl (decode_failure (Fresh ''log level is empty''))
               else (case nm_Level nm (trim_space raw) of None \<Rightarrow> Inl (decode_failure (Fresh ''invalid log level'')) | Some l \<Rightarrow> Inr (DecLevel l))
           | _ \<Rightarrow> Inl (decode_failure (Fresh ''log level must be a string'')))
      | IntKind bits \<Rightarrow> (case parseSignedInteger v bits of Inl err \<Rightarrow> Inl (decode_failure err) | Inr n \<Rightarrow> Inr (DecInt n))
      | Float64Kind \<Rightarrow> (case parseFloat64 nm v of Inl err \<Rightarrow> Inl (decode_failure err) | Inr x \<Rightarrow> Inr (DecFloat x))
      | BoolKind \<Rightarrow> (case parseBool v of Inl err \<Rightarrow> Inl (decode_failure err) | Inr b \<Rightarrow> Inr (DecBool b))
      | OtherKind \<Rightarrow> Inr (DecAny v))"

section \<open>Keys\<close>

definition has_prefix :: "string \<Rightarrow> string \<Rightarrow> bool" where "has_prefix s p = (take (length p) s = p)"

definition expand_unused :: "string list \<Rightarrow> string \<Rightarrow> string list" where
  "expand_unused leaves unused =
     (let found = filter (\<lambda>k. k = unused \<or> has_prefix k (unused @ ''.'')) leaves in if found = [] then [unused] else found)"

definition expandUnusedConfigKeys :: "string list \<Rightarrow> string list \<Rightarrow> string list" where
  "expandUnusedConfigKeys unusedKeys sourceLeafKeys = concat (map (expand_unused sourceLeafKeys) unusedKeys)"

definition normalizeUnknownKeys :: "string list \<Rightarrow> string list" where
  "normalizeUnknownKeys keys = sort_key (map (of_char :: char \<Rightarrow> nat)) (remdups (filter (\<lambda>k. k \<noteq> '''') (map trim_space keys)))"

text \<open>\<^verbatim>\<open>strings.FieldsFunc\<close> on the three separators.\<close>

definition configKeySegments :: "string \<Rightarrow> string list" where
  "configKeySegments key =
     filter (\<lambda>p. p \<noteq> '''') (concat (map (split_on (CHR ''_'')) (concat (map (split_on (CHR ''-'')) (split_on (CHR ''.'') key)))))"

fun secret_segment :: "string option \<Rightarrow> string list \<Rightarrow> bool" where
  "secret_segment before [] = False"
| "secret_segment before (s # rest) =
     (s \<in> set [''password'', ''secret'', ''secrets'', ''authorization'', ''dsn'']
      \<or> s = ''token'' \<and> (rest = [] \<or> hd rest \<notin> set [''profile'', ''url''])
      \<or> s = ''key'' \<and> (before = Some ''api'' \<or> before = Some ''private'')
      \<or> s = ''headers'' \<and> before = Some ''otlp''
      \<or> secret_segment (Some s) rest)"

definition isSecretLikeConfigKey :: "netlib \<Rightarrow> string \<Rightarrow> bool" where
  "isSecretLikeConfigKey nl key = secret_segment None (configKeySegments (nl_ToLower nl (trim_space key)))"

definition hasNonEmptyConfigValue :: "numlib \<Rightarrow> any \<Rightarrow> bool" where
  "hasNonEmptyConfigValue nm v =
     (case v of AnyNil \<Rightarrow> False | AnyString s \<Rightarrow> trim_space s \<noteq> '''' | _ \<Rightarrow> trim_space (nm_Sprint nm v) \<noteq> '''')"

text \<open>\<open>leaves\<close> are the leaf keys of one file with their values.\<close>

fun secret_policy_loop :: "netlib \<Rightarrow> numlib \<Rightarrow> (string \<rightharpoonup> any) \<Rightarrow> string list \<Rightarrow> go_error option" where
  "secret_policy_loop nl nm leaf [] = None"
| "secret_policy_loop nl nm leaf (key # rest) =
     (if \<not> isSecretLikeConfigKey nl key then secret_policy_loop nl nm leaf rest
      else if hasNonEmptyConfigValue nm (case leaf key of None \<Rightarrow> AnyNil | Some v \<Rightarrow> v)
      then Some (WrapFmt ''secret-like key is not allowed in config file'' ErrSecretPolicy)
      else secret_policy_loop nl nm leaf rest)"

definition enforceSecretSourcePolicy :: "netlib \<Rightarrow> numlib \<Rightarrow> (string \<times> any) list \<Rightarrow> go_error option" where
  "enforceSecretSourcePolicy nl nm leaves =
     secret_policy_loop nl nm (map_of leaves) (sort_key (map (of_char :: char \<Rightarrow> nat)) (map fst leaves))"

section \<open>The environment\<close>

definition envPrefix :: string where "envPrefix = ''APP__''"

text \<open>\<^verbatim>\<open>strings.Split\<close> with the two-character separator.\<close>

fun split_double :: "string \<Rightarrow> string list" where
  "split_double [] = ['''']"
| "split_double [c] = [[c]]"
| "split_double (c # d # s) =
     (if c = CHR ''_'' \<and> d = CHR ''_'' then '''' # split_double s
      else (case split_double (d # s) of [] \<Rightarrow> [[c]] | p # ps \<Rightarrow> (c # p) # ps))"

definition environmentKeyToConfigKey :: "netlib \<Rightarrow> string \<Rightarrow> string" where
  "environmentKeyToConfigKey nl envKey =
     (let trimmed = drop (length envPrefix) envKey; parts = map trim_space (split_double trimmed)
      in if trimmed = '''' then '''' else if '''' \<in> set parts then '''' else str_join ''.'' (map (nl_ToLower nl) parts))"

definition cut_equals :: "string \<Rightarrow> (string \<times> string) option" where
  "cut_equals ent =
     (if CHR ''='' \<notin> set ent then None
      else let k = takeWhile (\<lambda>c. c \<noteq> CHR ''='') ent in Some (k, drop (length k + 1) ent))"

fun collect_entry :: "netlib \<Rightarrow> string \<Rightarrow> (string \<times> string) list \<times> string list \<Rightarrow> (string \<times> string) list \<times> string list" where
  "collect_entry nl ent (vals, malformed) =
     (case cut_equals ent of
        None \<Rightarrow> (vals, malformed)
      | Some (envKey, envValue) \<Rightarrow>
          if \<not> has_prefix envKey envPrefix then (vals, malformed)
          else let targetKey = environmentKeyToConfigKey nl envKey
               in if targetKey = '''' then (vals, malformed @ [envKey]) else (AList.update targetKey envValue vals, malformed))"

definition collectEnvironmentValues :: "netlib \<Rightarrow> string list \<Rightarrow> (string \<times> string) list \<times> string list" where
  "collectEnvironmentValues nl environ = fold (collect_entry nl) environ ([], [])"

section \<open>Scalars in the place of a section\<close>

datatype tree = Leaf any | Node "(string \<times> tree) list"

text \<open>Go types as reflection shows them: a struct is its fields with their \<^verbatim>\<open>koanf\<close> tags.\<close>

datatype gotype = Struct "(string \<times> gotype) list" | Pointer gotype | Scalar target_type

definition full_key :: "string \<Rightarrow> string \<Rightarrow> string" where
  "full_key prefix key = (if prefix = '''' then key else prefix @ ''.'' @ key)"

fun type_elem :: "gotype \<Rightarrow> gotype" where
  "type_elem (Pointer t) = type_elem t"
| "type_elem t = t"

definition configSchemaHasTaggedFields :: "gotype \<Rightarrow> bool" where
  "configSchemaHasTaggedFields t = (case type_elem t of Struct fs \<Rightarrow> list_ex (\<lambda>(tag, _). trim_space tag \<noteq> '''') fs | _ \<Rightarrow> False)"

fun configSchemaSections :: "gotype \<Rightarrow> string \<Rightarrow> string list" where
  "configSchemaSections (Pointer t) prefix = configSchemaSections t prefix"
| "configSchemaSections (Scalar _) prefix = []"
| "configSchemaSections (Struct []) prefix = []"
| "configSchemaSections (Struct ((rawTag, t) # fs)) prefix =
     (let tag = trim_space rawTag; key = full_key prefix tag
      in if tag = '''' \<or> tag = ''-'' then configSchemaSections (Struct fs) prefix
         else (if configSchemaHasTaggedFields t then key # configSchemaSections t key else [])
              @ configSchemaSections (Struct fs) prefix)"

text \<open>The leaf keys of a type, with the types of their fields.\<close>

fun schema_leaves :: "gotype \<Rightarrow> string \<Rightarrow> (string \<times> target_type) list" where
  "schema_leaves (Pointer t) prefix = schema_leaves t prefix"
| "schema_leaves (Scalar k) prefix = [(prefix, k)]"
| "schema_leaves (Struct []) prefix = []"
| "schema_leaves (Struct ((tag, t) # fs)) prefix = schema_leaves t (full_key prefix tag) @ schema_leaves (Struct fs) prefix"

abbreviation str_field :: "string \<Rightarrow> string \<times> gotype" where "str_field tag \<equiv> (tag, Scalar OtherKind)"
abbreviation bool_field :: "string \<Rightarrow> string \<times> gotype" where "bool_field tag \<equiv> (tag, Scalar BoolKind)"
abbreviation int_field :: "string \<Rightarrow> string \<times> gotype" where "int_field tag \<equiv> (tag, Scalar (IntKind 64))"
abbreviation dur_field :: "string \<Rightarrow> string \<times> gotype" where "dur_field tag \<equiv> (tag, Scalar DurationType)"
abbreviation float_field :: "string \<Rightarrow> string \<times> gotype" where "float_field tag \<equiv> (tag, Scalar Float64Kind)"

definition HTTPConfig_type :: gotype where
  "HTTPConfig_type = Struct
     [str_field ''addr'', dur_field ''grace_period'', dur_field ''shutdown_timeout'', dur_field ''readiness_timeout'',
      dur_field ''readiness_propagation_delay'', dur_field ''read_header_timeout'', dur_field ''read_timeout'', dur_field ''request_timeout'',
      dur_field ''write_timeout'', dur_field ''idle_timeout'', int_field ''max_header_bytes'', int_field ''max_body_bytes'',
      int_field ''max_in_flight'', int_field ''max_connections'', bool_field ''access_log_health_probes'']"

definition AuthnConfig_type :: gotype where
  "AuthnConfig_type = Struct
     [str_field ''issuer'', str_field ''audience'', str_field ''token_profile'', str_field ''introspection_endpoint'',
      str_field ''introspection_target_class'', str_field ''introspection_private_host_suffix'', str_field ''introspection_client_id'',
      str_field ''introspection_client_secret'']"

definition GRPCConfig_type :: gotype where
  "GRPCConfig_type = Struct
     [(''server'', Struct
         [bool_field ''enabled'', str_field ''addr'', str_field ''transport_security'',
          (''tls'', Struct [str_field ''cert_file'', str_field ''key_file'', str_field ''client_ca_file''])])]"

definition MessagingConfig_type :: gotype where
  "MessagingConfig_type = Struct
     [str_field ''urls'', str_field ''credentials_file'', str_field ''root_ca_file'', bool_field ''allow_plaintext'',
      bool_field ''allow_unauthenticated'', str_field ''stream'', int_field ''max_payload_bytes'',
      (''worker'', Struct [str_field ''consumer'', str_field ''filter_subject'', str_field ''dead_letter_subject'', int_field ''max_concurrency''])]"

definition ObservabilityConfig_type :: gotype where
  "ObservabilityConfig_type = Struct
     [(''metrics'', Struct [str_field ''addr'']), (''pprof'', Struct [bool_field ''enabled'']),
      (''otel'', Struct
         [str_field ''service_name'', str_field ''traces_sampler'', float_field ''traces_sampler_arg'',
          (''exporter'', Struct [str_field ''otlp_endpoint'', str_field ''otlp_metrics_endpoint'', str_field ''otlp_headers''])])]"

definition Config_type :: gotype where
  "Config_type = Struct
     [(''app'', Struct [str_field ''env'', str_field ''version'', str_field ''commit'', str_field ''instance_id'']),
      (''http'', HTTPConfig_type), (''authn'', AuthnConfig_type), (''grpc'', GRPCConfig_type),
      (''health'', Struct [dur_field ''refresh_interval'', int_field ''failure_threshold'']),
      (''log'', Struct [(''level'', Scalar LogLevelType)]), (''messaging'', MessagingConfig_type),
      (''observability'', ObservabilityConfig_type), (''runtime'', Struct [float_field ''memory_limit_ratio'']),
      (''postgres'', Struct [bool_field ''enabled'', str_field ''dsn'', int_field ''max_open_conns'']),
      (''http_idempotency'', Struct [dur_field ''retention'']), (''jobs'', Struct [int_field ''max_workers'']),
      (''webhooks'', Struct [bool_field ''enabled'', str_field ''endpoints'', str_field ''static_secrets'']),
      (''inbound_webhooks'', Struct [str_field ''endpoints'', str_field ''static_secrets'']),
      (''object_storage'', Struct
         [str_field ''provider'', str_field ''endpoint'', str_field ''region'', str_field ''bucket'', str_field ''expected_bucket_owner'',
          str_field ''credential_source'', int_field ''max_object_bytes''])]"

definition knownConfigSections :: "string list" where
  "knownConfigSections = configSchemaSections Config_type ''''"

section \<open>Defaults\<close>

type_synonym default_map = "(string \<times> any) list"

definition httpDefaults :: default_map where
  "httpDefaults =
     [(''http.addr'', AnyString '':8080''), (''http.grace_period'', AnyString ''45s''), (''http.shutdown_timeout'', AnyString ''25s''),
      (''http.readiness_timeout'', AnyString ''4s''), (''http.readiness_propagation_delay'', AnyString ''15s''),
      (''http.read_header_timeout'', AnyString ''5s''), (''http.read_timeout'', AnyString ''5s''), (''http.request_timeout'', AnyString ''8s''),
      (''http.write_timeout'', AnyString ''10s''), (''http.idle_timeout'', AnyString ''60s''), (''http.max_header_bytes'', AnyInt 16384),
      (''http.max_body_bytes'', AnyInt64 1048576), (''http.max_in_flight'', AnyInt 256), (''http.max_connections'', AnyInt 4096),
      (''http.access_log_health_probes'', AnyBool False)]"

definition observabilityDefaults :: default_map where
  "observabilityDefaults =
     [(''observability.metrics.addr'', AnyString '':9090''), (''observability.pprof.enabled'', AnyBool False),
      (''observability.otel.service_name'', AnyString ''service''), (''observability.otel.traces_sampler'', AnyString DefaultTracesSampler),
      (''observability.otel.traces_sampler_arg'', AnyFloat (FNum (1 / 10))), (''observability.otel.exporter.otlp_endpoint'', AnyString ''''),
      (''observability.otel.exporter.otlp_metrics_endpoint'', AnyString ''''), (''observability.otel.exporter.otlp_headers'', AnyString '''')]"

definition authnDefaults :: default_map where
  "authnDefaults =
     [(''authn.issuer'', AnyString ''''), (''authn.audience'', AnyString ''''), (''authn.token_profile'', AnyString TokenProfileResourceServer),
      (''authn.introspection_endpoint'', AnyString ''''), (''authn.introspection_target_class'', AnyString ''''),
      (''authn.introspection_private_host_suffix'', AnyString ''''), (''authn.introspection_client_id'', AnyString ''''),
      (''authn.introspection_client_secret'', AnyString '''')]"

definition grpcDefaults :: default_map where
  "grpcDefaults =
     [(''grpc.server.enabled'', AnyBool False), (''grpc.server.addr'', AnyString ''''), (''grpc.server.transport_security'', AnyString ''''),
      (''grpc.server.tls.cert_file'', AnyString ''''), (''grpc.server.tls.key_file'', AnyString ''''),
      (''grpc.server.tls.client_ca_file'', AnyString '''')]"

definition messagingDefaults :: default_map where
  "messagingDefaults =
     [(''messaging.urls'', AnyString ''''), (''messaging.credentials_file'', AnyString ''''), (''messaging.root_ca_file'', AnyString ''''),
      (''messaging.allow_plaintext'', AnyBool False), (''messaging.allow_unauthenticated'', AnyBool False), (''messaging.stream'', AnyString ''''),
      (''messaging.max_payload_bytes'', AnyInt 262144), (''messaging.worker.consumer'', AnyString ''''),
      (''messaging.worker.filter_subject'', AnyString ''''), (''messaging.worker.dead_letter_subject'', AnyString ''''),
      (''messaging.worker.max_concurrency'', AnyInt 8)]"

definition postgresDefaults :: default_map where
  "postgresDefaults = [(''postgres.enabled'', AnyBool False), (''postgres.dsn'', AnyString ''''), (''postgres.max_open_conns'', AnyInt 4)]"

definition jobsDefaults :: default_map where
  "jobsDefaults = [(''jobs.max_workers'', AnyInt 0)]"

definition outboundWebhooksDefaults :: default_map where
  "outboundWebhooksDefaults =
     [(''webhooks.enabled'', AnyBool False), (''webhooks.endpoints'', AnyString ''''), (''webhooks.static_secrets'', AnyString '''')]"

definition inboundWebhooksDefaults :: default_map where
  "inboundWebhooksDefaults = [(''inbound_webhooks.endpoints'', AnyString ''''), (''inbound_webhooks.static_secrets'', AnyString '''')]"

definition objectStorageDefaults :: default_map where
  "objectStorageDefaults =
     [(''object_storage.provider'', AnyString ''''), (''object_storage.endpoint'', AnyString ''''), (''object_storage.region'', AnyString ''''),
      (''object_storage.bucket'', AnyString ''''), (''object_storage.expected_bucket_owner'', AnyString ''''),
      (''object_storage.credential_source'', AnyString ''''), (''object_storage.max_object_bytes'', AnyInt 0)]"

text \<open>The arguments are what the linker stamps. The keys of the sections are distinct, so copying is appending.\<close>

definition defaultValues :: "string \<Rightarrow> string \<Rightarrow> default_map" where
  "defaultValues buildVersion buildCommit =
     [(''app.env'', AnyString ''local''), (''app.version'', AnyString buildVersion), (''app.commit'', AnyString buildCommit),
      (''app.instance_id'', AnyString ''''), (''health.refresh_interval'', AnyString ''2s''), (''health.failure_threshold'', AnyInt 3),
      (''log.level'', AnyString ''info''), (''runtime.memory_limit_ratio'', AnyFloat (FNum (9 / 10)))]
     @ httpDefaults @ observabilityDefaults @ authnDefaults @ grpcDefaults @ messagingDefaults @ postgresDefaults @ jobsDefaults
     @ outboundWebhooksDefaults @ inboundWebhooksDefaults @ objectStorageDefaults"

section \<open>Removing scalars\<close>

fun remove_overrides :: "string \<Rightarrow> (string \<times> tree) list \<Rightarrow> (string \<times> tree) list \<times> string list" where
  "remove_overrides prefix [] = ([], [])"
| "remove_overrides prefix ((key, Leaf v) # rest) =
     (case remove_overrides prefix rest of (kept, dropped) \<Rightarrow>
        if full_key prefix key \<in> set knownConfigSections then (kept, full_key prefix key # dropped) else ((key, Leaf v) # kept, dropped))"
| "remove_overrides prefix ((key, Node children) # rest) =
     (case remove_overrides prefix rest of (kept, dropped) \<Rightarrow>
        (case remove_overrides (full_key prefix key) children of (inner, lost) \<Rightarrow> ((key, Node inner) # kept, lost @ dropped)))"

definition removeSectionScalarOverridesInPlace :: "(string \<times> tree) list \<Rightarrow> (string \<times> tree) list \<times> string list" where
  "removeSectionScalarOverridesInPlace vals = remove_overrides '''' vals"

section \<open>Files\<close>

definition maxConfigFileSizeBytes :: nat where "maxConfigFileSizeBytes = 1048576"

record LoadOptions =
  lo_ConfigPath :: string
  lo_ConfigOverlays :: "string list"

definition validateLoadOptions :: "LoadOptions \<Rightarrow> go_error option" where
  "validateLoadOptions opts =
     (if lo_ConfigPath opts \<noteq> '''' \<and> trim_space (lo_ConfigPath opts) = '''' then Some (WrapFmt ''empty config path'' ErrLoad)
      else if list_ex (\<lambda>p. trim_space p = '''') (lo_ConfigOverlays opts) then Some (WrapFmt ''config overlay path is empty'' ErrLoad)
      else None)"

datatype opened = OpenFailed go_error | StatFailed go_error | Directory | FileContent "string \<times> go_error option"

text \<open>The store and the parsers: \<open>kf_Load\<close> merges a tree, \<open>kf_yaml\<close> parses a file, \<open>kf_leaves\<close> are the leaf keys of a parsed
  file with their values, \<open>kf_open\<close> is the file system with the cleaned path, and \<open>kf_Keys\<close>, \<open>kf_All\<close> and \<open>kf_Get\<close> read a store.\<close>

record 'k koanf =
  kf_New :: 'k
  kf_Load :: "(string \<times> tree) list \<Rightarrow> 'k \<Rightarrow> go_error + 'k"
  kf_yaml :: "string \<Rightarrow> go_error + (string \<times> tree) list"
  kf_leaves :: "(string \<times> tree) list \<Rightarrow> (string \<times> any) list"
  kf_open :: "string \<Rightarrow> opened"
  kf_clean :: "string \<Rightarrow> string"
  kf_Keys :: "'k \<Rightarrow> string list"
  kf_All :: "'k \<Rightarrow> (string \<times> any) list"
  kf_Get :: "'k \<Rightarrow> string \<Rightarrow> any"

definition readConfigFile :: "'k koanf \<Rightarrow> string \<Rightarrow> go_error + string" where
  "readConfigFile kf path =
     (case kf_open kf (kf_clean kf (trim_space path)) of
        OpenFailed err \<Rightarrow> Inl (errorf2 ''open config file'' ErrLoad err)
      | StatFailed err \<Rightarrow> Inl (errorf2 ''stat config file'' ErrLoad err)
      | Directory \<Rightarrow> Inl (WrapFmt ''config file is a directory'' ErrLoad)
      | FileContent body \<Rightarrow>
          (case readAll_limited (maxConfigFileSizeBytes + 1) body of
             (_, Some err) \<Rightarrow> Inl (errorf2 ''read config file'' ErrLoad err)
           | (content, None) \<Rightarrow>
               if maxConfigFileSizeBytes < length content then Inl (WrapFmt ''config file exceeds max size limit'' ErrLoad) else Inr content))"

definition mergeConfigFile ::
  "netlib \<Rightarrow> numlib \<Rightarrow> 'k koanf \<Rightarrow> ctx_state option \<Rightarrow> ctx_state option \<Rightarrow> string \<Rightarrow> 'k \<Rightarrow> go_error + ('k \<times> string list)" where
  "mergeConfigFile nl nm kf before after path k =
     (case checkLoadContext before of
        Some err \<Rightarrow> Inl err
      | None \<Rightarrow>
     and_then (readConfigFile kf path) (\<lambda>content.
       case kf_yaml kf content of
         Inl err \<Rightarrow> Inl (errorf2 ''parse config file'' ErrParse err)
       | Inr vals \<Rightarrow>
           (case enforceSecretSourcePolicy nl nm (kf_leaves kf vals) of
              Some err \<Rightarrow> Inl err
            | None \<Rightarrow>
                (case removeSectionScalarOverridesInPlace vals of (kept, dropped) \<Rightarrow>
                   and_then (if kept \<noteq> [] then (case kf_Load kf kept k of Inl err \<Rightarrow> Inl (errorf2 ''merge config file'' ErrLoad err) | Inr k' \<Rightarrow> Inr k')
                             else Inr k)
                     (\<lambda>k'. case checkLoadContext after of Some err \<Rightarrow> Inl err | None \<Rightarrow> Inr (k', dropped))))))"

section \<open>The stages\<close>

definition StageLoadDefaults :: string where "StageLoadDefaults = ''config.load.defaults''"
definition StageLoadFile :: string where "StageLoadFile = ''config.load.file''"
definition StageLoadEnv :: string where "StageLoadEnv = ''config.load.env''"
definition StageParse :: string where "StageParse = ''config.parse''"
definition StageValidate :: string where "StageValidate = ''config.validate''"

text \<open>The answers of the context at each place the code asks, for one load of the given number of files.\<close>

record ctx_answers =
  ca_start :: "ctx_state option"
  ca_defaults :: "ctx_state option"
  ca_file :: "nat \<Rightarrow> ctx_state option \<times> ctx_state option"
  ca_files :: "ctx_state option"
  ca_env :: "ctx_state option"
  ca_parse :: "ctx_state option"
  ca_validate :: "ctx_state option"

fun merge_files ::
  "netlib \<Rightarrow> numlib \<Rightarrow> 'k koanf \<Rightarrow> (nat \<Rightarrow> ctx_state option \<times> ctx_state option) \<Rightarrow> nat \<Rightarrow> string list \<Rightarrow> 'k \<Rightarrow> string list
     \<Rightarrow> go_error + ('k \<times> string list)" where
  "merge_files nl nm kf ctxs i [] k dropped = Inr (k, dropped)"
| "merge_files nl nm kf ctxs i (path # rest) k dropped =
     (case mergeConfigFile nl nm kf (fst (ctxs i)) (snd (ctxs i)) path k of
        Inl err \<Rightarrow> Inl err
      | Inr (k', ds) \<Rightarrow> merge_files nl nm kf ctxs (i + 1) rest k' (dropped @ ds))"

record loadMetadata =
  lm_sectionScalarOverrideKeys :: "string list"
  lm_malformedEnvironmentKeys :: "string list"

definition config_paths :: "LoadOptions \<Rightarrow> string list" where
  "config_paths opts = (if lo_ConfigPath opts \<noteq> '''' then [lo_ConfigPath opts] else []) @ lo_ConfigOverlays opts"

text \<open>An error comes with the stage that failed.\<close>

definition loadKoanf ::
  "netlib \<Rightarrow> numlib \<Rightarrow> 'k koanf \<Rightarrow> default_map \<Rightarrow> ctx_answers \<Rightarrow> string list \<Rightarrow> LoadOptions
     \<Rightarrow> (string \<times> go_error) + ('k \<times> loadMetadata)" where
  "loadKoanf nl nm kf defaults ctx environ opts =
     (case kf_Load kf (map (\<lambda>(k, v). (k, Leaf v)) defaults) (kf_New kf) of
        Inl err \<Rightarrow> Inl (StageLoadDefaults, errorf2 ''load defaults'' ErrLoad err)
      | Inr k0 \<Rightarrow>
     (case checkLoadContext (ca_defaults ctx) of
        Some err \<Rightarrow> Inl (StageLoadDefaults, err)
      | None \<Rightarrow>
     (case validateLoadOptions opts of
        Some err \<Rightarrow> Inl (StageLoadFile, err)
      | None \<Rightarrow>
     (case merge_files nl nm kf (ca_file ctx) 0 (config_paths opts) k0 [] of
        Inl err \<Rightarrow> Inl (StageLoadFile, err)
      | Inr (k1, dropped) \<Rightarrow>
     (case checkLoadContext (ca_files ctx) of
        Some err \<Rightarrow> Inl (StageLoadFile, err)
      | None \<Rightarrow>
     (case collectEnvironmentValues nl environ of (envValues, malformed) \<Rightarrow>
     (case removeSectionScalarOverridesInPlace (map (\<lambda>(k, v). (k, Leaf (AnyString v))) envValues) of (kept, lost) \<Rightarrow>
     (case (if kept \<noteq> [] then kf_Load kf kept k1 else Inr k1) of
        Inl err \<Rightarrow> Inl (StageLoadEnv, errorf2 ''load namespace env'' ErrLoad err)
      | Inr k2 \<Rightarrow>
     (case checkLoadContext (ca_env ctx) of
        Some err \<Rightarrow> Inl (StageLoadEnv, err)
      | None \<Rightarrow> Inr (k2, \<lparr>lm_sectionScalarOverrideKeys = dropped @ lost, lm_malformedEnvironmentKeys = malformed\<rparr>))))))))))"

text \<open>\<open>build\<close> decodes the merged values; \<open>validate\<close> is \<open>config_validate\<close> or the jobs worker's. The report is its failed stage.\<close>

definition config_load ::
  "netlib \<Rightarrow> numlib \<Rightarrow> 'k koanf \<Rightarrow> default_map \<Rightarrow> ('k \<Rightarrow> go_error + ('c \<times> string list)) \<Rightarrow> ('c \<Rightarrow> go_error + 'c)
     \<Rightarrow> ctx_answers \<Rightarrow> string list \<Rightarrow> LoadOptions \<Rightarrow> (string \<times> go_error) + 'c" where
  "config_load nl nm kf defaults build validate ctx environ opts =
     (case checkLoadContext (ca_start ctx) of
        Some err \<Rightarrow> Inl (StageLoadDefaults, err)
      | None \<Rightarrow>
     (case loadKoanf nl nm kf defaults ctx environ opts of
        Inl failed \<Rightarrow> Inl failed
      | Inr (k, metadata) \<Rightarrow>
     (case build k of
        Inl err \<Rightarrow> Inl (StageParse, err)
      | Inr (cfg, unknownKeys) \<Rightarrow>
     (case checkLoadContext (ca_parse ctx) of
        Some err \<Rightarrow> Inl (StageParse, err)
      | None \<Rightarrow>
     (case checkValidateContext (ca_validate ctx) of
        Some err \<Rightarrow> Inl (StageValidate, err)
      | None \<Rightarrow>
          (case (if normalizeUnknownKeys (unknownKeys @ lm_sectionScalarOverrideKeys metadata @ lm_malformedEnvironmentKeys metadata) \<noteq> []
                 then Inl (WrapFmt ''unknown keys'' ErrUnknownKey) else validate cfg) of
             Inl err \<Rightarrow> Inl (StageValidate, err)
           | Inr c \<Rightarrow> Inr c))))))"

section \<open>Snapshots\<close>

text \<open>\<^verbatim>\<open>mapstructure\<close> decodes a store with the hook and says which keys it did not use; the error of a value is wrapped with the name
  of the field.\<close>

type_synonym ('k, 'c) unmarshal = "(target_type \<Rightarrow> any \<Rightarrow> go_error + decoded) \<Rightarrow> 'k \<Rightarrow> go_error + ('c \<times> string list)"

definition value_detail :: "go_error \<Rightarrow> string option" where
  "value_detail = errors_as (\<lambda>e. case e of Typed t d \<Rightarrow> if t = ''*config.configValueDecodeError'' then Some d else None | _ \<Rightarrow> None)"

definition field_name :: "go_error \<Rightarrow> string option" where
  "field_name = errors_as (\<lambda>e. case e of WrapTyped t n _ \<Rightarrow> if t = ''*mapstructure.DecodeError'' then Some n else None | _ \<Rightarrow> None)"

definition sanitizedSnapshotDecodeError :: "go_error \<Rightarrow> string" where
  "sanitizedSnapshotDecodeError err =
     (case value_detail err of
        None \<Rightarrow> ''configuration values do not match the Config schema''
      | Some detail \<Rightarrow>
          (case field_name err of
             Some n \<Rightarrow> if trim_space n \<noteq> '''' then n @ '' has invalid value: '' @ detail else detail
           | None \<Rightarrow> detail))"

definition buildSnapshot :: "numlib \<Rightarrow> 'k koanf \<Rightarrow> ('k, 'c) unmarshal \<Rightarrow> 'k \<Rightarrow> go_error + ('c \<times> string list)" where
  "buildSnapshot nm kf unmarshalStore k =
     (case unmarshalStore (decodeConfigValue nm) k of
        Inl err \<Rightarrow> Inl (WrapFmt (sanitizedSnapshotDecodeError err) ErrParse)
      | Inr (cfg, unused) \<Rightarrow> Inr (cfg, expandUnusedConfigKeys unused (kf_Keys kf k)))"

text \<open>The keys of the jobs worker, and its refusal of inbound secrets.\<close>

definition isJobsWorkerKey :: "string \<Rightarrow> bool" where
  "isJobsWorkerKey key =
     (list_ex (\<lambda>section. key = section \<or> has_prefix key (section @ ''.''))
        [''app'', ''http'', ''log'', ''observability'', ''postgres'', ''jobs'', ''webhooks'']
      \<or> key = ''inbound_webhooks.endpoints'')"

definition rejectJobsWorkerInboundSecrets :: "numlib \<Rightarrow> 'k koanf \<Rightarrow> 'k \<Rightarrow> go_error option" where
  "rejectJobsWorkerInboundSecrets nm kf k =
     (if hasNonEmptyConfigValue nm (kf_Get kf k ''inbound_webhooks.static_secrets'')
      then Some (config_error ''inbound_webhooks.static_secrets is not allowed in the jobs worker'') else None)"

definition buildJobsWorkerSnapshot :: "numlib \<Rightarrow> 'k koanf \<Rightarrow> ('k, 'c) unmarshal \<Rightarrow> 'k \<Rightarrow> go_error + ('c \<times> string list)" where
  "buildJobsWorkerSnapshot nm kf unmarshalStore k =
     (case rejectJobsWorkerInboundSecrets nm kf k of
        Some err \<Rightarrow> Inl err
      | None \<Rightarrow>
          (case kf_Load kf (map (\<lambda>(key, v). (key, Leaf v)) (filter (\<lambda>(key, _). isJobsWorkerKey key) (kf_All kf k))) (kf_New kf) of
             Inl err \<Rightarrow> Inl (errorf2 ''load jobs worker configuration'' ErrLoad err)
           | Inr worker \<Rightarrow> buildSnapshot nm kf unmarshalStore worker))"

definition config_Load where
  "config_Load nl nm kf unmarshalStore decoder buildVersion buildCommit =
     config_load nl nm kf (defaultValues buildVersion buildCommit) (buildSnapshot nm kf unmarshalStore) (config_validate nl decoder)"

definition LoadJobsWorker where
  "LoadJobsWorker nl nm kf unmarshalStore decoder buildVersion buildCommit =
     config_load nl nm kf (defaultValues buildVersion buildCommit) (buildJobsWorkerSnapshot nm kf unmarshalStore)
       (validateJobsWorkerConfig nl decoder)"

section \<open>Flags\<close>

text \<open>\<^verbatim>\<open>flag.FlagSet.Parse\<close> for the two flags, each of which takes a value. The first result is the flags in their order.\<close>

datatype config_flag = ConfigFlag | OverlayFlag

definition flag_of :: "string \<Rightarrow> config_flag option" where
  "flag_of name = (if name = ''config'' then Some ConfigFlag else if name = ''config-overlay'' then Some OverlayFlag else None)"

text \<open>The name and the value in one argument; \<open>None\<close> is bad syntax. The sign of equality does not count at the start of a name.\<close>

definition flag_parts :: "string \<Rightarrow> (string \<times> string option) option" where
  "flag_parts s =
     (let name = (if take 2 s = ''--'' then drop 2 s else drop 1 s)
      in if name = '''' \<or> hd name = CHR ''-'' \<or> hd name = CHR ''='' then None
         else Some (case cut_equals name of None \<Rightarrow> (name, None) | Some (n, v) \<Rightarrow> (n, Some v)))"

definition flag_set :: "config_flag \<Rightarrow> string \<Rightarrow> LoadOptions \<Rightarrow> go_error + LoadOptions" where
  "flag_set flag v opts =
     (let trimmed = trim_space v
      in case flag of
           ConfigFlag \<Rightarrow> if trimmed = '''' then Inl (Fresh ''config path cannot be empty'') else Inr (opts\<lparr>lo_ConfigPath := trimmed\<rparr>)
         | OverlayFlag \<Rightarrow> if trimmed = '''' then Inl (Fresh ''config overlay path cannot be empty'')
             else Inr (opts\<lparr>lo_ConfigOverlays := lo_ConfigOverlays opts @ [trimmed]\<rparr>))"

fun flags_Parse :: "string list \<Rightarrow> LoadOptions \<Rightarrow> go_error + (LoadOptions \<times> string list)" where
  "flags_Parse [] opts = Inr (opts, [])"
| "flags_Parse (s # args) opts =
     (if length s < 2 \<or> hd s \<noteq> CHR ''-'' then Inr (opts, s # args)
      else if s = ''--'' then Inr (opts, args)
      else case flag_parts s of
        None \<Rightarrow> Inl (Fresh ''bad flag syntax'')
      | Some (name, given) \<Rightarrow>
          (case flag_of name of
             None \<Rightarrow> Inl (if name = ''help'' \<or> name = ''h'' then Sentinel ''flag.ErrHelp'' else Fresh ''flag provided but not defined'')
           | Some flag \<Rightarrow>
               (case given of
                  Some v \<Rightarrow> (case flag_set flag v opts of Inl err \<Rightarrow> Inl (Fresh ''invalid value'') | Inr opts' \<Rightarrow> flags_Parse args opts')
                | None \<Rightarrow>
                    (case args of
                       [] \<Rightarrow> Inl (Fresh ''flag needs an argument'')
                     | v # rest \<Rightarrow> (case flag_set flag v opts of Inl err \<Rightarrow> Inl (Fresh ''invalid value'') | Inr opts' \<Rightarrow> flags_Parse rest opts')))))"

definition ParseLoadOptions :: "string list \<Rightarrow> go_error + LoadOptions" where
  "ParseLoadOptions args =
     (case flags_Parse args \<lparr>lo_ConfigPath = '''', lo_ConfigOverlays = []\<rparr> of
        Inl err \<Rightarrow> Inl (WrapFmt ''parse flags'' err)
      | Inr (opts, positional) \<Rightarrow>
          if positional \<noteq> [] then Inl (Fresh ''parse flags: unexpected positional arguments'') else Inr opts)"

section \<open>What a load keeps out\<close>






lemma remove_overrides_none: "snd (remove_overrides prefix vals) = [] \<Longrightarrow> fst (remove_overrides prefix vals) = vals"
  by (induction prefix vals rule: remove_overrides.induct) (auto split: prod.splits if_splits)



















definition example_numlib :: numlib where
  "example_numlib = \<lparr>nm_float_of_int = (\<lambda>n. FNum (rat_of_int n)), nm_ParseFloat = (\<lambda>s. None), nm_ParseDuration = (\<lambda>s. None),
     nm_Level = (\<lambda>s. None), nm_Sprint = (\<lambda>v. '''')\<rparr>"









section \<open>Integers\<close>

text \<open>What an integer written in a source stands for, whatever the width of the field: an integer, a float that is one exactly, or a
  decimal of at most 64 bits.\<close>

fun written_integer :: "any \<Rightarrow> int option" where
  "written_integer (AnyInt n) = Some n"
| "written_integer (AnyInt64 n) = Some n"
| "written_integer (AnyUint64 n) = Some n"
| "written_integer (AnyFloat (FNum q)) = (if rat_of_int \<lfloor>q\<rfloor> = q \<and> \<bar>q\<bar> \<le> 2 ^ 53 then Some \<lfloor>q\<rfloor> else None)"
| "written_integer (AnyString s) = parse_int 64 (trim_space s)"
| "written_integer _ = None"

definition go_value :: "any \<Rightarrow> bool" where
  "go_value v = (case v of AnyUint64 n \<Rightarrow> 0 \<le> n \<and> n < 2 ^ 64 | _ \<Rightarrow> True)"

lemma narrower: "(P :: int) \<le> Q \<Longrightarrow>
     (if bad then None else if - P \<le> i \<and> i < P then Some i else None) = Some n
     \<longleftrightarrow> (if bad then None else if - Q \<le> i \<and> i < Q then Some i else None) = Some n \<and> - P \<le> n \<and> n < P"
  by auto

lemma parse_int_width:
  assumes "0 < bits" "bits \<le> 64"
  shows "parse_int bits s = Some n \<longleftrightarrow> parse_int 64 s = Some n \<and> - (2 ^ (bits - 1)) \<le> n \<and> n < 2 ^ (bits - 1)"
proof -
  have "(2 :: int) ^ (bits - 1) \<le> 2 ^ (64 - 1)" using assms by (intro power_increasing) auto
  then show ?thesis unfolding parse_int_def Let_def by (rule narrower)
qed

lemma float_integer:
  "signedIntegerFromFloat64 x lo hi = Inr n \<longleftrightarrow> (\<exists>q. x = FNum q \<and> written_integer (AnyFloat (FNum q)) = Some n \<and> lo \<le> n \<and> n \<le> hi)"
proof (cases x)
  case (FNum q)
  have bounds: "q < rat_of_int lo \<longleftrightarrow> n < lo" "rat_of_int hi < q \<longleftrightarrow> hi < n" if "rat_of_int n = q" for n
    using that by (auto simp flip: that)
  show ?thesis
    using bounds [of "\<lfloor>q\<rfloor>"] by (auto simp: FNum signedIntegerFromFloat64_def out_of_range_def maxExactIntegerFloat64_def)
qed (auto simp: signedIntegerFromFloat64_def)

text \<open>Configured integers are exact. A field of a width takes a value exactly when the value stands for an integer that fits
  the width, and then it gets that integer: nothing is rounded, truncated or wrapped on any path.\<close>

theorem decoded_integer_is_exact:
  assumes "go_value v" "0 < bits" "bits \<le> 64"
  shows "decodeConfigValue nm (IntKind (int bits)) v = Inr d
     \<longleftrightarrow> (\<exists>n. d = DecInt n \<and> written_integer v = Some n \<and> - (2 ^ (bits - 1)) \<le> n \<and> n < 2 ^ (bits - 1))"
proof -
  have b: "signedIntegerBounds (int bits) = Inr (- (2 ^ (bits - 1)), 2 ^ (bits - 1) - 1)"
  proof -
    have "nat (int bits - 1) = bits - 1" using assms by simp
    then show ?thesis using assms by (simp add: signedIntegerBounds_def)
  qed
  have le: "(2 :: int) ^ (bits - 1) \<le> 2 ^ 63" using assms by (intro power_increasing) auto
  have p: "parseSignedInteger v (int bits) = Inr n \<longleftrightarrow> written_integer v = Some n \<and> - (2 ^ (bits - 1)) \<le> n \<and> n < 2 ^ (bits - 1)" for n
  proof (cases v)
    case (AnyUint64 m)
    have pos: "0 < (2 :: int) ^ (bits - 1)" by simp
    have "0 \<le> m" using assms(1) AnyUint64 by (simp add: go_value_def)
    then show ?thesis using le pos by (auto simp: AnyUint64 parseSignedInteger_def b signedIntegerFromUint64_def out_of_range_def)
  next
    case (AnyFloat x)
    then show ?thesis using float_integer [of x] by (cases x) (auto simp: parseSignedInteger_def b)
  next
    case (AnyString s)
    have "parseSignedInteger v (int bits) = Inr n \<longleftrightarrow> parse_int bits (trim_space s) = Some n"
      by (auto simp: AnyString parseSignedInteger_def b split: option.splits)
    then show ?thesis using parse_int_width [OF assms(2,3)] by (simp add: AnyString)
  qed (auto simp: parseSignedInteger_def b signedIntegerFromInt64_def out_of_range_def)
  have "decodeConfigValue nm (IntKind (int bits)) v = Inr d \<longleftrightarrow> (\<exists>n. d = DecInt n \<and> parseSignedInteger v (int bits) = Inr n)"
    by (auto simp: decodeConfigValue_def split: sum.splits)
  then show ?thesis by (simp only: p)
qed

theorem decoded_integer_is_exact_witness:
  "decodeConfigValue example_numlib (IntKind 8) (AnyInt 127) = Inr (DecInt 127)
   \<and> decodeConfigValue example_numlib (IntKind 8) (AnyInt 128) \<noteq> Inr (DecInt 128)"
  using decoded_integer_is_exact [of "AnyInt 127" 8 example_numlib "DecInt 127"]
    decoded_integer_is_exact [of "AnyInt 128" 8 example_numlib "DecInt 128"]
  by (simp add: go_value_def)

section \<open>Flags and defaults\<close>

fun flag_args :: "LoadOptions \<Rightarrow> string list" where
  "flag_args opts =
     (if lo_ConfigPath opts = '''' then [] else [''-config'', lo_ConfigPath opts])
     @ concat (map (\<lambda>overlay. [''-config-overlay'', overlay]) (lo_ConfigOverlays opts))"

lemma parse_flag:
  "trim_space v = v \<Longrightarrow> v \<noteq> '''' \<Longrightarrow> flags_Parse (''-config'' # v # args) opts = flags_Parse args (opts\<lparr>lo_ConfigPath := v\<rparr>)"
  "trim_space v = v \<Longrightarrow> v \<noteq> '''' \<Longrightarrow> flags_Parse (''-config-overlay'' # v # args) opts
     = flags_Parse args (opts\<lparr>lo_ConfigOverlays := lo_ConfigOverlays opts @ [v]\<rparr>)"
  by (simp_all add: flag_parts_def cut_equals_def flag_of_def flag_set_def)

lemma parse_overlays:
  "list_all (\<lambda>p. trim_space p = p \<and> p \<noteq> '''') overlays \<Longrightarrow>
     flags_Parse (concat (map (\<lambda>overlay. [''-config-overlay'', overlay]) overlays)) opts
     = Inr (opts\<lparr>lo_ConfigOverlays := lo_ConfigOverlays opts @ overlays\<rparr>, [])"
proof (induction overlays arbitrary: opts)
  case (Cons p overlays)
  then show ?case using parse_flag(2) [of p] by (simp del: flags_Parse.simps)
qed simp

text \<open>The arguments that name options are read back as these options, the overlays in their order. A trimmed path that is given is
  never lost, and the options that are read pass the check of the loader.\<close>

theorem flags_name_the_options:
  assumes "trim_space (lo_ConfigPath opts) = lo_ConfigPath opts" "list_all (\<lambda>p. trim_space p = p \<and> p \<noteq> '''') (lo_ConfigOverlays opts)"
  shows "ParseLoadOptions (flag_args opts) = Inr opts \<and> validateLoadOptions opts = None"
proof -
  have "flags_Parse (flag_args opts) \<lparr>lo_ConfigPath = '''', lo_ConfigOverlays = []\<rparr> = Inr (opts, [])"
    using assms parse_flag(1) [of "lo_ConfigPath opts"] parse_overlays [OF assms(2)] by (cases opts) (simp del: flags_Parse.simps)
  moreover have "validateLoadOptions opts = None"
    using assms by (auto simp: validateLoadOptions_def list_all_iff list_ex_iff)
  ultimately show ?thesis by (simp add: ParseLoadOptions_def)
qed

lemmas default_values = defaultValues_def httpDefaults_def observabilityDefaults_def authnDefaults_def grpcDefaults_def messagingDefaults_def
  postgresDefaults_def jobsDefaults_def outboundWebhooksDefaults_def inboundWebhooksDefaults_def objectStorageDefaults_def

text \<open>No default replaces another, so the order in which the sections are copied does not matter.\<close>

lemma default_keys_distinct: "distinct (map fst (defaultValues buildVersion buildCommit))"
  by (simp add: default_values)

end
