(* ===== verification/Spec2Isabelle.thy ===== *)
theory Spec2Isabelle
  imports GoBase GoText Sha256 Failure Problem Background Health HttpProblem ReqCtx HttpIdempotency Transaction
    IdempotencyStore NatsMessage NatsRegistry NatsWorker
    OutboundTrust WebhookSecret WebhookDispatch WebhookRetry WebhookSend
    InboundManifest InboundReceipt InboundWorker InboundHttp
    BodyShape KeyedLimiter HttpChain HttpRouter BearerAuth GrpcBoundary
    HttpClient OidcTrust Introspection Config ConfigLoad
begin

text \<open>
  A verification development for the Go service template \<^verbatim>\<open>go-service-template-rest\<close>.

  \<^bold>\<open>The program.\<close> The template is the code a REST service starts from. A process with a supervised
  lifecycle (\<^verbatim>\<open>internal/background\<close>, \<^verbatim>\<open>internal/health\<close>) loads one configuration (\<^verbatim>\<open>internal/config\<close>) and serves two
  transports: HTTP behind a chain of middlewares (\<^verbatim>\<open>internal/infra/http\<close>) and gRPC
  (\<^verbatim>\<open>internal/infra/grpc\<close>). Both turn every failure into one catalog of problems (\<^verbatim>\<open>internal/failure\<close>,
  \<^verbatim>\<open>internal/problem\<close>) and authenticate bearer tokens (\<^verbatim>\<open>internal/infra/bearerauthn\<close>) through one of two trust
  engines (\<^verbatim>\<open>internal/infra/oidcjwt\<close>, \<^verbatim>\<open>internal/infra/oauthintrospection\<close>). Mutations are idempotent through evidence rows in
  PostgreSQL (\<^verbatim>\<open>internal/httpidempotency\<close>, \<^verbatim>\<open>internal/infra/postgresidempotency\<close>, \<^verbatim>\<open>internal/infra/postgres\<close>).
  Events go over NATS JetStream (\<^verbatim>\<open>internal/domainevent\<close>, \<^verbatim>\<open>internal/infra/natsjs\<close>); webhooks are sent and received
  through the River job queue (\<^verbatim>\<open>internal/infra/postgreswebhook\<close>, \<^verbatim>\<open>internal/inboundwebhook\<close>,
  \<^verbatim>\<open>internal/infra/postgresinboundwebhook\<close>), and outbound requests stay on public addresses (\<^verbatim>\<open>internal/outboundtrust\<close>,
  \<^verbatim>\<open>internal/infra/httpclient\<close>).

  \<^bold>\<open>The theories.\<close>

  \<^item> \<open>GoBase\<close>, \<open>GoText\<close>, \<open>Sha256\<close>: what Go and its standard library give. Errors as trees with
    \<open>errors_is\<close>, \<open>errors_as\<close> and \<open>has_type\<close>; durations and instants in nanoseconds with the wrap-around of
    int64; UTF-8 decoding, trimming, decimal numerals, splitting, hexadecimal and big-endian
    text; the hash function itself.
  \<^item> \<open>Failure\<close>, \<open>Problem\<close>: \<^verbatim>\<open>failure.go\<close>, \<^verbatim>\<open>error_chain.go\<close>, \<^verbatim>\<open>problem.go\<close>. Classification is the first
    claim of the mappers; the record of an error carries types and literal names only and is
    bounded; the catalog covers every code.
  \<^item> \<open>Background\<close>: \<^verbatim>\<open>background.go\<close> as an interleaving of task goroutines, callers and the one
    shutdown (\<open>sup_step\<close>). The first failure is recorded and delivered once, readiness fails
    for good, a join is a join, no task cancels a sibling.
  \<^item> \<open>Health\<close>: \<^verbatim>\<open>service.go\<close> and the refresher as an interleaving with the drain and late timers
    (\<open>watch_step\<close>), one step for each atomic load. The verdict for every history, that the
    reported transitions alternate, and which staleness reports a drain suppresses.
  \<^item> \<open>HttpProblem\<close>: \<^verbatim>\<open>problem.go\<close>, \<^verbatim>\<open>request_errors.go\<close>, \<^verbatim>\<open>problem_violations.go\<close>,
    \<^verbatim>\<open>domain_errors.go\<close> and \<^verbatim>\<open>bearerauthn/errors.go\<close>. Which status, challenge, \<^verbatim>\<open>Retry-After\<close> (with the float64
    arithmetic of the code) and record every rejection and failure gets; bounded violations and JSON pointers.
  \<^item> \<open>ReqCtx\<close>: caller identities and request ids.
  \<^item> \<open>BodyShape\<close>, \<open>KeyedLimiter\<close>, \<open>HttpChain\<close>, \<open>HttpRouter\<close>: the request validator with its streaming pass, the
    rate limiter, the hardened chain and what the router is built from. The streaming pass
    answers as the full validation; the order in which the chain decides; in-flight and rate
    limits; what an accepted idempotent contract has.
  \<^item> \<open>BearerAuth\<close>, \<open>OidcTrust\<close>, \<open>Introspection\<close>: the credential, the runtime and its two boundaries, and the two
    engines behind the contract \<open>trust_engine\<close>. A caller is admitted only with a proven credential.
  \<^item> \<open>GrpcBoundary\<close>: error boundaries, interceptors and their order, limits, and the drain as a step relation. A
    chain answers with a status whatever handlers do, and a drained server is idle.
  \<^item> \<open>HttpClient\<close>: the pinned authority, header removal, bounded concurrency and bodies of outbound clients.
  \<^item> \<open>HttpIdempotency\<close>, \<open>Transaction\<close>, \<open>IdempotencyStore\<close>: request identities, the stored response,
    the transaction seam, the SQL statements over the evidence table, and the store.
    Effects and evidence commit together, live evidence answers, one key has at most one effect, and the
    cleanup returns on a live table and deletes expired rows only.
  \<^item> \<open>NatsMessage\<close>, \<open>NatsRegistry\<close>, \<open>NatsWorker\<close>: the envelope, the wire between producer and consumer, dead
    letters, routing and typed handlers, configuration, and one delivery from admission to
    settlement as a list of broker actions.
  \<^item> \<open>OutboundTrust\<close>, \<open>WebhookSecret\<close>, \<open>WebhookDispatch\<close>, \<open>WebhookRetry\<close>, \<open>WebhookSend\<close>: public addresses, signing
    keys, the preparation and staging of a fan-out (refining \<open>stage_spec\<close>), its retries, and one attempt of
    a delivery: when it completes, is retried, or is cancelled.
  \<^item> \<open>InboundManifest\<close>, \<open>InboundReceipt\<close>, \<open>InboundWorker\<close>, \<open>InboundHttp\<close>: trust configuration, the accepting transaction
    (refining a ledger), the worker interleaved with deliveries (\<open>inbound_step\<close>), and the whole path from
    the HTTP request: what is acknowledged is stored.
  \<^item> \<open>Config\<close>, \<open>ConfigLoad\<close>: every section with its validation, and the loading from defaults, files,
    environment and flags with the secret policy.

  \<^bold>\<open>Interfaces.\<close> Six locales state what one part promises another, each interpreted on the model's own
  definitions: \<open>transition_system\<close> (an invariant of every reachable state: \<open>Background\<close>, \<open>Health\<close>, \<open>HttpChain\<close>,
  \<open>HttpClient\<close>, \<open>GrpcBoundary\<close>, \<open>InboundWorker\<close>), \<open>framing\<close> (a text that determines its fields: request digests, caller
  identities, record ids, webhook identifiers), \<open>keyed_registry\<close> (what was added stays: routes, event handlers, webhook
  bindings), \<open>evidence_table\<close> (the idempotency rows the store relies on), \<open>secret_bindings\<close> (a key stays with its
  principal) and \<open>trust_engine\<close> (both verifiers).

  \<^bold>\<open>Conventions.\<close> A struct is a record, an enum a datatype, a nil pointer or error \<open>None\<close>, a map an
  association list read by lookup or a function, a function that can fail returns a sum with the error on the
  left. Message texts of errors are shortened to their fixed part: the code branches on
  identities and types only. Code outside the repository is an argument of the definitions
  that use it. What a property needs of it is a named hypothesis with a witness that it can hold:
  \<open>errgroup_laws\<close>; \<open>descends\<close> (the nesting of the OpenAPI validator's errors is well-founded) and \<open>kin_laws\<close> (the validator); \<open>pg_laws\<close> and
  \<open>honest\<close> (what PostgreSQL and its driver say of a commit, by SQLSTATE class); \<open>others_ok\<close> and \<open>others_keep\<close>
  (what other sessions do to the evidence table); \<open>json_envelope\<close>; \<open>lib_laws\<close> and \<open>wire_laws\<close> (NATS, its trimming of header values,
  OpenTelemetry and RFC 3339); \<open>river_laws\<close>, \<open>job_laws\<close> and \<open>library_errors\<close> (River, DNS and the HTTP
  client); \<open>weblib_laws\<close> and \<open>retry_laws\<close> (JSON and URL codecs); \<open>jwt_laws\<close>; \<open>sem_laws\<close> (the semaphore);
  \<open>reads_from\<close> (a body reader); \<open>lower_laws\<close> (\<^verbatim>\<open>strings.ToLower\<close>).

  \<^bold>\<open>Fuel and termination.\<close> Only the walk over a validator error (\<open>appendViolations\<close>, and \<open>RejectRequest\<close> which calls
  it) has fuel, because that error's depth is not bounded by the code; any fuel above a measure its nesting
  descends in is enough, and the walk then returns. The loop of \<open>Cleanup\<close> is a partial function: it runs
  on a table other sessions write to, and returns when fewer than a batch of rows arrive between two batches.
  Every other function is total; the recursions that are not structural (\<open>matchesOnly\<close>, \<open>compileBodyShape\<close>,
  \<open>scan\<close>, \<open>read_value\<close>, \<open>PublicAddress\<close>, \<open>backoff_loop\<close>) have a termination proof.

  \<^bold>\<open>Not modelled.\<close> Log formatting, metrics and spans beyond the labels shown; the connection management of the NATS
  and PostgreSQL clients; process wiring (\<^verbatim>\<open>cmd\<close>), which constructs the components; the transactional outbox
  beyond its routing, object storage, the OAuth client-credentials source, telemetry and migrations, which are calls of
  SQL statements and third-party clients; generated code. Within the modelled files, accessors
  that only return a field and constructors that only build a third-party client are not repeated.
\<close>

end
